(* ===== verification/Prelude.thy ===== *)
theory Prelude
  imports Main "HOL-Library.Finite_Map" "HOL-Library.List_Lexorder" "HOL-Library.Char_ord"
begin

text \<open>
  Shared ground of the development.  It names the types every component uses
  (Go strings are byte lists, Go maps are finite maps, a fallible Go function
  returns a sum whose left side is the error), the shapes of Go control flow
  that recur in the sources (a loop with an early error return, "replace the
  first match or append", "append unless already present", a stable keyed
  merge), and the generic lemmas about them.  The collection
  \<open>loop_simps\<close> holds the facts that turn those loops into statements
  about sets and maps; \<open>key_simps\<close> holds the facts about the keys of an
  updated list.
\<close>

named_theorems loop_simps \<open>loops with an early return, as set statements\<close>
named_theorems key_simps \<open>keys of a keyed list after an update\<close>

type_synonym bytes = string
type_synonym ('e, 'a) res = "'e + 'a"
type_synonym ('k, 'v) gomap = "('k, 'v) fmap"


section \<open>Results and early returns\<close>

text \<open>\<open>res_bind\<close> is the \<^verbatim>\<open>if err != nil { return err }\<close> of the sources.\<close>

definition res_bind :: "'e + 'a \<Rightarrow> ('a \<Rightarrow> 'e + 'b) \<Rightarrow> 'e + 'b" where
  "res_bind r f = (case r of Inl e \<Rightarrow> Inl e | Inr a \<Rightarrow> f a)"

definition is_ok :: "'e + 'a \<Rightarrow> bool" where
  "is_ok r = (case r of Inl e \<Rightarrow> False | Inr a \<Rightarrow> True)"

text \<open>\<open>check_then\<close> is a check of Go type \<^verbatim>\<open>error\<close> (None is nil) in front of the rest.\<close>

definition check_then :: "'e option \<Rightarrow> 'e option \<Rightarrow> 'e option" where
  "check_then a b = (case a of Some e \<Rightarrow> Some e | None \<Rightarrow> b)"

text \<open>A Go loop that returns the first error its body gives.\<close>

fun first_err :: "('a \<Rightarrow> 'e option) \<Rightarrow> 'a list \<Rightarrow> 'e option" where
  "first_err f [] = None"
| "first_err f (x # xs) = (case f x of Some e \<Rightarrow> Some e | None \<Rightarrow> first_err f xs)"

text \<open>A Go loop that threads a state and stops at the first error.\<close>

fun fold_res :: "('a \<Rightarrow> 's \<Rightarrow> 'e + 's) \<Rightarrow> 'a list \<Rightarrow> 's \<Rightarrow> 'e + 's" where
  "fold_res f [] s = Inr s"
| "fold_res f (x # xs) s = (case f x s of Inl e \<Rightarrow> Inl e | Inr s' \<Rightarrow> fold_res f xs s')"

lemma res_bind_simps [simp]:
  "res_bind (Inl e) f = Inl e"
  "res_bind (Inr a) f = f a"
  by (simp_all add: res_bind_def)

lemma res_bind_Inr_iff [loop_simps]:
  "res_bind r f = Inr b \<longleftrightarrow> (\<exists>a. r = Inr a \<and> f a = Inr b)"
  by (cases r) simp_all

lemma is_ok_simps [simp]: "\<not> is_ok (Inl e)" "is_ok (Inr a)"
  by (simp_all add: is_ok_def)

lemma is_ok_iff: "is_ok r \<longleftrightarrow> (\<exists>a. r = Inr a)"
  by (cases r) simp_all

lemma check_then_None_iff [simp, loop_simps]:
  "check_then a b = None \<longleftrightarrow> a = None \<and> b = None"
  by (simp add: check_then_def split: option.splits)

lemma check_then_simps [simp]:
  "check_then None b = b" "check_then (Some e) b = Some e"
  by (simp_all add: check_then_def)

lemma first_err_None_iff [simp, loop_simps]:
  "first_err f xs = None \<longleftrightarrow> (\<forall>x \<in> set xs. f x = None)"
  by (induction xs) (simp_all split: option.splits)

lemma first_err_Some_iff:
  "first_err f xs = Some e \<longleftrightarrow>
     (\<exists>ys x zs. xs = ys @ x # zs \<and> (\<forall>y \<in> set ys. f y = None) \<and> f x = Some e)"
proof (induction xs)
  case Nil
  then show ?case by simp
next
  case (Cons a xs)
  show ?case
  proof (cases "f a")
    case None
    show ?thesis
    proof
      assume "first_err f (a # xs) = Some e"
      then obtain ys x zs where
        "xs = ys @ x # zs" "\<forall>y \<in> set ys. f y = None" "f x = Some e"
        using None Cons by auto
      then show "\<exists>ys x zs. a # xs = ys @ x # zs \<and> (\<forall>y \<in> set ys. f y = None) \<and> f x = Some e"
        using None by (intro exI [of _ "a # ys"] exI [of _ x] exI [of _ zs]) simp
    next
      assume "\<exists>ys x zs. a # xs = ys @ x # zs \<and> (\<forall>y \<in> set ys. f y = None) \<and> f x = Some e"
      then obtain ys x zs where
        *: "a # xs = ys @ x # zs" "\<forall>y \<in> set ys. f y = None" "f x = Some e" by blast
      with None obtain ys' where "ys = a # ys'" by (cases ys) auto
      with * None Cons show "first_err f (a # xs) = Some e" by auto
    qed
  next
    case (Some e')
    then show ?thesis
      by (auto intro: exI [of _ "[]"] simp: Cons_eq_append_conv)
  qed
qed

lemma fold_res_append:
  "fold_res f (xs @ ys) s = res_bind (fold_res f xs s) (fold_res f ys)"
  by (induction xs arbitrary: s) (simp_all split: sum.splits)

lemma fold_res_total:
  assumes "\<And>x s. f x s = Inr (g x s)"
  shows "fold_res f xs s = Inr (fold g xs s)"
  using assms by (induction xs arbitrary: s) simp_all

text \<open>A property that every successful body keeps survives the whole loop.\<close>

lemma fold_res_invariant:
  assumes "fold_res f xs s = Inr s'" and "I s"
    and "\<And>x t t'. x \<in> set xs \<Longrightarrow> I t \<Longrightarrow> f x t = Inr t' \<Longrightarrow> I t'"
  shows "I s'"
  using assms
proof (induction xs arbitrary: s)
  case Nil
  then show ?case by simp
next
  case (Cons x xs)
  from Cons.prems(1) obtain t where t: "f x s = Inr t" "fold_res f xs t = Inr s'"
    by (auto split: sum.splits)
  have "I t" by (rule Cons.prems(3) [OF _ Cons.prems(2) t(1)]) simp
  then show ?case by (rule Cons.IH [OF t(2)]) (auto intro: Cons.prems(3))
qed


section \<open>Keyed lists\<close>

text \<open>Replace the first entry with the key of \<open>x\<close>, or append \<open>x\<close>.\<close>

fun upsert :: "('a \<Rightarrow> 'k) \<Rightarrow> 'a \<Rightarrow> 'a list \<Rightarrow> 'a list" where
  "upsert key x [] = [x]"
| "upsert key x (y # ys) = (if key y = key x then x # ys else y # upsert key x ys)"

text \<open>Append \<open>x\<close> unless it is already there.\<close>

definition add_new :: "'a \<Rightarrow> 'a list \<Rightarrow> 'a list" where
  "add_new x xs = (if x \<in> set xs then xs else xs @ [x])"

text \<open>The last entry with a given key.\<close>

definition last_with :: "('a \<Rightarrow> 'k) \<Rightarrow> 'k \<Rightarrow> 'a list \<Rightarrow> 'a option" where
  "last_with key k xs = find (\<lambda>x. key x = k) (rev xs)"

text \<open>The first entry with a given key.\<close>

definition first_with :: "('a \<Rightarrow> 'k) \<Rightarrow> 'k \<Rightarrow> 'a list \<Rightarrow> 'a option" where
  "first_with key k xs = find (\<lambda>x. key x = k) xs"

lemma upsert_keys [key_simps]:
  "key ` set (upsert key x xs) = insert (key x) (key ` set xs)"
  by (induction xs) auto

lemma upsert_map_keys [key_simps]:
  "map key (upsert key x xs) = add_new (key x) (map key xs)"
  by (induction xs) (auto simp: add_new_def)

lemma upsert_distinct:
  "distinct (map key xs) \<Longrightarrow> distinct (map key (upsert key x xs))"
  by (simp add: upsert_map_keys add_new_def)

lemma upsert_fresh: "key x \<notin> key ` set xs \<Longrightarrow> upsert key x xs = xs @ [x]"
  by (induction xs) auto

lemma set_upsert_subset: "set (upsert key x xs) \<subseteq> insert x (set xs)"
  by (induction xs) auto

lemma upsert_self_mem: "x \<in> set (upsert key x xs)"
  by (induction xs) auto

lemma upsert_present:
  "key x \<in> key ` set xs \<Longrightarrow> length (upsert key x xs) = length xs"
  by (induction xs) auto

lemma upsert_append:
  "upsert key x (xs @ ys) =
     (if key x \<in> key ` set xs then upsert key x xs @ ys else xs @ upsert key x ys)"
  by (induction xs) auto

lemma first_with_upsert:
  "first_with key k (upsert key x xs) = (if k = key x then Some x else first_with key k xs)"
  by (induction xs) (auto simp: first_with_def)

lemma add_new_set [simp]: "set (add_new x xs) = insert x (set xs)"
  by (auto simp: add_new_def)

lemma add_new_distinct [simp]: "distinct (add_new x xs) \<longleftrightarrow> distinct xs"
  by (auto simp: add_new_def)

lemma add_new_mem [simp]: "x \<in> set xs \<Longrightarrow> add_new x xs = xs"
  by (simp add: add_new_def)

lemma fold_add_new_set: "set (fold add_new xs ys) = set xs \<union> set ys"
  by (induction xs arbitrary: ys) auto

lemma fold_add_new_distinct: "distinct (fold add_new xs ys) \<longleftrightarrow> distinct ys"
  by (induction xs arbitrary: ys) auto

lemma add_new_append:
  "add_new x (xs @ ys) = (if x \<in> set xs then xs @ ys else xs @ add_new x ys)"
  by (simp add: add_new_def)

lemma fold_add_new_append:
  assumes "set ys \<inter> set zs = {}"
  shows "fold add_new xs (ys @ zs) =
           ys @ fold add_new (filter (\<lambda>x. x \<notin> set ys) xs) zs"
  using assms
proof (induction xs arbitrary: zs)
  case Nil
  then show ?case by simp
next
  case (Cons x xs)
  show ?case
  proof (cases "x \<in> set ys")
    case True
    then show ?thesis using Cons by (simp add: add_new_append)
  next
    case False
    then have "set ys \<inter> set (add_new x zs) = {}" using Cons.prems by auto
    then show ?thesis using Cons.IH [of "add_new x zs"] False by (simp add: add_new_append)
  qed
qed

lemma fold_add_new_prefix: "\<exists>zs. fold add_new xs ys = ys @ zs"
proof (induction xs arbitrary: ys)
  case Nil
  then show ?case by simp
next
  case (Cons x xs)
  from Cons obtain zs where "fold add_new xs (add_new x ys) = add_new x ys @ zs" by blast
  moreover have "\<exists>us. add_new x ys = ys @ us" by (simp add: add_new_def)
  ultimately show ?case by auto
qed

lemma last_with_append:
  "last_with key k (xs @ ys) =
     (case last_with key k ys of None \<Rightarrow> last_with key k xs | Some y \<Rightarrow> Some y)"
proof -
  have "find P (as @ bs) = (case find P as of None \<Rightarrow> find P bs | Some y \<Rightarrow> Some y)"
    for P :: "'a \<Rightarrow> bool" and as bs
    by (induction as) simp_all
  then show ?thesis unfolding last_with_def rev_append by blast
qed

lemma last_with_Nil [simp]: "last_with key k [] = None"
  by (simp add: last_with_def)

lemma last_with_single [simp]:
  "last_with key k [x] = (if key x = k then Some x else None)"
  by (simp add: last_with_def)

lemma last_with_None_iff: "last_with key k xs = None \<longleftrightarrow> k \<notin> key ` set xs"
  by (auto simp: last_with_def find_None_iff)

lemma last_with_SomeD: "last_with key k xs = Some x \<Longrightarrow> x \<in> set xs \<and> key x = k"
  by (auto simp: last_with_def find_Some_iff dest: nth_mem) (metis length_rev nth_mem set_rev)

lemma first_with_None_iff: "first_with key k xs = None \<longleftrightarrow> k \<notin> key ` set xs"
  by (auto simp: first_with_def find_None_iff)

lemma first_with_Cons:
  "first_with key k (x # xs) = (if key x = k then Some x else first_with key k xs)"
  by (simp add: first_with_def)

lemma last_with_Cons:
  "last_with key k (x # xs) =
     (case last_with key k xs of Some y \<Rightarrow> Some y | None \<Rightarrow> if key x = k then Some x else None)"
  using last_with_append [of key k "[x]" xs] by (simp split: option.splits)

lemma last_with_distinct:
  assumes "distinct (map key xs)"
  shows "last_with key k xs = first_with key k xs"
  using assms
proof (induction xs)
  case Nil
  then show ?case by (simp add: first_with_def)
next
  case (Cons x xs)
  then have IH: "last_with key k xs = first_with key k xs" by simp
  show ?case
  proof (cases "key x = k")
    case True
    then have "last_with key k xs = None" using Cons.prems by (simp add: last_with_None_iff)
    then show ?thesis using True by (simp add: last_with_Cons first_with_Cons)
  next
    case False
    then show ?thesis using IH by (simp add: last_with_Cons first_with_Cons split: option.splits)
  qed
qed

lemma last_with_mem:
  assumes "distinct (map key xs)" "x \<in> set xs"
  shows "last_with key (key x) xs = Some x"
proof (cases "last_with key (key x) xs")
  case None
  then show ?thesis using assms(2) by (auto simp: last_with_None_iff)
next
  case (Some y)
  then have "y \<in> set xs" "key y = key x" by (auto dest: last_with_SomeD)
  then have "y = x" using assms by (auto simp: distinct_map inj_on_def)
  then show ?thesis using Some by simp
qed


section \<open>Finite maps as Go maps\<close>

text \<open>Iteration over a Go map visits each key once, in an order the language
  does not fix.  \<open>iter_order m ks\<close> says that \<open>ks\<close> is such an order.\<close>

definition iter_order :: "('k, 'v) fmap \<Rightarrow> 'k list \<Rightarrow> bool" where
  "iter_order m ks \<longleftrightarrow> distinct ks \<and> set ks = fset (fmdom m)"

text \<open>\<^verbatim>\<open>for k, v := range src { dst[k] = v }\<close>\<close>

definition fm_copy_into :: "('k, 'v) fmap \<Rightarrow> ('k, 'v) fmap \<Rightarrow> ('k, 'v) fmap" where
  "fm_copy_into dst src = fmadd dst src"

lemma fm_copy_into_lookup [simp]:
  "fmlookup (fm_copy_into dst src) k =
     (case fmlookup src k of Some v \<Rightarrow> Some v | None \<Rightarrow> fmlookup dst k)"
  by (auto simp: fm_copy_into_def fmdom'_notI fmlookup_dom_iff split: option.splits)

lemma fm_copy_into_fmupd:
  "fm_copy_into m (fmupd k v n) = fmupd k v (fm_copy_into m n)"
  by (rule fmap_ext) simp

lemma fm_copy_into_empty [simp]: "fm_copy_into m fmempty = m"
  by (rule fmap_ext) simp

text \<open>The loop over any iteration order of \<open>src\<close> computes \<open>fm_copy_into\<close>, so the
  order does not matter there.\<close>

lemma fold_fmupd_iter_order:
  assumes "iter_order src ks"
  shows "fold (\<lambda>k m. case fmlookup src k of Some v \<Rightarrow> fmupd k v m | None \<Rightarrow> m) ks dst
           = fm_copy_into dst src"
proof (rule fmap_ext)
  fix x
  have *: "fmlookup (fold (\<lambda>k m. case fmlookup src k of Some v \<Rightarrow> fmupd k v m | None \<Rightarrow> m) ks dst) x
      = (if x \<in> set ks then (case fmlookup src x of Some v \<Rightarrow> Some v | None \<Rightarrow> fmlookup dst x)
         else fmlookup dst x)"
    by (induction ks arbitrary: dst) (auto split: option.splits)
  have "x \<in> set ks \<longleftrightarrow> fmlookup src x \<noteq> None"
    using assms by (auto simp: iter_order_def fmlookup_dom_iff)
  with * show "fmlookup (fold (\<lambda>k m. case fmlookup src k of Some v \<Rightarrow> fmupd k v m | None \<Rightarrow> m) ks dst) x
      = fmlookup (fm_copy_into dst src) x"
    by (auto split: option.splits)
qed

text \<open>The keys of a Go map, collected and passed to \<^verbatim>\<open>sort.Strings\<close>.\<close>

definition sorted_keys :: "('k::linorder, 'v) fmap \<Rightarrow> 'k list" where
  "sorted_keys m = sorted_list_of_fset (fmdom m)"

lemma sorted_keys_set [simp]: "set (sorted_keys m) = fset (fmdom m)"
  by (simp add: sorted_keys_def)

lemma sorted_keys_distinct [simp]: "distinct (sorted_keys m)"
  by (simp add: sorted_keys_def sorted_list_of_fset.rep_eq)

lemma sorted_keys_sorted [simp]: "sorted (sorted_keys m)"
  by (simp add: sorted_keys_def sorted_list_of_fset.rep_eq)

lemma sorted_keys_empty [simp]: "sorted_keys fmempty = []"
  by (simp add: sorted_keys_def sorted_list_of_fset.rep_eq)

text \<open>Collecting the keys in any iteration order and sorting gives \<^const>\<open>sorted_keys\<close>.\<close>

lemma sort_iter_order: "iter_order m ks \<Longrightarrow> sort ks = sorted_keys m"
  by (rule sorted_distinct_set_unique) (simp_all add: iter_order_def)

end
