(* ===== verification/Go_Strings.thy ===== *)
theory Go_Strings
  imports Prelude
begin

text \<open>
  The parts of Go's standard library the sources call on strings: package
  \<^verbatim>\<open>strings\<close> (HasPrefix, HasSuffix, TrimPrefix, TrimRight, TrimSpace, Index,
  LastIndex, IndexAny, ContainsAny, ReplaceAll, Join, Split), \<^verbatim>\<open>bufio.Scanner\<close>
  with its default line splitting and 64 KiB token limit, \<^verbatim>\<open>strconv.ParseInt\<close>
  in base 10 at 64 bits, and \<^verbatim>\<open>path.Base\<close>.  A Go string is the list of its
  bytes.  Index functions return \<^const>\<open>None\<close> for Go's -1.
\<close>


section \<open>Prefixes, suffixes, trimming\<close>

definition HasPrefix :: "string \<Rightarrow> string \<Rightarrow> bool" where
  "HasPrefix s p \<longleftrightarrow> take (length p) s = p"

definition HasSuffix :: "string \<Rightarrow> string \<Rightarrow> bool" where
  "HasSuffix s p \<longleftrightarrow> length p \<le> length s \<and> drop (length s - length p) s = p"

definition TrimPrefix :: "string \<Rightarrow> string \<Rightarrow> string" where
  "TrimPrefix s p = (if HasPrefix s p then drop (length p) s else s)"

definition TrimSuffix :: "string \<Rightarrow> string \<Rightarrow> string" where
  "TrimSuffix s p = (if HasSuffix s p then take (length s - length p) s else s)"

text \<open>\<^verbatim>\<open>strings.TrimRight(s, cutset)\<close> for an ASCII cutset.\<close>

definition TrimRight :: "string \<Rightarrow> char list \<Rightarrow> string" where
  "TrimRight s cutset = rev (dropWhile (\<lambda>c. c \<in> set cutset) (rev s))"

definition TrimLeft :: "string \<Rightarrow> char list \<Rightarrow> string" where
  "TrimLeft s cutset = dropWhile (\<lambda>c. c \<in> set cutset) s"

text \<open>The UTF-8 encodings of the code points for which \<^verbatim>\<open>unicode.IsSpace\<close> holds.\<close>

definition space_runes :: "string list" where
  "space_runes =
    [[CHR 0x09], [CHR 0x0A], [CHR 0x0B], [CHR 0x0C], [CHR 0x0D], [CHR 0x20],
     [CHR 0xC2, CHR 0x85], [CHR 0xC2, CHR 0xA0], [CHR 0xE1, CHR 0x9A, CHR 0x80],
     [CHR 0xE2, CHR 0x80, CHR 0x80], [CHR 0xE2, CHR 0x80, CHR 0x81],
     [CHR 0xE2, CHR 0x80, CHR 0x82], [CHR 0xE2, CHR 0x80, CHR 0x83],
     [CHR 0xE2, CHR 0x80, CHR 0x84], [CHR 0xE2, CHR 0x80, CHR 0x85],
     [CHR 0xE2, CHR 0x80, CHR 0x86], [CHR 0xE2, CHR 0x80, CHR 0x87],
     [CHR 0xE2, CHR 0x80, CHR 0x88], [CHR 0xE2, CHR 0x80, CHR 0x89],
     [CHR 0xE2, CHR 0x80, CHR 0x8A], [CHR 0xE2, CHR 0x80, CHR 0xA8],
     [CHR 0xE2, CHR 0x80, CHR 0xA9], [CHR 0xE2, CHR 0x80, CHR 0xAF],
     [CHR 0xE2, CHR 0x81, CHR 0x9F], [CHR 0xE3, CHR 0x80, CHR 0x80]]"

definition leading_space :: "string \<Rightarrow> string option" where
  "leading_space s = find (HasPrefix s) space_runes"

definition trailing_space :: "string \<Rightarrow> string option" where
  "trailing_space s = find (HasSuffix s) space_runes"

lemma HasPrefix_iff: "HasPrefix s p \<longleftrightarrow> (\<exists>t. s = p @ t)"
  by (metis HasPrefix_def append_eq_conv_conj append_take_drop_id)

lemma HasSuffix_iff: "HasSuffix s p \<longleftrightarrow> (\<exists>t. s = t @ p)"
proof
  assume "HasSuffix s p"
  then show "\<exists>t. s = t @ p"
    by (metis HasSuffix_def append_take_drop_id)
qed (auto simp: HasSuffix_def)

lemma HasPrefix_append [simp]: "HasPrefix (p @ t) p"
  by (simp add: HasPrefix_iff)

lemma HasSuffix_append [simp]: "HasSuffix (t @ p) p"
  by (simp add: HasSuffix_def)

lemma HasPrefix_Nil [simp]: "HasPrefix s []"
  by (simp add: HasPrefix_def)

lemma HasPrefix_Cons [simp]:
  "HasPrefix (c # s) (d # p) \<longleftrightarrow> c = d \<and> HasPrefix s p"
  "HasPrefix [] (d # p) \<longleftrightarrow> False"
  by (auto simp: HasPrefix_def)

lemma TrimPrefix_append [simp]: "TrimPrefix (p @ t) p = t"
  by (simp add: TrimPrefix_def)

lemma TrimSuffix_append [simp]: "TrimSuffix (t @ p) p = t"
  by (simp add: TrimSuffix_def)

lemma HasPrefix_decomp: "HasPrefix s p \<Longrightarrow> s = p @ TrimPrefix s p"
  by (auto simp: HasPrefix_iff)

lemma TrimRight_append_cut:
  "\<forall>c \<in> set t. c \<in> set cuts \<Longrightarrow> TrimRight (s @ t) cuts = TrimRight s cuts"
  by (simp add: TrimRight_def dropWhile_append)

lemma TrimRight_id: "s = [] \<or> last s \<notin> set cuts \<Longrightarrow> TrimRight s cuts = s"
  by (cases s rule: rev_cases) (auto simp: TrimRight_def)

lemma TrimRight_decomp:
  obtains t where "s = TrimRight s cuts @ t" and "\<forall>c \<in> set t. c \<in> set cuts"
proof
  show "s = TrimRight s cuts @ rev (takeWhile (\<lambda>c. c \<in> set cuts) (rev s))"
    by (metis TrimRight_def rev_append rev_rev_ident takeWhile_dropWhile_id)
  show "\<forall>c \<in> set (rev (takeWhile (\<lambda>c. c \<in> set cuts) (rev s))). c \<in> set cuts"
    by (auto dest: set_takeWhileD)
qed

lemma TrimRight_last: "TrimRight s cuts \<noteq> [] \<Longrightarrow> last (TrimRight s cuts) \<notin> set cuts"
  using hd_dropWhile [of "\<lambda>c. c \<in> set cuts" "rev s"] by (simp add: TrimRight_def last_rev)

lemma space_runes_nonempty: "e \<in> set space_runes \<Longrightarrow> e \<noteq> []"
  by (auto simp: space_runes_def)

lemma leading_space_Some:
  "leading_space s = Some e \<Longrightarrow> e \<in> set space_runes \<and> HasPrefix s e \<and> e \<noteq> []"
  unfolding leading_space_def find_Some_iff by (metis nth_mem space_runes_nonempty)

lemma trailing_space_Some:
  "trailing_space s = Some e \<Longrightarrow> e \<in> set space_runes \<and> HasSuffix s e \<and> e \<noteq> []"
  unfolding trailing_space_def find_Some_iff by (metis nth_mem space_runes_nonempty)

function trim_left_space :: "string \<Rightarrow> string" where
  "trim_left_space s =
    (case leading_space s of None \<Rightarrow> s | Some e \<Rightarrow> trim_left_space (drop (length e) s))"
  by pat_completeness auto
termination
proof (relation "measure length")
  fix s e assume "leading_space s = Some e"
  then show "(drop (length e) s, s) \<in> measure length"
    by (auto dest!: leading_space_Some simp: HasPrefix_iff)
qed simp

function trim_right_space :: "string \<Rightarrow> string" where
  "trim_right_space s =
    (case trailing_space s of None \<Rightarrow> s
     | Some e \<Rightarrow> trim_right_space (take (length s - length e) s))"
  by pat_completeness auto
termination
proof (relation "measure length")
  fix s e assume "trailing_space s = Some e"
  then show "(take (length s - length e) s, s) \<in> measure length"
    by (auto dest!: trailing_space_Some simp: HasSuffix_iff)
qed simp

declare trim_left_space.simps [simp del] trim_right_space.simps [simp del]

definition TrimSpace :: "string \<Rightarrow> string" where
  "TrimSpace s = trim_right_space (trim_left_space s)"

lemma trim_left_space_suffix: "\<exists>t. s = t @ trim_left_space s"
proof (induction s rule: trim_left_space.induct)
  case (1 s)
  show ?case
  proof (cases "leading_space s")
    case None
    then show ?thesis by (simp add: trim_left_space.simps)
  next
    case (Some e)
    then obtain r where s: "s = e @ r" by (auto dest!: leading_space_Some simp: HasPrefix_iff)
    with 1 [OF Some] obtain t where "r = t @ trim_left_space r" by auto
    then have "s = (e @ t) @ trim_left_space s"
      using Some s by (subst trim_left_space.simps) simp
    then show ?thesis by blast
  qed
qed

lemma trim_right_space_prefix: "\<exists>t. s = trim_right_space s @ t"
proof (induction s rule: trim_right_space.induct)
  case (1 s)
  show ?case
  proof (cases "trailing_space s")
    case None
    then show ?thesis by (simp add: trim_right_space.simps)
  next
    case (Some e)
    then obtain r where s: "s = r @ e" by (auto dest!: trailing_space_Some simp: HasSuffix_iff)
    with 1 [OF Some] obtain t where "r = trim_right_space r @ t" by auto
    then have "s = trim_right_space s @ (t @ e)"
      using Some s by (subst trim_right_space.simps) simp
    then show ?thesis by blast
  qed
qed

lemma trim_left_space_none: "leading_space (trim_left_space s) = None"
proof (induction s rule: trim_left_space.induct)
  case (1 s)
  show ?case
  proof (cases "leading_space s")
    case None
    then show ?thesis by (simp add: trim_left_space.simps)
  next
    case (Some e)
    then show ?thesis using 1 [OF Some] by (subst trim_left_space.simps) simp
  qed
qed

lemma trim_right_space_none: "trailing_space (trim_right_space s) = None"
proof (induction s rule: trim_right_space.induct)
  case (1 s)
  show ?case
  proof (cases "trailing_space s")
    case None
    then show ?thesis by (simp add: trim_right_space.simps)
  next
    case (Some e)
    then show ?thesis using 1 [OF Some] by (subst trim_right_space.simps) simp
  qed
qed

lemma leading_space_prefix:
  "leading_space (s @ t) = None \<Longrightarrow> leading_space s = None"
  by (auto simp: leading_space_def find_None_iff HasPrefix_iff)

text \<open>A trimmed string neither starts nor ends with white space, and trimming
  it again changes nothing.\<close>

lemma TrimSpace_clean:
  "leading_space (TrimSpace s) = None" "trailing_space (TrimSpace s) = None"
proof -
  obtain t where "trim_left_space s = TrimSpace s @ t"
    using trim_right_space_prefix by (metis TrimSpace_def)
  then show "leading_space (TrimSpace s) = None"
    using leading_space_prefix trim_left_space_none by metis
  show "trailing_space (TrimSpace s) = None"
    by (simp add: TrimSpace_def trim_right_space_none)
qed

lemma TrimSpace_fixed:
  "leading_space s = None \<Longrightarrow> trailing_space s = None \<Longrightarrow> TrimSpace s = s"
  by (simp add: TrimSpace_def trim_left_space.simps [of s] trim_right_space.simps [of s])

lemma TrimSpace_idem [simp]: "TrimSpace (TrimSpace s) = TrimSpace s"
  by (rule TrimSpace_fixed) (rule TrimSpace_clean)+

lemma TrimSpace_infix: "\<exists>a b. s = a @ TrimSpace s @ b"
proof -
  obtain a where "s = a @ trim_left_space s" using trim_left_space_suffix by blast
  moreover obtain b where "trim_left_space s = TrimSpace s @ b"
    using trim_right_space_prefix by (metis TrimSpace_def)
  ultimately have "s = a @ TrimSpace s @ b" by simp
  then show ?thesis by blast
qed

lemma TrimSpace_set: "set (TrimSpace s) \<subseteq> set s"
  using TrimSpace_infix [of s] by (metis Un_upper1 Un_upper2 order_trans set_append)

lemma TrimSpace_length: "length (TrimSpace s) \<le> length s"
  using TrimSpace_infix [of s] by (metis le_add1 le_add2 length_append order_trans)


section \<open>Searching and replacing\<close>

fun Index :: "string \<Rightarrow> string \<Rightarrow> nat option" where
  "Index [] sub = (if sub = [] then Some 0 else None)"
| "Index (c # cs) sub =
    (if HasPrefix (c # cs) sub then Some 0 else map_option Suc (Index cs sub))"

fun LastIndex :: "string \<Rightarrow> string \<Rightarrow> nat option" where
  "LastIndex [] sub = (if sub = [] then Some 0 else None)"
| "LastIndex (c # cs) sub =
    (case LastIndex cs sub of
       Some i \<Rightarrow> Some (Suc i)
     | None \<Rightarrow> if HasPrefix (c # cs) sub then Some 0 else None)"

definition Contains :: "string \<Rightarrow> string \<Rightarrow> bool" where
  "Contains s sub \<longleftrightarrow> Index s sub \<noteq> None"

text \<open>\<^verbatim>\<open>IndexAny\<close> and \<^verbatim>\<open>ContainsAny\<close> for a set of ASCII characters.\<close>

fun IndexAny :: "string \<Rightarrow> char list \<Rightarrow> nat option" where
  "IndexAny [] chars = None"
| "IndexAny (c # cs) chars = (if c \<in> set chars then Some 0 else map_option Suc (IndexAny cs chars))"

definition ContainsAny :: "string \<Rightarrow> char list \<Rightarrow> bool" where
  "ContainsAny s chars \<longleftrightarrow> (\<exists>c \<in> set s. c \<in> set chars)"

text \<open>\<^verbatim>\<open>ReplaceAll\<close> for a non-empty pattern: non-overlapping, left to right.\<close>

function ReplaceAll :: "string \<Rightarrow> string \<Rightarrow> string \<Rightarrow> string" where
  "ReplaceAll [] old new = []"
| "ReplaceAll (c # cs) old new =
    (if old \<noteq> [] \<and> HasPrefix (c # cs) old then new @ ReplaceAll (drop (length old) (c # cs)) old new
     else c # ReplaceAll cs old new)"
  by pat_completeness auto
termination
  by (relation "measure (\<lambda>(s, old, new). length s)") auto

text \<open>\<^verbatim>\<open>strings.Join\<close> and \<^verbatim>\<open>strings.Split\<close> for a one-byte separator.\<close>

fun Join :: "string list \<Rightarrow> string \<Rightarrow> string" where
  "Join [] sep = []"
| "Join [x] sep = x"
| "Join (x # y # ys) sep = x @ sep @ Join (y # ys) sep"

fun split_on :: "char \<Rightarrow> string \<Rightarrow> string list" where
  "split_on c [] = [[]]"
| "split_on c (x # xs) =
    (if x = c then [] # split_on c xs
     else case split_on c xs of [] \<Rightarrow> [[x]] | p # ps \<Rightarrow> (x # p) # ps)"

lemma Index_SomeD:
  assumes "Index s sub = Some i"
  shows "i \<le> length s" "HasPrefix (drop i s) sub" "\<forall>j < i. \<not> HasPrefix (drop j s) sub"
proof -
  have "i \<le> length s \<and> HasPrefix (drop i s) sub \<and> (\<forall>j < i. \<not> HasPrefix (drop j s) sub)"
    using assms
  proof (induction s arbitrary: i)
    case Nil
    then show ?case by (simp split: if_splits)
  next
    case (Cons c cs)
    show ?case
    proof (cases "HasPrefix (c # cs) sub")
      case True
      then show ?thesis using Cons.prems by simp
    next
      case False
      then obtain k where k: "i = Suc k" "Index cs sub = Some k" using Cons.prems by auto
      have "\<not> HasPrefix (drop j (c # cs)) sub" if "j < i" for j
        using that False k(1) Cons.IH [OF k(2)] by (cases j) simp_all
      then show ?thesis using k(1) Cons.IH [OF k(2)] by simp
    qed
  qed
  then show "i \<le> length s" "HasPrefix (drop i s) sub" "\<forall>j < i. \<not> HasPrefix (drop j s) sub"
    by simp_all
qed

lemma infix_Cons:
  "(\<exists>a b. c # cs = a @ sub @ b) \<longleftrightarrow> HasPrefix (c # cs) sub \<or> (\<exists>a b. cs = a @ sub @ b)"
proof
  assume "\<exists>a b. c # cs = a @ sub @ b"
  then obtain a b where "c # cs = a @ sub @ b" by blast
  then show "HasPrefix (c # cs) sub \<or> (\<exists>a b. cs = a @ sub @ b)"
    by (cases a) (auto simp: HasPrefix_iff)
next
  assume "HasPrefix (c # cs) sub \<or> (\<exists>a b. cs = a @ sub @ b)"
  then show "\<exists>a b. c # cs = a @ sub @ b"
    by (metis HasPrefix_iff append_Cons append_Nil)
qed

lemma Index_None_iff: "Index s sub = None \<longleftrightarrow> (\<forall>a b. s \<noteq> a @ sub @ b)"
proof (induction s)
  case (Cons c cs)
  then show ?case using infix_Cons [of c cs sub] by auto
qed simp

lemma LastIndex_None_iff: "LastIndex s sub = None \<longleftrightarrow> (\<forall>a b. s \<noteq> a @ sub @ b)"
proof (induction s)
  case (Cons c cs)
  then show ?case using infix_Cons [of c cs sub] by (auto split: option.splits)
qed simp

lemma Index_char_None_iff: "Index s [c] = None \<longleftrightarrow> c \<notin> set s"
  by (induction s) auto

lemma Index_char_take: "Index s [c] = Some i \<Longrightarrow> c \<notin> set (take i s)"
  by (induction s arbitrary: i) (auto split: if_splits)

lemma Index_char_append:
  "c \<notin> set a \<Longrightarrow> Index (a @ c # b) [c] = Some (length a)"
  by (induction a) auto

lemma Index_char_split:
  assumes "Index s [c] = Some i"
  shows "s = take i s @ c # drop (Suc i) s"
  using assms by (induction s arbitrary: i) (auto split: if_splits)

lemma LastIndex_char_None_iff: "LastIndex s [c] = None \<longleftrightarrow> c \<notin> set s"
  by (induction s) (auto split: option.splits)

lemma LastIndex_char_split:
  assumes "LastIndex s [c] = Some i"
  shows "s = take i s @ c # drop (Suc i) s" "c \<notin> set (drop (Suc i) s)" "i < length s"
proof -
  have "s = take i s @ c # drop (Suc i) s \<and> c \<notin> set (drop (Suc i) s) \<and> i < length s"
    using assms
  proof (induction s arbitrary: i)
    case (Cons d cs)
    then show ?case
      by (cases "LastIndex cs [c]") (auto dest: LastIndex_char_None_iff [THEN iffD1] split: if_splits)
  qed simp
  then show "s = take i s @ c # drop (Suc i) s" "c \<notin> set (drop (Suc i) s)" "i < length s"
    by blast+
qed

lemma LastIndex_char_append:
  "c \<notin> set b \<Longrightarrow> LastIndex (a @ c # b) [c] = Some (length a)"
proof (induction a)
  case Nil
  then have "LastIndex b [c] = None" by (simp add: LastIndex_char_None_iff)
  then show ?case by simp
qed simp

lemma LastIndex_SomeD: "LastIndex s sub = Some i \<Longrightarrow> HasPrefix (drop i s) sub"
proof (induction s arbitrary: i)
  case Nil
  then show ?case by (simp split: if_splits)
next
  case (Cons c cs)
  then show ?case by (auto split: option.splits if_splits)
qed

lemma LastIndex_suffix:
  assumes "sub \<noteq> []"
  shows "LastIndex (a @ sub) sub = Some (length a)"
proof (induction a)
  case Nil
  have "LastIndex cs sub = None" if "length cs < length sub" for cs
    using that by (induction cs) (auto simp: assms HasPrefix_def)
  moreover obtain c cs where "sub = c # cs" using assms by (cases sub) auto
  ultimately show ?case by (simp add: HasPrefix_def)
qed simp

lemma Join_append:
  "xs \<noteq> [] \<Longrightarrow> ys \<noteq> [] \<Longrightarrow> Join (xs @ ys) sep = Join xs sep @ sep @ Join ys sep"
proof (induction xs sep rule: Join.induct)
  case (2 x sep)
  then show ?case by (cases ys) auto
qed auto

lemma split_on_nonempty [simp]: "split_on c s \<noteq> []"
  by (induction s) (auto split: list.splits)

lemma split_on_parts: "p \<in> set (split_on c s) \<Longrightarrow> c \<notin> set p"
  by (induction s arbitrary: p) (auto split: list.splits if_splits)

lemma Join_split_on: "Join (split_on c s) [c] = s"
proof (induction s)
  case Nil
  then show ?case by simp
next
  case (Cons x xs)
  obtain p ps where p: "split_on c xs = p # ps" using split_on_nonempty by (metis list.exhaust)
  then show ?case using Cons by (cases ps) auto
qed

lemma split_on_no_sep: "c \<notin> set s \<Longrightarrow> split_on c s = [s]"
  by (induction s) auto

lemma split_on_append:
  "c \<notin> set a \<Longrightarrow> split_on c (a @ c # b) = a # split_on c b"
  by (induction a) auto

lemma split_on_Join:
  assumes "ps \<noteq> []" "\<forall>p \<in> set ps. c \<notin> set p"
  shows "split_on c (Join ps [c]) = ps"
  using assms
proof (induction ps "[c]" rule: Join.induct)
  case (2 x)
  then show ?case by (simp add: split_on_no_sep)
next
  case (3 x y ys)
  then show ?case by (simp add: split_on_append)
qed simp

lemma ReplaceAll_absent: "Index s old = None \<Longrightarrow> ReplaceAll s old new = s"
  by (induction s) (auto split: if_splits)

lemma Contains_infix: "Contains s sub \<longleftrightarrow> (\<exists>a b. s = a @ sub @ b)"
  using Index_None_iff [of s sub] by (auto simp: Contains_def)


section \<open>bufio.Scanner over lines\<close>

text \<open>\<open>raw_lines\<close> splits at newlines; a last line without a newline counts when it
  is not empty.  \<open>dropCR\<close> removes one trailing carriage return.  The scanner
  delivers the lines before the first one whose bytes fill the 65536 byte
  buffer, and stops there with \<^verbatim>\<open>ErrTooLong\<close>.\<close>

fun raw_lines :: "string \<Rightarrow> string \<Rightarrow> string list" where
  "raw_lines cur [] = (if cur = [] then [] else [rev cur])"
| "raw_lines cur (c # cs) =
    (if c = CHR 0x0A then rev cur # raw_lines [] cs else raw_lines (c # cur) cs)"

definition dropCR :: "string \<Rightarrow> string" where
  "dropCR l = (if l \<noteq> [] \<and> last l = CHR 0x0D then butlast l else l)"

datatype scan_err = ErrTooLong | ErrReader

text \<open>A reader is the bytes it delivers and whether it then fails with an error
  other than end of file.\<close>

record reader =
  rd_content :: string
  rd_failed :: bool

definition MaxScanTokenSize :: int where
  "MaxScanTokenSize = 65536"

definition scan_lines :: "reader \<Rightarrow> string list" where
  "scan_lines r =
    map dropCR (takeWhile (\<lambda>l. int (length l) < MaxScanTokenSize) (raw_lines [] (rd_content r)))"

definition scan_error :: "reader \<Rightarrow> scan_err option" where
  "scan_error r =
    (if \<exists>l \<in> set (raw_lines [] (rd_content r)). int (length l) \<ge> MaxScanTokenSize then Some ErrTooLong
     else if rd_failed r then Some ErrReader else None)"

lemma raw_lines_no_newline: "CHR 0x0A \<notin> set cur \<Longrightarrow> l \<in> set (raw_lines cur s) \<Longrightarrow> CHR 0x0A \<notin> set l"
  by (induction cur s arbitrary: l rule: raw_lines.induct) (auto split: if_splits)

lemma raw_lines_cons:
  assumes "CHR 0x0A \<notin> set l"
  shows "raw_lines cur (l @ CHR 0x0A # s) = (rev cur @ l) # raw_lines [] s"
  using assms by (induction l arbitrary: cur) auto

text \<open>Writing lines with a newline after each and scanning them gives them back.\<close>

lemma raw_lines_concat:
  "\<forall>l \<in> set ls. CHR 0x0A \<notin> set l \<Longrightarrow> raw_lines [] (concat (map (\<lambda>l. l @ [CHR 0x0A]) ls)) = ls"
  by (induction ls) (simp_all add: raw_lines_cons)


section \<open>Integers and path elements\<close>

definition is_digit :: "char \<Rightarrow> bool" where
  "is_digit c \<longleftrightarrow> CHR ''0'' \<le> c \<and> c \<le> CHR ''9''"

definition digit_val :: "char \<Rightarrow> int" where
  "digit_val c = int (of_char c) - 48"

definition digits_val :: "string \<Rightarrow> int" where
  "digits_val ds = fold (\<lambda>c n. n * 10 + digit_val c) ds 0"

text \<open>\<^verbatim>\<open>strconv.ParseInt(s, 10, 64)\<close>; \<^const>\<open>None\<close> is a syntax or range error.\<close>

definition ParseInt64 :: "string \<Rightarrow> int option" where
  "ParseInt64 s =
    (let neg = (s \<noteq> [] \<and> hd s = CHR ''-'');
         ds = (if s \<noteq> [] \<and> (hd s = CHR ''-'' \<or> hd s = CHR ''+'') then tl s else s);
         n = digits_val ds
     in if ds = [] \<or> \<not> list_all is_digit ds then None
        else if \<not> neg \<and> n \<ge> 2 ^ 63 then None
        else if neg \<and> n > 2 ^ 63 then None
        else Some (if neg then - n else n))"

text \<open>\<^verbatim>\<open>path.Base\<close>: strip trailing slashes, keep what follows the last slash.\<close>

definition path_Base :: "string \<Rightarrow> string" where
  "path_Base p =
    (if p = [] then ''.''
     else let q = TrimRight p [CHR ''/''];
              b = (case LastIndex q [CHR ''/''] of Some i \<Rightarrow> drop (Suc i) q | None \<Rightarrow> q)
          in if b = [] then ''/'' else b)"

lemma digit_val_nonneg: "is_digit c \<Longrightarrow> 0 \<le> digit_val c"
  by (auto simp: is_digit_def digit_val_def less_eq_char_def)

lemma digits_val_nonneg_aux:
  "list_all is_digit ds \<Longrightarrow> 0 \<le> n \<Longrightarrow> 0 \<le> fold (\<lambda>c n. n * 10 + digit_val c) ds n"
  by (induction ds arbitrary: n) (simp_all add: digit_val_nonneg)

lemma digits_val_nonneg: "list_all is_digit ds \<Longrightarrow> 0 \<le> digits_val ds"
  by (simp add: digits_val_def digits_val_nonneg_aux)

lemma ParseInt64_range:
  assumes "ParseInt64 s = Some n"
  shows "- (2 ^ 63) \<le> n \<and> n < 2 ^ 63"
proof -
  define ds where
    "ds = (if s \<noteq> [] \<and> (hd s = CHR ''-'' \<or> hd s = CHR ''+'') then tl s else s)"
  have ok: "list_all is_digit ds"
    using assms unfolding ParseInt64_def Let_def ds_def [symmetric] by (auto split: if_splits)
  have "0 \<le> digits_val ds" by (rule digits_val_nonneg [OF ok])
  then show ?thesis
    using assms unfolding ParseInt64_def Let_def ds_def [symmetric] by (auto split: if_splits)
qed

lemma path_Base_no_slash:
  assumes "path_Base p \<noteq> ''/''"
  shows "CHR ''/'' \<notin> set (path_Base p)"
proof -
  define q where "q = TrimRight p [CHR ''/'']"
  define b where "b = (case LastIndex q [CHR ''/''] of Some i \<Rightarrow> drop (Suc i) q | None \<Rightarrow> q)"
  have "CHR ''/'' \<notin> set b"
    unfolding b_def
    by (auto dest: LastIndex_char_None_iff [THEN iffD1] LastIndex_char_split(2) split: option.splits)
  moreover have "path_Base p = (if p = [] then ''.'' else if b = [] then ''/'' else b)"
    unfolding path_Base_def Let_def q_def [symmetric] b_def [symmetric] by (rule refl)
  ultimately show ?thesis using assms by (cases "p = []"; cases "b = []") simp_all
qed

lemma path_Base_nonempty: "path_Base p \<noteq> []"
  by (auto simp: path_Base_def Let_def)

end
