(* ===== verification/Types.thy ===== *)
theory Types
  imports Go_Strings "HOL-Library.Word"
begin

text \<open>
  The data model of \<^verbatim>\<open>spec/types.go\<close> and its overrides.  Every Go struct is a
  record whose fields carry a short prefix (\<open>ag_\<close>, \<open>ctx_\<close>, \<open>cfg_\<close>, \<open>bin_\<close>,
  \<open>add_\<close>, \<open>env_\<close>, \<open>mnt_\<close>).  A slice of pointers is the list of the structs it
  points to: no constructor of the sources stores a nil element, and the
  model has no value for one.  \<^verbatim>\<open>Agentfile.Agent\<close> may be nil and is an option;
  an operation that dereferences a nil agent gives \<open>NilDeref\<close>.  A
  \<^verbatim>\<open>Config.Value\<close> of Go type \<^verbatim>\<open>any\<close> is an option over the four kinds the
  parser and the overrides produce; \<^verbatim>\<open>float64\<close> values are kept as their 64
  bits and never computed with.
\<close>


section \<open>Data\<close>

type_synonym f64 = "64 word"

datatype config_value = VBool bool | VInt int | VFloat f64 | VString string

record Context =
  ctx_name :: string
  ctx_description :: string
  ctx_content :: string
  ctx_file :: string

record Config =
  cfg_key :: string
  cfg_value :: "config_value option"
  cfg_description :: string
  cfg_required :: bool

record Bin =
  bin_name :: string
  bin_image :: string
  bin_description :: string
  bin_usage :: string

record Add =
  add_src :: string
  add_name :: string
  add_description :: string
  add_content :: bytes

record Env =
  env_key :: string
  env_value :: string
  env_description :: string

record Mount =
  mnt_host :: string
  mnt_target :: string
  mnt_description :: string
  mnt_readonly :: bool

record Capability =
  cap_name :: string
  cap_description :: string

record Agent =
  ag_from :: string
  ag_runtime :: string
  ag_model :: string
  ag_name :: string
  ag_contexts :: "Context list"
  ag_configs :: "Config list"
  ag_bins :: "Bin list"
  ag_adds :: "Add list"
  ag_exec :: "string list"
  ag_labels :: "(string, string) gomap"
  ag_args :: "(string, string) gomap"
  ag_envs :: "Env list"
  ag_capabilities :: "string list"
  ag_mounts :: "Mount list"

record Agentfile =
  af_syntax :: string
  af_agent :: "Agent option"


section \<open>Overrides\<close>

datatype panic = NilDeref

type_synonym Override = "Agentfile \<Rightarrow> (panic, Agentfile) res"

text \<open>An assignment through the \<^verbatim>\<open>Agent\<close> pointer.\<close>

definition update_agent :: "(Agent \<Rightarrow> Agent) \<Rightarrow> Override" where
  "update_agent f af =
    (case af_agent af of None \<Rightarrow> Inl NilDeref | Some a \<Rightarrow> Inr (af\<lparr>af_agent := Some (f a)\<rparr>))"

definition WithRuntime :: "string \<Rightarrow> Override" where
  "WithRuntime r = update_agent (\<lambda>a. a\<lparr>ag_runtime := r\<rparr>)"

definition WithModel :: "string \<Rightarrow> Override" where
  "WithModel m = update_agent (\<lambda>a. a\<lparr>ag_model := m\<rparr>)"

definition WithMounts :: "Mount list \<Rightarrow> Override" where
  "WithMounts ms af =
    (if af_agent af = None then Inr af
     else update_agent (\<lambda>a. a\<lparr>ag_mounts := ms\<rparr>) af)"

definition extra_envs :: "Env list \<Rightarrow> Env list \<Rightarrow> Env list" where
  "extra_envs base envs =
    (let incoming = set (map env_key envs)
     in filter (\<lambda>e. env_key e \<notin> incoming) base @ envs)"

definition WithExtraEnvs :: "Env list \<Rightarrow> Override" where
  "WithExtraEnvs envs af =
    (if envs = [] then Inr af
     else update_agent (\<lambda>a. a\<lparr>ag_envs := extra_envs (ag_envs a) envs\<rparr>) af)"

text \<open>The loop of \<^verbatim>\<open>WithConfig\<close>: a declared key takes the supplied value and
  leaves \<open>remaining\<close>.\<close>

fun config_loop :: "Config list \<Rightarrow> (string, string) gomap \<Rightarrow> Config list \<times> (string, string) gomap" where
  "config_loop [] remaining = ([], remaining)"
| "config_loop (c # cs) remaining =
    (case fmlookup remaining (cfg_key c) of
       Some v \<Rightarrow>
         (let (cs', rest) = config_loop cs (fmdrop (cfg_key c) remaining)
          in (c\<lparr>cfg_value := Some (VString v)\<rparr> # cs', rest))
     | None \<Rightarrow> (let (cs', rest) = config_loop cs remaining in (c # cs', rest)))"

definition new_config :: "string \<Rightarrow> string \<Rightarrow> Config" where
  "new_config k v =
    \<lparr>cfg_key = k, cfg_value = Some (VString v), cfg_description = [], cfg_required = False\<rparr>"

definition map_at :: "(string, string) gomap \<Rightarrow> string \<Rightarrow> string" where
  "map_at m k = (case fmlookup m k of Some v \<Rightarrow> v | None \<Rightarrow> [])"

definition with_config :: "(string, string) gomap \<Rightarrow> Config list \<Rightarrow> Config list" where
  "with_config values cs =
    (let (cs', remaining) = config_loop cs values
     in cs' @ map (\<lambda>k. new_config k (map_at remaining k)) (sorted_keys remaining))"

definition WithConfig :: "(string, string) gomap \<Rightarrow> Override" where
  "WithConfig values af =
    (if af_agent af = None \<or> values = fmempty then Inr af
     else update_agent (\<lambda>a. a\<lparr>ag_configs := with_config values (ag_configs a)\<rparr>) af)"

definition Apply :: "Override list \<Rightarrow> Override" where
  "Apply overrides af = fold_res (\<lambda>f a. f a) overrides af"


section \<open>What the overrides do\<close>

lemma update_agent_Some [simp]:
  "af_agent af = Some a \<Longrightarrow> update_agent f af = Inr (af\<lparr>af_agent := Some (f a)\<rparr>)"
  by (simp add: update_agent_def)

text \<open>\<open>config_loop\<close> keeps the keys and their order, and \<open>remaining\<close> loses exactly
  the declared keys.\<close>

lemma config_loop_keys: "map cfg_key (fst (config_loop cs m)) = map cfg_key cs"
  by (induction cs arbitrary: m) (simp_all add: split_def Let_def split: option.splits)

lemma config_loop_rest:
  "fmlookup (snd (config_loop cs m)) k = (if k \<in> cfg_key ` set cs then None else fmlookup m k)"
proof (induction cs arbitrary: m)
  case Nil
  then show ?case by simp
next
  case (Cons c cs)
  then show ?case
    by (cases "fmlookup m (cfg_key c)") (auto simp: split_def Let_def)
qed

text \<open>With distinct declared keys each declaration takes its supplied value.\<close>

lemma config_loop_distinct:
  assumes "distinct (map cfg_key cs)"
  shows "fst (config_loop cs m) =
           map (\<lambda>c. case fmlookup m (cfg_key c) of
                      Some v \<Rightarrow> c\<lparr>cfg_value := Some (VString v)\<rparr> | None \<Rightarrow> c) cs"
  using assms
proof (induction cs arbitrary: m)
  case Nil
  then show ?case by simp
next
  case (Cons c cs)
  have other: "fmlookup (fmdrop (cfg_key c) m) (cfg_key d) = fmlookup m (cfg_key d)"
    if "d \<in> set cs" for d
    using Cons.prems that by (auto simp: rev_image_eqI)
  show ?case
    using Cons by (cases "fmlookup m (cfg_key c)") (auto simp: split_def Let_def other rev_image_eqI)
qed

lemma with_config_unfold:
  "with_config m cs =
     fst (config_loop cs m) @
     map (\<lambda>k. new_config k (map_at m k))
       (sorted_keys (snd (config_loop cs m)))"
proof -
  have "map_at (snd (config_loop cs m)) k = map_at m k"
    if "k \<in> set (sorted_keys (snd (config_loop cs m)))" for k
    using that by (auto simp: map_at_def config_loop_rest fmlookup_dom_iff split: if_splits)
  then show ?thesis by (simp add: with_config_def split_def Let_def cong: map_cong)
qed

lemma with_config_keys:
  "map cfg_key (with_config m cs) =
     map cfg_key cs @ sorted_keys (snd (config_loop cs m))"
  by (simp add: with_config_unfold config_loop_keys new_config_def comp_def)

lemma config_loop_rest_dom:
  "fset (fmdom (snd (config_loop cs m))) = fset (fmdom m) - cfg_key ` set cs"
  by (auto simp: fmlookup_dom_iff config_loop_rest split: if_splits)

lemma with_config_distinct:
  "distinct (map cfg_key cs) \<Longrightarrow> distinct (map cfg_key (with_config m cs))"
  by (auto simp: with_config_keys config_loop_rest_dom)

lemma first_with_map:
  assumes "\<And>c. cfg_key (f c) = cfg_key c"
  shows "first_with cfg_key k (map f cs) = map_option f (first_with cfg_key k cs)"
  by (induction cs) (simp_all add: first_with_def assms)

text \<open>Lookup after \<^const>\<open>with_config\<close> when each key is declared at most once.\<close>

lemma first_with_append:
  "first_with key k (xs @ ys) =
     (case first_with key k xs of Some x \<Rightarrow> Some x | None \<Rightarrow> first_with key k ys)"
  by (induction xs) (simp_all add: first_with_def)

lemma first_with_new_configs:
  assumes "distinct ks"
  shows "first_with cfg_key k (map (\<lambda>k. new_config k (f k)) ks) =
           (if k \<in> set ks then Some (new_config k (f k)) else None)"
  using assms by (induction ks) (auto simp: first_with_def new_config_def)

lemma with_config_lookup:
  assumes "distinct (map cfg_key cs)"
  shows "last_with cfg_key k (with_config m cs) =
    (case fmlookup m k of
       None \<Rightarrow> last_with cfg_key k cs
     | Some v \<Rightarrow> (case last_with cfg_key k cs of
           Some c \<Rightarrow> Some (c\<lparr>cfg_value := Some (VString v)\<rparr>)
         | None \<Rightarrow> Some (new_config k v)))"
proof -
  define f where
    "f = (\<lambda>c :: Config. case fmlookup m (cfg_key c) of
            Some v \<Rightarrow> c\<lparr>cfg_value := Some (VString v)\<rparr> | None \<Rightarrow> c)"
  have f_key: "cfg_key (f c) = cfg_key c" for c by (simp add: f_def split: option.splits)
  have "last_with cfg_key k (with_config m cs) = first_with cfg_key k (with_config m cs)"
    by (rule last_with_distinct) (rule with_config_distinct [OF assms])
  also have "\<dots> = (case first_with cfg_key k (map f cs) of
        Some x \<Rightarrow> Some x
      | None \<Rightarrow> if k \<in> fset (fmdom m) - cfg_key ` set cs then Some (new_config k (map_at m k)) else None)"
    unfolding with_config_unfold first_with_append first_with_new_configs [OF sorted_keys_distinct]
      sorted_keys_set config_loop_rest_dom config_loop_distinct [OF assms] f_def
    by (rule refl)
  also have "first_with cfg_key k (map f cs) = map_option f (last_with cfg_key k cs)"
    by (simp add: first_with_map f_key last_with_distinct [OF assms])
  finally show ?thesis
    using last_with_None_iff [of cfg_key k cs]
    by (auto simp: f_def map_at_def fmlookup_dom_iff dest: last_with_SomeD split: option.splits)
qed

lemma extra_envs_lookup:
  "last_with env_key k (extra_envs base envs) =
     (case last_with env_key k envs of Some e \<Rightarrow> Some e | None \<Rightarrow> last_with env_key k base)"
proof (cases "last_with env_key k envs")
  case None
  then have k: "k \<notin> env_key ` set envs" by (simp add: last_with_None_iff)
  have "last_with env_key k (filter (\<lambda>e. env_key e \<notin> env_key ` set envs) base) = last_with env_key k base"
    using k by (induction base) (auto simp: last_with_Cons split: option.splits)
  then show ?thesis using None by (simp add: extra_envs_def last_with_append)
next
  case (Some e)
  then show ?thesis by (simp add: extra_envs_def last_with_append)
qed

text \<open>No key of the overriding list is left from the base, so the override wins
  for the first-match reader as well as for the last-match reader.\<close>

lemma extra_envs_first:
  "k \<in> env_key ` set envs \<Longrightarrow>
     first_with env_key k (extra_envs base envs) = first_with env_key k envs"
proof -
  assume k: "k \<in> env_key ` set envs"
  have "first_with env_key k (filter (\<lambda>e. env_key e \<notin> env_key ` set envs) base) = None"
    using k unfolding first_with_None_iff set_filter by blast
  then show ?thesis by (simp add: extra_envs_def first_with_append)
qed

end
