(* ===== verification/Validate.thy ===== *)
theory Validate
  imports Types
begin

text \<open>
  Validation, from \<^verbatim>\<open>spec/parse.go\<close>: the name patterns, \<^verbatim>\<open>Validate\<close>, the reserved
  ENV keys and \<^verbatim>\<open>RequiredConfigsProvided\<close>.  The regular expressions of the
  sources match ASCII classes only, so on byte strings they are the
  predicates \<open>IsPathSafeName\<close>, \<open>is_dns1123_label\<close> and \<open>is_env_key\<close>.  A Go
  \<^verbatim>\<open>error\<close> is a \<open>verr option\<close>, one constructor per message.
\<close>


section \<open>Patterns\<close>

definition is_upper :: "char \<Rightarrow> bool" where
  "is_upper c \<longleftrightarrow> CHR ''A'' \<le> c \<and> c \<le> CHR ''Z''"

definition is_lower :: "char \<Rightarrow> bool" where
  "is_lower c \<longleftrightarrow> CHR ''a'' \<le> c \<and> c \<le> CHR ''z''"

definition is_alnum :: "char \<Rightarrow> bool" where
  "is_alnum c \<longleftrightarrow> is_upper c \<or> is_lower c \<or> is_digit c"

text \<open>\<^verbatim>\<open>^[A-Za-z0-9][A-Za-z0-9._-]{0,62}$\<close>\<close>

definition IsPathSafeName :: "string \<Rightarrow> bool" where
  "IsPathSafeName s \<longleftrightarrow>
    (case s of [] \<Rightarrow> False
     | c # cs \<Rightarrow> is_alnum c \<and> length cs \<le> 62 \<and>
         list_all (\<lambda>d. is_alnum d \<or> d \<in> set ''._-'') cs)"

text \<open>\<^verbatim>\<open>^[a-z0-9]([a-z0-9-]{0,61}[a-z0-9])?$\<close>\<close>

definition is_label_char :: "char \<Rightarrow> bool" where
  "is_label_char c \<longleftrightarrow> is_lower c \<or> is_digit c"

definition is_dns1123_label :: "string \<Rightarrow> bool" where
  "is_dns1123_label s \<longleftrightarrow>
    (case s of [] \<Rightarrow> False
     | c # cs \<Rightarrow> is_label_char c \<and>
         (cs = [] \<or>
          (length cs \<le> 62 \<and> is_label_char (last cs) \<and>
           list_all (\<lambda>d. is_label_char d \<or> d = CHR ''-'') (butlast cs))))"

text \<open>\<^verbatim>\<open>^[A-Z_][A-Z0-9_]*$\<close>\<close>

definition is_env_key :: "string \<Rightarrow> bool" where
  "is_env_key s \<longleftrightarrow>
    (case s of [] \<Rightarrow> False
     | c # cs \<Rightarrow> (is_upper c \<or> c = CHR ''_'') \<and>
         list_all (\<lambda>d. is_upper d \<or> is_digit d \<or> d = CHR ''_'') cs)"


section \<open>Validate\<close>

datatype kind = KName | KContext | KBin | KAdd | KConfig | KCapability

datatype verr =
    AgentfileNil
  | AgentNil
  | FromRequired
  | NameEmpty kind
  | NameNotPathSafe kind string
  | NotDNSLabel kind string
  | ContextReserved string
  | RequiredHasDefault string
  | EnvKeyEmpty
  | EnvKeyPattern string
  | EnvKeyReserved string
  | EnvKeyProvider string

definition reservedContextNames :: "string list" where
  "reservedContextNames = [''AGENT'', ''WORKSPACE'', ''MOUNTS'']"

definition validatePathSafeName :: "kind \<Rightarrow> string \<Rightarrow> verr option" where
  "validatePathSafeName k name =
    (if name = [] then Some (NameEmpty k)
     else if \<not> IsPathSafeName name then Some (NameNotPathSafe k name)
     else None)"

definition validateDNS1123Label :: "kind \<Rightarrow> string \<Rightarrow> verr option" where
  "validateDNS1123Label k name =
    (if \<not> is_dns1123_label name then Some (NotDNSLabel k name) else None)"

definition reservedEnvKeys :: "string list" where
  "reservedEnvKeys =
    [''PATH'', ''HOME'', ''XDG_CONFIG_HOME'', ''XDG_CACHE_HOME'', ''XDG_DATA_HOME'', ''TMPDIR'',
     ''LANG'', ''OTTERS_AGENT_ROOT'', ''OTTERSD_URL'', ''OTTERS_AGENT_TOKEN'']"

text \<open>\<^verbatim>\<open>ReservedEnvKeys\<close>: the keys of that set, sorted.\<close>

definition ReservedEnvKeys :: "string list" where
  "ReservedEnvKeys = sort reservedEnvKeys"

definition validateEnvKey :: "string \<Rightarrow> verr option" where
  "validateEnvKey key =
    (if key = [] then Some EnvKeyEmpty
     else if \<not> is_env_key key then Some (EnvKeyPattern key)
     else if key \<in> set reservedEnvKeys then Some (EnvKeyReserved key)
     else if HasSuffix key ''_API_KEY'' \<or> HasSuffix key ''_API_BASE'' then Some (EnvKeyProvider key)
     else None)"

definition validate_context :: "Context \<Rightarrow> verr option" where
  "validate_context c =
    (if ctx_name c \<in> set reservedContextNames then Some (ContextReserved (ctx_name c))
     else validatePathSafeName KContext (ctx_name c))"

definition validate_config :: "Config \<Rightarrow> verr option" where
  "validate_config c =
    check_then (validateDNS1123Label KConfig (cfg_key c))
      (if cfg_required c \<and> cfg_value c \<noteq> None then Some (RequiredHasDefault (cfg_key c)) else None)"

definition validate_agent :: "Agent \<Rightarrow> verr option" where
  "validate_agent a =
    (if ag_from a = [] then Some FromRequired
     else check_then (if ag_name a \<noteq> [] then validatePathSafeName KName (ag_name a) else None)
         (check_then (first_err validate_context (ag_contexts a))
         (check_then (first_err (\<lambda>b. validatePathSafeName KBin (bin_name b)) (ag_bins a))
         (check_then (first_err (\<lambda>d. validatePathSafeName KAdd (add_name d)) (ag_adds a))
         (check_then (first_err validate_config (ag_configs a))
         (check_then (first_err (validateDNS1123Label KCapability) (ag_capabilities a))
                     (first_err (\<lambda>e. validateEnvKey (env_key e)) (ag_envs a))))))))"

definition Validate :: "Agentfile option \<Rightarrow> verr option" where
  "Validate af =
    (case af of
       None \<Rightarrow> Some AgentfileNil
     | Some f \<Rightarrow> (case af_agent f of None \<Rightarrow> Some AgentNil | Some a \<Rightarrow> validate_agent a))"


section \<open>RequiredConfigsProvided\<close>

text \<open>The two maps the loop builds: which keys were ever required, and the value
  of the last entry of each key (\<^const>\<open>None\<close> for a nil value).\<close>

definition required_step ::
  "Config \<Rightarrow> (string, unit) gomap \<times> (string, config_value option) gomap
     \<Rightarrow> (string, unit) gomap \<times> (string, config_value option) gomap" where
  "required_step c acc =
    ((if cfg_required c then fmupd (cfg_key c) () (fst acc) else fst acc),
     fmupd (cfg_key c) (cfg_value c) (snd acc))"

text \<open>\<^verbatim>\<open>missing\<close> is collected in map order and sorted before it is reported; the
  result is the error's list of keys.\<close>

definition RequiredConfigsProvided :: "Config list \<Rightarrow> string list option" where
  "RequiredConfigsProvided configs =
    (let (required, vals) = fold required_step configs (fmempty, fmempty);
         missing = filter (\<lambda>k. case fmlookup vals k of Some (Some v) \<Rightarrow> False | _ \<Rightarrow> True)
                     (sorted_keys required)
     in if missing = [] then None else Some missing)"


section \<open>Facts about the patterns\<close>

lemmas char_class_defs = is_upper_def is_lower_def is_digit_def is_alnum_def is_label_char_def

lemma is_alnum_facts [simp]:
  "\<not> is_alnum (CHR ''.'')" "\<not> is_alnum (CHR ''/'')" "\<not> is_alnum (CHR ''='')" "\<not> is_alnum (CHR 0x00)"
  by (simp_all add: char_class_defs less_eq_char_def)

lemma path_safe_chars: "IsPathSafeName s \<Longrightarrow> c \<in> set s \<Longrightarrow> is_alnum c \<or> c \<in> set ''._-''"
  by (cases s) (auto simp: IsPathSafeName_def list_all_iff)

lemma path_safe_no_slash: "IsPathSafeName s \<Longrightarrow> CHR ''/'' \<notin> set s"
  by (auto dest: path_safe_chars)

lemma path_safe_no_nul: "IsPathSafeName s \<Longrightarrow> CHR 0x00 \<notin> set s"
  by (auto dest: path_safe_chars)

lemma path_safe_not_dots: "IsPathSafeName s \<Longrightarrow> s \<noteq> [] \<and> hd s \<noteq> CHR ''.''"
  by (cases s) (auto simp: IsPathSafeName_def)

lemma path_safe_length: "IsPathSafeName s \<Longrightarrow> length s \<le> 63"
  by (cases s) (auto simp: IsPathSafeName_def)

lemma validatePathSafeName_None [simp]:
  "validatePathSafeName k s = None \<longleftrightarrow> IsPathSafeName s"
  by (auto simp: validatePathSafeName_def IsPathSafeName_def)

lemma validateDNS1123Label_None [simp]:
  "validateDNS1123Label k s = None \<longleftrightarrow> is_dns1123_label s"
  by (simp add: validateDNS1123Label_def)

lemma label_chars: "is_dns1123_label s \<Longrightarrow> c \<in> set s \<Longrightarrow> is_label_char c \<or> c = CHR ''-''"
proof (cases s)
  case (Cons d ds)
  assume "is_dns1123_label s" "c \<in> set s"
  then show ?thesis
    using Cons by (cases ds rule: rev_cases) (auto simp: is_dns1123_label_def list_all_iff)
qed simp

lemma label_nonempty: "is_dns1123_label s \<Longrightarrow> s \<noteq> []"
  by (auto simp: is_dns1123_label_def)

lemma label_length: "is_dns1123_label s \<Longrightarrow> length s \<le> 63"
  by (cases s) (auto simp: is_dns1123_label_def)

text \<open>Every DNS-1123 label is a path-safe name.\<close>

lemma label_path_safe: "is_dns1123_label s \<Longrightarrow> IsPathSafeName s"
proof (cases s)
  case (Cons c cs)
  assume l: "is_dns1123_label s"
  have "\<forall>d \<in> set cs. is_alnum d \<or> d \<in> set ''._-''"
    using label_chars [OF l] Cons by (auto simp: is_alnum_def is_label_char_def)
  moreover have "is_alnum c" "length cs \<le> 62"
    using l Cons by (auto simp: is_dns1123_label_def is_label_char_def is_alnum_def)
  ultimately show ?thesis using Cons by (simp add: IsPathSafeName_def list_all_iff)
qed (simp add: is_dns1123_label_def)

lemma validateEnvKey_None:
  "validateEnvKey k = None \<longleftrightarrow>
     is_env_key k \<and> k \<notin> set reservedEnvKeys \<and> \<not> HasSuffix k ''_API_KEY'' \<and> \<not> HasSuffix k ''_API_BASE''"
  by (auto simp: validateEnvKey_def is_env_key_def)

lemma env_key_no_equals: "is_env_key k \<Longrightarrow> CHR ''='' \<notin> set k"
  by (cases k) (auto simp: is_env_key_def list_all_iff char_class_defs less_eq_char_def)

text \<open>What acceptance by \<^const>\<open>validate_agent\<close> means, declaratively.\<close>

definition well_formed_agent :: "Agent \<Rightarrow> bool" where
  "well_formed_agent a \<longleftrightarrow>
     ag_from a \<noteq> [] \<and>
     (ag_name a = [] \<or> IsPathSafeName (ag_name a)) \<and>
     (\<forall>c \<in> set (ag_contexts a). IsPathSafeName (ctx_name c) \<and> ctx_name c \<notin> set reservedContextNames) \<and>
     (\<forall>b \<in> set (ag_bins a). IsPathSafeName (bin_name b)) \<and>
     (\<forall>d \<in> set (ag_adds a). IsPathSafeName (add_name d)) \<and>
     (\<forall>c \<in> set (ag_configs a). is_dns1123_label (cfg_key c) \<and> (cfg_required c \<longrightarrow> cfg_value c = None)) \<and>
     (\<forall>n \<in> set (ag_capabilities a). is_dns1123_label n) \<and>
     (\<forall>e \<in> set (ag_envs a). is_env_key (env_key e) \<and> env_key e \<notin> set reservedEnvKeys \<and>
        \<not> HasSuffix (env_key e) ''_API_KEY'' \<and> \<not> HasSuffix (env_key e) ''_API_BASE'')"

lemma validate_context_None:
  "validate_context c = None \<longleftrightarrow>
     IsPathSafeName (ctx_name c) \<and> ctx_name c \<notin> set reservedContextNames"
  by (auto simp: validate_context_def)

lemma validate_config_None:
  "validate_config c = None \<longleftrightarrow>
     is_dns1123_label (cfg_key c) \<and> (cfg_required c \<longrightarrow> cfg_value c = None)"
  by (auto simp: validate_config_def)

lemma validate_agent_None: "validate_agent a = None \<longleftrightarrow> well_formed_agent a"
proof -
  have "(if ag_name a \<noteq> [] then validatePathSafeName KName (ag_name a) else None) = None \<longleftrightarrow>
    (ag_name a = [] \<or> IsPathSafeName (ag_name a))" by simp
  then show ?thesis
    unfolding validate_agent_def well_formed_agent_def
    by (cases "ag_from a = []")
      (simp_all add: validate_context_None validate_config_None validateEnvKey_None)
qed


section \<open>Facts about required configs\<close>

lemma required_fold:
  fixes r :: "(string, unit) gomap" and v :: "(string, config_value option) gomap"
  shows "fset (fmdom (fst (fold required_step cs (r, v)))) =
      fset (fmdom r) \<union> cfg_key ` {c \<in> set cs. cfg_required c}"
    and "fmlookup (snd (fold required_step cs (r, v))) k =
      (case last_with cfg_key k cs of Some c \<Rightarrow> Some (cfg_value c) | None \<Rightarrow> fmlookup v k)"
proof (induction cs arbitrary: r v)
  case Nil
  { case 1 show ?case by simp }
  { case 2 show ?case by simp }
next
  case (Cons c cs)
  { case 1 show ?case using Cons.IH(1) by (auto simp: required_step_def) }
  { case 2 show ?case using Cons.IH(2)
      by (auto simp: required_step_def last_with_Cons split: option.splits) }
qed

text \<open>A required key is unmet when the value of its last entry is nil.\<close>

definition unmet :: "Config list \<Rightarrow> string \<Rightarrow> bool" where
  "unmet cs k \<longleftrightarrow>
     (\<exists>c \<in> set cs. cfg_required c \<and> cfg_key c = k) \<and>
     (case last_with cfg_key k cs of Some c \<Rightarrow> cfg_value c = None | None \<Rightarrow> True)"

lemma unmet_distinct:
  assumes "distinct (map cfg_key cs)"
  shows "unmet cs k \<longleftrightarrow> (\<exists>c. last_with cfg_key k cs = Some c \<and> cfg_required c \<and> cfg_value c = None)"
  using last_with_mem [OF assms] by (auto simp: unmet_def dest: last_with_SomeD)

lemma RequiredConfigsProvided_unfold:
  "RequiredConfigsProvided cs =
    (let missing = filter (unmet cs) (sorted_keys (fst (fold required_step cs (fmempty, fmempty))))
     in if missing = [] then None else Some missing)"
proof -
  let ?acc = "fold required_step cs (fmempty, fmempty)"
  have "(case fmlookup (snd ?acc) k of Some (Some v) \<Rightarrow> False | _ \<Rightarrow> True) \<longleftrightarrow> unmet cs k"
    if "k \<in> set (sorted_keys (fst ?acc))" for k
    using that by (auto simp: unmet_def required_fold split: option.splits)
  then have "filter (\<lambda>k. case fmlookup (snd ?acc) k of Some (Some v) \<Rightarrow> False | _ \<Rightarrow> True)
        (sorted_keys (fst ?acc)) = filter (unmet cs) (sorted_keys (fst ?acc))"
    by (rule filter_cong [OF refl])
  then show ?thesis
    unfolding RequiredConfigsProvided_def split_def Let_def by (simp only:)
qed

lemma RequiredConfigsProvided_None_iff:
  "RequiredConfigsProvided cs = None \<longleftrightarrow> (\<forall>k. \<not> unmet cs k)"
  by (auto simp: RequiredConfigsProvided_unfold Let_def filter_empty_conv required_fold unmet_def)

lemma RequiredConfigsProvided_Some:
  assumes "RequiredConfigsProvided cs = Some ks"
  shows "set ks = {k. unmet cs k}" "sorted ks" "distinct ks"
proof -
  have ks: "ks = filter (unmet cs) (sorted_keys (fst (fold required_step cs (fmempty, fmempty))))"
    using assms by (simp add: RequiredConfigsProvided_unfold Let_def split: if_splits)
  show "set ks = {k. unmet cs k}" unfolding ks by (auto simp: required_fold unmet_def)
  show "sorted ks" unfolding ks by (rule sorted_wrt_filter) simp
  show "distinct ks" unfolding ks by simp
qed

section \<open>Properties\<close>

text \<open>C9: \<^const>\<open>Validate\<close> accepts exactly the agentfiles with a non-nil, well-formed
  agent: FROM set, NAME and the CONTEXT, BIN and ADD names path-safe, no
  executor-generated context name, CONFIG keys and CAPABILITY names DNS-1123
  labels, no default on a required CONFIG, ENV keys POSIX-style and neither
  reserved nor provider credentials.\<close>

theorem validate_iff_well_formed:
  "Validate af = None \<longleftrightarrow> (\<exists>f a. af = Some f \<and> af_agent f = Some a \<and> well_formed_agent a)"
  by (auto simp: Validate_def validate_agent_None split: option.splits)

text \<open>\<^const>\<open>RequiredConfigsProvided\<close> computes the flattened view: it succeeds exactly
  when no key ever marked required ends with a nil value in its last entry,
  and otherwise names exactly the unmet keys, each once, in sorted order.\<close>

theorem required_configs_spec:
  "RequiredConfigsProvided cs =
     (if \<exists>k. unmet cs k then Some (sorted_list_of_set {k. unmet cs k}) else None)"
proof (cases "RequiredConfigsProvided cs")
  case None
  then show ?thesis using RequiredConfigsProvided_None_iff by auto
next
  case (Some ks)
  note s = RequiredConfigsProvided_Some [OF Some]
  have "ks = sorted_list_of_set {k. unmet cs k}"
    using s by (metis sorted_list_of_set.idem_if_sorted_distinct)
  moreover have "\<exists>k. unmet cs k" using Some RequiredConfigsProvided_None_iff [of cs] by auto
  ultimately show ?thesis using Some by simp
qed

text \<open>Deploy-time values reach the agent.  When every key is declared at
  most once, \<^verbatim>\<open>WithConfig\<close> keeps the declared keys in order and appends the
  new ones sorted; the flattened value of a supplied key is the supplied
  string, other keys keep theirs; and the required-config gate then passes
  exactly when every unmet required key was supplied.\<close>

theorem with_config_provides:
  assumes "distinct (map cfg_key cs)"
  shows "map cfg_key (with_config m cs) =
           map cfg_key cs @ sorted_list_of_set (fset (fmdom m) - cfg_key ` set cs) \<and>
    (\<forall>k. map_option cfg_value (last_with cfg_key k (with_config m cs)) =
      (case fmlookup m k of Some v \<Rightarrow> Some (Some (VString v))
       | None \<Rightarrow> map_option cfg_value (last_with cfg_key k cs))) \<and>
    (RequiredConfigsProvided (with_config m cs) = None \<longleftrightarrow>
      (\<forall>k. unmet cs k \<longrightarrow> k \<in> fset (fmdom m)))"
proof (intro conjI allI)
  have "sorted_keys (snd (config_loop cs m)) = sorted_list_of_set (fset (fmdom m) - cfg_key ` set cs)"
    by (simp add: sorted_keys_def sorted_list_of_fset.rep_eq config_loop_rest_dom)
  then show "map cfg_key (with_config m cs) =
      map cfg_key cs @ sorted_list_of_set (fset (fmdom m) - cfg_key ` set cs)"
    by (simp add: with_config_keys)
  note look = with_config_lookup [OF assms, of _ m]
  show "map_option cfg_value (last_with cfg_key k (with_config m cs)) =
      (case fmlookup m k of Some v \<Rightarrow> Some (Some (VString v))
       | None \<Rightarrow> map_option cfg_value (last_with cfg_key k cs))" for k
    by (simp add: look new_config_def split: option.splits)
  show "RequiredConfigsProvided (with_config m cs) = None \<longleftrightarrow>
      (\<forall>k. unmet cs k \<longrightarrow> k \<in> fset (fmdom m))"
  proof -
    have "unmet (with_config m cs) k \<longleftrightarrow> unmet cs k \<and> fmlookup m k = None" for k
      by (auto simp: unmet_distinct assms with_config_distinct look new_config_def split: option.splits)
    then show ?thesis by (auto simp: RequiredConfigsProvided_None_iff fmlookup_dom_iff)
  qed
qed

theorem with_config_provides_witness:
  "RequiredConfigsProvided (with_config (fmap_of_list [(''url'', ''http://x''), (''b'', ''2'')])
     [\<lparr>cfg_key = ''url'', cfg_value = None, cfg_description = [], cfg_required = True\<rparr>]) = None"
proof -
  let ?cs = "[\<lparr>cfg_key = ''url'', cfg_value = None, cfg_description = [], cfg_required = True\<rparr>]"
  let ?m = "fmap_of_list [(''url'', ''http://x''), (''b'', ''2'')]"
  have "\<forall>k. unmet ?cs k \<longrightarrow> k \<in> fset (fmdom ?m)"
    by (auto simp: unmet_def fmlookup_dom_iff fmap_of_list.rep_eq)
  then show ?thesis using with_config_provides [of ?cs ?m] by simp
qed

text \<open>With a key declared twice the supplied value is lost: \<^verbatim>\<open>WithConfig\<close> fills
  the first declaration while the flattened view reads the last, so a
  required key declared in parent and child stays unmet although its value
  was supplied, and a default declared later wins over the supplied value.\<close>

theorem with_config_duplicate_lost:
  "\<exists>cs cs'. let m = fmap_of_list [(''url'', ''http://x'')] in
     RequiredConfigsProvided (with_config m cs) = Some [''url''] \<and>
     map_option cfg_value (last_with cfg_key ''url'' (with_config m cs')) = Some (Some (VString ''old''))"
proof -
  let ?req = "\<lparr>cfg_key = ''url'', cfg_value = None, cfg_description = [], cfg_required = True\<rparr>"
  let ?def = "\<lparr>cfg_key = ''url'', cfg_value = Some (VString ''old''), cfg_description = [], cfg_required = False\<rparr>"
  have "RequiredConfigsProvided (with_config (fmap_of_list [(''url'', ''http://x'')]) [?req, ?req]) = Some [''url'']"
    by code_simp
  moreover have "map_option cfg_value (last_with cfg_key ''url''
      (with_config (fmap_of_list [(''url'', ''http://x'')]) [?req, ?def])) = Some (Some (VString ''old''))"
    by code_simp
  ultimately show ?thesis by (auto simp: Let_def)
qed

text \<open>\<^verbatim>\<open>WithExtraEnvs\<close> lets the override win: a reader that takes the first
  match and one that takes the last match both see the overriding entry for
  an overridden key, all other keys keep their entries and their order, and
  nothing but the ENV list changes.\<close>

theorem with_extra_envs_override:
  assumes "af_agent af = Some a" "envs \<noteq> []"
  shows "WithExtraEnvs envs af = Inr (af\<lparr>af_agent := Some (a\<lparr>ag_envs := extra_envs (ag_envs a) envs\<rparr>)\<rparr>) \<and>
    (\<forall>k. last_with env_key k (extra_envs (ag_envs a) envs) =
       (case last_with env_key k envs of Some e \<Rightarrow> Some e | None \<Rightarrow> last_with env_key k (ag_envs a))) \<and>
    (\<forall>k \<in> env_key ` set envs. first_with env_key k (extra_envs (ag_envs a) envs) = first_with env_key k envs) \<and>
    filter (\<lambda>e. env_key e \<notin> env_key ` set envs) (extra_envs (ag_envs a) envs) =
      filter (\<lambda>e. env_key e \<notin> env_key ` set envs) (ag_envs a)"
  using assms extra_envs_first [of _ envs "ag_envs a"] extra_envs_lookup [of _ "ag_envs a" envs]
  by (simp add: WithExtraEnvs_def) (simp add: extra_envs_def)

theorem with_extra_envs_override_witness:
  "\<exists>af a e. af_agent af = Some a \<and>
     WithExtraEnvs [e] af = Inr (af\<lparr>af_agent := Some (a\<lparr>ag_envs := extra_envs (ag_envs a) [e]\<rparr>)\<rparr>)"
proof -
  define a :: Agent where "a =
    \<lparr>ag_from = ''scratch'', ag_runtime = [], ag_model = [], ag_name = [], ag_contexts = [], ag_configs = [],
     ag_bins = [], ag_adds = [], ag_exec = [], ag_labels = fmempty, ag_args = fmempty,
     ag_envs = [\<lparr>env_key = ''A'', env_value = ''1'', env_description = []\<rparr>], ag_capabilities = [], ag_mounts = []\<rparr>"
  define af where "af = \<lparr>af_syntax = [], af_agent = Some a\<rparr>"
  let ?e = "\<lparr>env_key = ''A'', env_value = ''2'', env_description = []\<rparr>"
  have "af_agent af = Some a" by (simp add: af_def)
  then show ?thesis using with_extra_envs_override [of af a "[?e]"] by blast
qed

end
