(* ===== verification/Paths.thy ===== *)
theory Paths
  imports Validate
begin

text \<open>
  Package \<^verbatim>\<open>path/filepath\<close> on Unix, as the executors use it: Clean, Join, Dir,
  Base and Rel.  A path is split at slashes; cleaning removes empty and dot
  elements and resolves dot-dot against the elements before it.  The lemmas
  say what joining a path-safe name, or a fixed relative path, to a directory
  gives, and what it means that a path lies inside a root.
\<close>


section \<open>Clean and Join\<close>

definition rooted :: "string \<Rightarrow> bool" where
  "rooted p \<longleftrightarrow> p \<noteq> [] \<and> hd p = CHR ''/''"

definition dotdot :: string where
  "dotdot = ''..''"

text \<open>One path element against the cleaned elements so far.\<close>

definition clean_step :: "bool \<Rightarrow> string \<Rightarrow> string list \<Rightarrow> string list" where
  "clean_step r e out =
    (if e = [] \<or> e = ''.'' then out
     else if e = dotdot then
       (if out \<noteq> [] \<and> last out \<noteq> dotdot then butlast out
        else if r then out else out @ [e])
     else out @ [e])"

definition elems :: "string \<Rightarrow> string list" where
  "elems p = fold (clean_step (rooted p)) (split_on (CHR ''/'') p) []"

definition unelems :: "bool \<Rightarrow> string list \<Rightarrow> string" where
  "unelems r es =
    (if r then ''/'' @ Join es ''/'' else if es = [] then ''.'' else Join es ''/'')"

definition Clean :: "string \<Rightarrow> string" where
  "Clean p = (if p = [] then ''.'' else unelems (rooted p) (elems p))"

definition JoinPath :: "string list \<Rightarrow> string" where
  "JoinPath es =
    (case dropWhile (\<lambda>e. e = []) es of [] \<Rightarrow> [] | e # es' \<Rightarrow> Clean (Join (e # es') ''/''))"

text \<open>\<^verbatim>\<open>filepath.Dir\<close>: everything up to the last slash, cleaned.\<close>

definition path_Dir :: "string \<Rightarrow> string" where
  "path_Dir p =
    Clean (case LastIndex p ''/'' of Some i \<Rightarrow> take (Suc i) p | None \<Rightarrow> [])"

fun strip_common :: "string list \<Rightarrow> string list \<Rightarrow> string list \<times> string list" where
  "strip_common (b # bs) (t # ts) = (if b = t then strip_common bs ts else (b # bs, t # ts))"
| "strip_common bs ts = (bs, ts)"

text \<open>\<^verbatim>\<open>filepath.Rel\<close>; \<^const>\<open>None\<close> is its error.\<close>

definition Rel :: "string \<Rightarrow> string \<Rightarrow> string option" where
  "Rel base targ =
    (let b = Clean base; t = Clean targ
     in if b = t then Some ''.''
        else if (rooted b) \<noteq> (rooted t) then None
        else let (bs, ts) = strip_common (elems b) (if t = ''.'' then [''.''] else elems t)
             in if bs \<noteq> [] \<and> hd bs = dotdot then None
                else Some (Join (replicate (length bs) dotdot @ ts) ''/''))"


section \<open>Elements of cleaned paths\<close>

definition plain_elem :: "string \<Rightarrow> bool" where
  "plain_elem e \<longleftrightarrow> e \<noteq> [] \<and> e \<noteq> ''.'' \<and> e \<noteq> dotdot \<and> CHR ''/'' \<notin> set e"

lemma path_safe_plain: "IsPathSafeName s \<Longrightarrow> plain_elem s"
  using path_safe_not_dots [of s] path_safe_no_slash [of s] by (auto simp: plain_elem_def dotdot_def)

lemma clean_step_plain: "plain_elem e \<Longrightarrow> clean_step r e out = out @ [e]"
  by (simp add: clean_step_def plain_elem_def)

lemma fold_clean_plain: "list_all plain_elem es \<Longrightarrow> fold (clean_step r) es out = out @ es"
  by (induction es arbitrary: out) (simp_all add: clean_step_plain)

lemma split_on_app: "split_on c (a @ c # b) = split_on c a @ split_on c b"
proof (induction a)
  case (Cons x a)
  obtain p ps where "split_on c a = p # ps" using split_on_nonempty by (metis list.exhaust)
  then show ?case using Cons by auto
qed simp

lemma rooted_append [simp]: "a \<noteq> [] \<Longrightarrow> rooted (a @ b) = rooted a"
  by (cases a) (simp_all add: rooted_def)

lemma elems_append:
  assumes "a \<noteq> []"
  shows "elems (a @ CHR ''/'' # b) = fold (clean_step (rooted a)) (split_on (CHR ''/'') b) (elems a)"
  using assms by (simp add: elems_def split_on_app)

text \<open>What cleaned elements look like: no empty or dot element, and dot-dot
  only at the front of a relative path.\<close>

definition elem_ok :: "string \<Rightarrow> bool" where
  "elem_ok e \<longleftrightarrow> e \<noteq> [] \<and> e \<noteq> ''.'' \<and> CHR ''/'' \<notin> set e"

definition elems_ok :: "bool \<Rightarrow> string list \<Rightarrow> bool" where
  "elems_ok r es \<longleftrightarrow> list_all elem_ok es \<and>
     (\<exists>n ns. es = replicate n dotdot @ ns \<and> list_all plain_elem ns \<and> (r \<longrightarrow> n = 0))"

lemma clean_step_ok:
  assumes "elems_ok r out" "CHR ''/'' \<notin> set e"
  shows "elems_ok r (clean_step r e out)"
proof -
  obtain n ns where out: "out = replicate n dotdot @ ns" "list_all plain_elem ns" "r \<longrightarrow> n = 0"
    and ok: "list_all elem_ok out" using assms(1) unfolding elems_ok_def by blast
  consider "e = [] \<or> e = ''.''" | "e = dotdot" | "e \<noteq> []" "e \<noteq> ''.''" "e \<noteq> dotdot" by blast
  then show ?thesis
  proof cases
    case 1
    then show ?thesis using assms(1) by (auto simp: clean_step_def)
  next
    case 2
    have dd: "elem_ok dotdot" "dotdot \<noteq> []" "dotdot \<noteq> ''.''" by (simp_all add: elem_ok_def dotdot_def)
    show ?thesis
    proof (cases ns rule: rev_cases)
      case Nil
      then have "clean_step r e out = (if r then out else out @ [dotdot])"
        using out 2 dd by (cases n) (auto simp: clean_step_def)
      moreover have "out @ [dotdot] = replicate (Suc n) dotdot @ []"
        using Nil out(1) by (simp add: replicate_append_same)
      moreover have "elems_ok False (out @ [dotdot])"
        unfolding elems_ok_def
      proof (intro conjI exI)
        show "list_all elem_ok (out @ [dotdot])" using ok dd by simp
        show "out @ [dotdot] = replicate (Suc n) dotdot @ []" by (fact calculation(2))
      qed simp_all
      ultimately show ?thesis using assms(1) by (cases r) simp_all
    next
      case (snoc ms m)
      then have "m \<noteq> dotdot" using out(2) by (simp add: plain_elem_def)
      then have "clean_step r e out = replicate n dotdot @ ms"
        using 2 snoc out(1) dd by (simp add: clean_step_def butlast_append)
      then show ?thesis using snoc out ok unfolding elems_ok_def by auto
    qed
  next
    case 3
    then have "clean_step r e out = replicate n dotdot @ (ns @ [e])"
      using out(1) by (simp add: clean_step_def)
    moreover have "plain_elem e" "elem_ok e" using 3 assms(2) by (simp_all add: plain_elem_def elem_ok_def)
    ultimately show ?thesis
      using out ok unfolding elems_ok_def by (intro conjI exI [of _ n] exI [of _ "ns @ [e]"]) simp_all
  qed
qed

lemma fold_clean_ok:
  "elems_ok r out \<Longrightarrow> \<forall>e \<in> set es. CHR ''/'' \<notin> set e \<Longrightarrow> elems_ok r (fold (clean_step r) es out)"
  by (induction es arbitrary: out) (simp_all add: clean_step_ok)

lemma elems_ok_Nil [simp]: "elems_ok r []"
  by (auto simp: elems_ok_def)

lemma elems_elems_ok: "elems_ok (rooted p) (elems p)"
  unfolding elems_def by (intro fold_clean_ok) (auto dest: split_on_parts)

lemma elems_ok_rooted: "elems_ok True es \<longleftrightarrow> list_all plain_elem es"
  by (auto simp: elems_ok_def elem_ok_def plain_elem_def list_all_iff)

lemma elems_ok_no_slash: "elems_ok r es \<Longrightarrow> \<forall>e \<in> set es. e \<noteq> [] \<and> CHR ''/'' \<notin> set e"
  by (auto simp: elems_ok_def elem_ok_def list_all_iff)

lemma fold_clean_fixed:
  assumes "elems_ok r es"
  shows "fold (clean_step r) es [] = es"
proof -
  obtain n ns where es: "es = replicate n dotdot @ ns" "list_all plain_elem ns" "r \<longrightarrow> n = 0"
    using assms by (auto simp: elems_ok_def)
  have dd: "dotdot \<noteq> []" "dotdot \<noteq> ''.''" by (simp_all add: dotdot_def)
  have "fold (clean_step False) (replicate k dotdot) (replicate m dotdot) = replicate (k + m) dotdot" for k m
  proof (induction k arbitrary: m)
    case (Suc k)
    have "clean_step False dotdot (replicate m dotdot) = replicate (Suc m) dotdot"
      using dd by (cases m) (simp_all add: clean_step_def replicate_append_same)
    then show ?case using Suc [of "Suc m"] by simp
  qed simp
  from this [of n 0] have "fold (clean_step r) (replicate n dotdot) [] = replicate n dotdot"
    using es(3) by (cases r) simp_all
  then show ?thesis using es fold_clean_plain by simp
qed

lemma Join_nonempty_hd:
  "es \<noteq> [] \<Longrightarrow> hd es \<noteq> [] \<Longrightarrow> Join es s \<noteq> [] \<and> hd (Join es s) = hd (hd es)"
  by (induction es s rule: Join.induct) auto

text \<open>Printing cleaned elements and splitting them again gives them back.\<close>

lemma elems_unelems:
  assumes "elems_ok r es"
  shows "elems (unelems r es) = es" "rooted (unelems r es) = r"
proof -
  note ok = elems_ok_no_slash [OF assms]
  have split: "split_on (CHR ''/'') (Join es ''/'') = es" if "es \<noteq> []"
    using split_on_Join [OF that] ok by blast
  have rt: "\<not> rooted (Join es ''/'')" if "es \<noteq> []"
    using Join_nonempty_hd [OF that, of "''/''"] ok that
    by (auto simp: rooted_def) (metis hd_in_set)
  show r: "rooted (unelems r es) = r"
    using rt by (auto simp: unelems_def rooted_def)
  have "fold (clean_step r) (split_on (CHR ''/'') (unelems r es)) [] = es"
  proof (cases "es = []")
    case True
    then show ?thesis by (simp add: unelems_def clean_step_def)
  next
    case False
    have "clean_step r [] [] = []" by (simp add: clean_step_def)
    then show ?thesis
      using split [OF False] False fold_clean_fixed [OF assms] by (cases r) (simp_all add: unelems_def)
  qed
  then show "elems (unelems r es) = es" by (simp add: elems_def r)
qed

lemma elems_Clean [simp]: "p \<noteq> [] \<Longrightarrow> elems (Clean p) = elems p" "p \<noteq> [] \<Longrightarrow> rooted (Clean p) = rooted p"
  by (simp_all add: Clean_def elems_unelems [OF elems_elems_ok])

lemma unelems_nonempty: "elems_ok r es \<Longrightarrow> unelems r es \<noteq> []"
  using Join_nonempty_hd [of es "''/''"] elems_ok_no_slash [of r es]
  by (auto simp: unelems_def)

lemma Clean_nonempty [simp]: "Clean p \<noteq> []"
  using unelems_nonempty [OF elems_elems_ok] by (auto simp: Clean_def)

lemma Clean_idem [simp]: "Clean (Clean p) = Clean p"
proof (cases "p = []")
  case True
  then show ?thesis by (simp add: Clean_def elems_def clean_step_def rooted_def unelems_def)
next
  case False
  then have "Clean (Clean p) = unelems (rooted (Clean p)) (elems (Clean p))"
    unfolding Clean_def [of "Clean p"] by simp
  then have "Clean (Clean p) = unelems (rooted p) (elems p)" unfolding elems_Clean [OF False] .
  then show ?thesis using False by (simp add: Clean_def)
qed

text \<open>Joining plain elements to a directory appends them to its elements.\<close>

lemma Join_snoc_elems:
  assumes "d \<noteq> []" "es \<noteq> []" "list_all plain_elem es"
  shows "elems (Join (d # es) ''/'') = elems d @ es" "rooted (Join (d # es) ''/'') = rooted d"
proof -
  have j: "Join (d # es) ''/'' = d @ CHR ''/'' # Join es ''/''" using assms(2) by (cases es) simp_all
  have "split_on (CHR ''/'') (Join es ''/'') = es"
    using assms(2,3) by (intro split_on_Join) (auto simp: list_all_iff plain_elem_def)
  then show "elems (Join (d # es) ''/'') = elems d @ es"
    using assms by (simp add: j elems_append fold_clean_plain)
  show "rooted (Join (d # es) ''/'') = rooted d" using assms(1) by (simp add: j)
qed

lemma JoinPath_plain:
  assumes "d \<noteq> []" "es \<noteq> []" "list_all plain_elem es"
  shows "elems (JoinPath (d # es)) = elems d @ es" "rooted (JoinPath (d # es)) = rooted d"
proof -
  have "Join (d # es) ''/'' \<noteq> []" using assms(1,2) by (cases es) simp_all
  then show "elems (JoinPath (d # es)) = elems d @ es" "rooted (JoinPath (d # es)) = rooted d"
    using assms Join_snoc_elems [OF assms] by (simp_all add: JoinPath_def)
qed

text \<open>A path lies strictly inside a directory when its elements extend those of
  the directory; this is what a cleaned path can leave only by dot-dot.\<close>

definition strictly_inside :: "string \<Rightarrow> string \<Rightarrow> bool" where
  "strictly_inside dir p \<longleftrightarrow>
     rooted p = rooted dir \<and> (\<exists>es. es \<noteq> [] \<and> list_all plain_elem es \<and> elems p = elems dir @ es)"

definition inside :: "string \<Rightarrow> string \<Rightarrow> bool" where
  "inside dir p \<longleftrightarrow> strictly_inside dir p \<or> (rooted p = rooted dir \<and> elems p = elems dir)"

lemma JoinPath_inside:
  assumes "d \<noteq> []" "es \<noteq> []" "list_all plain_elem es"
  shows "strictly_inside d (JoinPath (d # es))"
  using JoinPath_plain [OF assms] assms(2,3) by (auto simp: strictly_inside_def)

lemma strip_common_append: "strip_common bs (bs @ ts) = ([], ts)"
  by (induction bs) (auto split: list.splits intro: strip_common.simps(2))

lemma strip_common_Nil: "fst (strip_common bs ts) = [] \<Longrightarrow> ts = bs @ snd (strip_common bs ts)"
  by (induction bs ts rule: strip_common.induct) (auto split: if_splits)

end
