(* ===== verification/Grammar.thy ===== *)
theory Grammar
  imports Validate
begin

text \<open>
  The instruction grammar of \<^verbatim>\<open>spec/grammar.go\<close>: the lexer rules, the token
  mappers and the struct-tag productions, read off the source.  The grammar
  is executed there by the participle package; \<open>grammar_parser\<close> is what those
  declarations denote under participle's documented reading (rules are tried
  in order at each position, whitespace is elided, a literal matches a token
  by value, an optional group that does not match is skipped, the whole line
  must be consumed).  The parser of the next theory takes any instruction
  parser as a parameter; \<open>grammar_parser\<close> is the instance used where a result
  depends on concrete input.  The unquoting of a String token is a parameter
  \<open>unq\<close>.
\<close>


section \<open>Instructions\<close>

record contextInst =
  ci_name :: string
  ci_desc :: "string option"
  ci_file :: "string option"

record configInst =
  gi_key :: string
  gi_required :: bool
  gi_value :: "string option"
  gi_quoted :: "string option"
  gi_desc :: "string option"

record binInst =
  bi_name :: string
  bi_image :: string
  bi_desc :: "string option"

record addInst =
  ai_src :: string
  ai_name :: "string option"
  ai_desc :: "string option"

record labelInst =
  li_key :: string
  li_value :: string

record argInst =
  ri_key :: string
  ri_value :: "string option"

record envInst =
  ei_key :: string
  ei_value :: string
  ei_desc :: "string option"

text \<open>The Go struct has one pointer per alternative, exactly one of them set.\<close>

datatype instruction =
    IFrom string
  | IRuntime string
  | IModel string
  | IName string
  | IContext contextInst
  | IConfig configInst
  | IBin binInst
  | IAdd addInst
  | IExec "string list"
  | ILabel labelInst
  | IArg argInst
  | IEnv envInst
  | ICapability "string list"

definition instructionType :: "instruction \<Rightarrow> string" where
  "instructionType i =
    (case i of
       IFrom _ \<Rightarrow> ''FROM'' | IRuntime _ \<Rightarrow> ''RUNTIME'' | IModel _ \<Rightarrow> ''MODEL'' | IName _ \<Rightarrow> ''NAME''
     | IContext _ \<Rightarrow> ''CONTEXT'' | IConfig _ \<Rightarrow> ''CONFIG'' | IBin _ \<Rightarrow> ''BIN'' | IAdd _ \<Rightarrow> ''ADD''
     | ILabel _ \<Rightarrow> ''LABEL'' | IExec _ \<Rightarrow> ''EXEC'' | IArg _ \<Rightarrow> ''ARG'' | IEnv _ \<Rightarrow> ''ENV''
     | ICapability _ \<Rightarrow> ''CAPABILITY'')"


section \<open>Lexer\<close>

datatype ttype = TString | TFileRef | TEquals | TBang | TExecKeyword | TIdent
  | TLBracket | TRBracket | TComma

type_synonym token = "ttype \<times> string"

datatype lexstate = Root | ExecArgs

definition is_ws :: "char \<Rightarrow> bool" where
  "is_ws c \<longleftrightarrow> c = CHR '' '' \<or> c = CHR 0x09"

text \<open>The class \<^verbatim>\<open>\s\<close> of the regular expressions.\<close>

definition is_re_space :: "char \<Rightarrow> bool" where
  "is_re_space c \<longleftrightarrow> c \<in> {CHR 0x09, CHR 0x0A, CHR 0x0C, CHR 0x0D, CHR '' ''}"

definition is_ident_char :: "char \<Rightarrow> bool" where
  "is_ident_char c \<longleftrightarrow> \<not> is_re_space c \<and> c \<notin> {CHR 0x22, CHR ''='', CHR ''!''}"

text \<open>The rest of a \<^verbatim>\<open>String\<close> token after its opening quote, quote included.\<close>

fun lex_body :: "string \<Rightarrow> (string \<times> string) option" where
  "lex_body [] = None"
| "lex_body (c # cs) =
    (if c = CHR 0x22 then Some ([c], cs)
     else if c = CHR 0x5C then
       (case cs of
          [] \<Rightarrow> None
        | d # ds \<Rightarrow> if d = CHR 0x0A then None
                   else map_option (\<lambda>(a, b). (c # d # a, b)) (lex_body ds))
     else map_option (\<lambda>(a, b). (c # a, b)) (lex_body cs))"

definition lex_string :: "string \<Rightarrow> (string \<times> string) option" where
  "lex_string s =
    (case s of
       [] \<Rightarrow> None
     | c # cs \<Rightarrow> if c = CHR 0x22 then map_option (\<lambda>(a, b). (c # a, b)) (lex_body cs) else None)"

text \<open>\<^verbatim>\<open>EXEC[ \t]*\[\<close>\<close>

definition lex_exec :: "string \<Rightarrow> (string \<times> string) option" where
  "lex_exec s =
    (if HasPrefix s ''EXEC'' then
       (let gap = takeWhile is_ws (drop 4 s); r = drop (4 + length gap) s
        in case r of
             [] \<Rightarrow> None
           | c # cs \<Rightarrow> if c = CHR ''['' then Some (''EXEC'' @ gap @ ''['', cs) else None)
     else None)"

definition lex_fileref :: "string \<Rightarrow> (string \<times> string) option" where
  "lex_fileref s =
    (let body = takeWhile (\<lambda>c. \<not> is_re_space c) (drop 7 s)
     in if HasPrefix s ''file://'' \<and> body \<noteq> []
        then Some (''file://'' @ body, drop (length body) (drop 7 s)) else None)"

definition single :: "char \<Rightarrow> ttype \<Rightarrow> string \<Rightarrow> (ttype option \<times> string \<times> string) option" where
  "single c ty s =
    (case s of [] \<Rightarrow> None | d # ds \<Rightarrow> if d = c then Some (Some ty, [c], ds) else None)"

definition or_else :: "'a option \<Rightarrow> 'a option \<Rightarrow> 'a option" where
  "or_else a b = (case a of Some x \<Rightarrow> Some x | None \<Rightarrow> b)"

definition as_token :: "ttype option \<Rightarrow> (string \<times> string) option \<Rightarrow> (ttype option \<times> string \<times> string) option" where
  "as_token ty r = map_option (\<lambda>(v, rest). (ty, v, rest)) r"

definition span_some :: "(char \<Rightarrow> bool) \<Rightarrow> string \<Rightarrow> (string \<times> string) option" where
  "span_some P s = (if takeWhile P s = [] then None else Some (takeWhile P s, dropWhile P s))"

text \<open>One token of a state: its type (\<^const>\<open>None\<close> for elided white space), its
  text and the rest of the input.\<close>

fun lex_token :: "lexstate \<Rightarrow> string \<Rightarrow> (ttype option \<times> string \<times> string) option" where
  "lex_token Root s =
     or_else (as_token None (span_some is_ws s))
    (or_else (as_token (Some TString) (lex_string s))
    (or_else (as_token (Some TFileRef) (lex_fileref s))
    (or_else (single (CHR ''='') TEquals s)
    (or_else (single (CHR ''!'') TBang s)
    (or_else (as_token (Some TExecKeyword) (lex_exec s))
             (as_token (Some TIdent) (span_some is_ident_char s)))))))"
| "lex_token ExecArgs s =
     or_else (as_token None (span_some is_ws s))
    (or_else (single (CHR ''['') TLBracket s)
    (or_else (single (CHR '']'') TRBracket s)
    (or_else (single (CHR '','') TComma s)
             (as_token (Some TString) (lex_string s)))))"

text \<open>The state stack: \<^verbatim>\<open>ExecKeyword\<close> pushes, \<^verbatim>\<open>RBracket\<close> pops.\<close>

definition lex_stack :: "ttype option \<Rightarrow> lexstate list \<Rightarrow> lexstate list" where
  "lex_stack ty stack =
    (if ty = Some TExecKeyword then ExecArgs # stack
     else if ty = Some TRBracket then tl stack else stack)"

lemma or_else_Some: "or_else a b = Some x \<longleftrightarrow> a = Some x \<or> (a = None \<and> b = Some x)"
  by (auto simp: or_else_def split: option.splits)

lemma lex_body_length: "lex_body s = Some (a, b) \<Longrightarrow> length b < length s"
proof (induction s arbitrary: a b rule: lex_body.induct)
  case (2 c cs)
  consider "c = CHR 0x22" | "c = CHR 0x5C" | "c \<noteq> CHR 0x22" "c \<noteq> CHR 0x5C" by blast
  then show ?case
  proof cases
    case 2
    then obtain d ds where "cs = d # ds" "d \<noteq> CHR 0x0A" using "2.prems" by (auto split: list.splits if_splits)
    then show ?thesis using "2.prems" "2.IH"(1) 2 by fastforce
  next
    case 3
    then show ?thesis using "2.prems" "2.IH"(2) by fastforce
  qed (use "2.prems" in auto)
qed simp

lemma span_some_length: "span_some P s = Some (a, b) \<Longrightarrow> length b < length s"
  by (auto simp: span_some_def split: if_splits)
    (metis append_self_conv2 le_neq_implies_less length_append length_dropWhile_le
      takeWhile_dropWhile_id add_cancel_left_left length_0_conv)

lemma lex_string_length: "lex_string s = Some (a, b) \<Longrightarrow> length b < length s"
  by (cases s) (auto simp: lex_string_def dest!: lex_body_length split: if_splits)

lemma lex_exec_length: "lex_exec s = Some (a, b) \<Longrightarrow> length b < length s"
proof -
  assume a: "lex_exec s = Some (a, b)"
  then have "CHR ''['' # b = drop (4 + length (takeWhile is_ws (drop 4 s))) s"
    by (auto simp: lex_exec_def Let_def split: if_splits list.splits)
  then have "Suc (length b) \<le> length s"
    by (metis diff_le_self length_Cons length_drop)
  then show ?thesis by simp
qed

lemma lex_fileref_length: "lex_fileref s = Some (a, b) \<Longrightarrow> length b < length s"
  by (cases s) (auto simp: lex_fileref_def Let_def split: if_splits)

lemma single_length: "single c ty s = Some (t, a, b) \<Longrightarrow> length b < length s"
  by (cases s) (auto simp: single_def split: if_splits)

lemma as_token_Some: "as_token ty r = Some (t, a, b) \<longleftrightarrow> r = Some (a, b) \<and> t = ty"
  by (auto simp: as_token_def)

lemma lex_token_length: "lex_token st s = Some (t, a, b) \<Longrightarrow> length b < length s"
  by (cases st)
    (auto simp: or_else_Some as_token_Some
      dest: span_some_length lex_string_length lex_exec_length lex_fileref_length single_length)

function lex :: "lexstate list \<Rightarrow> string \<Rightarrow> token list option" where
  "lex stack s =
    (if s = [] then Some []
     else case stack of
       [] \<Rightarrow> None
     | st # _ \<Rightarrow>
         (case lex_token st s of
            None \<Rightarrow> None
          | Some (t, v, rest) \<Rightarrow>
              (case lex (lex_stack t stack) rest of
                 None \<Rightarrow> None
               | Some ts \<Rightarrow> Some (case t of None \<Rightarrow> ts | Some ty \<Rightarrow> (ty, v) # ts))))"
  by pat_completeness auto
termination
  by (relation "measure (\<lambda>(stack, s). length s)") (auto dest: lex_token_length)

declare lex.simps [simp del]

text \<open>The token mappers: \<^verbatim>\<open>Unquote("String")\<close> and the \<^verbatim>\<open>file://\<close> trimming.\<close>

fun map_token :: "(string \<Rightarrow> string option) \<Rightarrow> token \<Rightarrow> token option" where
  "map_token unq (ty, v) =
    (if ty = TString then map_option (Pair TString) (unq v)
     else if ty = TFileRef then Some (TFileRef, TrimPrefix v ''file://'')
     else Some (ty, v))"

fun map_tokens :: "(string \<Rightarrow> string option) \<Rightarrow> token list \<Rightarrow> token list option" where
  "map_tokens unq [] = Some []"
| "map_tokens unq (t # ts) =
    (case map_token unq t of
       None \<Rightarrow> None
     | Some t' \<Rightarrow> map_option (\<lambda>ts'. t' # ts') (map_tokens unq ts))"


section \<open>Productions\<close>

text \<open>\<^verbatim>\<open>@T?\<close> and \<^verbatim>\<open>@( Ident | String )\<close>\<close>

fun opt_tok :: "ttype \<Rightarrow> token list \<Rightarrow> string option \<times> token list" where
  "opt_tok ty [] = (None, [])"
| "opt_tok ty ((t, v) # ts) = (if t = ty then (Some v, ts) else (None, (t, v) # ts))"

fun word :: "token list \<Rightarrow> (token \<times> token list) option" where
  "word [] = None"
| "word ((t, v) # ts) = (if t = TIdent \<or> t = TString then Some ((t, v), ts) else None)"

fun lit :: "string \<Rightarrow> token list \<Rightarrow> token list option" where
  "lit x [] = None"
| "lit x ((t, v) # ts) = (if v = x then Some ts else None)"

text \<open>\<^verbatim>\<open>( "=" ( @Ident | @String ) )?\<close>: an incomplete group is skipped.\<close>

definition opt_eq_word :: "token list \<Rightarrow> token option \<times> token list" where
  "opt_eq_word ts =
    (case lit ''='' ts of
       None \<Rightarrow> (None, ts)
     | Some ts' \<Rightarrow> (case word ts' of None \<Rightarrow> (None, ts) | Some (w, rest) \<Rightarrow> (Some w, rest)))"

definition p_context :: "token list \<Rightarrow> contextInst option" where
  "p_context ts =
    (case opt_tok TIdent ts of
       (None, _) \<Rightarrow> None
     | (Some name, ts1) \<Rightarrow>
         (let (desc, ts2) = opt_tok TString ts1; (file, ts3) = opt_tok TFileRef ts2
          in if ts3 = [] then Some \<lparr>ci_name = name, ci_desc = desc, ci_file = file\<rparr> else None))"

definition p_config :: "token list \<Rightarrow> configInst option" where
  "p_config ts =
    (case opt_tok TIdent ts of
       (None, _) \<Rightarrow> None
     | (Some key, ts1) \<Rightarrow>
         (let req = (lit ''!'' ts1 \<noteq> None);
              ts2 = (case lit ''!'' ts1 of Some r \<Rightarrow> r | None \<Rightarrow> ts1);
              (w, ts3) = opt_eq_word ts2;
              (desc, ts4) = opt_tok TString ts3
          in if ts4 = [] then
               Some \<lparr>gi_key = key, gi_required = req,
                     gi_value = (case w of Some (TIdent, v) \<Rightarrow> Some v | _ \<Rightarrow> None),
                     gi_quoted = (case w of Some (TString, v) \<Rightarrow> Some v | _ \<Rightarrow> None),
                     gi_desc = desc\<rparr>
             else None))"

definition p_bin :: "token list \<Rightarrow> binInst option" where
  "p_bin ts =
    (case opt_tok TIdent ts of
       (None, _) \<Rightarrow> None
     | (Some name, ts1) \<Rightarrow>
         (case opt_tok TIdent ts1 of
            (None, _) \<Rightarrow> None
          | (Some img, ts2) \<Rightarrow>
              (let (desc, ts3) = opt_tok TString ts2
               in if ts3 = [] then Some \<lparr>bi_name = name, bi_image = img, bi_desc = desc\<rparr> else None)))"

definition p_add :: "token list \<Rightarrow> addInst option" where
  "p_add ts =
    (case opt_tok TIdent ts of
       (None, _) \<Rightarrow> None
     | (Some src, ts1) \<Rightarrow>
         (let (name, ts2) = opt_tok TIdent ts1; (desc, ts3) = opt_tok TString ts2
          in if ts3 = [] then Some \<lparr>ai_src = src, ai_name = name, ai_desc = desc\<rparr> else None))"

text \<open>\<^verbatim>\<open>( "," @String )* "]"\<close> after the first argument.\<close>

fun p_exec_rest :: "token list \<Rightarrow> string list option" where
  "p_exec_rest ((t, v) # (t2, v2) # ts) =
    (if v = '','' \<and> t2 = TString then map_option (\<lambda>as. v2 # as) (p_exec_rest ts) else None)"
| "p_exec_rest [(t, v)] = (if v = '']'' then Some [] else None)"
| "p_exec_rest [] = None"

definition p_exec :: "token list \<Rightarrow> string list option" where
  "p_exec ts =
    (case opt_tok TString ts of
       (None, _) \<Rightarrow> None
     | (Some a, ts1) \<Rightarrow> map_option (\<lambda>as. a # as) (p_exec_rest ts1))"

definition p_key_eq_word :: "token list \<Rightarrow> (string \<times> string \<times> token list) option" where
  "p_key_eq_word ts =
    (case opt_tok TIdent ts of
       (None, _) \<Rightarrow> None
     | (Some key, ts1) \<Rightarrow>
         (case opt_eq_word ts1 of (None, _) \<Rightarrow> None | (Some (_, v), ts2) \<Rightarrow> Some (key, v, ts2)))"

definition p_label :: "token list \<Rightarrow> labelInst option" where
  "p_label ts =
    (case p_key_eq_word ts of
       Some (k, v, ts') \<Rightarrow> if ts' = [] then Some \<lparr>li_key = k, li_value = v\<rparr> else None
     | None \<Rightarrow> None)"

definition p_arg :: "token list \<Rightarrow> argInst option" where
  "p_arg ts =
    (case opt_tok TIdent ts of
       (None, _) \<Rightarrow> None
     | (Some key, ts1) \<Rightarrow>
         (let (w, ts2) = opt_eq_word ts1
          in if ts2 = [] then Some \<lparr>ri_key = key, ri_value = map_option snd w\<rparr> else None))"

definition p_env :: "token list \<Rightarrow> envInst option" where
  "p_env ts =
    (case p_key_eq_word ts of
       Some (k, v, ts') \<Rightarrow>
         (let (desc, ts'') = opt_tok TString ts'
          in if ts'' = [] then Some \<lparr>ei_key = k, ei_value = v, ei_desc = desc\<rparr> else None)
     | None \<Rightarrow> None)"

definition p_capability :: "token list \<Rightarrow> string list option" where
  "p_capability ts = (if ts \<noteq> [] \<and> list_all (\<lambda>t. fst t = TIdent) ts then Some (map snd ts) else None)"

definition p_ident :: "token list \<Rightarrow> string option" where
  "p_ident ts = (case opt_tok TIdent ts of (Some v, r) \<Rightarrow> if r = [] then Some v else None | _ \<Rightarrow> None)"

fun p_instruction :: "token list \<Rightarrow> instruction option" where
  "p_instruction [] = None"
| "p_instruction ((ty, kw) # ts) =
    (if kw = ''FROM'' then map_option IFrom (p_ident ts)
     else if kw = ''RUNTIME'' then map_option IRuntime (p_ident ts)
     else if kw = ''MODEL'' then map_option IModel (p_ident ts)
     else if kw = ''NAME'' then map_option IName (p_ident ts)
     else if kw = ''CONTEXT'' then map_option IContext (p_context ts)
     else if kw = ''CONFIG'' then map_option IConfig (p_config ts)
     else if kw = ''BIN'' then map_option IBin (p_bin ts)
     else if kw = ''ADD'' then map_option IAdd (p_add ts)
     else if ty = TExecKeyword then map_option IExec (p_exec ts)
     else if kw = ''LABEL'' then map_option ILabel (p_label ts)
     else if kw = ''ARG'' then map_option IArg (p_arg ts)
     else if kw = ''ENV'' then map_option IEnv (p_env ts)
     else if kw = ''CAPABILITY'' then map_option ICapability (p_capability ts)
     else None)"

definition grammar_parser :: "(string \<Rightarrow> string option) \<Rightarrow> string \<Rightarrow> instruction option" where
  "grammar_parser unq line =
    (case lex [Root] line of
       None \<Rightarrow> None
     | Some ts \<Rightarrow> (case map_tokens unq ts of None \<Rightarrow> None | Some ts' \<Rightarrow> p_instruction ts'))"

end
