(* ===== verification/Reference.thy ===== *)
theory Reference
  imports Validate
begin

text \<open>
  Image references, from \<^verbatim>\<open>spec/reference.go\<close>: parsing and printing
  \<^verbatim>\<open>name:tag\<close>, the registry-host heuristic and the default-registry
  qualification.  Go's -1 of \<^verbatim>\<open>LastIndex\<close> is \<^const>\<open>None\<close>.
\<close>

record Reference =
  ref_name :: string
  ref_tag :: string

definition DefaultTag :: string where
  "DefaultTag = ''latest''"

definition DefaultSyntax :: string where
  "DefaultSyntax = ''openotters/agentfile:1''"

definition SupportedSyntaxes :: "string list" where
  "SupportedSyntaxes = [DefaultSyntax]"

definition ParseReference :: "string \<Rightarrow> Reference" where
  "ParseReference s =
    (let lastSlash = LastIndex s ''/'';
         tagPart = (case lastSlash of Some i \<Rightarrow> drop i s | None \<Rightarrow> s)
     in case LastIndex tagPart '':'' of
          Some idx \<Rightarrow>
            if idx > 0
            then let fullIdx = (case lastSlash of Some i \<Rightarrow> idx + i | None \<Rightarrow> idx)
                 in \<lparr>ref_name = take fullIdx s, ref_tag = drop (Suc fullIdx) s\<rparr>
            else \<lparr>ref_name = s, ref_tag = DefaultTag\<rparr>
        | None \<Rightarrow> \<lparr>ref_name = s, ref_tag = DefaultTag\<rparr>)"

definition ref_String :: "Reference \<Rightarrow> string" where
  "ref_String r =
    (let tag = (if ref_tag r = [] then DefaultTag else ref_tag r)
     in ref_name r @ '':'' @ tag)"

definition IsQualified :: "string \<Rightarrow> bool" where
  "IsQualified name =
    (let parsed = ref_name (ParseReference name);
         first = (case Index parsed ''/'' of Some i \<Rightarrow> take i parsed | None \<Rightarrow> parsed)
     in first = ''localhost'' \<or> ContainsAny first ''.:'')"

definition QualifyWithDefault :: "Reference \<Rightarrow> string \<Rightarrow> Reference" where
  "QualifyWithDefault r defaultRegistry =
    (if defaultRegistry = [] \<or> IsQualified (ref_name r) then r
     else \<lparr>ref_name = defaultRegistry @ ''/'' @ ref_name r, ref_tag = ref_tag r\<rparr>)"

text \<open>\<^verbatim>\<open>Reference.Validate\<close>: true stands for the nil error.\<close>

definition ref_Validate :: "Reference \<Rightarrow> bool" where
  "ref_Validate r \<longleftrightarrow> ref_name r \<noteq> []"

record ReferenceWithDigest =
  rwd_reference :: Reference
  rwd_digest :: string

definition rwd_String :: "ReferenceWithDigest \<Rightarrow> string" where
  "rwd_String r = ref_String (rwd_reference r) @ ''@'' @ rwd_digest r"


section \<open>Parsing and printing\<close>

text \<open>The tag separator: the last colon, when nothing after it is a slash and
  something stands before it.\<close>

lemma ParseReference_tagged:
  assumes "CHR ''/'' \<notin> set t" "CHR '':'' \<notin> set t" "n \<noteq> []"
  shows "ParseReference (n @ '':'' @ t) = \<lparr>ref_name = n, ref_tag = t\<rparr>"
proof (cases "LastIndex n ''/''")
  case None
  then have n: "CHR ''/'' \<notin> set n" by (simp add: LastIndex_char_None_iff)
  then have "LastIndex (n @ CHR '':'' # t) ''/'' = None"
    using assms(1) by (simp add: LastIndex_char_None_iff)
  then show ?thesis
    using assms by (simp add: ParseReference_def LastIndex_char_append)
next
  case (Some i)
  note sp = LastIndex_char_split [OF Some]
  define a b where "a = take i n" and "b = drop (Suc i) n"
  have n: "n = a @ CHR ''/'' # b" and b: "CHR ''/'' \<notin> set b" and i: "i = length a"
    using sp by (simp_all add: a_def b_def)
  have "LastIndex (a @ CHR ''/'' # (b @ CHR '':'' # t)) ''/'' = Some (length a)"
    using assms(1) b by (intro LastIndex_char_append) simp
  moreover have "LastIndex ((CHR ''/'' # b) @ CHR '':'' # t) '':'' = Some (Suc (length b))"
    using LastIndex_char_append [OF assms(2), of "CHR ''/'' # b"] by simp
  ultimately show ?thesis by (simp add: ParseReference_def n)
qed

text \<open>A string without such a separator is a bare name.\<close>

lemma ParseReference_cases:
  obtains (bare) "ParseReference s = \<lparr>ref_name = s, ref_tag = DefaultTag\<rparr>"
  | (tagged) n t where "s = n @ '':'' @ t" "n \<noteq> []" "CHR ''/'' \<notin> set t" "CHR '':'' \<notin> set t"
      "ParseReference s = \<lparr>ref_name = n, ref_tag = t\<rparr>"
proof -
  define tp where "tp = (case LastIndex s ''/'' of Some i \<Rightarrow> drop i s | None \<Rightarrow> s)"
  define pre where "pre = (case LastIndex s ''/'' of Some i \<Rightarrow> take i s | None \<Rightarrow> [])"
  have s: "s = pre @ tp" by (simp add: tp_def pre_def split: option.splits)
  have tl_slash: "CHR ''/'' \<notin> set (tl tp)"
  proof (cases "LastIndex s ''/''")
    case None
    then have "CHR ''/'' \<notin> set s" by (simp add: LastIndex_char_None_iff)
    moreover have "tp = s" using None by (simp add: tp_def)
    ultimately show ?thesis by (cases s) auto
  next
    case (Some i)
    then show ?thesis
      using LastIndex_char_split [OF Some] by (simp add: tp_def tl_drop drop_Suc [symmetric])
  qed
  show ?thesis
  proof (cases "\<exists>idx. LastIndex tp '':'' = Some idx \<and> idx > 0")
    case False
    then have "ParseReference s = \<lparr>ref_name = s, ref_tag = DefaultTag\<rparr>"
      unfolding ParseReference_def Let_def tp_def [symmetric] by (auto split: option.splits)
    then show ?thesis by (rule bare)
  next
    case True
    then obtain idx where idx: "LastIndex tp '':'' = Some idx" "idx > 0" by blast
    note sp = LastIndex_char_split [OF idx(1)]
    define n t where "n = pre @ take idx tp" and "t = drop (Suc idx) tp"
    have st: "s = n @ '':'' @ t" using s sp(1) by (simp add: n_def t_def)
    have "set t \<subseteq> set (tl tp)" using sp idx(2) by (simp add: t_def drop_Suc set_drop_subset)
    then have t: "CHR ''/'' \<notin> set t" "CHR '':'' \<notin> set t" using tl_slash sp(2) by (auto simp: t_def)
    have n: "n \<noteq> []" using idx(2) sp(3) by (auto simp: n_def)
    show ?thesis by (rule tagged [OF st n t]) (simp only: st ParseReference_tagged [OF t n])
  qed
qed

lemma ref_String_tagged: "t \<noteq> [] \<Longrightarrow> ref_String \<lparr>ref_name = n, ref_tag = t\<rparr> = n @ '':'' @ t"
  by (simp add: ref_String_def)

lemma DefaultTag_facts [simp]:
  "DefaultTag \<noteq> []" "CHR ''/'' \<notin> set DefaultTag" "CHR '':'' \<notin> set DefaultTag"
  by (simp_all add: DefaultTag_def)

lemma ParseReference_name_nonempty: "s \<noteq> [] \<Longrightarrow> ref_name (ParseReference s) \<noteq> []"
  by (cases s rule: ParseReference_cases) simp_all

lemma ParseReference_tag_clean:
  "CHR ''/'' \<notin> set (ref_tag (ParseReference s)) \<and> CHR '':'' \<notin> set (ref_tag (ParseReference s))"
  by (cases s rule: ParseReference_cases) simp_all


section \<open>Qualification\<close>

text \<open>What makes a first path segment a registry host.\<close>

definition host_like :: "string \<Rightarrow> bool" where
  "host_like h \<longleftrightarrow> h = ''localhost'' \<or> ContainsAny h ''.:''"

lemma first_segment:
  "(case Index p ''/'' of Some i \<Rightarrow> take i p | None \<Rightarrow> p) = takeWhile (\<lambda>c. c \<noteq> CHR ''/'') p"
proof (induction p)
  case (Cons c p)
  then show ?case by (cases "Index p ''/''") auto
qed simp

lemma IsQualified_alt:
  "IsQualified s \<longleftrightarrow> host_like (takeWhile (\<lambda>c. c \<noteq> CHR ''/'') (ref_name (ParseReference s)))"
  by (simp add: IsQualified_def Let_def first_segment host_like_def)

lemma ParseReference_keeps_dir:
  "\<exists>m. ref_name (ParseReference (d @ CHR ''/'' # n)) = d @ CHR ''/'' # m"
proof (cases "d @ CHR ''/'' # n" rule: ParseReference_cases)
  case bare
  then show ?thesis by simp
next
  case (tagged a t)
  from tagged(1) have "d @ CHR ''/'' # n = a @ CHR '':'' # t" by simp
  then consider us where "a = d @ CHR ''/'' # us" | us where "t = us @ CHR ''/'' # n"
    by (auto simp: append_eq_append_conv2 Cons_eq_append_conv append_eq_Cons_conv)
  then show ?thesis
  proof cases
    case 1
    then show ?thesis using tagged(5) by simp
  next
    case 2
    then show ?thesis using tagged(3) by simp
  qed
qed

lemma IsQualified_dir:
  "IsQualified (d @ CHR ''/'' # n) \<longleftrightarrow> host_like (takeWhile (\<lambda>c. c \<noteq> CHR ''/'') d)"
proof -
  obtain m where "ref_name (ParseReference (d @ CHR ''/'' # n)) = d @ CHR ''/'' # m"
    using ParseReference_keeps_dir by blast
  moreover have "takeWhile (\<lambda>c. c \<noteq> CHR ''/'') (d @ CHR ''/'' # m) = takeWhile (\<lambda>c. c \<noteq> CHR ''/'') d"
    by (induction d) auto
  ultimately show ?thesis by (simp add: IsQualified_alt)
qed


section \<open>Properties\<close>

text \<open>Printing a reference whose name is non-empty and whose tag is a plain
  tag, and parsing the result, gives the reference back.\<close>

theorem parse_print_reference:
  assumes "ref_name r \<noteq> []" "ref_tag r \<noteq> []"
    and "CHR ''/'' \<notin> set (ref_tag r)" "CHR '':'' \<notin> set (ref_tag r)"
  shows "ParseReference (ref_String r) = r"
proof -
  have "ref_String r = ref_name r @ '':'' @ ref_tag r" using assms(2) by (simp add: ref_String_def)
  then show ?thesis using ParseReference_tagged [OF assms(3,4,1)] by simp
qed

theorem parse_print_reference_witness:
  "ParseReference (ref_String \<lparr>ref_name = ''ghcr.io:443/agents/meteo'', ref_tag = ''v1''\<rparr>)
     = \<lparr>ref_name = ''ghcr.io:443/agents/meteo'', ref_tag = ''v1''\<rparr>"
  by (rule parse_print_reference) simp_all

text \<open>Normalisation is idempotent: the printed form of a parsed non-empty
  string is a fixed point of parse-then-print, whatever the string was (with
  a port, without a tag, with an empty tag).\<close>

theorem reference_normal_form:
  assumes "s \<noteq> []"
  shows "ref_String (ParseReference (ref_String (ParseReference s))) = ref_String (ParseReference s)"
proof -
  define r where "r = ParseReference s"
  define t where "t = (if ref_tag r = [] then DefaultTag else ref_tag r)"
  have name: "ref_name r \<noteq> []" using assms by (simp add: r_def ParseReference_name_nonempty)
  have t: "t \<noteq> []" "CHR ''/'' \<notin> set t" "CHR '':'' \<notin> set t"
    using ParseReference_tag_clean [of s] by (auto simp: t_def r_def)
  have str: "ref_String r = ref_name r @ '':'' @ t" by (simp add: ref_String_def t_def)
  have "ParseReference (ref_String r) = \<lparr>ref_name = ref_name r, ref_tag = t\<rparr>"
    unfolding str by (rule ParseReference_tagged [OF t(2,3) name])
  then show ?thesis using str ref_String_tagged [OF t(1)] by (simp add: r_def)
qed

theorem reference_normal_form_witness:
  "ref_String (ParseReference (ref_String (ParseReference ''localhost:5000/a:''))) =
     ref_String (ParseReference ''localhost:5000/a:'')"
  by (rule reference_normal_form) simp

text \<open>With a default registry that starts with a registry host, the
  qualified reference carries a host, keeps its tag, is changed by at most
  the prefix, and qualifying it again (with any default) changes nothing.\<close>

theorem qualify_with_default:
  assumes "host_like (takeWhile (\<lambda>c. c \<noteq> CHR ''/'') d)"
  shows "IsQualified (ref_name (QualifyWithDefault r d)) \<and>
    ref_tag (QualifyWithDefault r d) = ref_tag r \<and>
    ref_name (QualifyWithDefault r d) \<in> {ref_name r, d @ ''/'' @ ref_name r} \<and>
    QualifyWithDefault (QualifyWithDefault r d) d' = QualifyWithDefault r d"
proof -
  have "d \<noteq> []" using assms by (auto simp: host_like_def ContainsAny_def)
  then have q: "IsQualified (ref_name (QualifyWithDefault r d))"
    using assms IsQualified_dir [of d] by (simp add: QualifyWithDefault_def)
  then have "QualifyWithDefault (QualifyWithDefault r d) d' = QualifyWithDefault r d"
    unfolding QualifyWithDefault_def [of "QualifyWithDefault r d"] by simp
  with q show ?thesis by (simp add: QualifyWithDefault_def)
qed

theorem qualify_with_default_witness:
  "QualifyWithDefault \<lparr>ref_name = ''agents/meteo'', ref_tag = ''v1''\<rparr> ''ghcr.io/openotters''
     = \<lparr>ref_name = ''ghcr.io/openotters/agents/meteo'', ref_tag = ''v1''\<rparr> \<and>
   IsQualified (ref_name (QualifyWithDefault \<lparr>ref_name = ''agents/meteo'', ref_tag = ''v1''\<rparr>
     ''ghcr.io/openotters''))"
proof
  show "QualifyWithDefault \<lparr>ref_name = ''agents/meteo'', ref_tag = ''v1''\<rparr> ''ghcr.io/openotters''
     = \<lparr>ref_name = ''ghcr.io/openotters/agents/meteo'', ref_tag = ''v1''\<rparr>"
    by code_simp
  show "IsQualified (ref_name (QualifyWithDefault \<lparr>ref_name = ''agents/meteo'', ref_tag = ''v1''\<rparr>
     ''ghcr.io/openotters''))"
    by (rule qualify_with_default [THEN conjunct1]) (simp add: host_like_def ContainsAny_def)
qed

end
