(* ===== verification/Parse.thy ===== *)
theory Parse
  imports Grammar Reference
begin

text \<open>
  The parser of \<^verbatim>\<open>spec/parse.go\<close>.  The line loop reads the lines a
  \<^verbatim>\<open>bufio.Scanner\<close> delivers; a heredoc consumes further lines inside one
  iteration.  The record \<open>lib\<close> holds what the code calls and this development
  does not define: the instruction parser (participle), \<^verbatim>\<open>strings.ToUpper\<close> on
  a string with a non-ASCII byte, \<^verbatim>\<open>strconv.ParseFloat\<close>, and the order in
  which Go iterates over the ARG map on a given line.  Every theorem here
  holds for every such record unless it says otherwise.
\<close>


section \<open>Parameters\<close>

record lib =
  lib_inst_parser :: "string \<Rightarrow> string + instruction"
  lib_ToUpper :: "string \<Rightarrow> string"
  lib_ParseFloat :: "string \<Rightarrow> f64 option"
  lib_range :: "nat \<Rightarrow> (string, string) gomap \<Rightarrow> string list"


section \<open>Text helpers\<close>

definition is_ascii :: "char \<Rightarrow> bool" where
  "is_ascii c \<longleftrightarrow> c < CHR 0x80"

definition ascii_upper :: "char \<Rightarrow> char" where
  "ascii_upper c = (if is_lower c then char_of (of_char c - 32 :: nat) else c)"

definition ToUpper :: "lib \<Rightarrow> string \<Rightarrow> string" where
  "ToUpper L s = (if list_all is_ascii s then map ascii_upper s else lib_ToUpper L s)"

definition normalizeKeyword :: "lib \<Rightarrow> string \<Rightarrow> string" where
  "normalizeKeyword L line =
    (case IndexAny line [CHR '' '', CHR 0x09] of
       None \<Rightarrow> ToUpper L line
     | Some i \<Rightarrow> ToUpper L (take i line) @ drop i line)"

fun splitQuoted_loop :: "string \<Rightarrow> string list \<Rightarrow> string \<Rightarrow> bool \<Rightarrow> string list" where
  "splitQuoted_loop [] parts current inQuote =
    (if current \<noteq> [] then parts @ [current] else parts)"
| "splitQuoted_loop (c # s) parts current inQuote =
    (if c = CHR 0x22 \<and> \<not> inQuote then splitQuoted_loop s parts (current @ [c]) True
     else if c = CHR 0x22 \<and> inQuote then splitQuoted_loop s parts (current @ [c]) False
     else if (c = CHR '' '' \<or> c = CHR 0x09) \<and> \<not> inQuote then
       (if current \<noteq> [] then splitQuoted_loop s (parts @ [current]) [] inQuote
        else splitQuoted_loop s parts current inQuote)
     else splitQuoted_loop s parts (current @ [c]) inQuote)"

definition splitQuoted :: "string \<Rightarrow> string list" where
  "splitQuoted s = splitQuoted_loop s [] [] False"

definition arg_pattern :: "string \<Rightarrow> string" where
  "arg_pattern k = ''${'' @ k @ ''}''"

text \<open>\<open>ks\<close> is the order in which this execution of the loop visits the map.\<close>

definition expandArgs :: "string \<Rightarrow> (string, string) gomap \<Rightarrow> string list \<Rightarrow> string" where
  "expandArgs s args ks =
    (if \<not> Contains s ''${'' then s
     else fold (\<lambda>k t. case fmlookup args k of
                        Some v \<Rightarrow> ReplaceAll t (arg_pattern k) v | None \<Rightarrow> t) ks s)"

definition parseConfigValue :: "lib \<Rightarrow> string \<Rightarrow> config_value" where
  "parseConfigValue L s =
    (if s = ''true'' then VBool True
     else if s = ''false'' then VBool False
     else case ParseInt64 s of
            Some n \<Rightarrow> VInt n
          | None \<Rightarrow> (case lib_ParseFloat L s of Some f \<Rightarrow> VFloat f | None \<Rightarrow> VString s))"


section \<open>Instructions\<close>

definition newAgent :: Agent where
  "newAgent =
    \<lparr>ag_from = [], ag_runtime = [], ag_model = [], ag_name = [], ag_contexts = [], ag_configs = [],
     ag_bins = [], ag_adds = [], ag_exec = [], ag_labels = fmempty, ag_args = fmempty,
     ag_envs = [], ag_capabilities = [], ag_mounts = []\<rparr>"

definition or_empty :: "string option \<Rightarrow> string" where
  "or_empty d = (case d of Some s \<Rightarrow> s | None \<Rightarrow> [])"

definition add_capability :: "string \<Rightarrow> string list \<Rightarrow> string list" where
  "add_capability name caps = (if name = [] then caps else add_new name caps)"

definition applyInstruction :: "lib \<Rightarrow> Agent \<Rightarrow> instruction \<Rightarrow> string \<Rightarrow> Agent" where
  "applyInstruction L agent inst heredoc =
    (case inst of
       IFrom x \<Rightarrow> agent\<lparr>ag_from := x\<rparr>
     | IRuntime x \<Rightarrow> agent\<lparr>ag_runtime := x, ag_configs := []\<rparr>
     | IModel x \<Rightarrow> agent\<lparr>ag_model := x\<rparr>
     | IName x \<Rightarrow> agent\<lparr>ag_name := x\<rparr>
     | IContext c \<Rightarrow>
         (let ctx = \<lparr>ctx_name = ci_name c, ctx_description = or_empty (ci_desc c),
                     ctx_content = heredoc, ctx_file = or_empty (ci_file c)\<rparr>
          in agent\<lparr>ag_contexts := upsert ctx_name ctx (ag_contexts agent)\<rparr>)
     | IConfig c \<Rightarrow>
         (let v = (case gi_quoted c of
                     Some q \<Rightarrow> Some (VString q)
                   | None \<Rightarrow> map_option (parseConfigValue L) (gi_value c));
              cfg = \<lparr>cfg_key = gi_key c, cfg_value = v,
                     cfg_description = or_empty (gi_desc c), cfg_required = gi_required c\<rparr>
          in agent\<lparr>ag_configs := ag_configs agent @ [cfg]\<rparr>)
     | IBin b \<Rightarrow>
         agent\<lparr>ag_bins := ag_bins agent @
           [\<lparr>bin_name = bi_name b, bin_image = bi_image b,
             bin_description = or_empty (bi_desc b), bin_usage = heredoc\<rparr>]\<rparr>
     | IAdd d \<Rightarrow>
         (let name = (case ai_name d of Some n \<Rightarrow> n | None \<Rightarrow> path_Base (ai_src d))
          in agent\<lparr>ag_adds := ag_adds agent @
               [\<lparr>add_src = ai_src d, add_name = name,
                 add_description = or_empty (ai_desc d), add_content = []\<rparr>]\<rparr>)
     | ILabel l \<Rightarrow> agent\<lparr>ag_labels := fmupd (li_key l) (li_value l) (ag_labels agent)\<rparr>
     | IExec args \<Rightarrow> agent\<lparr>ag_exec := args\<rparr>
     | IArg r \<Rightarrow>
         (case ri_value r of
            Some v \<Rightarrow> agent\<lparr>ag_args := fmupd (ri_key r) v (ag_args agent)\<rparr>
          | None \<Rightarrow> agent)
     | IEnv e \<Rightarrow>
         agent\<lparr>ag_envs := ag_envs agent @
           [\<lparr>env_key = ei_key e, env_value = ei_value e, env_description = or_empty (ei_desc e)\<rparr>]\<rparr>
     | ICapability names \<Rightarrow>
         agent\<lparr>ag_capabilities := fold add_capability names (ag_capabilities agent)\<rparr>)"


section \<open>Heredocs\<close>

datatype heredoc_err = Unterminated string | SliceOutOfRange

text \<open>The loop of \<^verbatim>\<open>extractHeredoc\<close>: the text collected, how many lines it took,
  and the lines after the marker.\<close>

fun heredoc_loop :: "string \<Rightarrow> string list \<Rightarrow> string \<Rightarrow> nat \<Rightarrow> (string \<times> nat \<times> string list) option" where
  "heredoc_loop marker [] b n = None"
| "heredoc_loop marker (text # rest) b n =
    (if TrimSpace text = marker then Some (TrimRight b [CHR 0x0A], Suc n, rest)
     else heredoc_loop marker rest (b @ text @ [CHR 0x0A]) (Suc n))"

definition heredoc_marker :: "string \<Rightarrow> string option" where
  "heredoc_marker line =
    (let parts = splitQuoted line
     in if parts = [] then None
        else if \<not> HasPrefix (last parts) ''<<'' then None
        else let marker = TrimPrefix (last parts) ''<<''
             in if marker = [] then None else Some marker)"

definition extractHeredoc ::
  "string \<Rightarrow> string list \<Rightarrow> (heredoc_err, string \<times> string \<times> nat \<times> string list) res" where
  "extractHeredoc line rest =
    (case heredoc_marker line of
       None \<Rightarrow> Inr (line, [], 0, rest)
     | Some marker \<Rightarrow>
         (case LastIndex line (last (splitQuoted line)) of
            None \<Rightarrow> Inl SliceOutOfRange
          | Some idx \<Rightarrow>
              (case heredoc_loop marker rest [] 0 of
                 None \<Rightarrow> Inl (Unterminated marker)
               | Some (body, n, rest') \<Rightarrow> Inr (TrimSpace (take idx line), body, n, rest'))))"


section \<open>The line loop\<close>

record pstate =
  ps_line :: nat
  ps_first :: string
  ps_from_seen :: bool
  ps_syntax :: string
  ps_agent :: Agent

datatype perr =
    ByteOrderMark
  | SyntaxNotFirst nat
  | SyntaxUnsupported nat string
  | HeredocErr nat heredoc_err
  | InstructionErr nat string
  | FromTwice nat
  | FileAndHeredoc nat string
  | ReadErr scan_err
  | FromNotFirst
  | Invalid verr
  | OpenErr

definition validateSyntax :: "string \<Rightarrow> bool" where
  "validateSyntax syn \<longleftrightarrow> syn \<in> set SupportedSyntaxes"

definition handleComment :: "string \<Rightarrow> pstate \<Rightarrow> (perr, pstate) res" where
  "handleComment trimmed st =
    (if \<not> HasPrefix trimmed ''# syntax='' then Inr st
     else if ps_line st \<noteq> 1 then Inl (SyntaxNotFirst (ps_line st))
     else let syn = TrimPrefix trimmed ''# syntax=''
          in if validateSyntax syn then Inr (st\<lparr>ps_syntax := syn\<rparr>)
             else Inl (SyntaxUnsupported (ps_line st) syn))"

definition bom :: string where
  "bom = [CHR 0xEF, CHR 0xBB, CHR 0xBF]"

fun is_from :: "instruction \<Rightarrow> bool" where
  "is_from (IFrom _) = True"
| "is_from _ = False"

definition file_context :: "instruction \<Rightarrow> bool" where
  "file_context i = (case i of IContext c \<Rightarrow> ci_file c \<noteq> None | _ \<Rightarrow> False)"

definition context_name :: "instruction \<Rightarrow> string" where
  "context_name i = (case i of IContext c \<Rightarrow> ci_name c | _ \<Rightarrow> [])"

text \<open>The part of an iteration after the instruction has been parsed.\<close>

definition step_instruction :: "lib \<Rightarrow> instruction \<Rightarrow> string \<Rightarrow> pstate \<Rightarrow> (perr, pstate) res" where
  "step_instruction L inst heredoc st =
    (let st1 = (if ps_first st = [] then st\<lparr>ps_first := instructionType inst\<rparr> else st)
     in if is_from inst \<and> ps_from_seen st1 then Inl (FromTwice (ps_line st1))
        else let st2 = (if is_from inst then st1\<lparr>ps_from_seen := True\<rparr> else st1)
             in if file_context inst \<and> heredoc \<noteq> []
                then Inl (FileAndHeredoc (ps_line st2) (context_name inst))
                else Inr (st2\<lparr>ps_agent := applyInstruction L (ps_agent st2) inst heredoc\<rparr>))"

text \<open>One iteration: the line \<open>text\<close>, the lines still unread, the parser state.\<close>

definition parse_line ::
  "lib \<Rightarrow> string \<Rightarrow> string list \<Rightarrow> pstate \<Rightarrow> (perr, pstate \<times> string list) res" where
  "parse_line L text rest st0 =
    (let st = st0\<lparr>ps_line := Suc (ps_line st0)\<rparr>; trimmed = TrimSpace text
     in if ps_line st = 1 \<and> HasPrefix text bom then Inl ByteOrderMark
        else if trimmed = [] then Inr (st, rest)
        else if HasPrefix trimmed ''#'' then
          (case handleComment trimmed st of Inl e \<Rightarrow> Inl e | Inr st' \<Rightarrow> Inr (st', rest))
        else
          (case extractHeredoc trimmed rest of
             Inl e \<Rightarrow>
               Inl (HeredocErr (ps_line st + (case e of Unterminated _ \<Rightarrow> length rest | _ \<Rightarrow> 0)) e)
           | Inr (line, heredoc, n, rest') \<Rightarrow>
               (let st1 = st\<lparr>ps_line := ps_line st + n\<rparr>;
                    args = ag_args (ps_agent st1);
                    line1 = expandArgs line args (lib_range L (ps_line st1) args)
                in case lib_inst_parser L (normalizeKeyword L line1) of
                     Inl msg \<Rightarrow> Inl (InstructionErr (ps_line st1) msg)
                   | Inr inst \<Rightarrow>
                       (case step_instruction L inst heredoc st1 of
                          Inl e \<Rightarrow> Inl e
                        | Inr st2 \<Rightarrow> Inr (st2, rest')))))"

lemma heredoc_loop_length:
  "heredoc_loop m ls b n = Some (body, k, rest) \<Longrightarrow> length rest < length ls"
  by (induction m ls b n rule: heredoc_loop.induct) (auto split: if_splits)

lemma extractHeredoc_length:
  "extractHeredoc line ls = Inr (l, h, n, rest) \<Longrightarrow> length rest \<le> length ls"
  by (auto simp: extractHeredoc_def dest: heredoc_loop_length split: option.splits prod.splits)

lemma parse_line_length:
  "parse_line L text ls st = Inr (st', rest) \<Longrightarrow> length rest \<le> length ls"
  by (auto simp: parse_line_def Let_def dest: extractHeredoc_length
      split: if_splits sum.splits prod.splits)

function parse_loop :: "lib \<Rightarrow> string list \<Rightarrow> pstate \<Rightarrow> (perr, pstate) res" where
  "parse_loop L [] st = Inr st"
| "parse_loop L (text # rest) st =
    (case parse_line L text rest st of
       Inl e \<Rightarrow> Inl e
     | Inr (st', rest') \<Rightarrow> parse_loop L rest' st')"
  by pat_completeness auto
termination
  by (relation "measure (\<lambda>(L, ls, st). length ls)") (auto dest: parse_line_length)

definition init_state :: pstate where
  "init_state =
    \<lparr>ps_line = 0, ps_first = [], ps_from_seen = False, ps_syntax = [], ps_agent = newAgent\<rparr>"

definition validate :: "Agentfile \<Rightarrow> (perr, Agentfile) res" where
  "validate af = (case Validate (Some af) of Some e \<Rightarrow> Inl (Invalid e) | None \<Rightarrow> Inr af)"

definition Parse :: "lib \<Rightarrow> reader \<Rightarrow> (perr, Agentfile) res" where
  "Parse L r =
    (case parse_loop L (scan_lines r) init_state of
       Inl e \<Rightarrow> Inl e
     | Inr st \<Rightarrow>
         (case scan_error r of
            Some e \<Rightarrow> Inl (ReadErr e)
          | None \<Rightarrow>
              if ps_first st \<noteq> [] \<and> ps_first st \<noteq> ''FROM'' then Inl FromNotFirst
              else validate
                \<lparr>af_syntax = (if ps_syntax st = [] then DefaultSyntax else ps_syntax st),
                 af_agent = Some (ps_agent st)\<rparr>))"

text \<open>\<^verbatim>\<open>ParseFile\<close>: \<^const>\<open>None\<close> is a path that cannot be opened.\<close>

definition ParseFile :: "lib \<Rightarrow> (string \<Rightarrow> reader option) \<Rightarrow> string \<Rightarrow> (perr, Agentfile) res" where
  "ParseFile L fs path =
    (case fs path of None \<Rightarrow> Inl OpenErr | Some r \<Rightarrow> Parse L r)"


section \<open>Heredoc extraction\<close>

lemma splitQuoted_loop_infix:
  "p \<in> set (splitQuoted_loop s parts cur q) \<Longrightarrow> p \<in> set parts \<or> (\<exists>a b. cur @ s = a @ p @ b)"
proof (induction s parts cur q rule: splitQuoted_loop.induct)
  case (1 parts cur q)
  have "\<exists>a b. cur @ [] = a @ cur @ b" by (metis append_Nil)
  then show ?case using 1 by (auto split: if_splits)
next
  case (2 c s parts cur q)
  have reset: "\<exists>a b. cur @ c # s = a @ p @ b" if "\<exists>a b. s = a @ p @ b"
    using that by (metis append.assoc append_Cons append_Nil)
  have cur: "\<exists>a b. cur @ c # s = a @ cur @ b" by (metis append_Nil)
  show ?case
    using 2 reset cur by (auto split: if_splits)
qed

lemma splitQuoted_infix: "p \<in> set (splitQuoted s) \<Longrightarrow> \<exists>a b. s = a @ p @ b"
  using splitQuoted_loop_infix [of p s "[]" "[]" False] by (simp add: splitQuoted_def)

text \<open>When the string does not end in white space its last part is a suffix.\<close>

lemma splitQuoted_loop_last:
  assumes "s = [] \<longrightarrow> cur \<noteq> []" "s \<noteq> [] \<longrightarrow> \<not> is_ws (last s)"
  shows "splitQuoted_loop s parts cur q \<noteq> [] \<and>
         (\<exists>a. cur @ s = a @ last (splitQuoted_loop s parts cur q))"
  using assms
proof (induction s parts cur q rule: splitQuoted_loop.induct)
  case (1 parts cur q)
  then show ?case by auto
next
  case (2 c s parts cur q)
  have s: "s \<noteq> [] \<longrightarrow> \<not> is_ws (last s)" using "2.prems"(2) by auto
  show ?case
  proof (cases "(c = CHR '' '' \<or> c = CHR 0x09) \<and> \<not> q")
    case True
    then have "s \<noteq> []" using "2.prems"(2) by (auto simp: is_ws_def)
    then have reset: "s = [] \<longrightarrow> [] \<noteq> ([] :: string)" and ne: "s = [] \<longrightarrow> cur \<noteq> []" by auto
    have "c \<noteq> CHR 0x22" using True by auto
    show ?thesis
    proof (cases "cur = []")
      case True2: True
      have "splitQuoted_loop s parts [] q \<noteq> [] \<and> (\<exists>a. s = a @ last (splitQuoted_loop s parts [] q))"
        using "2.IH"(4) True True2 s \<open>s \<noteq> []\<close> \<open>c \<noteq> CHR 0x22\<close> by simp
      then show ?thesis
        using True True2 \<open>c \<noteq> CHR 0x22\<close> by (auto intro: exI [of _ "c # a" for a])
    next
      case False
      have "splitQuoted_loop s (parts @ [cur]) [] q \<noteq> [] \<and>
          (\<exists>a. s = a @ last (splitQuoted_loop s (parts @ [cur]) [] q))"
        using "2.IH"(3) True False s \<open>s \<noteq> []\<close> \<open>c \<noteq> CHR 0x22\<close> by simp
      then obtain a where "s = a @ last (splitQuoted_loop s (parts @ [cur]) [] q)"
        and "splitQuoted_loop s (parts @ [cur]) [] q \<noteq> []" by blast
      then show ?thesis
        using True False \<open>c \<noteq> CHR 0x22\<close>
        by (auto intro!: exI [of _ "cur @ c # a"])
    qed
  next
    case False
    then show ?thesis using "2.IH"(1,2,5) s by (cases q) auto
  qed
qed

lemma TrimSpace_last_not_ws: "TrimSpace s \<noteq> [] \<Longrightarrow> \<not> is_ws (last (TrimSpace s))"
proof
  assume ne: "TrimSpace s \<noteq> []" and ws: "is_ws (last (TrimSpace s))"
  have "HasSuffix (TrimSpace s) [last (TrimSpace s)]"
    using ne by (metis HasSuffix_append append_butlast_last_id)
  moreover have "[last (TrimSpace s)] \<in> set space_runes"
    using ws by (auto simp: is_ws_def space_runes_def)
  ultimately show False
    using TrimSpace_clean(2) [of s] by (auto simp: trailing_space_def find_None_iff)
qed

lemma splitQuoted_last_suffix:
  assumes "TrimSpace line = line" "line \<noteq> []"
  shows "splitQuoted line \<noteq> []" "\<exists>a. line = a @ last (splitQuoted line)"
  using splitQuoted_loop_last [of line "[]" "[]" False] TrimSpace_last_not_ws [of line] assms
  by (simp_all add: splitQuoted_def)

lemma heredoc_marker_SomeD:
  assumes "heredoc_marker line = Some m"
  shows "last (splitQuoted line) = ''<<'' @ m" "m \<noteq> []" "splitQuoted line \<noteq> []"
  using assms HasPrefix_decomp [of "last (splitQuoted line)" "''<<''"]
  by (auto simp: heredoc_marker_def Let_def split: if_splits)

lemma extractHeredoc_no_panic: "extractHeredoc line rest \<noteq> Inl SliceOutOfRange"
proof (cases "heredoc_marker line")
  case None
  then show ?thesis by (simp add: extractHeredoc_def)
next
  case (Some m)
  have "last (splitQuoted line) \<in> set (splitQuoted line)"
    using heredoc_marker_SomeD(3) [OF Some] by simp
  then have "LastIndex line (last (splitQuoted line)) \<noteq> None"
    using splitQuoted_infix unfolding LastIndex_None_iff by blast
  then show ?thesis using Some by (auto simp: extractHeredoc_def split: option.splits)
qed

lemma heredoc_loop_found:
  assumes "TrimSpace close = m" "\<forall>l \<in> set body. TrimSpace l \<noteq> m"
  shows "heredoc_loop m (body @ close # rest) b n =
    Some (TrimRight (b @ concat (map (\<lambda>l. l @ [CHR 0x0A]) body)) [CHR 0x0A],
          Suc (n + length body), rest)"
  using assms by (induction body arbitrary: b n) simp_all

lemma heredoc_loop_None_iff:
  "heredoc_loop m ls b n = None \<longleftrightarrow> (\<forall>l \<in> set ls. TrimSpace l \<noteq> m)"
  by (induction m ls b n rule: heredoc_loop.induct) simp_all

lemma heredoc_loop_count:
  "heredoc_loop m ls b n = Some (body, k, rest) \<Longrightarrow> k + length rest = n + length ls"
  by (induction m ls b n rule: heredoc_loop.induct) (auto split: if_splits)

lemma concat_newlines_Join:
  "body \<noteq> [] \<Longrightarrow> concat (map (\<lambda>l. l @ [CHR 0x0A]) body) = Join body [CHR 0x0A] @ [CHR 0x0A]"
proof (induction body)
  case (Cons l ls)
  then show ?case by (cases ls) simp_all
qed simp

lemma heredoc_text:
  "TrimRight (concat (map (\<lambda>l. l @ [CHR 0x0A]) body)) [CHR 0x0A] =
     TrimRight (Join body [CHR 0x0A]) [CHR 0x0A]"
  by (cases "body = []") (simp_all add: concat_newlines_Join TrimRight_append_cut)

end
