(* ===== verification/Env.thy ===== *)
theory Env
  imports Paths Parse
begin

text \<open>
  The locked-down spawn environment, from \<^verbatim>\<open>executor/env.go\<close> and
  \<^verbatim>\<open>executor/system/process.go\<close>: the base set of variables, the CONFIG export,
  the user ENV filter, and the argument vector of the runtime.  An
  environment is the list of \<^verbatim>\<open>KEY=value\<close> strings handed to os/exec, where the
  last entry of a key wins (\<open>getenv\<close>).
\<close>


section \<open>CONFIG keys as variable names\<close>

definition byte_in :: "nat \<Rightarrow> nat \<Rightarrow> char \<Rightarrow> bool" where
  "byte_in lo hi c \<longleftrightarrow> lo \<le> of_char c \<and> of_char c \<le> hi"

abbreviation is_cont :: "char \<Rightarrow> bool" where
  "is_cont \<equiv> byte_in 0x80 0xBF"

text \<open>The width of the first rune of a byte string as Go's \<^verbatim>\<open>range\<close> steps over it:
  an invalid encoding advances by one byte.\<close>

definition rune_width :: "string \<Rightarrow> nat" where
  "rune_width s =
    (case s of
       [] \<Rightarrow> 0
     | a # r \<Rightarrow>
         (let b = (case r of [] \<Rightarrow> CHR 0x00 | x # _ \<Rightarrow> x);
              c = (case r of _ # x # _ \<Rightarrow> x | _ \<Rightarrow> CHR 0x00);
              d = (case r of _ # _ # x # _ \<Rightarrow> x | _ \<Rightarrow> CHR 0x00)
          in if byte_in 0xC2 0xDF a \<and> is_cont b then 2
             else if (byte_in 0xE0 0xE0 a \<and> byte_in 0xA0 0xBF b \<or>
                      byte_in 0xE1 0xEC a \<and> is_cont b \<or>
                      byte_in 0xED 0xED a \<and> byte_in 0x80 0x9F b \<or>
                      byte_in 0xEE 0xEF a \<and> is_cont b) \<and> is_cont c then 3
             else if (byte_in 0xF0 0xF0 a \<and> byte_in 0x90 0xBF b \<or>
                      byte_in 0xF1 0xF3 a \<and> is_cont b \<or>
                      byte_in 0xF4 0xF4 a \<and> byte_in 0x80 0x8F b) \<and> is_cont c \<and> is_cont d then 4
             else 1))"

definition env_char :: "char \<Rightarrow> char" where
  "env_char c = (if is_lower c then ascii_upper c
                 else if is_upper c \<or> is_digit c then c else CHR ''_'')"

lemma rune_width_pos: "s \<noteq> [] \<Longrightarrow> 0 < rune_width s"
  by (auto simp: rune_width_def Let_def split: list.splits)

function env_chars :: "string \<Rightarrow> string" where
  "env_chars s =
    (if s = [] then []
     else (if rune_width s = 1 then env_char (hd s) else CHR ''_'') # env_chars (drop (rune_width s) s))"
  by pat_completeness auto
termination
  by (relation "measure length") (auto simp: rune_width_pos)

declare env_chars.simps [simp del]

definition configEnvPrefix :: string where
  "configEnvPrefix = ''RUNTIME_''"

definition configKeyToEnv :: "string \<Rightarrow> string" where
  "configKeyToEnv key = configEnvPrefix @ env_chars key"


section \<open>Building the environment\<close>

text \<open>\<^verbatim>\<open>key + "=" + value\<close>\<close>

definition env_entry :: "string \<Rightarrow> string \<Rightarrow> string" where
  "env_entry k v = k @ ''='' @ v"

record EnvOptions =
  eo_root :: string
  eo_bindirs :: "string list"
  eo_url :: string
  eo_token :: string

definition BuildLockedEnv :: "EnvOptions \<Rightarrow> string list" where
  "BuildLockedEnv opts =
    (let home = JoinPath [eo_root opts, ''home''] in
     [env_entry ''PATH'' (Join (eo_bindirs opts) '':''),
      env_entry ''HOME'' home,
      env_entry ''XDG_CONFIG_HOME'' (JoinPath [home, ''.config'']),
      env_entry ''XDG_CACHE_HOME'' (JoinPath [home, ''.cache'']),
      env_entry ''XDG_DATA_HOME'' (JoinPath [home, ''.local'', ''share'']),
      env_entry ''TMPDIR'' (JoinPath [eo_root opts, ''tmp'']),
      env_entry ''LANG'' ''C.UTF-8'',
      env_entry ''OTTERS_AGENT_ROOT'' (eo_root opts)] @
     (if eo_url opts \<noteq> [] \<and> eo_token opts \<noteq> []
      then [env_entry ''OTTERSD_URL'' (eo_url opts), env_entry ''OTTERS_AGENT_TOKEN'' (eo_token opts)]
      else []))"

definition reservedRuntimeEnvKeys :: "string list" where
  "reservedRuntimeEnvKeys =
    [''PATH'', ''HOME'', ''XDG_CONFIG_HOME'', ''XDG_CACHE_HOME'', ''XDG_DATA_HOME'', ''TMPDIR'',
     ''LANG'', ''OTTERS_AGENT_ROOT'', ''OTTERSD_URL'', ''OTTERS_AGENT_TOKEN'']"

definition AppendConfigEnv :: "string list \<Rightarrow> (string, string) gomap \<Rightarrow> string list" where
  "AppendConfigEnv base configs =
    base @ map (\<lambda>k. env_entry (configKeyToEnv k) (map_at configs k))
             (filter (\<lambda>k. k \<noteq> []) (sorted_keys configs))"

definition isReservedEnvKey :: "string \<Rightarrow> bool" where
  "isReservedEnvKey key \<longleftrightarrow>
     key \<in> set reservedRuntimeEnvKeys \<or> HasSuffix key ''_API_KEY'' \<or> HasSuffix key ''_API_BASE''"

fun AppendUserEnv :: "string list \<Rightarrow> Env list \<Rightarrow> string list \<times> string list" where
  "AppendUserEnv base [] = (base, [])"
| "AppendUserEnv base (e # es) =
    (if env_key e = [] then AppendUserEnv base es
     else if isReservedEnvKey (env_key e)
       then (let (env, skipped) = AppendUserEnv base es in (env, env_key e # skipped))
     else AppendUserEnv (base @ [env_entry (env_key e) (env_value e)]) es)"

definition splitProviderPrefix :: "string \<Rightarrow> string \<times> string" where
  "splitProviderPrefix model =
    (case Index model ''/'' of
       Some i \<Rightarrow> if i > 0 then (take i model, drop (Suc i) model) else ([], model)
     | None \<Rightarrow> ([], model))"


section \<open>The runtime's command\<close>

text \<open>The fields of \<^verbatim>\<open>executor.ResolvedConfig\<close> the command is built from.\<close>

record run_config =
  rc_model :: string
  rc_configs :: "(string, string) gomap"
  rc_envs :: "Env list"
  rc_exec :: "string list"
  rc_addr :: string
  rc_apibase :: string
  rc_apikey :: string

definition buildCmdArgs :: "run_config \<Rightarrow> string \<Rightarrow> string list" where
  "buildCmdArgs rt rootDir =
    (if rc_exec rt = [] then [''serve''] else rc_exec rt) @ [''--root'', rootDir] @
    (if rc_model rt \<noteq> [] then [''--model'', rc_model rt] else []) @
    (if rc_addr rt \<noteq> [] then [''--addr'', rc_addr rt] else [])"

definition provider_env :: "lib \<Rightarrow> run_config \<Rightarrow> string list" where
  "provider_env L rt =
    (let provider = fst (splitProviderPrefix (rc_model rt)); prefix = ToUpper L provider
     in if provider = [] then []
        else (if rc_apikey rt \<noteq> [] then [env_entry (prefix @ ''_API_KEY'') (rc_apikey rt)] else []) @
             (if rc_apibase rt \<noteq> [] then [env_entry (prefix @ ''_API_BASE'') (rc_apibase rt)] else []))"

definition buildCmdEnv :: "lib \<Rightarrow> run_config \<Rightarrow> string \<Rightarrow> string \<Rightarrow> string \<Rightarrow> string list" where
  "buildCmdEnv L rt rootDir daemonURL agentToken =
    (let locked = BuildLockedEnv
           \<lparr>eo_root = rootDir, eo_bindirs = [JoinPath [rootDir, ''usr'', ''bin'']],
            eo_url = daemonURL, eo_token = agentToken\<rparr>
     in fst (AppendUserEnv (AppendConfigEnv (locked @ provider_env L rt) (rc_configs rt)) (rc_envs rt)))"


section \<open>Reading an environment\<close>

text \<open>The key of an entry is what stands before its first equals sign; os/exec
  keeps the last entry of each key.\<close>

definition entry_key :: "string \<Rightarrow> string" where
  "entry_key e = takeWhile (\<lambda>c. c \<noteq> CHR ''='') e"

definition getenv :: "string list \<Rightarrow> string \<Rightarrow> string option" where
  "getenv env k = map_option (\<lambda>e. drop (Suc (length k)) e) (last_with entry_key k env)"

lemma entry_key_entry [simp]: "CHR ''='' \<notin> set k \<Longrightarrow> entry_key (env_entry k v) = k"
  by (induction k) (auto simp: entry_key_def env_entry_def)

lemma drop_entry [simp]: "drop (Suc (length k)) (env_entry k v) = v"
  by (simp add: env_entry_def)

lemma getenv_Nil [simp]: "getenv [] k = None"
  by (simp add: getenv_def)

lemma getenv_append:
  "getenv (env @ env') k = (case getenv env' k of Some v \<Rightarrow> Some v | None \<Rightarrow> getenv env k)"
  by (simp add: getenv_def last_with_append split: option.splits)

lemma getenv_single [simp]:
  "CHR ''='' \<notin> set k \<Longrightarrow> getenv [env_entry k v] k' = (if k = k' then Some v else None)"
  by (auto simp: getenv_def)

lemma getenv_Cons:
  "CHR ''='' \<notin> set k \<Longrightarrow> getenv (env_entry k v # env) k' =
     (case getenv env k' of Some w \<Rightarrow> Some w | None \<Rightarrow> if k = k' then Some v else None)"
  by (auto simp: getenv_def last_with_Cons split: option.splits)

lemma getenv_append_other:
  assumes "\<forall>e \<in> set extra. entry_key e \<noteq> k"
  shows "getenv (env @ extra) k = getenv env k"
proof -
  have "last_with entry_key k extra = None" using assms by (auto simp: last_with_None_iff)
  then show ?thesis by (simp add: getenv_def last_with_append)
qed

lemma AppendUserEnv_eq:
  "AppendUserEnv base es =
    (base @ map (\<lambda>e. env_entry (env_key e) (env_value e))
        (filter (\<lambda>e. env_key e \<noteq> [] \<and> \<not> isReservedEnvKey (env_key e)) es),
     map env_key (filter (\<lambda>e. env_key e \<noteq> [] \<and> isReservedEnvKey (env_key e)) es))"
  by (induction base es rule: AppendUserEnv.induct) (simp_all add: split_def)

lemma of_char_upper: "is_lower c \<Longrightarrow> (of_char (ascii_upper c) :: nat) = of_char c - 32"
  by (auto simp: ascii_upper_def is_lower_def less_eq_char_def)

lemma env_char_valid: "env_char c \<noteq> CHR ''='' "
proof (cases "is_lower c")
  case True
  then have "65 \<le> (of_char (ascii_upper c) :: nat)"
    by (simp add: of_char_upper) (auto simp: is_lower_def less_eq_char_def)
  then show ?thesis using True by (auto simp: env_char_def)
next
  case False
  then show ?thesis by (auto simp: env_char_def char_class_defs less_eq_char_def)
qed

lemma env_chars_no_equals: "CHR ''='' \<notin> set (env_chars s)"
proof (induction s rule: env_chars.induct)
  case (1 s)
  then show ?case using env_char_valid [of "hd s"] by (subst env_chars.simps) auto
qed

lemma configKeyToEnv_no_equals [simp]: "CHR ''='' \<notin> set (configKeyToEnv k)"
  by (simp add: configKeyToEnv_def configEnvPrefix_def env_chars_no_equals)

text \<open>On ASCII text the rewrite is one character to one character.\<close>

lemma rune_width_ascii: "is_ascii c \<Longrightarrow> rune_width (c # s) = 1"
  by (auto simp: rune_width_def Let_def byte_in_def is_ascii_def less_char_def)

lemma env_chars_ascii: "list_all is_ascii s \<Longrightarrow> env_chars s = map env_char s"
proof (induction s)
  case (Cons c s)
  then show ?case by (subst env_chars.simps) (simp add: rune_width_ascii)
qed (simp add: env_chars.simps)

lemma label_char_ascii: "is_label_char c \<or> c = CHR ''-'' \<Longrightarrow> is_ascii c"
  by (auto simp: char_class_defs is_ascii_def less_eq_char_def less_char_def)

text \<open>The byte values of a label character and of its image.\<close>

lemma env_char_code:
  assumes "is_label_char c \<or> c = CHR ''-''"
  shows "(of_char c :: nat) \<in> {97..122} \<union> {48..57} \<union> {45}"
    "(of_char (env_char c) :: nat) =
       (if (of_char c :: nat) \<ge> 97 then of_char c - 32 else if (of_char c :: nat) \<ge> 48 then of_char c else 95)"
  using assms by (auto simp: env_char_def of_char_upper) (auto simp: char_class_defs less_eq_char_def)

lemma env_char_inj:
  assumes "is_label_char c \<or> c = CHR ''-''" "is_label_char d \<or> d = CHR ''-''" "env_char c = env_char d"
  shows "c = d"
proof -
  define x y where "x = (of_char c :: nat)" and "y = (of_char d :: nat)"
  have "(of_char (env_char c) :: nat) = of_char (env_char d)" using assms(3) by simp
  then have "x = y"
    using env_char_code [OF assms(1)] env_char_code [OF assms(2)]
    unfolding x_def [symmetric] y_def [symmetric] by (auto split: if_splits)
  then show ?thesis by (simp add: x_def y_def)
qed

lemma env_chars_label: "is_dns1123_label s \<Longrightarrow> env_chars s = map env_char s"
  using label_chars label_char_ascii by (intro env_chars_ascii) (auto simp: list_all_iff)

lemma configKeyToEnv_inj:
  assumes "is_dns1123_label a" "is_dns1123_label b" "configKeyToEnv a = configKeyToEnv b"
  shows "a = b"
proof -
  have "map env_char a = map env_char b"
    using assms by (simp add: configKeyToEnv_def env_chars_label)
  moreover have "inj_on env_char (set a \<union> set b)"
  proof (rule inj_onI)
    fix x y assume "x \<in> set a \<union> set b" "y \<in> set a \<union> set b" "env_char x = env_char y"
    have "is_label_char z \<or> z = CHR ''-''" if "z \<in> set a \<union> set b" for z
      using that label_chars [OF assms(1)] label_chars [OF assms(2)] by blast
    then show "x = y"
      using env_char_inj \<open>x \<in> set a \<union> set b\<close> \<open>y \<in> set a \<union> set b\<close> \<open>env_char x = env_char y\<close> by blast
  qed
  ultimately show ?thesis using inj_on_map_eq_map [of env_char a b] by simp
qed

lemma RUNTIME_not_reserved: "configKeyToEnv k \<notin> set reservedRuntimeEnvKeys"
  by (auto simp: configKeyToEnv_def configEnvPrefix_def reservedRuntimeEnvKeys_def)

lemma reserved_not_api:
  "k \<in> set reservedRuntimeEnvKeys \<Longrightarrow> \<not> HasSuffix k ''_API_KEY'' \<and> \<not> HasSuffix k ''_API_BASE''"
  by (auto simp: reservedRuntimeEnvKeys_def HasSuffix_def)

lemma api_entry_key:
  assumes "CHR ''='' \<notin> set p" "e \<in> {env_entry (p @ ''_API_KEY'') x, env_entry (p @ ''_API_BASE'') y}"
  shows "HasSuffix (entry_key e) ''_API_KEY'' \<or> HasSuffix (entry_key e) ''_API_BASE''"
proof -
  have "CHR ''='' \<notin> set (p @ ''_API_KEY'')" "CHR ''='' \<notin> set (p @ ''_API_BASE'')" using assms(1) by simp_all
  then show ?thesis using assms(2) by (metis HasSuffix_append entry_key_entry insertE singletonD)
qed

text \<open>What the executors append after the locked variables cannot reach them.\<close>

lemma appended_env_kept:
  assumes "k \<in> set reservedRuntimeEnvKeys" "\<forall>e \<in> set envs. CHR ''='' \<notin> set (env_key e)"
    and "\<forall>e \<in> set prov. HasSuffix (entry_key e) ''_API_KEY'' \<or> HasSuffix (entry_key e) ''_API_BASE''"
  shows "getenv (fst (AppendUserEnv (AppendConfigEnv (locked @ prov) cfgs) envs)) k = getenv locked k"
proof -
  have user: "\<forall>e \<in> set (map (\<lambda>e. env_entry (env_key e) (env_value e))
      (filter (\<lambda>e. env_key e \<noteq> [] \<and> \<not> isReservedEnvKey (env_key e)) envs)). entry_key e \<noteq> k"
    using assms(1,2) by (auto simp: isReservedEnvKey_def)
  have cfg: "\<forall>e \<in> set (map (\<lambda>k. env_entry (configKeyToEnv k) (map_at cfgs k))
      (filter (\<lambda>k. k \<noteq> []) (sorted_keys cfgs))). entry_key e \<noteq> k"
    using assms(1) RUNTIME_not_reserved by auto
  have prov: "\<forall>e \<in> set prov. entry_key e \<noteq> k"
    using reserved_not_api [OF assms(1)] assms(3) by auto
  show ?thesis
    unfolding AppendUserEnv_eq AppendConfigEnv_def fst_conv
    by (simp only: getenv_append_other [OF user] getenv_append_other [OF cfg] getenv_append_other [OF prov])
qed


section \<open>Properties\<close>


definition demo_rt :: run_config where
  "demo_rt =
    \<lparr>rc_model = ''openai/gpt'', rc_configs = fmap_of_list [(''max-tokens'', ''2048'')],
     rc_envs = [\<lparr>env_key = ''PATH'', env_value = ''/evil'', env_description = []\<rparr>,
                \<lparr>env_key = ''DEBUG'', env_value = ''1'', env_description = []\<rparr>],
     rc_exec = [], rc_addr = [], rc_apibase = [], rc_apikey = ''k''\<rparr>"

definition ascii_lib :: lib where
  "ascii_lib = \<lparr>lib_inst_parser = (\<lambda>s. Inl s), lib_ToUpper = (\<lambda>s. s), lib_ParseFloat = (\<lambda>s. None),
                lib_range = (\<lambda>n m. sorted_keys m)\<rparr>"


text \<open>The contents of the locked environment: PATH is the list of bin
  directories, the home, XDG and temporary directories lie strictly inside
  the agent root, and the daemon callback pair is injected both or neither.\<close>

theorem locked_env_contents:
  assumes "eo_root opts \<noteq> []"
  shows "getenv (BuildLockedEnv opts) ''PATH'' = Some (Join (eo_bindirs opts) '':'') \<and>
    getenv (BuildLockedEnv opts) ''OTTERS_AGENT_ROOT'' = Some (eo_root opts) \<and>
    (\<forall>k \<in> {''HOME'', ''XDG_CONFIG_HOME'', ''XDG_CACHE_HOME'', ''XDG_DATA_HOME'', ''TMPDIR''}.
       \<exists>d. getenv (BuildLockedEnv opts) k = Some d \<and> strictly_inside (eo_root opts) d) \<and>
    (if eo_url opts \<noteq> [] \<and> eo_token opts \<noteq> []
     then getenv (BuildLockedEnv opts) ''OTTERSD_URL'' = Some (eo_url opts) \<and>
          getenv (BuildLockedEnv opts) ''OTTERS_AGENT_TOKEN'' = Some (eo_token opts)
     else getenv (BuildLockedEnv opts) ''OTTERSD_URL'' = None \<and>
          getenv (BuildLockedEnv opts) ''OTTERS_AGENT_TOKEN'' = None)"
proof -
  let ?home = "JoinPath [eo_root opts, ''home'']"
  have pl: "list_all plain_elem [''home'']" "list_all plain_elem [''tmp'']"
    by (simp_all add: plain_elem_def dotdot_def)
  have in1: "strictly_inside (eo_root opts) ?home" "strictly_inside (eo_root opts) (JoinPath [eo_root opts, ''tmp''])"
    using JoinPath_inside [OF assms _ pl(1)] JoinPath_inside [OF assms _ pl(2)] by simp_all
  have home_ne: "?home \<noteq> []" using assms by (simp add: JoinPath_def)
  have in2: "strictly_inside (eo_root opts) (JoinPath (?home # es))"
    if "es \<noteq> []" "list_all plain_elem es" for es
    using JoinPath_plain [OF home_ne that] JoinPath_plain [OF assms _ pl(1)] that pl(1)
    unfolding strictly_inside_def by (intro conjI exI [of _ "''home'' # es"]) simp_all
  have vals: "getenv (BuildLockedEnv opts) ''PATH'' = Some (Join (eo_bindirs opts) '':'')"
    "getenv (BuildLockedEnv opts) ''OTTERS_AGENT_ROOT'' = Some (eo_root opts)"
    "getenv (BuildLockedEnv opts) ''HOME'' = Some ?home"
    "getenv (BuildLockedEnv opts) ''XDG_CONFIG_HOME'' = Some (JoinPath [?home, ''.config''])"
    "getenv (BuildLockedEnv opts) ''XDG_CACHE_HOME'' = Some (JoinPath [?home, ''.cache''])"
    "getenv (BuildLockedEnv opts) ''XDG_DATA_HOME'' = Some (JoinPath [?home, ''.local'', ''share''])"
    "getenv (BuildLockedEnv opts) ''TMPDIR'' = Some (JoinPath [eo_root opts, ''tmp''])"
    by (simp_all add: BuildLockedEnv_def Let_def getenv_Cons)
  have pair: "if eo_url opts \<noteq> [] \<and> eo_token opts \<noteq> []
     then getenv (BuildLockedEnv opts) ''OTTERSD_URL'' = Some (eo_url opts) \<and>
          getenv (BuildLockedEnv opts) ''OTTERS_AGENT_TOKEN'' = Some (eo_token opts)
     else getenv (BuildLockedEnv opts) ''OTTERSD_URL'' = None \<and>
          getenv (BuildLockedEnv opts) ''OTTERS_AGENT_TOKEN'' = None"
    by (simp add: BuildLockedEnv_def Let_def getenv_Cons)
  have "list_all plain_elem [''.config'']" "list_all plain_elem [''.cache'']"
    "list_all plain_elem [''.local'', ''share'']"
    by (simp_all add: plain_elem_def dotdot_def)
  note xdg = in2 [OF _ this(1)] in2 [OF _ this(2)] in2 [OF _ this(3)]
  have "\<forall>k \<in> {''HOME'', ''XDG_CONFIG_HOME'', ''XDG_CACHE_HOME'', ''XDG_DATA_HOME'', ''TMPDIR''}.
       \<exists>d. getenv (BuildLockedEnv opts) k = Some d \<and> strictly_inside (eo_root opts) d"
    using xdg in1 by (simp add: vals)
  then show ?thesis using vals(1,2) pair by blast
qed

theorem locked_env_contents_witness:
  "\<exists>d. getenv (BuildLockedEnv \<lparr>eo_root = ''/r'', eo_bindirs = [], eo_url = ''u'', eo_token = []\<rparr>) ''HOME'' = Some d
     \<and> strictly_inside ''/r'' d"
  using locked_env_contents [of "\<lparr>eo_root = ''/r'', eo_bindirs = [], eo_url = ''u'', eo_token = []\<rparr>"] by simp

text \<open>Build-time rejection and spawn-time filtering agree: the two reserved
  sets are equal, an ENV key that \<^const>\<open>validateEnvKey\<close> accepts is never dropped at
  spawn, and for accepted entries the process sees the value of the last
  entry of each key.\<close>

theorem validated_env_exported:
  "set reservedRuntimeEnvKeys = set reservedEnvKeys \<and>
   (\<forall>k. validateEnvKey k = None \<longrightarrow> \<not> isReservedEnvKey k) \<and>
   (\<forall>base es. (\<forall>e \<in> set es. validateEnvKey (env_key e) = None) \<longrightarrow>
      snd (AppendUserEnv base es) = [] \<and>
      (\<forall>k. getenv (fst (AppendUserEnv base es)) k =
         (case last_with env_key k es of Some e \<Rightarrow> Some (env_value e) | None \<Rightarrow> getenv base k)))"
proof (intro conjI allI impI)
  show same: "set reservedRuntimeEnvKeys = set reservedEnvKeys"
    by (simp add: reservedRuntimeEnvKeys_def reservedEnvKeys_def)
  show ok: "\<not> isReservedEnvKey k" if "validateEnvKey k = None" for k
    using that same by (simp add: validateEnvKey_None isReservedEnvKey_def)
  fix base k and es :: "Env list"
  assume v: "\<forall>e \<in> set es. validateEnvKey (env_key e) = None"
  then have e: "\<forall>e \<in> set es. env_key e \<noteq> [] \<and> \<not> isReservedEnvKey (env_key e) \<and> CHR ''='' \<notin> set (env_key e)"
    using ok env_key_no_equals by (auto simp: validateEnvKey_None is_env_key_def)
  then have app: "AppendUserEnv base es = (base @ map (\<lambda>e. env_entry (env_key e) (env_value e)) es, [])"
    by (auto simp: AppendUserEnv_eq filter_id_conv)
  then show "snd (AppendUserEnv base es) = []" by simp
  have "last_with entry_key k (map (\<lambda>e. env_entry (env_key e) (env_value e)) es) =
      map_option (\<lambda>e. env_entry (env_key e) (env_value e)) (last_with env_key k es)"
    using e by (induction es) (auto simp: last_with_Cons split: option.splits)
  then show "getenv (fst (AppendUserEnv base es)) k =
      (case last_with env_key k es of Some e \<Rightarrow> Some (env_value e) | None \<Rightarrow> getenv base k)"
    using last_with_SomeD [of env_key k es]
    by (auto simp: app getenv_def last_with_append split: option.splits)
qed

theorem validated_env_exported_witness:
  "getenv (fst (AppendUserEnv [''A=0''] [\<lparr>env_key = ''A'', env_value = ''1'', env_description = []\<rparr>])) ''A'' = Some ''1''"
proof -
  have v: "validateEnvKey ''A'' = None" by code_simp
  then show ?thesis
    using validated_env_exported [THEN conjunct2, THEN conjunct2, rule_format,
        of "[\<lparr>env_key = ''A'', env_value = ''1'', env_description = []\<rparr>]" "[''A=0'']"]
    by (simp add: last_with_def)
qed

text \<open>The export of CONFIG keys is collision-free on DNS-1123 labels: two
  declared keys never map to the same variable, so every non-empty declared
  key is readable under its own RUNTIME_ name.\<close>

theorem config_env_injective:
  assumes "\<forall>k \<in> fset (fmdom configs). is_dns1123_label k" "fmlookup configs k = Some v"
  shows "getenv (AppendConfigEnv base configs) (configKeyToEnv k) = Some v \<and>
    (\<forall>k'. is_dns1123_label k' \<and> configKeyToEnv k' = configKeyToEnv k \<longrightarrow> k' = k)"
proof -
  have k: "k \<in> fset (fmdom configs)" using assms(2) by (auto simp: fmlookup_dom_iff)
  then have lk: "is_dns1123_label k" using assms(1) by blast
  have inj: "k' = k" if "is_dns1123_label k'" "configKeyToEnv k' = configKeyToEnv k" for k'
    using configKeyToEnv_inj [OF that(1) lk that(2)] .
  let ?ks = "sorted_keys configs" and ?f = "\<lambda>k. env_entry (configKeyToEnv k) (map_at configs k)"
  have "[] \<notin> set ?ks" using assms(1) label_nonempty by auto
  then have ks: "filter (\<lambda>k. k \<noteq> []) ?ks = ?ks" by (auto simp: filter_id_conv)
  have "last_with entry_key (configKeyToEnv k) (map ?f xs) = (if k \<in> set xs then Some (?f k) else None)"
    if "\<forall>x \<in> set xs. is_dns1123_label x" for xs
    using that
  proof (induction xs)
    case (Cons x xs)
    then have "configKeyToEnv x = configKeyToEnv k \<longleftrightarrow> x = k" using inj [of x] by auto
    then show ?case using Cons by (simp add: last_with_Cons)
  qed simp
  from this [of ?ks] have "last_with entry_key (configKeyToEnv k) (map ?f ?ks) = Some (?f k)"
    using assms(1) k by simp
  then have "getenv (AppendConfigEnv base configs) (configKeyToEnv k) = Some v"
    using assms(2) by (simp add: AppendConfigEnv_def ks getenv_def last_with_append map_at_def)
  then show ?thesis using inj by blast
qed

theorem config_env_injective_witness:
  "getenv (AppendConfigEnv [] (fmap_of_list [(''max-tokens'', ''2048'')])) ''RUNTIME_MAX_TOKENS'' = Some ''2048''"
proof -
  let ?m = "fmap_of_list [(''max-tokens'', ''2048'')]"
  have name: "configKeyToEnv ''max-tokens'' = ''RUNTIME_MAX_TOKENS''" by code_simp
  have label: "is_dns1123_label ''max-tokens''" by code_simp
  have "fset (fmdom ?m) = {''max-tokens''}" by (simp add: fmdom_fmap_of_list)
  then have "\<forall>k \<in> fset (fmdom ?m). is_dns1123_label k" using label by simp
  moreover have "fmlookup ?m ''max-tokens'' = Some ''2048''" by (simp add: fmap_of_list.rep_eq)
  ultimately show ?thesis
    using config_env_injective [of ?m "''max-tokens''" "''2048''" "[]"] unfolding name by blast
qed

end
