(* ===== verification/Oci.thy ===== *)
theory Oci
  imports Reference Paths
begin

text \<open>
  The OCI layer: descriptors, manifests and indexes, the interface of an
  \<^verbatim>\<open>oras.Target\<close> as a record of operations on a state, and package \<^verbatim>\<open>oci\<close>:
  manifest and index resolution, the extraction of a binary or of its usage
  document from an image.  The byte formats (\<^verbatim>\<open>encoding/json\<close>, the digest
  algorithm, gzip and tar) are the fields of \<open>codec\<close>, a parameter of every
  definition that reads or writes them.
\<close>


section \<open>Data\<close>

record Platform =
  pf_os :: string
  pf_arch :: string

record Descriptor =
  dc_media :: string
  dc_digest :: string
  dc_size :: int
  dc_annotations :: "(string, string) gomap"
  dc_platform :: "Platform option"

record Manifest =
  mf_media :: string
  mf_artifact :: string
  mf_config :: Descriptor
  mf_layers :: "Descriptor list"
  mf_annotations :: "(string, string) gomap"

record Index =
  ix_manifests :: "Descriptor list"

text \<open>An entry of a tar archive: its name, whether it is a regular file, its data.
  A reader yields entries until the end or an error.\<close>

record tar_entry =
  te_name :: string
  te_regular :: bool
  te_data :: bytes

datatype oerr =
    ErrNotFound
  | ErrJson
  | ErrGzip
  | ErrTar
  | ErrNoBinary
  | ErrNoPlatform string string "string list"
  | ErrNotStaged
  | ErrNoIndexJson
  | ErrClient string

record codec =
  cd_enc_agentfile :: "Agentfile \<Rightarrow> (oerr, bytes) res"
  cd_dec_agentfile :: "bytes \<Rightarrow> (oerr, Agentfile) res"
  cd_enc_manifest :: "Manifest \<Rightarrow> (oerr, bytes) res"
  cd_dec_manifest :: "bytes \<Rightarrow> (oerr, Manifest) res"
  cd_enc_index :: "Index \<Rightarrow> (oerr, bytes) res"
  cd_dec_index :: "bytes \<Rightarrow> (oerr, Index) res"
  cd_digest :: "bytes \<Rightarrow> string"
  cd_gunzip :: "bytes \<Rightarrow> (oerr, bytes) res"
  cd_untar :: "bytes \<Rightarrow> tar_entry list \<times> oerr option"

text \<open>The annotation keys and media types the sources use (\<^verbatim>\<open>spec/mediatype.go\<close> and the
  image specification).\<close>

definition AgentConfigLayerMediatype :: string where
  "AgentConfigLayerMediatype = ''application/vnd.openotters.agent.config.v1+json''"

definition ContextLayerMediaType :: string where
  "ContextLayerMediaType = ''application/vnd.openotters.context.v1''"

definition AgentArtifactType :: string where
  "AgentArtifactType = ''application/vnd.openotters.agent.v1''"

definition AgentfileMediaType :: string where
  "AgentfileMediaType = ''application/vnd.openotters.agentfile''"

definition OctetStream :: string where
  "OctetStream = ''application/octet-stream''"

definition MediaTypeImageManifest :: string where
  "MediaTypeImageManifest = ''application/vnd.oci.image.manifest.v1+json''"

definition AnnotationTitle :: string where
  "AnnotationTitle = ''org.opencontainers.image.title''"

definition AnnotationCreated :: string where
  "AnnotationCreated = ''org.opencontainers.image.created''"

definition AnnotationRefName :: string where
  "AnnotationRefName = ''org.opencontainers.image.ref.name''"

definition AnnotationBinName :: string where
  "AnnotationBinName = ''io.openotters.bin.name''"

definition AnnotationBinPath :: string where
  "AnnotationBinPath = ''io.openotters.bin.path''"

definition AnnotationBinUsage :: string where
  "AnnotationBinUsage = ''io.openotters.bin.usage''"

text \<open>Indexing a nil or short map gives the empty string.\<close>

definition annot :: "(string, string) gomap \<Rightarrow> string \<Rightarrow> string" where
  "annot m k = map_at m k"

definition title :: "Descriptor \<Rightarrow> string" where
  "title d = annot (dc_annotations d) AnnotationTitle"


section \<open>Targets\<close>

text \<open>The operations of an \<^verbatim>\<open>oras.Target\<close> on a state of type \<open>'s\<close>.  Resolve may
  change the state (a cache); Push and Tag give the error, if any, and the state they
  leave behind.\<close>

type_synonym 's resolver = "string \<Rightarrow> 's \<Rightarrow> (oerr, Descriptor) res \<times> 's"
type_synonym 's blob_fetcher = "Descriptor \<Rightarrow> 's \<Rightarrow> (oerr, bytes) res"
type_synonym 's pusher = "Descriptor \<Rightarrow> bytes \<Rightarrow> 's \<Rightarrow> oerr option \<times> 's"
type_synonym 's tagger = "Descriptor \<Rightarrow> string \<Rightarrow> 's \<Rightarrow> oerr option \<times> 's"

record 's target =
  tg_Resolve :: "'s resolver"
  tg_Fetch :: "'s blob_fetcher"
  tg_Push :: "'s pusher"
  tg_Tag :: "'s tagger"


section \<open>Manifests and indexes\<close>

definition FetchBlobBytes :: "(Descriptor \<Rightarrow> (oerr, bytes) res) \<Rightarrow> Descriptor \<Rightarrow> (oerr, bytes) res" where
  "FetchBlobBytes fetch desc = fetch desc"

definition matches :: "Platform \<Rightarrow> Descriptor \<Rightarrow> bool" where
  "matches p m \<longleftrightarrow>
    (case dc_platform m of None \<Rightarrow> False | Some q \<Rightarrow> pf_os q = pf_os p \<and> pf_arch q = pf_arch p)"

definition platform_names :: "Descriptor list \<Rightarrow> string list" where
  "platform_names ms =
    map (\<lambda>q. pf_os q @ ''/'' @ pf_arch q) (concat (map (\<lambda>m. case dc_platform m of None \<Rightarrow> [] | Some q \<Rightarrow> [q]) ms))"

text \<open>\<^verbatim>\<open>resolveIndex\<close>: not an index, the entry for the platform, or the error.\<close>

definition resolveIndex :: "codec \<Rightarrow> bytes \<Rightarrow> Platform \<Rightarrow> (oerr, Descriptor option) res" where
  "resolveIndex C data p =
    (case cd_dec_index C data of
       Inl _ \<Rightarrow> Inr None
     | Inr ix \<Rightarrow>
         if ix_manifests ix = [] then Inr None
         else case List.find (matches p) (ix_manifests ix) of
                Some m \<Rightarrow> Inr (Some m)
              | None \<Rightarrow> Inl (ErrNoPlatform (pf_os p) (pf_arch p) (platform_names (ix_manifests ix))))"

text \<open>\<^verbatim>\<open>ResolveManifest\<close> follows nested indexes; \<^const>\<open>None\<close> is a chain that never ends.\<close>

partial_function (option) ResolveManifest ::
  "codec \<Rightarrow> (Descriptor \<Rightarrow> (oerr, bytes) res) \<Rightarrow> Descriptor \<Rightarrow> Platform \<Rightarrow> (oerr, Manifest) res option" where
  "ResolveManifest C fetch desc p =
    (case FetchBlobBytes fetch desc of
       Inl e \<Rightarrow> Some (Inl e)
     | Inr data \<Rightarrow>
         (case resolveIndex C data p of
            Inl e \<Rightarrow> Some (Inl e)
          | Inr (Some d) \<Rightarrow> ResolveManifest C fetch d p
          | Inr None \<Rightarrow> Some (cd_dec_manifest C data)))"

declare ResolveManifest.simps [code]


section \<open>Binaries and usage documents\<close>

definition is_bin_entry :: "string \<Rightarrow> tar_entry \<Rightarrow> bool" where
  "is_bin_entry binPath h \<longleftrightarrow>
    (te_name h = binPath \<or> path_Base (te_name h) = path_Base binPath) \<and> te_regular h"

text \<open>\<^const>\<open>None\<close>: the archive ended without a match.\<close>

definition extractBinFromTar ::
  "codec \<Rightarrow> (Descriptor \<Rightarrow> (oerr, bytes) res) \<Rightarrow> Descriptor \<Rightarrow> string \<Rightarrow> (oerr, bytes option) res" where
  "extractBinFromTar C fetch layer binPath =
    res_bind (fetch layer) (\<lambda>raw.
    res_bind (if Contains (dc_media layer) ''gzip'' then cd_gunzip C raw else Inr raw) (\<lambda>data.
      (let (entries, err) = cd_untar C data
       in case List.find (is_bin_entry binPath) entries of
            Some h \<Rightarrow> Inr (Some (te_data h))
          | None \<Rightarrow> (case err of Some e \<Rightarrow> Inl e | None \<Rightarrow> Inr None))))"

definition is_tar_layer :: "Descriptor \<Rightarrow> bool" where
  "is_tar_layer l = Contains (dc_media l) ''tar''"

fun bin_from_tars ::
  "codec \<Rightarrow> (Descriptor \<Rightarrow> (oerr, bytes) res) \<Rightarrow> string \<Rightarrow> Descriptor list \<Rightarrow> (oerr, bytes option) res" where
  "bin_from_tars C fetch binPath [] = Inr None"
| "bin_from_tars C fetch binPath (l # ls) =
    (if \<not> is_tar_layer l then bin_from_tars C fetch binPath ls
     else case extractBinFromTar C fetch l binPath of
            Inl e \<Rightarrow> Inl e
          | Inr (Some x) \<Rightarrow> Inr (Some x)
          | Inr None \<Rightarrow> bin_from_tars C fetch binPath ls)"

definition titled_bin :: "string \<Rightarrow> string \<Rightarrow> Descriptor \<Rightarrow> bool" where
  "titled_bin name binPath l \<longleftrightarrow>
    \<not> is_tar_layer l \<and> (title l = name \<or> title l = binPath \<or> path_Base (title l) = name)"

definition extractBin ::
  "codec \<Rightarrow> (Descriptor \<Rightarrow> (oerr, bytes) res) \<Rightarrow> Manifest \<Rightarrow> (oerr, bytes) res" where
  "extractBin C fetch manifest =
    (let name = annot (mf_annotations manifest) AnnotationBinName;
         path0 = annot (mf_annotations manifest) AnnotationBinPath;
         binPath = (if path0 \<noteq> [] \<and> name \<noteq> [] then JoinPath [path0, name] else path0)
     in res_bind (bin_from_tars C fetch binPath (mf_layers manifest)) (\<lambda>r.
          case r of
            Some x \<Rightarrow> Inr x
          | None \<Rightarrow>
              (case List.find (titled_bin name binPath) (mf_layers manifest) of
                 Some l \<Rightarrow> fetch l
               | None \<Rightarrow> Inl ErrNoBinary)))"

definition extractUsage ::
  "(Descriptor \<Rightarrow> (oerr, bytes) res) \<Rightarrow> Manifest \<Rightarrow> (oerr, bytes) res" where
  "extractUsage fetch manifest =
    (case fmlookup (mf_annotations manifest) AnnotationBinUsage of
       None \<Rightarrow> Inr []
     | Some path \<Rightarrow>
         if path = [] then Inr []
         else case List.find (\<lambda>l. title l = path \<or> path_Base (title l) = path_Base path) (mf_layers manifest) of
                Some l \<Rightarrow> fetch l
              | None \<Rightarrow> Inr [])"

section \<open>Remote images\<close>

text \<open>A remote repository as \<^verbatim>\<open>NewRemoteRepository\<close> returns it: the tag part of the reference
  it was opened with, Resolve and Fetch over the network.\<close>

record remote =
  rp_reference :: string
  rp_Resolve :: "string \<Rightarrow> (oerr, Descriptor) res"
  rp_Fetch :: "Descriptor \<Rightarrow> (oerr, bytes) res"

definition remote_manifest ::
  "codec \<Rightarrow> (Reference \<Rightarrow> (oerr, remote) res) \<Rightarrow> Platform \<Rightarrow> Reference \<Rightarrow> (oerr, remote \<times> Manifest) res option" where
  "remote_manifest C NewRemoteRepository platform ref =
    (case NewRemoteRepository ref of
       Inl e \<Rightarrow> Some (Inl e)
     | Inr repo \<Rightarrow>
         (case rp_Resolve repo (if rp_reference repo = [] then ''latest'' else rp_reference repo) of
            Inl e \<Rightarrow> Some (Inl e)
          | Inr desc \<Rightarrow>
              map_option (\<lambda>r. res_bind r (\<lambda>m. Inr (repo, m))) (ResolveManifest C (rp_Fetch repo) desc platform)))"

definition RemotePuller ::
  "codec \<Rightarrow> (Reference \<Rightarrow> (oerr, remote) res) \<Rightarrow> Platform \<Rightarrow> Reference \<Rightarrow> (oerr, bytes) res option" where
  "RemotePuller C NewRemoteRepository platform ref =
    map_option (\<lambda>r. res_bind r (\<lambda>(repo, m). extractBin C (rp_Fetch repo) m))
      (remote_manifest C NewRemoteRepository platform ref)"

definition RemoteUsageFetcher ::
  "codec \<Rightarrow> (Reference \<Rightarrow> (oerr, remote) res) \<Rightarrow> Platform \<Rightarrow> Reference \<Rightarrow> (oerr, bytes) res option" where
  "RemoteUsageFetcher C NewRemoteRepository platform ref =
    map_option (\<lambda>r. res_bind r (\<lambda>(repo, m). extractUsage (rp_Fetch repo) m))
      (remote_manifest C NewRemoteRepository platform ref)"


section \<open>Chains of indexes\<close>

text \<open>One step from an index to its entry for the platform.\<close>

definition index_link :: "codec \<Rightarrow> (Descriptor \<Rightarrow> (oerr, bytes) res) \<Rightarrow> Platform \<Rightarrow> Descriptor \<Rightarrow> Descriptor \<Rightarrow> bool" where
  "index_link C fetch p d d' \<longleftrightarrow> (\<exists>data. fetch d = Inr data \<and> resolveIndex C data p = Inr (Some d'))"

text \<open>A descriptor whose blob is a plain manifest.\<close>

definition plain_manifest :: "codec \<Rightarrow> (Descriptor \<Rightarrow> (oerr, bytes) res) \<Rightarrow> Platform \<Rightarrow> Descriptor \<Rightarrow> Manifest \<Rightarrow> bool" where
  "plain_manifest C fetch p d m \<longleftrightarrow>
    (\<exists>data. fetch d = Inr data \<and> resolveIndex C data p = Inr None \<and> cd_dec_manifest C data = Inr m)"

lemma index_link_fun: "index_link C fetch p d d1 \<Longrightarrow> index_link C fetch p d d2 \<Longrightarrow> d1 = d2"
  by (auto simp: index_link_def)

lemma index_link_not_plain: "index_link C fetch p d d1 \<Longrightarrow> \<not> plain_manifest C fetch p d m"
  by (auto simp: index_link_def plain_manifest_def)

lemma resolveIndex_matches: "resolveIndex C data p = Inr (Some d) \<Longrightarrow> matches p d"
  by (auto simp: resolveIndex_def find_Some_iff split: sum.splits if_splits option.splits)

lemma ResolveManifest_link: "index_link C fetch p d d' \<Longrightarrow> ResolveManifest C fetch d p = ResolveManifest C fetch d' p"
  by (subst ResolveManifest.simps) (auto simp: index_link_def FetchBlobBytes_def)

lemma ResolveManifest_stop:
  assumes "\<nexists>d'. index_link C fetch p d d'"
  shows "\<exists>r. ResolveManifest C fetch d p = Some r \<and> (\<forall>m. r = Inr m \<longleftrightarrow> plain_manifest C fetch p d m)"
  using assms
  by (subst ResolveManifest.simps)
    (auto simp: index_link_def plain_manifest_def FetchBlobBytes_def split: sum.splits option.splits)

lemma chain_matches: "(index_link C fetch p)\<^sup>*\<^sup>* d d' \<Longrightarrow> d' = d \<or> matches p d'"
  by (induction rule: rtranclp_induct) (auto simp: index_link_def dest: resolveIndex_matches)

lemma ResolveManifest_chain:
  assumes "\<forall>d d'. index_link C fetch p d d' \<longrightarrow> rank d' < (rank d :: nat)"
  shows "\<exists>r. ResolveManifest C fetch desc p = Some r \<and>
    (\<forall>m. r = Inr m \<longleftrightarrow> (\<exists>d. (index_link C fetch p)\<^sup>*\<^sup>* desc d \<and> plain_manifest C fetch p d m))"
proof (induction "rank desc" arbitrary: desc rule: less_induct)
  case less
  show ?case
  proof (cases "\<exists>d'. index_link C fetch p desc d'")
    case True
    then obtain d' where l: "index_link C fetch p desc d'" by blast
    then have "rank d' < rank desc" using assms by blast
    then obtain r where r: "ResolveManifest C fetch d' p = Some r"
      "\<And>m. r = Inr m \<longleftrightarrow> (\<exists>d. (index_link C fetch p)\<^sup>*\<^sup>* d' d \<and> plain_manifest C fetch p d m)"
      using less by blast
    have "(\<exists>d. (index_link C fetch p)\<^sup>*\<^sup>* desc d \<and> plain_manifest C fetch p d m) \<longleftrightarrow>
        (\<exists>d. (index_link C fetch p)\<^sup>*\<^sup>* d' d \<and> plain_manifest C fetch p d m)" for m
      using l index_link_not_plain [OF l] index_link_fun [OF l]
      by (metis converse_rtranclpE converse_rtranclp_into_rtranclp)
    then show ?thesis using r ResolveManifest_link [OF l] by simp
  next
    case False
    then have "(index_link C fetch p)\<^sup>*\<^sup>* desc d \<longleftrightarrow> d = desc" for d
      by (metis converse_rtranclpE rtranclp.rtrancl_refl)
    then show ?thesis using ResolveManifest_stop [OF False] by simp
  qed
qed


section \<open>Properties\<close>

text \<open>C37: manifest resolution returns and fails closed.  When index links do not cycle
  (content addressing rules cycles out), ResolveManifest returns; it gives a manifest
  exactly when the chain of platform entries from the descriptor ends in a blob that is
  a manifest and decodes, and every descriptor it follows was chosen for exactly the
  requested operating system and architecture.\<close>

theorem resolve_manifest_for_platform:
  assumes "\<forall>d d'. index_link C fetch p d d' \<longrightarrow> rank d' < (rank d :: nat)"
  shows "\<exists>r. ResolveManifest C fetch desc p = Some r \<and>
    (\<forall>m. r = Inr m \<longleftrightarrow> (\<exists>d. (index_link C fetch p)\<^sup>*\<^sup>* desc d \<and> plain_manifest C fetch p d m)) \<and>
    (\<forall>d. (index_link C fetch p)\<^sup>*\<^sup>* desc d \<longrightarrow> d = desc \<or> matches p d)"
  using ResolveManifest_chain [OF assms, of desc] chain_matches [of C fetch p desc] by blast

definition demo_codec :: codec where
  "demo_codec =
    \<lparr>cd_enc_agentfile = (\<lambda>_. Inl ErrJson), cd_dec_agentfile = (\<lambda>_. Inl ErrJson),
     cd_enc_manifest = (\<lambda>_. Inl ErrJson),
     cd_dec_manifest = (\<lambda>b. Inr \<lparr>mf_media = b, mf_artifact = [],
        mf_config = \<lparr>dc_media = [], dc_digest = [], dc_size = 0, dc_annotations = fmempty, dc_platform = None\<rparr>,
        mf_layers = [], mf_annotations = fmempty\<rparr>),
     cd_enc_index = (\<lambda>_. Inl ErrJson),
     cd_dec_index = (\<lambda>b. if b = ''index'' then Inr \<lparr>ix_manifests =
        [\<lparr>dc_media = [], dc_digest = ''a'', dc_size = 0, dc_annotations = fmempty,
          dc_platform = Some \<lparr>pf_os = ''linux'', pf_arch = ''amd64''\<rparr>\<rparr>,
         \<lparr>dc_media = [], dc_digest = ''b'', dc_size = 0, dc_annotations = fmempty,
          dc_platform = Some \<lparr>pf_os = ''linux'', pf_arch = ''arm64''\<rparr>\<rparr>]\<rparr> else Inl ErrJson),
     cd_digest = id, cd_gunzip = Inr, cd_untar = (\<lambda>_. ([], None))\<rparr>"

definition demo_blobs :: "Descriptor \<Rightarrow> (oerr, bytes) res" where
  "demo_blobs d = Inr (if dc_digest d = ''i'' then ''index'' else dc_digest d)"

definition demo_root :: Descriptor where
  "demo_root = \<lparr>dc_media = [], dc_digest = ''i'', dc_size = 0, dc_annotations = fmempty, dc_platform = None\<rparr>"

theorem resolve_manifest_for_platform_witness:
  "\<exists>m. ResolveManifest demo_codec demo_blobs demo_root \<lparr>pf_os = ''linux'', pf_arch = ''arm64''\<rparr> = Some (Inr m) \<and>
     mf_media m = ''b''"
proof -
  let ?p = "\<lparr>pf_os = ''linux'', pf_arch = ''arm64''\<rparr>"
  let ?b = "\<lparr>dc_media = [], dc_digest = ''b'', dc_size = 0, dc_annotations = fmempty, dc_platform = Some ?p\<rparr>"
  have ix: "resolveIndex demo_codec data ?p = (if data = ''index'' then Inr (Some ?b) else Inr None)" for data
    by (simp add: resolveIndex_def demo_codec_def matches_def)
  have link: "index_link demo_codec demo_blobs ?p d d' \<longleftrightarrow> demo_blobs d = Inr ''index'' \<and> d' = ?b" for d d'
    by (auto simp: index_link_def ix)
  have hyp: "\<forall>d d'. index_link demo_codec demo_blobs ?p d d' \<longrightarrow>
      (if demo_blobs d' = Inr ''index'' then 1 else 0) < (if demo_blobs d = Inr ''index'' then 1 else (0 :: nat))"
    by (auto simp: link) (simp add: demo_blobs_def)
  let ?m = "\<lparr>mf_media = ''b'', mf_artifact = [],
        mf_config = \<lparr>dc_media = [], dc_digest = [], dc_size = 0, dc_annotations = fmempty, dc_platform = None\<rparr>,
        mf_layers = [], mf_annotations = fmempty\<rparr>"
  have plain: "plain_manifest demo_codec demo_blobs ?p ?b ?m"
    by (simp add: plain_manifest_def demo_blobs_def ix) (simp add: demo_codec_def)
  have chain: "(index_link demo_codec demo_blobs ?p)\<^sup>*\<^sup>* demo_root ?b"
    by (rule r_into_rtranclp) (simp add: link demo_blobs_def demo_root_def)
  obtain r where r: "ResolveManifest demo_codec demo_blobs demo_root ?p = Some r"
    "\<And>m. r = Inr m \<longleftrightarrow>
      (\<exists>d. (index_link demo_codec demo_blobs ?p)\<^sup>*\<^sup>* demo_root d \<and> plain_manifest demo_codec demo_blobs ?p d m)"
    using resolve_manifest_for_platform [OF hyp, of demo_root] by blast
  have "r = Inr ?m" unfolding r(2) by (intro exI conjI) (fact chain, fact plain)
  then show ?thesis unfolding r(1) by (intro exI [of _ ?m] conjI) simp_all
qed

end
