(* ===== verification/State_Result.thy ===== *)
theory State_Result
  imports Prelude
begin

text \<open>
  Computations that change a state and may fail, as the build, store and
  workspace code does: the result carries the error or the value together
  with the state reached so far, because the sources do not undo what they
  did before an error.  The lemmas split successful sequences and carry
  invariants through them.
\<close>

type_synonym ('s, 'e, 'a) sm = "'s \<Rightarrow> ('e, 'a) res \<times> 's"

definition sm_return :: "'a \<Rightarrow> ('s, 'e, 'a) sm" where
  "sm_return a s = (Inr a, s)"

definition sm_lift :: "('e, 'a) res \<Rightarrow> ('s, 'e, 'a) sm" where
  "sm_lift r s = (r, s)"

definition sm_bind :: "('s, 'e, 'a) sm \<Rightarrow> ('a \<Rightarrow> ('s, 'e, 'b) sm) \<Rightarrow> ('s, 'e, 'b) sm" where
  "sm_bind m f s = (case m s of (Inl e, s') \<Rightarrow> (Inl e, s') | (Inr a, s') \<Rightarrow> f a s')"

definition sm_then :: "('s, 'e, 'a) sm \<Rightarrow> ('s, 'e, 'b) sm \<Rightarrow> ('s, 'e, 'b) sm" where
  "sm_then m n = sm_bind m (\<lambda>_. n)"

definition sm_err :: "('e \<Rightarrow> 'f) \<Rightarrow> ('s, 'e, 'a) sm \<Rightarrow> ('s, 'f, 'a) sm" where
  "sm_err f m s = (case m s of (Inl e, s') \<Rightarrow> (Inl (f e), s') | (Inr a, s') \<Rightarrow> (Inr a, s'))"

definition sm_do :: "('s \<Rightarrow> 'e option \<times> 's) \<Rightarrow> 'a \<Rightarrow> ('s, 'e, 'a) sm" where
  "sm_do op a s = (case op s of (None, s') \<Rightarrow> (Inr a, s') | (Some e, s') \<Rightarrow> (Inl e, s'))"

text \<open>A loop that stops at the first error and collects its results.\<close>

fun sm_each :: "('x \<Rightarrow> ('s, 'e, 'a) sm) \<Rightarrow> 'x list \<Rightarrow> ('s, 'e, 'a list) sm" where
  "sm_each f [] = sm_return []"
| "sm_each f (x # xs) = sm_bind (f x) (\<lambda>a. sm_bind (sm_each f xs) (\<lambda>as. sm_return (a # as)))"

lemmas sm_defs = sm_return_def sm_lift_def sm_bind_def sm_then_def sm_err_def sm_do_def


section \<open>Successful sequences\<close>

lemma sm_return_Inr [simp]: "sm_return a s = (Inr b, s') \<longleftrightarrow> b = a \<and> s' = s"
  by (auto simp: sm_return_def)

lemma sm_lift_Inr [simp]: "sm_lift r s = (Inr b, s') \<longleftrightarrow> r = Inr b \<and> s' = s"
  by (auto simp: sm_lift_def)

lemma sm_bind_Inr: "sm_bind m f s = (Inr b, s') \<longleftrightarrow> (\<exists>a s1. m s = (Inr a, s1) \<and> f a s1 = (Inr b, s'))"
  by (auto simp: sm_bind_def split: prod.splits sum.splits)

lemma sm_then_Inr: "sm_then m n s = (Inr b, s') \<longleftrightarrow> (\<exists>a s1. m s = (Inr a, s1) \<and> n s1 = (Inr b, s'))"
  by (simp add: sm_then_def sm_bind_Inr)

lemma sm_err_Inr [simp]: "sm_err f m s = (Inr b, s') \<longleftrightarrow> m s = (Inr b, s')"
  by (auto simp: sm_err_def split: prod.splits sum.splits)

lemma sm_do_Inr [simp]: "sm_do op a s = (Inr b, s') \<longleftrightarrow> b = a \<and> op s = (None, s')"
  by (auto simp: sm_do_def split: prod.splits option.splits)

lemma sm_each_Inr_length: "sm_each f xs s = (Inr as, s') \<Longrightarrow> length as = length xs"
  by (induction xs arbitrary: s as) (auto simp: sm_bind_Inr)


section \<open>Invariants\<close>

text \<open>The state satisfies the invariant afterwards, whether or not the computation failed.\<close>

definition keeps :: "('s \<Rightarrow> bool) \<Rightarrow> ('s, 'e, 'a) sm \<Rightarrow> bool" where
  "keeps P m \<longleftrightarrow> (\<forall>s. P s \<longrightarrow> P (snd (m s)))"

named_theorems keeps_intro

lemma keepsD: "keeps P m \<Longrightarrow> P s \<Longrightarrow> P (snd (m s))"
  by (simp add: keeps_def)

lemma keeps_return [keeps_intro, simp]: "keeps P (sm_return a)"
  by (simp add: keeps_def sm_return_def)

lemma keeps_lift [keeps_intro, simp]: "keeps P (sm_lift r)"
  by (simp add: keeps_def sm_lift_def)

lemma keeps_bind [keeps_intro]:
  assumes "keeps P m" "\<And>a. keeps P (f a)"
  shows "keeps P (sm_bind m f)"
  unfolding keeps_def
proof (intro allI impI)
  fix s assume "P s"
  then have "P (snd (m s))" by (rule keepsD [OF assms(1)])
  then show "P (snd (sm_bind m f s))"
    using keepsD [OF assms(2)] by (auto simp: sm_bind_def split: prod.splits sum.splits)
qed

lemma keeps_then [keeps_intro]: "keeps P m \<Longrightarrow> keeps P n \<Longrightarrow> keeps P (sm_then m n)"
  by (simp add: sm_then_def keeps_bind)

lemma keeps_err [keeps_intro]: "keeps P m \<Longrightarrow> keeps P (sm_err f m)"
  by (auto simp: keeps_def sm_err_def split: prod.splits sum.splits)

lemma keeps_each [keeps_intro]: "(\<And>x. x \<in> set xs \<Longrightarrow> keeps P (f x)) \<Longrightarrow> keeps P (sm_each f xs)"
  by (induction xs) (simp_all add: keeps_bind)

text \<open>The second part of a sequence runs only after the first succeeded.\<close>

lemma keeps_bind_if:
  assumes "keeps P m" "\<And>s a s1. m s = (Inr a, s1) \<Longrightarrow> keeps P (f a)"
  shows "keeps P (sm_bind m f)"
  unfolding keeps_def
proof (intro allI impI)
  fix s assume s: "P s"
  show "P (snd (sm_bind m f s))"
  proof (cases "m s")
    case (Pair r s1)
    then show ?thesis
      using keepsD [OF assms(1) s] keepsD [OF assms(2)] by (cases r) (auto simp: sm_bind_def)
  qed
qed

end
