(* ===== verification/Store.thy ===== *)
theory Store
  imports Oci State_Result
begin

text \<open>
  Package \<^verbatim>\<open>store\<close>: reading manifests and agentfiles out of a target, with and without
  the layer contents.  The functions are written over any target; the locale
  \<open>oras_target\<close> states what a target promises, and the build theory proves
  against it that what was built can be loaded.
\<close>


section \<open>Loading\<close>

datatype lerr = LResolve oerr | LFetchManifest oerr | LParseManifest oerr | LFetchConfig oerr | LParseAgentfile oerr

definition fetchBytes :: "'s target \<Rightarrow> Descriptor \<Rightarrow> ('s, oerr, bytes) sm" where
  "fetchBytes T desc s = (tg_Fetch T desc s, s)"

definition load_manifest :: "codec \<Rightarrow> 's target \<Rightarrow> Reference \<Rightarrow> ('s, lerr, Manifest) sm" where
  "load_manifest C T ref =
    sm_bind (sm_err LResolve (tg_Resolve T (ref_String ref))) (\<lambda>desc.
    sm_bind (sm_err LFetchManifest (fetchBytes T desc)) (\<lambda>manifestData.
    sm_err LParseManifest (sm_lift (cd_dec_manifest C manifestData))))"

definition Load :: "codec \<Rightarrow> 's target \<Rightarrow> Reference \<Rightarrow> ('s, lerr, Manifest \<times> Agentfile) sm" where
  "Load C T ref =
    sm_bind (load_manifest C T ref) (\<lambda>manifest.
    sm_bind (sm_err LFetchConfig (fetchBytes T (mf_config manifest))) (\<lambda>configData.
    sm_bind (sm_err LParseAgentfile (sm_lift (cd_dec_agentfile C configData))) (\<lambda>af.
    sm_return (manifest, af))))"

text \<open>One layer of \<^verbatim>\<open>LoadHydrated\<close>: the contents of context layers and of added files
  under their names; a layer that cannot be fetched is skipped.\<close>

definition hydrate_layer ::
  "(Descriptor \<Rightarrow> (oerr, bytes) res) \<Rightarrow> Descriptor \<Rightarrow>
   (string, bytes) gomap \<times> (string, bytes) gomap \<Rightarrow> (string, bytes) gomap \<times> (string, bytes) gomap" where
  "hydrate_layer fetch layer maps =
    (if title layer = [] then maps
     else case fetch layer of
            Inl _ \<Rightarrow> maps
          | Inr data \<Rightarrow>
              if dc_media layer = ContextLayerMediaType
              then (fmupd (TrimSuffix (title layer) ''.md'') data (fst maps), snd maps)
              else if dc_media layer = OctetStream then (fst maps, fmupd (title layer) data (snd maps))
              else maps)"

definition hydrate_context :: "(string, bytes) gomap \<Rightarrow> Context \<Rightarrow> Context" where
  "hydrate_context contextData c =
    (if ctx_content c = [] then
       (case fmlookup contextData (ctx_name c) of
          Some data \<Rightarrow> c\<lparr>ctx_content := data, ctx_file := []\<rparr>
        | None \<Rightarrow> c)
     else c)"

definition hydrate_add :: "(string, bytes) gomap \<Rightarrow> Add \<Rightarrow> Add" where
  "hydrate_add addData a =
    (case fmlookup addData (add_name a) of Some data \<Rightarrow> a\<lparr>add_content := data\<rparr> | None \<Rightarrow> a)"

definition hydrate_agent ::
  "(Descriptor \<Rightarrow> (oerr, bytes) res) \<Rightarrow> Descriptor list \<Rightarrow> Agent \<Rightarrow> Agent" where
  "hydrate_agent fetch layers a =
    (let maps = fold (hydrate_layer fetch) layers (fmempty, fmempty)
     in a\<lparr>ag_contexts := map (hydrate_context (fst maps)) (ag_contexts a),
           ag_adds := map (hydrate_add (snd maps)) (ag_adds a)\<rparr>)"

definition LoadHydrated :: "codec \<Rightarrow> 's target \<Rightarrow> Reference \<Rightarrow> ('s, lerr, Agentfile) sm" where
  "LoadHydrated C T ref =
    sm_bind (Load C T ref) (\<lambda>(manifest, af) s.
      (Inr (case af_agent af of
              None \<Rightarrow> af
            | Some a \<Rightarrow> af\<lparr>af_agent := Some (hydrate_agent (\<lambda>d. tg_Fetch T d s) (mf_layers manifest) a)\<rparr>), s))"

definition Layers :: "Manifest \<Rightarrow> string \<Rightarrow> Descriptor list" where
  "Layers manifest mediaType = filter (\<lambda>l. dc_media l = mediaType) (mf_layers manifest)"

definition FetchLayer :: "'s target \<Rightarrow> Descriptor \<Rightarrow> ('s, oerr, bytes) sm" where
  "FetchLayer T desc = fetchBytes T desc"

text \<open>\<^verbatim>\<open>LoadAgentFromSource\<close>: copy out of the source under its tag into a fresh store
  under the full reference, then load; \<open>copy\<close> is \<^verbatim>\<open>oras.Copy\<close> into a fresh store.\<close>

definition LoadAgentFromSource ::
  "codec \<Rightarrow> 's target \<Rightarrow> (string \<Rightarrow> string \<Rightarrow> (lerr, 's) res) \<Rightarrow> Reference \<Rightarrow> (lerr, Agentfile) res" where
  "LoadAgentFromSource C T copy ref =
    res_bind (copy (if ref_tag ref = [] then DefaultTag else ref_tag ref) (ref_String ref))
      (\<lambda>store. fst (LoadHydrated C T ref store))"


section \<open>What a target promises\<close>

text \<open>Every descriptor with the given digest can be fetched and gives the data.\<close>

definition has_blob :: "'s target \<Rightarrow> 's \<Rightarrow> string \<Rightarrow> bytes \<Rightarrow> bool" where
  "has_blob T s g x \<longleftrightarrow> (\<forall>e. dc_digest e = g \<longrightarrow> tg_Fetch T e s = Inr x)"

locale oras_target =
  fixes T :: "'s target"
  assumes fetch_push: "tg_Push T d x s = (None, s') \<Longrightarrow>
      tg_Fetch T e s' = (if dc_digest e = dc_digest d then Inr x else tg_Fetch T e s)"
    and fetch_tag: "tg_Tag T d r s = (None, s') \<Longrightarrow> tg_Fetch T e s' = tg_Fetch T e s"
    and resolve_tag: "tg_Tag T d r s = (None, s') \<Longrightarrow>
      \<exists>d'. tg_Resolve T r s' = (Inr d', s') \<and> dc_digest d' = dc_digest d"
begin

lemma push_has_blob: "tg_Push T d x s = (None, s') \<Longrightarrow> has_blob T s' (dc_digest d) x"
  by (simp add: has_blob_def fetch_push)

lemma push_keeps_blob:
  "tg_Push T d x s = (None, s') \<Longrightarrow> has_blob T s g y \<Longrightarrow> (g = dc_digest d \<Longrightarrow> x = y) \<Longrightarrow> has_blob T s' g y"
  using fetch_push [of d x s s'] by (auto simp: has_blob_def)

lemma tag_keeps_blob: "tg_Tag T d r s = (None, s') \<Longrightarrow> has_blob T s' g y \<longleftrightarrow> has_blob T s g y"
  by (simp add: has_blob_def fetch_tag)

text \<open>A tagged manifest whose blob and config blob are there is loaded.\<close>

lemma load_tagged:
  assumes tag: "tg_Tag T d (ref_String ref) s = (None, s')"
    and "has_blob T s (dc_digest d) mdata" "cd_dec_manifest C mdata = Inr m"
    and "has_blob T s (dc_digest (mf_config m)) cdata" "cd_dec_agentfile C cdata = Inr af"
  shows "Load C T ref s' = (Inr (m, af), s')"
proof -
  obtain d' where d': "tg_Resolve T (ref_String ref) s' = (Inr d', s')" "dc_digest d' = dc_digest d"
    using resolve_tag [OF tag] by blast
  have "tg_Fetch T d' s' = Inr mdata" "tg_Fetch T (mf_config m) s' = Inr cdata"
    using assms(2,4) d'(2) fetch_tag [OF tag] by (simp_all add: has_blob_def)
  then show ?thesis
    using d'(1) assms(3,5) by (simp add: Load_def load_manifest_def fetchBytes_def sm_defs)
qed

lemma load_hydrated_tagged:
  assumes tag: "tg_Tag T d (ref_String ref) s = (None, s')"
    and "has_blob T s (dc_digest d) mdata" "cd_dec_manifest C mdata = Inr m"
    and "has_blob T s (dc_digest (mf_config m)) cdata" "cd_dec_agentfile C cdata = Inr af"
    and "af_agent af = Some a"
  shows "LoadHydrated C T ref s' =
    (Inr (af\<lparr>af_agent := Some (hydrate_agent (\<lambda>d. tg_Fetch T d s) (mf_layers m) a)\<rparr>), s')"
  using load_tagged [OF assms(1-5)] assms(6) fetch_tag [OF tag]
  by (simp add: LoadHydrated_def sm_bind_def)

end

end
