(* ===== verification/Path_Confine.thy ===== *)
theory Path_Confine
  imports Paths
begin

text \<open>
  When a computed path stays inside a directory: the meaning of the lexical
  check \<^verbatim>\<open>filepath.Rel\<close> gives on absolute paths, the parent of a cleaned path,
  and relative paths that cannot leave the directory they are resolved in.
\<close>


section \<open>First and last elements\<close>

lemma takeWhile_Join:
  assumes "es \<noteq> []" "c \<notin> set (hd es)"
  shows "takeWhile (\<lambda>x. x \<noteq> c) (Join es [c]) = hd es"
proof -
  obtain e es' where es: "es = e # es'" using assms(1) by (cases es) auto
  have "takeWhile (\<lambda>x. x \<noteq> c) (e @ s) = e" if "s = [] \<or> hd s = c" for s
    using assms(2) that by (cases s) (auto simp: es takeWhile_append takeWhile_eq_all_conv)
  from this [of "[]"] this [of "c # Join es' [c]"] show ?thesis by (cases es') (simp_all add: es)
qed

lemma LastIndex_none: "c \<notin> set h \<Longrightarrow> LastIndex h [c] = None"
  by (induction h) (auto simp: HasPrefix_def)

lemma LastIndex_app: "c \<notin> set h \<Longrightarrow> LastIndex (a @ c # h) [c] = Some (length a)"
  by (induction a) (auto simp: HasPrefix_def LastIndex_none)

lemma Join_snoc: "es \<noteq> [] \<Longrightarrow> Join (es @ [e]) s = Join es s @ s @ e"
  by (induction es s rule: Join.induct) auto

lemma JoinPath_two: "a \<noteq> [] \<Longrightarrow> JoinPath [a, b] = Clean (a @ ''/'' @ b)"
  by (simp add: JoinPath_def)

lemma JoinPath_clean [simp]: "d \<noteq> [] \<Longrightarrow> Clean (JoinPath (d # es)) = JoinPath (d # es)"
  by (simp add: JoinPath_def)

lemma JoinPath_rooted: "a \<noteq> [] \<Longrightarrow> rooted (JoinPath [a, b]) = rooted a"
  by (simp add: JoinPath_two)

lemma elems_rooted_plain: "rooted p \<Longrightarrow> list_all plain_elem (elems p)"
  using elems_elems_ok [of p] elems_ok_rooted by simp

lemma Clean_rooted: "rooted p \<Longrightarrow> Clean p = unelems True (elems p)"
  by (auto simp: Clean_def rooted_def)


section \<open>The lexical check\<close>

lemma strip_common_prefix:
  "strip_common bs ts = (bs', ts') \<Longrightarrow>
     \<exists>p. bs = p @ bs' \<and> ts = p @ ts' \<and> (bs' = [] \<or> ts' = [] \<or> hd bs' \<noteq> hd ts')"
proof (induction bs ts rule: strip_common.induct)
  case (1 b bs t ts)
  show ?case
  proof (cases "b = t")
    case True
    then obtain p where "bs = p @ bs' \<and> ts = p @ ts' \<and> (bs' = [] \<or> ts' = [] \<or> hd bs' \<noteq> hd ts')"
      using 1 by auto
    then show ?thesis using True by (intro exI [of _ "b # p"]) simp
  next
    case False
    then show ?thesis using 1(2) by (intro exI [of _ "[]"]) auto
  qed
qed auto

definition escapes :: "string \<Rightarrow> bool" where
  "escapes w \<longleftrightarrow> w = ''..'' \<or> HasPrefix w ''../''"

lemma escapes_first: "escapes w \<longleftrightarrow> takeWhile (\<lambda>c. c \<noteq> CHR ''/'') w = dotdot"
proof
  assume "escapes w"
  then show "takeWhile (\<lambda>c. c \<noteq> CHR ''/'') w = dotdot"
  proof (cases "w = ''..''")
    case False
    then have "take 3 w = ''../''" using \<open>escapes w\<close> by (simp add: escapes_def HasPrefix_def numeral_3_eq_3)
    then have "w = ''../'' @ drop 3 w" using append_take_drop_id [of 3 w] by simp
    then show ?thesis using takeWhile_tail [of "\<lambda>c. c \<noteq> CHR ''/''" "CHR ''/''" "''..''" "drop 3 w"]
      by (simp add: dotdot_def)
  qed (simp add: dotdot_def)
next
  assume t: "takeWhile (\<lambda>c. c \<noteq> CHR ''/'') w = dotdot"
  have w: "w = dotdot @ dropWhile (\<lambda>c. c \<noteq> CHR ''/'') w" using t takeWhile_dropWhile_id [of "\<lambda>c. c \<noteq> CHR ''/''" w] by simp
  show "escapes w"
  proof (cases "dropWhile (\<lambda>c. c \<noteq> CHR ''/'') w")
    case Nil
    have "w = dotdot" using w unfolding Nil by simp
    then show ?thesis by (simp add: escapes_def dotdot_def)
  next
    case (Cons c cs)
    then have "c = CHR ''/''" using hd_dropWhile [of "\<lambda>c. c \<noteq> CHR ''/''" w] by simp
    then have "w = ''../'' @ cs" using w Cons by (simp add: dotdot_def)
    then show ?thesis by (simp add: escapes_def HasPrefix_def)
  qed
qed

lemma Rel_rooted:
  assumes "rooted root" "rooted p"
  shows "\<exists>w. Rel root p = Some w \<and> (escapes w \<longleftrightarrow> \<not> inside root p)"
proof -
  let ?b = "elems root" and ?t = "elems p"
  have pl: "list_all plain_elem ?b" "list_all plain_elem ?t" using assms elems_rooted_plain by auto
  have ne: "root \<noteq> []" "p \<noteq> []" using assms by (auto simp: rooted_def)
  have cb: "Clean root = unelems True ?b" "Clean p = unelems True ?t" using assms Clean_rooted by auto
  have dot: "Clean p \<noteq> ''.''" using cb(2) by (simp add: unelems_def)
  have eq: "Clean root = Clean p \<longleftrightarrow> ?b = ?t"
    using cb elems_unelems(1) [of True ?b] elems_unelems(1) [of True ?t] pl elems_ok_rooted by metis
  show ?thesis
  proof (cases "?b = ?t")
    case True
    then have "Rel root p = Some ''.''" using eq by (simp add: Rel_def Let_def)
    moreover have "inside root p" using True assms by (simp add: inside_def)
    moreover have "\<not> escapes ''.''" by (simp add: escapes_def HasPrefix_def)
    ultimately show ?thesis by blast
  next
    case False
    obtain bs ts where s: "strip_common ?b ?t = (bs, ts)" by (cases "strip_common ?b ?t")
    obtain q where q: "?b = q @ bs" "?t = q @ ts" using strip_common_prefix [OF s] by blast
    have bp: "list_all plain_elem bs" "list_all plain_elem ts" using pl q by auto
    have "bs \<noteq> [] \<Longrightarrow> hd bs \<noteq> dotdot" using bp(1) by (cases bs) (auto simp: plain_elem_def)
    then have "\<not> (bs \<noteq> [] \<and> hd bs = dotdot)" by blast
    then have rel: "Rel root p = Some (Join (replicate (length bs) dotdot @ ts) ''/'')"
      using eq False s dot assms ne by (simp add: Rel_def Let_def)
    let ?es = "replicate (length bs) dotdot @ ts"
    have ne': "?es \<noteq> []" using False q by auto
    have hd: "hd ?es = (if bs = [] then hd ts else dotdot)" by (cases bs) auto
    have "CHR ''/'' \<notin> set (hd ?es)" using bp(2) ne' hd by (cases ts) (auto simp: plain_elem_def dotdot_def split: if_splits)
    then have first: "takeWhile (\<lambda>c. c \<noteq> CHR ''/'') (Join ?es ''/'') = hd ?es" by (rule takeWhile_Join [OF ne'])
    have "escapes (Join ?es ''/'') \<longleftrightarrow> bs \<noteq> []"
      using first hd ne' bp(2) by (cases ts) (auto simp: escapes_first plain_elem_def)
    moreover have "inside root p \<longleftrightarrow> bs = []"
    proof
      assume "bs = []"
      then show "inside root p" using q bp(2) assms ne' by (auto simp: inside_def strictly_inside_def)
    next
      assume "inside root p"
      then obtain es where "?t = ?b @ es" by (auto simp: inside_def strictly_inside_def)
      then show "bs = []" using s strip_common_append [of ?b es] by simp
    qed
    ultimately show ?thesis using rel by blast
  qed
qed


section \<open>Parents\<close>

lemma path_Dir_unelems:
  assumes "list_all plain_elem (es @ [e])" "r \<or> es \<noteq> []"
  shows "elems (path_Dir (unelems r (es @ [e]))) = es" "rooted (path_Dir (unelems r (es @ [e]))) = r"
proof -
  have sl: "CHR ''/'' \<notin> set e" using assms(1) by (simp add: plain_elem_def)
  define a where "a = (if r then (if es = [] then [] else ''/'' @ Join es ''/'') else Join es ''/'')"
  have u: "unelems r (es @ [e]) = a @ CHR ''/'' # e"
    using assms(2) by (auto simp: unelems_def a_def Join_snoc)
  have "take (Suc (length a)) (a @ CHR ''/'' # e) = a @ ''/''" by simp
  then have d: "path_Dir (unelems r (es @ [e])) = Clean (a @ ''/'')"
    using LastIndex_app [OF sl, of a] by (simp add: path_Dir_def u)
  have ok: "elems_ok r es" using assms(1) by (auto simp: elems_ok_def elem_ok_def plain_elem_def list_all_iff intro: exI [of _ 0])
  have "elems (a @ ''/'') = es \<and> rooted (a @ ''/'') = r"
  proof (cases "a = []")
    case True
    then have "es = []" "r" using assms(2) Join_nonempty_hd [of es "''/''"] elems_ok_no_slash [OF ok]
      by (auto simp: a_def split: if_splits)
    then show ?thesis using True by (simp add: elems_def rooted_def clean_step_def)
  next
    case False
    then have a: "a = unelems r es" using assms(2) by (auto simp: a_def unelems_def split: if_splits)
    have "clean_step r [] es = es" by (simp add: clean_step_def)
    then show ?thesis
      using elems_append [OF False, of "[]"] elems_unelems [OF ok] False by (simp add: a)
  qed
  then show "elems (path_Dir (unelems r (es @ [e]))) = es" "rooted (path_Dir (unelems r (es @ [e]))) = r"
    by (simp_all add: d)
qed

lemma path_Dir_inside:
  assumes "strictly_inside d p" "rooted d" "Clean p = p"
  shows "inside d (path_Dir p)"
proof -
  obtain es where es: "es \<noteq> []" "list_all plain_elem es" "elems p = elems d @ es" "rooted p"
    using assms(1,2) by (auto simp: strictly_inside_def)
  obtain xs x where x: "es = xs @ [x]" using es(1) by (cases es rule: rev_cases) auto
  have p: "p = unelems True ((elems d @ xs) @ [x])"
    using Clean_rooted [OF es(4)] assms(3) es(3) x by simp
  have "list_all plain_elem ((elems d @ xs) @ [x])" using elems_rooted_plain [OF es(4)] es(3) x by simp
  from path_Dir_unelems [OF this, of True] have "elems (path_Dir p) = elems d @ xs" "rooted (path_Dir p)"
    by (simp_all add: p)
  then show ?thesis using es(2) x assms(2) by (cases "xs = []") (auto simp: inside_def strictly_inside_def)
qed


section \<open>Relative paths that stay\<close>

text \<open>A relative path with at least one element and no dot-dot left after cleaning: it
  names something strictly below the directory it is resolved in.\<close>

definition local_path :: "string \<Rightarrow> bool" where
  "local_path p \<longleftrightarrow> \<not> rooted p \<and> elems p \<noteq> [] \<and> list_all plain_elem (elems p)"

lemma local_path_nonempty: "local_path p \<Longrightarrow> p \<noteq> []"
  by (auto simp: local_path_def elems_def clean_step_def)

lemma local_elem: "plain_elem e \<Longrightarrow> local_path e"
proof -
  assume e: "plain_elem e"
  then have "split_on (CHR ''/'') e = [e]" by (intro split_on_no_sep) (simp add: plain_elem_def)
  then show "local_path e"
    using e by (cases e) (auto simp: local_path_def elems_def rooted_def clean_step_plain plain_elem_def)
qed

lemma local_JoinPath:
  "local_path d \<Longrightarrow> list_all plain_elem es \<Longrightarrow> local_path (JoinPath (d # es))"
proof (cases "es = []")
  case True
  assume d: "local_path d"
  then show ?thesis using local_path_nonempty [OF d] True by (simp add: JoinPath_def local_path_def)
next
  case False
  assume "local_path d" "list_all plain_elem es"
  then show ?thesis
    using JoinPath_plain [OF local_path_nonempty False] by (simp add: local_path_def)
qed

lemma local_path_Dir:
  assumes "local_path p" "Clean p = p" "length (elems p) \<ge> 2"
  shows "local_path (path_Dir p)"
proof -
  define xs where "xs = butlast (elems p)"
  define x where "x = last (elems p)"
  have ne: "elems p \<noteq> []" using assms(3) by auto
  have "length xs > 0" using assms(3) by (simp add: xs_def)
  then have x: "elems p = xs @ [x]" "xs \<noteq> []" using ne unfolding xs_def x_def by (simp, force)
  have p: "p = unelems False (xs @ [x])"
    using assms(1,2) x local_path_nonempty [OF assms(1)] by (simp add: Clean_def local_path_def)
  have "list_all plain_elem (xs @ [x])" using assms(1) x by (simp add: local_path_def)
  from path_Dir_unelems [OF this, of False] show ?thesis
    using x(2) \<open>list_all plain_elem (xs @ [x])\<close> by (simp add: p local_path_def)
qed

end
