(* ===== verification/Docker_Store.thy ===== *)
theory Docker_Store
  imports Store Path_Confine
begin

text \<open>
  The image store of the docker executor, \<^verbatim>\<open>executor/docker/store.go\<close> and
  \<^verbatim>\<open>refresolve.go\<close>: an \<^verbatim>\<open>oras.Target\<close> that stages blobs in memory, loads an OCI
  layout archive into the daemon when an image is tagged, and hydrates from
  the daemon's saved archive when an image is resolved.  The moby client is a
  parameter over the daemon's state; an archive is the list of its entries.
\<close>


section \<open>Client and store\<close>

record 'd client =
  cl_ImageList :: "'d \<Rightarrow> (oerr, (string \<times> string list) list) res"
  cl_ImageSave :: "string \<Rightarrow> 'd \<Rightarrow> (oerr, tar_entry list \<times> oerr option) res"
  cl_ImageLoad :: "tar_entry list \<Rightarrow> 'd \<Rightarrow> oerr option \<times> 'd"
  cl_order :: "(string, bytes) gomap \<Rightarrow> string list"

text \<open>\<open>ds_daemon\<close> is what lies behind the \<^verbatim>\<open>cli\<close> field.\<close>

record 'd dstore =
  ds_daemon :: 'd
  ds_blobs :: "(string, bytes) gomap"
  ds_descs :: "(string, Descriptor) gomap"
  ds_loaded :: "(string, Descriptor) gomap"

definition NewStore :: "'d \<Rightarrow> 'd dstore" where
  "NewStore d = \<lparr>ds_daemon = d, ds_blobs = fmempty, ds_descs = fmempty, ds_loaded = fmempty\<rparr>"

definition Push :: "Descriptor \<Rightarrow> bytes \<Rightarrow> 'd dstore \<Rightarrow> oerr option \<times> 'd dstore" where
  "Push desc data s =
    (None, s\<lparr>ds_blobs := fmupd (dc_digest desc) data (ds_blobs s),
             ds_descs := fmupd (dc_digest desc) desc (ds_descs s)\<rparr>)"

definition Exists :: "Descriptor \<Rightarrow> 'd dstore \<Rightarrow> bool" where
  "Exists desc s \<longleftrightarrow> fmlookup (ds_blobs s) (dc_digest desc) \<noteq> None"

definition Fetch :: "Descriptor \<Rightarrow> 'd dstore \<Rightarrow> (oerr, bytes) res" where
  "Fetch desc s =
    (case fmlookup (ds_blobs s) (dc_digest desc) of Some data \<Rightarrow> Inr data | None \<Rightarrow> Inl ErrNotFound)"


section \<open>Image identifiers\<close>

definition isLikelyImageID :: "string \<Rightarrow> bool" where
  "isLikelyImageID ref \<longleftrightarrow> length ref > length ''sha256:'' \<and> take (length ''sha256:'') ref = ''sha256:''"

text \<open>The empty identifier means that no image matches.\<close>

definition resolveImageID :: "'d client \<Rightarrow> string \<Rightarrow> 'd \<Rightarrow> (oerr, string) res" where
  "resolveImageID cli ref d =
    (if isLikelyImageID ref then Inr ref
     else res_bind (cl_ImageList cli d) (\<lambda>items.
       Inr (case List.find (\<lambda>(i, tags). ref \<in> set tags) items of Some (i, tags) \<Rightarrow> i | None \<Rightarrow> [])))"


section \<open>Archives\<close>

definition writeTarFile :: "string \<Rightarrow> bytes \<Rightarrow> tar_entry list \<Rightarrow> tar_entry list" where
  "writeTarFile name data tw = tw @ [\<lparr>te_name = name, te_regular = True, te_data = data\<rparr>]"

text \<open>The algorithm and the encoded part of a digest; a digest without a colon panics in
  the digest package.\<close>

definition digest_parts :: "string \<Rightarrow> (oerr, string \<times> string) res" where
  "digest_parts d =
    (case Index d '':'' of Some i \<Rightarrow> Inr (take i d, drop (Suc i) d) | None \<Rightarrow> Inl (ErrClient ''panic''))"

definition layout_index :: "string \<Rightarrow> Descriptor \<Rightarrow> Index" where
  "layout_index ref desc =
    \<lparr>ix_manifests =
      [\<lparr>dc_media = dc_media desc, dc_digest = dc_digest desc, dc_size = dc_size desc,
        dc_annotations = fmupd ''io.containerd.image.name'' ref (fmupd AnnotationRefName ref fmempty),
        dc_platform = None\<rparr>]\<rparr>"

definition write_blob :: "(string, bytes) gomap \<Rightarrow> string \<Rightarrow> tar_entry list \<Rightarrow> (oerr, tar_entry list) res" where
  "write_blob blobs d tw =
    res_bind (digest_parts d) (\<lambda>(alg, enc).
      Inr (writeTarFile (''blobs/'' @ alg @ ''/'' @ enc) (map_at blobs d) tw))"

definition layout_version :: bytes where
  "layout_version = ''{'' @ [CHR 0x22] @ ''imageLayoutVersion'' @ [CHR 0x22] @ '':'' @ [CHR 0x22] @ ''1.0.0'' @ [CHR 0x22] @ ''}''"

definition buildOCILayoutTar ::
  "codec \<Rightarrow> string list \<Rightarrow> string \<Rightarrow> Descriptor \<Rightarrow> (string, bytes) gomap \<Rightarrow> (oerr, tar_entry list) res" where
  "buildOCILayoutTar C order ref desc blobs =
    res_bind (cd_enc_index C (layout_index ref desc)) (\<lambda>indexData.
      fold_res (write_blob blobs) order
        (writeTarFile ''index.json'' indexData (writeTarFile ''oci-layout'' layout_version [])))"

definition pickManifest :: "Index \<Rightarrow> string \<Rightarrow> Descriptor option" where
  "pickManifest index ref =
    (case List.find (\<lambda>m. annot (dc_annotations m) AnnotationRefName = ref \<or>
                          annot (dc_annotations m) ''io.containerd.image.name'' = ref) (ix_manifests index) of
       Some m \<Rightarrow> Some m
     | None \<Rightarrow> (case ix_manifests index of [m] \<Rightarrow> Some m | _ \<Rightarrow> None))"

text \<open>One entry of the saved archive: the index, a blob, or something else.\<close>

definition save_step :: "tar_entry \<Rightarrow> bytes option \<times> (string, bytes) gomap \<Rightarrow> bytes option \<times> (string, bytes) gomap" where
  "save_step h acc =
    (if te_name h = ''index.json'' then (Some (te_data h), snd acc)
     else if HasPrefix (te_name h) ''blobs/sha256/''
     then (fst acc, fmupd (''sha256:'' @ path_Base (te_name h)) (te_data h) (snd acc))
     else acc)"

definition minimal_desc :: "string \<Rightarrow> bytes \<Rightarrow> Descriptor" where
  "minimal_desc d data =
    \<lparr>dc_media = [], dc_digest = d, dc_size = int (length data), dc_annotations = fmempty, dc_platform = None\<rparr>"

definition hydrate :: "codec \<Rightarrow> 'd client \<Rightarrow> string \<Rightarrow> 'd dstore \<Rightarrow> (oerr, Descriptor) res \<times> 'd dstore" where
  "hydrate C cli ref s =
    (case resolveImageID cli ref (ds_daemon s) of
       Inl _ \<Rightarrow> (Inl ErrNotFound, s)
     | Inr i \<Rightarrow>
         if i = [] then (Inl ErrNotFound, s)
         else case cl_ImageSave cli i (ds_daemon s) of
                Inl _ \<Rightarrow> (Inl ErrNotFound, s)
              | Inr (entries, Some e) \<Rightarrow> (Inl e, s)
              | Inr (entries, None) \<Rightarrow>
                  (let (indexData, saved) = fold save_step entries (None, fmempty)
                   in case indexData of
                        None \<Rightarrow> (Inl ErrNoIndexJson, s)
                      | Some data \<Rightarrow>
                          (case cd_dec_index C data of
                             Inl e \<Rightarrow> (Inl e, s)
                           | Inr index \<Rightarrow>
                               (case pickManifest index ref of
                                  None \<Rightarrow> (Inl ErrNotFound, s)
                                | Some m \<Rightarrow>
                                    (Inr m, s\<lparr>ds_blobs := ds_blobs s ++\<^sub>f saved,
                                              ds_descs := fmupd (dc_digest m) m
                                                (ds_descs s ++\<^sub>f fmmap_keys minimal_desc saved)\<rparr>)))))"

definition docker_Resolve :: "codec \<Rightarrow> 'd client \<Rightarrow> string \<Rightarrow> 'd dstore \<Rightarrow> (oerr, Descriptor) res \<times> 'd dstore" where
  "docker_Resolve C cli ref s =
    (case fmlookup (ds_loaded s) ref of
       Some desc \<Rightarrow> (Inr desc, s)
     | None \<Rightarrow>
         (case hydrate C cli ref s of
            (Inl e, s') \<Rightarrow> (Inl e, s')
          | (Inr m, s') \<Rightarrow> (Inr m, s'\<lparr>ds_loaded := fmupd ref m (ds_loaded s')\<rparr>)))"

text \<open>The fields Tag fills in from the staged descriptor.\<close>

definition fill_desc :: "(string, Descriptor) gomap \<Rightarrow> Descriptor \<Rightarrow> Descriptor" where
  "fill_desc descs desc =
    (case fmlookup descs (dc_digest desc) of
       None \<Rightarrow> desc
     | Some staged \<Rightarrow>
         desc\<lparr>dc_media := (if dc_media desc = [] then dc_media staged else dc_media desc),
               dc_size := (if dc_size desc = 0 then dc_size staged else dc_size desc)\<rparr>)"

definition docker_Tag :: "codec \<Rightarrow> 'd client \<Rightarrow> Descriptor \<Rightarrow> string \<Rightarrow> 'd dstore \<Rightarrow> oerr option \<times> 'd dstore" where
  "docker_Tag C cli desc0 ref s =
    (let desc = fill_desc (ds_descs s) desc0;
         s1 = s\<lparr>ds_loaded := fmupd ref desc (ds_loaded s)\<rparr>
     in if HasPrefix ref ''sha256:'' \<or> \<not> Contains ref '':'' then (None, s1)
        else if fmlookup (ds_blobs s1) (dc_digest desc) = None then (Some ErrNotStaged, s1)
        else case buildOCILayoutTar C (cl_order cli (ds_blobs s1)) ref desc (ds_blobs s1) of
               Inl e \<Rightarrow> (Some e, s1)
             | Inr tar \<Rightarrow>
                 (let (err, d') = cl_ImageLoad cli tar (ds_daemon s1)
                  in (err, s1\<lparr>ds_daemon := d'\<rparr>)))"

definition docker_target :: "codec \<Rightarrow> 'd client \<Rightarrow> 'd dstore target" where
  "docker_target C cli =
    \<lparr>tg_Resolve = docker_Resolve C cli, tg_Fetch = Fetch, tg_Push = Push, tg_Tag = docker_Tag C cli\<rparr>"


section \<open>The store is a target\<close>

lemma fill_desc_digest [simp]: "dc_digest (fill_desc descs d) = dc_digest d"
  by (simp add: fill_desc_def split: option.splits)

lemma docker_Tag_effect:
  assumes "docker_Tag C cli d r s = (None, s')"
  shows "ds_blobs s' = ds_blobs s" "ds_loaded s' = fmupd r (fill_desc (ds_descs s) d) (ds_loaded s)"
  using assms by (auto simp: docker_Tag_def Let_def split: if_splits sum.splits prod.splits)

interpretation docker: oras_target "docker_target C cli" for C cli
proof
  fix d e :: Descriptor and x r and s s' :: "'a dstore"
  show "tg_Fetch (docker_target C cli) e s' = (if dc_digest e = dc_digest d then Inr x else tg_Fetch (docker_target C cli) e s)"
    if "tg_Push (docker_target C cli) d x s = (None, s')"
    using that by (auto simp: docker_target_def Push_def Fetch_def)
  show "tg_Fetch (docker_target C cli) e s' = tg_Fetch (docker_target C cli) e s"
    if "tg_Tag (docker_target C cli) d r s = (None, s')"
    using docker_Tag_effect(1) [of C cli d r s s'] that by (simp add: docker_target_def Fetch_def)
  show "\<exists>d'. tg_Resolve (docker_target C cli) r s' = (Inr d', s') \<and> dc_digest d' = dc_digest d"
    if "tg_Tag (docker_target C cli) d r s = (None, s')"
    using docker_Tag_effect(2) [of C cli d r s s'] that by (simp add: docker_target_def docker_Resolve_def)
qed

section \<open>From one store through the daemon to another\<close>

text \<open>A sha256 digest: the prefix and a non-empty encoded part without colon or slash.\<close>

definition sha_digest :: "string \<Rightarrow> bool" where
  "sha_digest d \<longleftrightarrow> (\<exists>h. d = ''sha256:'' @ h \<and> h \<noteq> [] \<and> CHR ''/'' \<notin> set h)"

lemma digest_parts_sha: "digest_parts (''sha256:'' @ h) = Inr (''sha256'', h)"
  by (simp add: digest_parts_def HasPrefix_def)

lemma path_Base_blob:
  assumes "h \<noteq> []" "CHR ''/'' \<notin> set h"
  shows "path_Base (''blobs/sha256/'' @ h) = h"
proof -
  have "TrimRight (''blobs/sha256/'' @ h) ''/'' = ''blobs/sha256/'' @ h"
    using assms by (cases h rule: rev_cases) (auto simp: TrimRight_def)
  moreover have "LastIndex (''blobs/sha256/'' @ h) ''/'' = Some 12"
    using LastIndex_app [OF assms(2), of "''blobs/sha256''"] by simp
  ultimately show ?thesis using assms(1) by (simp add: path_Base_def)
qed

definition blob_entry :: "(string, bytes) gomap \<Rightarrow> string \<Rightarrow> tar_entry" where
  "blob_entry blobs d = \<lparr>te_name = ''blobs/sha256/'' @ drop 7 d, te_regular = True, te_data = map_at blobs d\<rparr>"

lemma write_blobs_sha:
  "\<forall>d \<in> set order. sha_digest d \<Longrightarrow>
     fold_res (write_blob blobs) order tw = Inr (tw @ map (blob_entry blobs) order)"
proof (induction order arbitrary: tw)
  case (Cons d order)
  then obtain h where d: "d = ''sha256:'' @ h" by (auto simp: sha_digest_def)
  have "write_blob blobs d tw = Inr (tw @ [blob_entry blobs d])"
    using digest_parts_sha [of h] by (simp add: d write_blob_def writeTarFile_def blob_entry_def)
  then show ?case using Cons by simp
qed simp

lemma save_blob_entry:
  assumes "sha_digest d"
  shows "save_step (blob_entry blobs d) acc = (fst acc, fmupd d (map_at blobs d) (snd acc))"
proof -
  obtain h where h: "d = ''sha256:'' @ h" "h \<noteq> []" "CHR ''/'' \<notin> set h" using assms by (auto simp: sha_digest_def)
  then show ?thesis
    using path_Base_blob [OF h(2,3)] by (simp add: save_step_def blob_entry_def HasPrefix_def)
qed

lemma save_blob_entries:
  "\<forall>d \<in> set order. sha_digest d \<Longrightarrow>
     fold save_step (map (blob_entry blobs) order) acc =
       (fst acc, fold (\<lambda>d. fmupd d (map_at blobs d)) order (snd acc))"
  by (induction order arbitrary: acc) (simp_all add: save_blob_entry)

lemma fold_fmupd_lookup:
  "fmlookup (fold (\<lambda>d. fmupd d (f d)) order m) k = (if k \<in> set order then Some (f k) else fmlookup m k)"
  by (induction order arbitrary: m) auto

lemma fold_fmupd_order:
  assumes "iter_order blobs order"
  shows "fold (\<lambda>d. fmupd d (map_at blobs d)) order fmempty = blobs"
proof (rule fmap_ext)
  fix k
  show "fmlookup (fold (\<lambda>d. fmupd d (map_at blobs d)) order fmempty) k = fmlookup blobs k"
  proof (cases "fmlookup blobs k")
    case None
    then have "k \<notin> set order" using assms by (auto simp: iter_order_def fmlookup_dom_iff)
    then show ?thesis using None by (simp add: fold_fmupd_lookup)
  next
    case (Some v)
    then have "k \<in> set order" using assms by (auto simp: iter_order_def fmlookup_dom_iff)
    then show ?thesis using Some by (simp add: fold_fmupd_lookup map_at_def)
  qed
qed

lemma layout_tar_entries:
  assumes "\<forall>d \<in> set order. sha_digest d" "cd_enc_index C (layout_index ref desc) = Inr data"
  shows "buildOCILayoutTar C order ref desc blobs =
    Inr (\<lparr>te_name = ''oci-layout'', te_regular = True, te_data = layout_version\<rparr> #
         \<lparr>te_name = ''index.json'', te_regular = True, te_data = data\<rparr> # map (blob_entry blobs) order)"
  using assms write_blobs_sha [OF assms(1)] by (simp add: buildOCILayoutTar_def writeTarFile_def)

lemma layout_tar_saved:
  assumes "iter_order blobs order" "\<forall>d \<in> set order. sha_digest d"
    and "buildOCILayoutTar C order ref desc blobs = Inr tar"
    and "cd_enc_index C (layout_index ref desc) = Inr data"
  shows "fold save_step tar (None, fmempty) = (Some data, blobs)"
proof -
  have "save_step \<lparr>te_name = ''oci-layout'', te_regular = True, te_data = layout_version\<rparr> (None, fmempty) = (None, fmempty)"
    "save_step \<lparr>te_name = ''index.json'', te_regular = True, te_data = data\<rparr> (None, fmempty) = (Some data, fmempty)"
    by (simp_all add: save_step_def HasPrefix_def)
  then show ?thesis
    using layout_tar_entries [OF assms(2,4), of blobs] assms(3) save_blob_entries [OF assms(2)]
      fold_fmupd_order [OF assms(1)] by auto
qed

lemma pick_layout: "pickManifest (layout_index ref desc) ref = Some (hd (ix_manifests (layout_index ref desc)))"
  by (simp add: pickManifest_def layout_index_def annot_def map_at_def AnnotationRefName_def)

section \<open>Properties\<close>


definition echo_client :: "tar_entry list client" where
  "echo_client =
    \<lparr>cl_ImageList = (\<lambda>d. Inr [(''id'', [''agent:latest''])]), cl_ImageSave = (\<lambda>i d. Inr (d, None)),
     cl_ImageLoad = (\<lambda>tar d. (None, tar)), cl_order = sorted_keys\<rparr>"

definition demo_desc :: Descriptor where
  "demo_desc = \<lparr>dc_media = ''m'', dc_digest = ''sha256:ab'', dc_size = 1, dc_annotations = fmempty, dc_platform = None\<rparr>"

definition index_codec :: codec where
  "index_codec = demo_codec\<lparr>cd_enc_index := (\<lambda>_. Inr ''ix''),
     cd_dec_index := (\<lambda>_. Inr (layout_index ''agent:latest'' demo_desc))\<rparr>"

definition demo_staged :: "tar_entry list dstore" where
  "demo_staged = snd (Push demo_desc ''x'' (NewStore []))"


end
