(* ===== verification/Parse_Correct.thy ===== *)
theory Parse_Correct
  imports Parse
begin

text \<open>
  What \<^verbatim>\<open>spec.Parse\<close> guarantees.  An accepted file is the left-to-right
  application of its instructions to an empty agent; the abstract view of a
  parser state is therefore the list of instructions applied so far
  (\<open>trace_of\<close>), and the line loop is shown to refine it.  The second part
  treats ARG expansion, heredocs and error positions, the last part holds the
  properties.
\<close>


section \<open>The abstract view: a list of instructions\<close>

type_synonym trace = "(instruction \<times> string) list"

definition run_trace :: "lib \<Rightarrow> trace \<Rightarrow> Agent \<Rightarrow> Agent" where
  "run_trace L tr a = fold (\<lambda>(i, h) a. applyInstruction L a i h) tr a"

lemma run_trace_simps [simp]:
  "run_trace L [] a = a"
  "run_trace L ((i, h) # tr) a = run_trace L tr (applyInstruction L a i h)"
  "run_trace L (tr @ tr') a = run_trace L tr' (run_trace L tr a)"
  by (simp_all add: run_trace_def)

definition froms :: "trace \<Rightarrow> trace" where
  "froms tr = filter (\<lambda>t. is_from (fst t)) tr"

text \<open>The instructions a state has applied, and the bookkeeping that goes with them.\<close>

definition trace_of :: "lib \<Rightarrow> pstate \<Rightarrow> trace \<Rightarrow> bool" where
  "trace_of L st tr \<longleftrightarrow>
     ps_agent st = run_trace L tr newAgent \<and>
     ps_first st = (case tr of [] \<Rightarrow> [] | t # _ \<Rightarrow> instructionType (fst t)) \<and>
     ps_from_seen st = (froms tr \<noteq> []) \<and>
     length (froms tr) \<le> 1 \<and>
     (\<forall>(i, h) \<in> set tr. file_context i \<longrightarrow> h = []) \<and>
     ps_syntax st \<in> {[], DefaultSyntax}"

lemma instructionType_nonempty [simp]: "instructionType i \<noteq> []"
  by (cases i) (simp_all add: instructionType_def)

lemma instructionType_FROM: "instructionType i = ''FROM'' \<longleftrightarrow> is_from i"
  by (cases i) (simp_all add: instructionType_def)

lemma trace_of_init: "trace_of L init_state []"
  by (simp add: trace_of_def init_state_def froms_def)

lemma trace_of_line [simp]: "trace_of L (st\<lparr>ps_line := n\<rparr>) tr \<longleftrightarrow> trace_of L st tr"
  by (simp add: trace_of_def)

lemma step_instruction_ok:
  assumes "step_instruction L inst h st = Inr st'"
  shows "ps_agent st' = applyInstruction L (ps_agent st) inst h"
    "ps_first st' = (if ps_first st = [] then instructionType inst else ps_first st)"
    "ps_from_seen st' = (ps_from_seen st \<or> is_from inst)"
    "is_from inst \<longrightarrow> \<not> ps_from_seen st" "file_context inst \<longrightarrow> h = []"
    "ps_syntax st' = ps_syntax st" "ps_line st' = ps_line st"
  using assms by (auto simp: step_instruction_def Let_def split: if_splits)

lemma trace_of_step:
  assumes "trace_of L st tr" "step_instruction L inst h st = Inr st'"
  shows "trace_of L st' (tr @ [(inst, h)])"
proof -
  note ok = step_instruction_ok [OF assms(2)]
  show ?thesis
    using assms(1) unfolding trace_of_def ok froms_def
    by (cases tr) (use ok(4,5) in \<open>auto simp: trace_of_def froms_def\<close>)
qed

lemma handleComment_ok:
  assumes "handleComment t st = Inr st'"
  shows "st' = st \<or> st' = st\<lparr>ps_syntax := DefaultSyntax\<rparr>"
  using assms
  by (auto simp: handleComment_def Let_def validateSyntax_def SupportedSyntaxes_def split: if_splits)

lemma trace_of_comment:
  assumes "trace_of L st tr" "handleComment t st = Inr st'"
  shows "trace_of L st' tr"
  using handleComment_ok [OF assms(2)] assms(1) by (auto simp: trace_of_def)

lemma parse_line_trace:
  assumes "parse_line L text rest st = Inr (st', rest')" "trace_of L st tr"
  shows "\<exists>tr'. trace_of L st' (tr @ tr')"
proof -
  define s1 where "s1 = st\<lparr>ps_line := Suc (ps_line st)\<rparr>"
  have s1: "trace_of L s1 tr" using assms(2) by (simp add: s1_def)
  consider (blank) "st' = s1" | (comment) t where "handleComment t s1 = Inr st'"
    | (inst) i h n where "step_instruction L i h (s1\<lparr>ps_line := n\<rparr>) = Inr st'"
    using assms(1) unfolding parse_line_def Let_def s1_def [symmetric]
    by (auto split: if_splits sum.splits prod.splits)
  then show ?thesis
  proof cases
    case blank
    then show ?thesis using s1 by (metis append_Nil2)
  next
    case comment
    then show ?thesis using trace_of_comment [OF s1] by (metis append_Nil2)
  next
    case inst
    have "trace_of L (s1\<lparr>ps_line := n\<rparr>) tr" using s1 by simp
    then show ?thesis using trace_of_step [OF _ inst] by blast
  qed
qed

lemma parse_loop_trace:
  assumes "parse_loop L ls st = Inr st'" "trace_of L st tr"
  shows "\<exists>tr'. trace_of L st' (tr @ tr')"
  using assms
proof (induction L ls st arbitrary: tr rule: parse_loop.induct)
  case (1 L st)
  then show ?case by (metis append_Nil2 parse_loop.simps(1) sum.inject(2))
next
  case (2 L ln rest st)
  from "2.prems"(1) obtain s r where line: "parse_line L ln rest st = Inr (s, r)"
    and loop: "parse_loop L r s = Inr st'" by (auto split: sum.splits)
  from parse_line_trace [OF line "2.prems"(2)] obtain t1 where "trace_of L s (tr @ t1)" by blast
  from "2.IH" [OF line refl loop this] show ?case by auto
qed

lemma run_trace_from_empty:
  "froms tr = [] \<Longrightarrow> ag_from (run_trace L tr a) = ag_from a"
proof (induction tr arbitrary: a)
  case (Cons t tr)
  obtain i h where t: "t = (i, h)" by fastforce
  have "\<not> is_from i" "froms tr = []" using Cons.prems by (auto simp: froms_def t split: if_splits)
  then have "ag_from (applyInstruction L a i h) = ag_from a"
    by (cases i) (simp_all add: applyInstruction_def Let_def split: option.splits)
  then show ?case using Cons.IH \<open>froms tr = []\<close> by (simp add: t)
qed simp

lemma validate_Inr: "validate af = Inr af' \<longleftrightarrow> af' = af \<and> Validate (Some af) = None"
  by (auto simp: validate_def split: option.splits)

lemma Parse_ok_state:
  assumes "Parse L r = Inr af"
  obtains st tr where "parse_loop L (scan_lines r) init_state = Inr st" "trace_of L st tr"
    "scan_error r = None" "ps_first st = [] \<or> ps_first st = ''FROM''"
    "af = \<lparr>af_syntax = DefaultSyntax, af_agent = Some (ps_agent st)\<rparr>" "Validate (Some af) = None"
proof -
  from assms obtain st where st: "parse_loop L (scan_lines r) init_state = Inr st"
    and err: "scan_error r = None" and first: "ps_first st = [] \<or> ps_first st = ''FROM''"
    and v: "validate \<lparr>af_syntax = (if ps_syntax st = [] then DefaultSyntax else ps_syntax st),
                 af_agent = Some (ps_agent st)\<rparr> = Inr af"
    by (auto simp: Parse_def split: sum.splits option.splits if_splits)
  from parse_loop_trace [OF st trace_of_init] obtain tr where tr: "trace_of L st tr" by auto
  have "ps_syntax st \<in> {[], DefaultSyntax}" using tr by (simp add: trace_of_def)
  then have "af = \<lparr>af_syntax = DefaultSyntax, af_agent = Some (ps_agent st)\<rparr>"
    and "Validate (Some af) = None"
    using v by (auto simp: validate_Inr split: if_splits)
  with st tr err first show ?thesis by (rule that)
qed

lemma trace_first_from:
  assumes "trace_of L st tr" "ps_first st = [] \<or> ps_first st = ''FROM''" "ag_from (ps_agent st) \<noteq> []"
  obtains x h rest where "tr = (IFrom x, h) # rest" "froms rest = []" "x \<noteq> []"
proof -
  have "tr \<noteq> []" using assms(1,3) by (auto simp: trace_of_def newAgent_def)
  then obtain i h rest where tr: "tr = (i, h) # rest" by (metis list.exhaust surj_pair)
  then have "is_from i"
    using assms(1,2) by (auto simp: trace_of_def instructionType_FROM [symmetric])
  then obtain x where i: "i = IFrom x" by (cases i) auto
  have rest: "froms rest = []" using assms(1) by (auto simp: trace_of_def tr i froms_def)
  have "ps_agent st = run_trace L rest (applyInstruction L newAgent (IFrom x) h)"
    using assms(1) by (simp add: trace_of_def tr i)
  then have "ag_from (ps_agent st) = x"
    using run_trace_from_empty [OF rest] by (simp add: applyInstruction_def)
  then show ?thesis using that tr i rest assms(3) by blast
qed


section \<open>Invariants of the agent under construction\<close>

definition agent_inv :: "Agent \<Rightarrow> bool" where
  "agent_inv a \<longleftrightarrow>
     distinct (map ctx_name (ag_contexts a)) \<and>
     distinct (ag_capabilities a) \<and> [] \<notin> set (ag_capabilities a) \<and>
     ag_mounts a = [] \<and>
     (\<forall>d \<in> set (ag_adds a). add_content d = [])"

lemma add_capability_fold:
  "set (fold add_capability ns caps) = set caps \<union> (set ns - {[]})"
  "distinct (fold add_capability ns caps) = distinct caps"
  by (induction ns arbitrary: caps) (auto simp: add_capability_def)

lemma fold_add_capability: "fold add_capability ns caps = fold add_new (filter (\<lambda>n. n \<noteq> []) ns) caps"
  by (induction ns arbitrary: caps) (simp_all add: add_capability_def)

lemma applyInstruction_inv: "agent_inv a \<Longrightarrow> agent_inv (applyInstruction L a i h)"
  by (cases i)
    (auto simp: applyInstruction_def agent_inv_def Let_def upsert_distinct add_capability_fold
      split: option.splits)

lemma run_trace_inv: "agent_inv a \<Longrightarrow> agent_inv (run_trace L tr a)"
proof (induction tr arbitrary: a)
  case (Cons t tr)
  then show ?case by (cases t) (simp add: applyInstruction_inv)
qed simp

lemma newAgent_inv: "agent_inv newAgent"
  by (simp add: agent_inv_def newAgent_def)


section \<open>Error positions\<close>

definition perr_line :: "perr \<Rightarrow> nat option" where
  "perr_line e =
    (case e of
       SyntaxNotFirst n \<Rightarrow> Some n | SyntaxUnsupported n _ \<Rightarrow> Some n | HeredocErr n _ \<Rightarrow> Some n
     | InstructionErr n _ \<Rightarrow> Some n | FromTwice n \<Rightarrow> Some n | FileAndHeredoc n _ \<Rightarrow> Some n
     | _ \<Rightarrow> None)"

lemma extractHeredoc_count:
  "extractHeredoc line ls = Inr (l, h, n, rest) \<Longrightarrow> n + length rest = length ls"
  by (auto simp: extractHeredoc_def dest: heredoc_loop_count split: option.splits prod.splits)

lemma step_instruction_err_line:
  "step_instruction L i h st = Inl e \<Longrightarrow> perr_line e = Some (ps_line st)"
  by (auto simp: step_instruction_def Let_def perr_line_def split: if_splits)

lemma handleComment_line:
  "handleComment t st = Inr st' \<Longrightarrow> ps_line st' = ps_line st"
  by (auto simp: handleComment_def Let_def split: if_splits)

lemma handleComment_err_line:
  "handleComment t st = Inl e \<Longrightarrow> perr_line e = Some (ps_line st)"
  by (auto simp: handleComment_def Let_def perr_line_def split: if_splits)

lemma parse_line_count:
  assumes "parse_line L text rest st = Inr (st', rest')"
  shows "ps_line st' + length rest' = ps_line st + Suc (length rest)"
  using assms unfolding parse_line_def Let_def
  by (auto dest!: extractHeredoc_count handleComment_line step_instruction_ok(7)
      split: if_splits sum.splits prod.splits)

lemma parse_line_err_line:
  assumes "parse_line L text rest st = Inl e" "perr_line e = Some n"
  shows "1 \<le> n" "n \<le> ps_line st + Suc (length rest)"
  using assms unfolding parse_line_def Let_def
  by (auto dest!: extractHeredoc_count handleComment_err_line step_instruction_err_line
      simp: perr_line_def [of "InstructionErr _ _"] perr_line_def [of "HeredocErr _ _"]
        perr_line_def [of ByteOrderMark]
      split: if_splits sum.splits prod.splits heredoc_err.splits)

lemma parse_loop_err_line:
  assumes "parse_loop L ls st = Inl e" "perr_line e = Some n"
  shows "1 \<le> n \<and> n \<le> ps_line st + length ls"
  using assms
proof (induction L ls st rule: parse_loop.induct)
  case (2 L ln rest st)
  show ?case
  proof (cases "parse_line L ln rest st")
    case (Inl e')
    then show ?thesis using "2.prems" parse_line_err_line [OF Inl, of n] by simp
  next
    case (Inr sr)
    obtain s r where sr: "sr = (s, r)" by fastforce
    then have "1 \<le> n \<and> n \<le> ps_line s + length r" using 2 Inr by simp
    then show ?thesis using parse_line_count [OF Inr [unfolded sr]] by simp
  qed
qed simp


section \<open>A declarative reading of heredocs and of whole files\<close>

definition heredoc_text_of :: "string list \<Rightarrow> string" where
  "heredoc_text_of body = TrimRight (Join body [CHR 0x0A]) [CHR 0x0A]"

lemma heredoc_loop_split:
  assumes "heredoc_loop m ls [] 0 = Some (h, n, rest)"
  obtains body close where "ls = body @ close # rest" "TrimSpace close = m"
    "\<forall>l \<in> set body. TrimSpace l \<noteq> m" "h = heredoc_text_of body" "n = Suc (length body)"
proof -
  have "\<exists>l \<in> set ls. TrimSpace l = m"
    using assms heredoc_loop_None_iff [of m ls "[]" 0] by auto
  then obtain body close after where sp: "ls = body @ close # after" "TrimSpace close = m"
    "\<forall>l \<in> set body. TrimSpace l \<noteq> m"
    using split_list_first_prop [of ls "\<lambda>l. TrimSpace l = m"] by blast
  have "heredoc_loop m ls [] 0 = Some (heredoc_text_of body, Suc (length body), after)"
    unfolding sp(1) heredoc_loop_found [OF sp(2,3)] by (simp add: heredoc_text heredoc_text_of_def)
  then show ?thesis using that sp assms by simp
qed

text \<open>The complete meaning of \<^const>\<open>extractHeredoc\<close> on a trimmed line.\<close>

lemma extractHeredoc_iff:
  assumes "TrimSpace line = line" "line \<noteq> []"
  shows "extractHeredoc line ls = Inr (l, h, n, rest) \<longleftrightarrow>
    (heredoc_marker line = None \<and> l = line \<and> h = [] \<and> n = 0 \<and> rest = ls) \<or>
    (\<exists>m pre body close. heredoc_marker line = Some m \<and> line = pre @ ''<<'' @ m \<and>
       ls = body @ close # rest \<and> TrimSpace close = m \<and> (\<forall>b \<in> set body. TrimSpace b \<noteq> m) \<and>
       l = TrimSpace pre \<and> h = heredoc_text_of body \<and> n = Suc (length body))"
proof (cases "heredoc_marker line")
  case None
  then show ?thesis by (auto simp: extractHeredoc_def)
next
  case (Some m)
  note mk = heredoc_marker_SomeD [OF Some]
  obtain pre where pre: "line = pre @ ''<<'' @ m"
    using splitQuoted_last_suffix(2) [OF assms] mk(1) by auto
  have idx: "LastIndex line (last (splitQuoted line)) = Some (length pre)"
    unfolding mk(1) using LastIndex_suffix [of "''<<'' @ m" pre] by (simp add: pre)
  have take_pre: "take (length pre) line = pre" by (simp add: pre)
  have ex: "extractHeredoc line ls =
     (case heredoc_loop m ls [] 0 of
        None \<Rightarrow> Inl (Unterminated m)
      | Some (body, n, rest') \<Rightarrow> Inr (TrimSpace pre, body, n, rest'))"
    unfolding extractHeredoc_def Some option.case idx take_pre by (rule refl)
  show ?thesis
  proof
    assume "extractHeredoc line ls = Inr (l, h, n, rest)"
    then have hl: "heredoc_loop m ls [] 0 = Some (h, n, rest)" and l: "l = TrimSpace pre"
      unfolding ex by (auto split: option.splits)
    then show "(heredoc_marker line = None \<and> l = line \<and> h = [] \<and> n = 0 \<and> rest = ls) \<or>
      (\<exists>m pre body close. heredoc_marker line = Some m \<and> line = pre @ ''<<'' @ m \<and>
       ls = body @ close # rest \<and> TrimSpace close = m \<and> (\<forall>b \<in> set body. TrimSpace b \<noteq> m) \<and>
       l = TrimSpace pre \<and> h = heredoc_text_of body \<and> n = Suc (length body))"
      using Some pre by (elim heredoc_loop_split) blast
  next
    assume "(heredoc_marker line = None \<and> l = line \<and> h = [] \<and> n = 0 \<and> rest = ls) \<or>
      (\<exists>m pre body close. heredoc_marker line = Some m \<and> line = pre @ ''<<'' @ m \<and>
       ls = body @ close # rest \<and> TrimSpace close = m \<and> (\<forall>b \<in> set body. TrimSpace b \<noteq> m) \<and>
       l = TrimSpace pre \<and> h = heredoc_text_of body \<and> n = Suc (length body))"
    then obtain body close where *: "ls = body @ close # rest" "TrimSpace close = m"
        "\<forall>b \<in> set body. TrimSpace b \<noteq> m" "l = TrimSpace pre" "h = heredoc_text_of body"
        "n = Suc (length body)"
      using Some pre by auto
    have "heredoc_loop m ls [] 0 = Some (h, n, rest)"
      unfolding *(1) heredoc_loop_found [OF *(2,3)]
      by (simp add: heredoc_text heredoc_text_of_def *(5,6))
    then show "extractHeredoc line ls = Inr (l, h, n, rest)" by (simp add: ex *(4))
  qed
qed

text \<open>The instruction a (logical) line stands for: ARG references expanded, the
  keyword upper-cased, the result parsed.\<close>

definition line_instruction :: "lib \<Rightarrow> nat \<Rightarrow> Agent \<Rightarrow> string \<Rightarrow> string + instruction" where
  "line_instruction L n a line =
     lib_inst_parser L (normalizeKeyword L (expandArgs line (ag_args a) (lib_range L n (ag_args a))))"

text \<open>\<open>file_trace L n ls a tr\<close>: after \<open>n\<close> lines, with agent \<open>a\<close> built so far, the lines
  \<open>ls\<close> spell the instructions \<open>tr\<close>.\<close>

inductive file_trace :: "lib \<Rightarrow> nat \<Rightarrow> string list \<Rightarrow> Agent \<Rightarrow> trace \<Rightarrow> bool" for L where
  ft_end: "file_trace L n [] a []"
| ft_blank: "TrimSpace t = [] \<Longrightarrow> n = 0 \<longrightarrow> \<not> HasPrefix t bom \<Longrightarrow>
    file_trace L (Suc n) ls a tr \<Longrightarrow> file_trace L n (t # ls) a tr"
| ft_comment: "HasPrefix (TrimSpace t) ''#'' \<Longrightarrow> n = 0 \<longrightarrow> \<not> HasPrefix t bom \<Longrightarrow>
    HasPrefix (TrimSpace t) ''# syntax='' \<longrightarrow> n = 0 \<and> TrimSpace t = ''# syntax='' @ DefaultSyntax \<Longrightarrow>
    file_trace L (Suc n) ls a tr \<Longrightarrow> file_trace L n (t # ls) a tr"
| ft_line: "TrimSpace t \<noteq> [] \<Longrightarrow> \<not> HasPrefix (TrimSpace t) ''#'' \<Longrightarrow> n = 0 \<longrightarrow> \<not> HasPrefix t bom \<Longrightarrow>
    extractHeredoc (TrimSpace t) ls = Inr (line, h, k, ls') \<Longrightarrow>
    line_instruction L (Suc n + k) a line = Inr i \<Longrightarrow>
    file_trace L (Suc n + k) ls' (applyInstruction L a i h) tr \<Longrightarrow>
    file_trace L n (t # ls) a ((i, h) # tr)"

text \<open>What the parser demands of the instructions of a file.\<close>

definition trace_ok :: "trace \<Rightarrow> bool" where
  "trace_ok tr \<longleftrightarrow> length (froms tr) \<le> 1 \<and> (\<forall>(i, h) \<in> set tr. file_context i \<longrightarrow> h = [])"

text \<open>The parser state reached from \<open>st\<close> after the instructions \<open>tr\<close>, up to the
  line number and the recorded syntax.\<close>

definition after_trace :: "lib \<Rightarrow> pstate \<Rightarrow> trace \<Rightarrow> pstate \<Rightarrow> bool" where
  "after_trace L st tr st' \<longleftrightarrow>
     ps_agent st' = run_trace L tr (ps_agent st) \<and>
     ps_first st' = (if ps_first st \<noteq> [] then ps_first st
                     else case tr of [] \<Rightarrow> [] | t # _ \<Rightarrow> instructionType (fst t)) \<and>
     ps_from_seen st' = (ps_from_seen st \<or> froms tr \<noteq> []) \<and>
     (ps_from_seen st \<longrightarrow> froms tr = []) \<and>
     (ps_syntax st' = ps_syntax st \<or> ps_syntax st' = DefaultSyntax)"

lemma froms_simps [simp]:
  "froms [] = []" "froms ((i, h) # tr) = (if is_from i then (i, h) # froms tr else froms tr)"
  by (simp_all add: froms_def)

lemma after_trace_Nil: "ps_line st' = n \<Longrightarrow> after_trace L st [] (st\<lparr>ps_line := n\<rparr>)"
  by (simp add: after_trace_def)

lemma after_trace_comment:
  "after_trace L st1 tr st' \<Longrightarrow> handleComment t (st\<lparr>ps_line := n\<rparr>) = Inr st1 \<Longrightarrow> after_trace L st tr st'"
  by (drule handleComment_ok) (auto simp: after_trace_def)

lemma after_trace_step:
  assumes "step_instruction L i h (st\<lparr>ps_line := n\<rparr>) = Inr st1" "after_trace L st1 tr st'" "trace_ok tr"
  shows "after_trace L st ((i, h) # tr) st' \<and> trace_ok ((i, h) # tr)"
  using step_instruction_ok [OF assms(1)] assms(2,3) by (auto simp: after_trace_def trace_ok_def)

lemma step_instruction_total:
  assumes "is_from i \<longrightarrow> \<not> ps_from_seen st" "file_context i \<longrightarrow> h = []"
  shows "\<exists>st'. step_instruction L i h st = Inr st'"
  using assms by (auto simp: step_instruction_def Let_def)

lemma parse_loop_sound:
  assumes "parse_loop L ls st = Inr st'"
  shows "\<exists>tr. file_trace L (ps_line st) ls (ps_agent st) tr \<and> after_trace L st tr st' \<and> trace_ok tr"
  using assms
proof (induction L ls st rule: parse_loop.induct)
  case (1 L st)
  then show ?case
    by (intro exI [of _ "[]"]) (auto simp: after_trace_def trace_ok_def intro: ft_end)
next
  case (2 L ln rest st)
  from "2.prems" obtain s r where line: "parse_line L ln rest st = Inr (s, r)"
    and loop: "parse_loop L r s = Inr st'" by (auto split: sum.splits)
  obtain tr where tr: "file_trace L (ps_line s) r (ps_agent s) tr" "after_trace L s tr st'" "trace_ok tr"
    using "2.IH" [OF line refl loop] by blast
  define s1 where "s1 = st\<lparr>ps_line := Suc (ps_line st)\<rparr>"
  have b: "ps_line st = 0 \<longrightarrow> \<not> HasPrefix ln bom"
    using line by (auto simp: parse_line_def Let_def split: if_splits)
  consider (blank) "TrimSpace ln = []" "s = s1" "r = rest"
    | (comment) "TrimSpace ln \<noteq> []" "HasPrefix (TrimSpace ln) ''#''" "handleComment (TrimSpace ln) s1 = Inr s" "r = rest"
    | (inst) l h n i where "TrimSpace ln \<noteq> []" "\<not> HasPrefix (TrimSpace ln) ''#''"
        "extractHeredoc (TrimSpace ln) rest = Inr (l, h, n, r)"
        "line_instruction L (Suc (ps_line st) + n) (ps_agent st) l = Inr i"
        "step_instruction L i h (s1\<lparr>ps_line := Suc (ps_line st) + n\<rparr>) = Inr s"
    using line unfolding parse_line_def Let_def line_instruction_def s1_def
    by (auto split: if_splits sum.splits prod.splits)
  then show ?case
  proof cases
    case blank
    then have "file_trace L (ps_line st) (ln # rest) (ps_agent st) tr"
      using tr(1) b by (intro ft_blank) (simp_all add: s1_def)
    moreover have "after_trace L st tr st'" using tr(2) blank(2) by (simp add: after_trace_def s1_def)
    ultimately show ?thesis using tr(3) by blast
  next
    case comment
    have ag: "ps_agent s = ps_agent st" "ps_line s = Suc (ps_line st)"
      using handleComment_ok [OF comment(3)] by (auto simp: s1_def)
    have syn: "HasPrefix (TrimSpace ln) ''# syntax='' \<longrightarrow>
        ps_line st = 0 \<and> TrimSpace ln = ''# syntax='' @ DefaultSyntax"
      using comment(3) HasPrefix_decomp [of "TrimSpace ln" "''# syntax=''"]
      by (auto simp: handleComment_def Let_def validateSyntax_def SupportedSyntaxes_def s1_def
          split: if_splits)
    have "file_trace L (ps_line st) (ln # rest) (ps_agent st) tr"
      using tr(1) b syn comment ag by (intro ft_comment) simp_all
    then show ?thesis
      using after_trace_comment [OF tr(2) comment(3) [unfolded s1_def]] tr(3) by blast
  next
    case inst
    have ag: "ps_agent s = applyInstruction L (ps_agent st) i h" "ps_line s = Suc (ps_line st) + n"
      using step_instruction_ok [OF inst(5)] by (simp_all add: s1_def)
    have "file_trace L (ps_line st) (ln # rest) (ps_agent st) ((i, h) # tr)"
      using tr(1) ag by (intro ft_line [OF inst(1,2) b inst(3,4)]) simp
    moreover have "step_instruction L i h (st\<lparr>ps_line := Suc (ps_line st) + n\<rparr>) = Inr s"
      using inst(5) by (simp add: s1_def)
    ultimately show ?thesis using after_trace_step [OF _ tr(2,3)] by blast
  qed
qed

lemma handleComment_total:
  assumes "HasPrefix t ''# syntax='' \<longrightarrow> ps_line st = 1 \<and> t = ''# syntax='' @ DefaultSyntax"
  shows "\<exists>st'. handleComment t st = Inr st'"
proof (cases "HasPrefix t ''# syntax=''")
  case True
  then have "TrimPrefix t ''# syntax='' = DefaultSyntax"
    using assms TrimPrefix_append by metis
  then show ?thesis
    using True assms by (simp add: handleComment_def validateSyntax_def SupportedSyntaxes_def)
qed (simp add: handleComment_def)

lemma parse_loop_complete:
  assumes "file_trace L n ls a tr" "ps_line st = n" "ps_agent st = a"
    and "trace_ok tr" "ps_from_seen st \<longrightarrow> froms tr = []"
  shows "\<exists>st'. parse_loop L ls st = Inr st' \<and> after_trace L st tr st'"
  using assms
proof (induction arbitrary: st rule: file_trace.induct)
  case (ft_end n a)
  then show ?case by (auto simp: after_trace_def)
next
  case (ft_blank t n ls a tr)
  define s1 where "s1 = st\<lparr>ps_line := Suc (ps_line st)\<rparr>"
  have "parse_line L t ls st = Inr (s1, ls)"
    using ft_blank by (auto simp: parse_line_def Let_def s1_def)
  moreover obtain st' where "parse_loop L ls s1 = Inr st'" "after_trace L s1 tr st'"
    using ft_blank.IH [of s1] ft_blank.prems by (auto simp: s1_def)
  ultimately show ?case by (auto simp: after_trace_def s1_def)
next
  case (ft_comment t n ls a tr)
  define s1 where "s1 = st\<lparr>ps_line := Suc (ps_line st)\<rparr>"
  obtain s2 where s2: "handleComment (TrimSpace t) s1 = Inr s2"
    using handleComment_total [of "TrimSpace t" s1] ft_comment.hyps(3) ft_comment.prems(1)
    by (auto simp: s1_def)
  have ne: "TrimSpace t \<noteq> []" using ft_comment.hyps(1) by auto
  have "parse_line L t ls st = Inr (s2, ls)"
    using ft_comment.hyps ft_comment.prems s2 ne by (auto simp: parse_line_def Let_def s1_def)
  moreover obtain st' where "parse_loop L ls s2 = Inr st'" "after_trace L s2 tr st'"
    using ft_comment.IH [of s2] ft_comment.prems handleComment_ok [OF s2] by (auto simp: s1_def)
  ultimately show ?case using after_trace_comment [OF _ s2 [unfolded s1_def]] by auto
next
  case (ft_line t n ls line h k ls' a i tr)
  define s1 where "s1 = st\<lparr>ps_line := Suc (ps_line st) + k\<rparr>"
  have ok: "trace_ok tr" "is_from i \<longrightarrow> froms tr = []" "file_context i \<longrightarrow> h = []"
    using ft_line.prems(3) by (auto simp: trace_ok_def split: if_splits)
  obtain s2 where s2: "step_instruction L i h s1 = Inr s2"
    using step_instruction_total [of i s1 h L] ok(3) ft_line.prems(4)
    by (auto simp: s1_def split: if_splits)
  have line: "parse_line L t ls st = Inr (s2, ls')"
    using ft_line.hyps ft_line.prems s2
    by (auto simp: parse_line_def Let_def s1_def line_instruction_def)
  note st2 = step_instruction_ok [OF s2]
  obtain st' where st': "parse_loop L ls' s2 = Inr st'" "after_trace L s2 tr st'"
    using ft_line.IH [of s2] ft_line.prems ok st2 by (auto simp: s1_def split: if_splits)
  have "after_trace L st ((i, h) # tr) st'"
    using after_trace_step [OF s2 [unfolded s1_def] st'(2) ok(1)] by blast
  then show ?case using line st'(1) by auto
qed



section \<open>ARG expansion\<close>

text \<open>A template: literal text without a dollar sign, and references \<^verbatim>\<open>${k}\<close>.\<close>

datatype piece = Lit string | Ref string

fun render_piece :: "piece \<Rightarrow> string" where
  "render_piece (Lit s) = s"
| "render_piece (Ref k) = arg_pattern k"

definition render :: "piece list \<Rightarrow> string" where
  "render ps = concat (map render_piece ps)"

definition plain_key :: "string \<Rightarrow> bool" where
  "plain_key k \<longleftrightarrow> CHR ''$'' \<notin> set k \<and> CHR ''}'' \<notin> set k"

fun plain_piece :: "piece \<Rightarrow> bool" where
  "plain_piece (Lit s) = (CHR ''$'' \<notin> set s)"
| "plain_piece (Ref k) = plain_key k"

fun subst_piece :: "string \<Rightarrow> string \<Rightarrow> piece \<Rightarrow> piece" where
  "subst_piece k v (Lit s) = Lit s"
| "subst_piece k v (Ref k') = (if k' = k then Lit v else Ref k')"

fun subst_all :: "(string, string) gomap \<Rightarrow> piece \<Rightarrow> piece" where
  "subst_all args (Lit s) = Lit s"
| "subst_all args (Ref k) = (case fmlookup args k of Some v \<Rightarrow> Lit v | None \<Rightarrow> Ref k)"

lemma render_simps [simp]: "render [] = []" "render (p # ps) = render_piece p @ render ps"
  by (simp_all add: render_def)

lemma ReplaceAll_skip:
  assumes "d \<notin> set s"
  shows "ReplaceAll (s @ t) (d # p) v = s @ ReplaceAll t (d # p) v"
  using assms by (induction s) auto

lemma ReplaceAll_hit: "p \<noteq> [] \<Longrightarrow> ReplaceAll (p @ t) p v = v @ ReplaceAll t p v"
  by (cases p) simp_all

lemma closing_brace_unique:
  assumes "x \<notin> set a" "x \<notin> set b" "a @ x # s = b @ x # t"
  shows "a = b"
proof -
  have "takeWhile (\<lambda>c. c \<noteq> x) (a @ x # s) = a" using assms(1) by (induction a) auto
  moreover have "takeWhile (\<lambda>c. c \<noteq> x) (b @ x # t) = b" using assms(2) by (induction b) auto
  ultimately show ?thesis using assms(3) by simp
qed

lemma ReplaceAll_render:
  assumes "list_all plain_piece ps" "plain_key k"
  shows "ReplaceAll (render ps) (arg_pattern k) v = render (map (subst_piece k v) ps)"
  using assms(1)
proof (induction ps)
  case Nil
  then show ?case by simp
next
  case (Cons p ps)
  then have IH: "ReplaceAll (render ps) (arg_pattern k) v = render (map (subst_piece k v) ps)" by simp
  have pat: "arg_pattern k = CHR ''$'' # CHR ''{'' # k @ ''}''" by (simp add: arg_pattern_def)
  show ?case
  proof (cases p)
    case (Lit s)
    then show ?thesis using Cons.prems IH ReplaceAll_skip [of "CHR ''$''" s] by (auto simp: pat)
  next
    case (Ref k')
    show ?thesis
    proof (cases "k' = k")
      case True
      then show ?thesis using Ref IH ReplaceAll_hit [of "arg_pattern k"] by (simp add: pat)
    next
      case False
      have k': "CHR ''$'' \<notin> set k'" "CHR ''}'' \<notin> set k'" "CHR ''}'' \<notin> set k"
        using Cons.prems assms(2) Ref by (auto simp: plain_key_def)
      have "\<not> HasPrefix (k' @ CHR ''}'' # render ps) (k @ ''}'')"
        using closing_brace_unique [OF k'(2,3)] False by (auto simp: HasPrefix_iff)
      then have "ReplaceAll (arg_pattern k' @ render ps) (arg_pattern k) v =
          CHR ''$'' # ReplaceAll ((CHR ''{'' # k' @ ''}'') @ render ps) (arg_pattern k) v"
        by (simp add: arg_pattern_def)
      also have "\<dots> = arg_pattern k' @ ReplaceAll (render ps) (arg_pattern k) v"
        using ReplaceAll_skip [of "CHR ''$''" "CHR ''{'' # k' @ ''}''"] k'(1)
        by (auto simp: arg_pattern_def)
      finally show ?thesis using Ref False IH by simp
    qed
  qed
qed

lemma subst_piece_plain:
  "plain_piece p \<Longrightarrow> CHR ''$'' \<notin> set v \<Longrightarrow> plain_piece (subst_piece k v p)"
  by (cases p) simp_all

lemma expand_fold_render:
  assumes "list_all plain_piece ps"
    and "\<forall>k \<in> set ks. plain_key k"
    and "\<forall>k v. fmlookup args k = Some v \<longrightarrow> CHR ''$'' \<notin> set v"
  shows "fold (\<lambda>k t. case fmlookup args k of Some v \<Rightarrow> ReplaceAll t (arg_pattern k) v | None \<Rightarrow> t)
           ks (render ps) =
         render (map (\<lambda>p. case p of Lit s \<Rightarrow> Lit s
                      | Ref k \<Rightarrow> if k \<in> set ks then subst_all args (Ref k) else Ref k) ps)"
  using assms
proof (induction ks arbitrary: ps)
  case Nil
  have "map (\<lambda>p. case p of Lit s \<Rightarrow> Lit s | Ref k \<Rightarrow> Ref k) ps = ps"
    by (rule map_idI) (simp split: piece.splits)
  then show ?case by (simp cong: piece.case_cong)
next
  case (Cons k ks)
  show ?case
  proof (cases "fmlookup args k")
    case None
    then show ?thesis
      using Cons by (auto intro!: arg_cong [where f = render] split: piece.splits)
  next
    case (Some v)
    have pl: "list_all plain_piece (map (subst_piece k v) ps)"
      using Cons.prems Some by (auto simp: list_all_iff intro: subst_piece_plain)
    have "ReplaceAll (render ps) (arg_pattern k) v = render (map (subst_piece k v) ps)"
      using Cons.prems by (intro ReplaceAll_render) simp_all
    then show ?thesis
      using Cons.IH [OF pl] Cons.prems Some
      by (auto intro!: arg_cong [where f = render] split: piece.splits)
  qed
qed

lemma no_ref_subst:
  assumes "list_all plain_piece ps" "\<not> Contains (render ps) ''${''"
  shows "map (subst_all args) ps = ps"
proof -
  have "\<exists>s. p = Lit s" if mem: "p \<in> set ps" for p
  proof (cases p)
    case (Ref k)
    obtain xs ys where "ps = xs @ p # ys" using split_list [OF mem] by blast
    then have "render ps = render xs @ ''${'' @ (k @ ''}'' @ render ys)"
      using Ref by (simp add: render_def arg_pattern_def)
    then have False using assms(2) unfolding Contains_infix by blast
    then show ?thesis ..
  qed simp
  then show ?thesis by (intro map_idI) fastforce
qed

section \<open>A concrete instance\<close>

text \<open>The parameters used by the witnesses: the grammar of \<^verbatim>\<open>grammar.go\<close> with
  quotes stripped from strings, and ARG maps visited in key order.\<close>

definition strip_quotes :: "string \<Rightarrow> string option" where
  "strip_quotes s = Some (butlast (tl s))"

definition grammar_lib :: lib where
  "grammar_lib =
    \<lparr>lib_inst_parser = (\<lambda>s. case grammar_parser strip_quotes s of
        Some i \<Rightarrow> Inr i | None \<Rightarrow> Inl ''unexpected token''),
     lib_ToUpper = (\<lambda>s. s), lib_ParseFloat = (\<lambda>s. None), lib_range = (\<lambda>n m. sorted_keys m)\<rparr>"

definition lines_file :: "string list \<Rightarrow> reader" where
  "lines_file ls = \<lparr>rd_content = concat (map (\<lambda>l. l @ [CHR 0x0A]) ls), rd_failed = False\<rparr>"

definition demo_file :: reader where
  "demo_file = lines_file
    [''# syntax=openotters/agentfile:1'', ''from scratch'', ''ARG M=gpt'', ''MODEL ${M}'',
     ''CONTEXT SOUL <<EOF'', '' be kind'', ''EOF'', ''CONFIG url!'', ''CAPABILITY a b a'']"

definition demo_agent :: Agent where
  "demo_agent = newAgent
    \<lparr>ag_from := ''scratch'', ag_args := fmupd ''M'' ''gpt'' fmempty, ag_model := ''gpt'',
     ag_contexts := [\<lparr>ctx_name = ''SOUL'', ctx_description = [], ctx_content = '' be kind'', ctx_file = []\<rparr>],
     ag_configs := [\<lparr>cfg_key = ''url'', cfg_value = None, cfg_description = [], cfg_required = True\<rparr>],
     ag_capabilities := [''a'', ''b'']\<rparr>"

lemma demo_Parse:
  "Parse grammar_lib demo_file = Inr \<lparr>af_syntax = DefaultSyntax, af_agent = Some demo_agent\<rparr>"
  by code_simp


section \<open>Properties\<close>

text \<open>Whatever the instruction parser, the iteration orders and the float
  reader do, a file that \<^const>\<open>Parse\<close> accepts passes \<^const>\<open>Validate\<close>, carries the supported
  syntax, has a well-formed agent (non-empty FROM, path-safe names, no
  reserved ENV keys, no default on a required CONFIG) whose context names
  are pairwise distinct and whose capabilities are distinct and non-empty.\<close>

theorem parse_accepts_only_valid:
  assumes "Parse L r = Inr af"
  shows "Validate (Some af) = None \<and> af_syntax af = DefaultSyntax \<and>
    (\<exists>a. af_agent af = Some a \<and> well_formed_agent a \<and> agent_inv a)"
proof -
  from assms obtain st tr where st: "trace_of L st tr"
    and af: "af = \<lparr>af_syntax = DefaultSyntax, af_agent = Some (ps_agent st)\<rparr>"
    and v: "Validate (Some af) = None"
    by (rule Parse_ok_state)
  have "well_formed_agent (ps_agent st)" using v by (simp add: af Validate_def validate_agent_None)
  moreover have "agent_inv (ps_agent st)"
    using st run_trace_inv [OF newAgent_inv] by (simp add: trace_of_def)
  ultimately show ?thesis using af v by simp
qed

theorem parse_accepts_only_valid_witness:
  "well_formed_agent demo_agent \<and> agent_inv demo_agent"
  using parse_accepts_only_valid [OF demo_Parse] by simp

text \<open>C1: the parser is exactly its specification.  It accepts a file with a
  given agent if and only if the reader delivers all lines, the lines spell
  (comments and blank lines dropped, heredocs attached, ARGs expanded) an
  instruction list that starts with its only FROM and never gives a
  \<^verbatim>\<open>file://\<close> context a heredoc, the agent is the result of applying those
  instructions in order to the empty agent, and the agent is well-formed.\<close>

theorem parse_iff_file_trace:
  "Parse L r = Inr af \<longleftrightarrow>
    scan_error r = None \<and>
    (\<exists>x h tr. file_trace L 0 (scan_lines r) newAgent ((IFrom x, h) # tr) \<and> froms tr = [] \<and>
       (\<forall>(i, h) \<in> set tr. file_context i \<longrightarrow> h = []) \<and>
       af = \<lparr>af_syntax = DefaultSyntax, af_agent = Some (run_trace L ((IFrom x, h) # tr) newAgent)\<rparr> \<and>
       well_formed_agent (run_trace L ((IFrom x, h) # tr) newAgent))"
  (is "_ \<longleftrightarrow> _ \<and> ?spec")
proof
  assume p: "Parse L r = Inr af"
  then obtain st where loop: "parse_loop L (scan_lines r) init_state = Inr st"
    and err: "scan_error r = None" and first: "ps_first st = [] \<or> ps_first st = ''FROM''"
    and af: "af = \<lparr>af_syntax = DefaultSyntax, af_agent = Some (ps_agent st)\<rparr>"
    and v: "Validate (Some af) = None"
    by (rule Parse_ok_state)
  from parse_loop_sound [OF loop] obtain tr where ft: "file_trace L 0 (scan_lines r) newAgent tr"
    and at: "after_trace L init_state tr st" and ok: "trace_ok tr"
    by (auto simp: init_state_def)
  have to: "trace_of L st tr"
    using at ok by (auto simp: after_trace_def trace_of_def trace_ok_def init_state_def)
  have wf: "well_formed_agent (ps_agent st)" using v by (simp add: af Validate_def validate_agent_None)
  then have "ag_from (ps_agent st) \<noteq> []" by (simp add: well_formed_agent_def)
  from trace_first_from [OF to first this] obtain x h rest where
    tr: "tr = (IFrom x, h) # rest" "froms rest = []" by blast
  have "ps_agent st = run_trace L tr newAgent" using to by (simp add: trace_of_def)
  then have ?spec using ft wf af ok tr by (auto simp: trace_ok_def)
  with err show "scan_error r = None \<and> ?spec" by blast
next
  assume "scan_error r = None \<and> ?spec"
  then obtain x h tr where err: "scan_error r = None"
    and ft: "file_trace L 0 (scan_lines r) newAgent ((IFrom x, h) # tr)"
    and tr: "froms tr = []" "\<forall>(i, h) \<in> set tr. file_context i \<longrightarrow> h = []"
    and af: "af = \<lparr>af_syntax = DefaultSyntax, af_agent = Some (run_trace L ((IFrom x, h) # tr) newAgent)\<rparr>"
    and wf: "well_formed_agent (run_trace L ((IFrom x, h) # tr) newAgent)" by blast
  have ok: "trace_ok ((IFrom x, h) # tr)" using tr by (auto simp: trace_ok_def file_context_def)
  obtain st where st: "parse_loop L (scan_lines r) init_state = Inr st"
    "after_trace L init_state ((IFrom x, h) # tr) st"
    using parse_loop_complete [OF ft _ _ ok, of init_state] by (auto simp: init_state_def)
  then have "ps_first st = ''FROM''" "ps_agent st = run_trace L ((IFrom x, h) # tr) newAgent"
    "(if ps_syntax st = [] then DefaultSyntax else ps_syntax st) = DefaultSyntax"
    by (auto simp: after_trace_def init_state_def instructionType_def)
  then show "Parse L r = Inr af"
    using st(1) err wf
    by (simp add: Parse_def validate_def Validate_def validate_agent_None [THEN iffD2] af)
qed

theorem parse_iff_file_trace_witness:
  "\<exists>x h tr. file_trace grammar_lib 0 (scan_lines demo_file) newAgent ((IFrom x, h) # tr) \<and>
     demo_agent = run_trace grammar_lib ((IFrom x, h) # tr) newAgent"
  using demo_Parse [unfolded parse_iff_file_trace] by auto

text \<open>A heredoc delivers the lines between the opening line and the first
  line that trims to the marker, verbatim and joined with newlines (only
  trailing newlines removed); without such a line extraction fails.  The
  instruction keeps the text before \<^verbatim>\<open><<marker\<close>, and \<^verbatim>\<open>line[:idx]\<close> never
  panics.\<close>

theorem heredoc_spec:
  assumes "TrimSpace line = line" "line \<noteq> []" "heredoc_marker line = Some m"
  shows "\<exists>pre. line = pre @ ''<<'' @ m \<and>
    (\<forall>body close rest. TrimSpace close = m \<longrightarrow> (\<forall>b \<in> set body. TrimSpace b \<noteq> m) \<longrightarrow>
       extractHeredoc line (body @ close # rest) =
         Inr (TrimSpace pre, heredoc_text_of body, Suc (length body), rest)) \<and>
    (\<forall>ls. (\<forall>l \<in> set ls. TrimSpace l \<noteq> m) \<longrightarrow> extractHeredoc line ls = Inl (Unterminated m))"
proof -
  obtain pre where pre: "line = pre @ ''<<'' @ m"
    using splitQuoted_last_suffix(2) [OF assms(1,2)] heredoc_marker_SomeD(1) [OF assms(3)] by auto
  have "extractHeredoc line (body @ close # rest) =
      Inr (TrimSpace pre, heredoc_text_of body, Suc (length body), rest)"
    if "TrimSpace close = m" "\<forall>b \<in> set body. TrimSpace b \<noteq> m" for body close rest
    using that assms(3) pre unfolding extractHeredoc_iff [OF assms(1,2)] by blast
  moreover have "extractHeredoc line ls = Inl (Unterminated m)" if "\<forall>l \<in> set ls. TrimSpace l \<noteq> m" for ls
  proof -
    have "heredoc_loop m ls [] 0 = None" using that by (simp add: heredoc_loop_None_iff)
    then show ?thesis
      using extractHeredoc_no_panic [of line ls] assms(3)
      by (auto simp: extractHeredoc_def split: option.splits)
  qed
  ultimately show ?thesis using pre by blast
qed

theorem heredoc_spec_witness:
  "\<exists>pre. ''CONTEXT SOUL <<EOF'' = pre @ ''<<'' @ ''EOF'' \<and>
    extractHeredoc ''CONTEXT SOUL <<EOF'' [''  # kept'', [], '' EOF '', ''MODEL m''] =
      Inr (TrimSpace pre, ''  # kept'', 3, [''MODEL m''])"
proof -
  have "heredoc_marker ''CONTEXT SOUL <<EOF'' = Some ''EOF''" by code_simp
  moreover have "TrimSpace ''CONTEXT SOUL <<EOF'' = ''CONTEXT SOUL <<EOF''" by code_simp
  ultimately obtain pre where pre: "''CONTEXT SOUL <<EOF'' = pre @ ''<<'' @ ''EOF''"
    and ex: "\<forall>body close rest. TrimSpace close = ''EOF'' \<longrightarrow> (\<forall>b \<in> set body. TrimSpace b \<noteq> ''EOF'') \<longrightarrow>
       extractHeredoc ''CONTEXT SOUL <<EOF'' (body @ close # rest) =
         Inr (TrimSpace pre, heredoc_text_of body, Suc (length body), rest)"
    using heredoc_spec [of "''CONTEXT SOUL <<EOF''" "''EOF''"] by blast
  have "TrimSpace '' EOF '' = ''EOF''" "TrimSpace ''  # kept'' \<noteq> ''EOF''" "TrimSpace [] \<noteq> ''EOF''"
    by code_simp+
  then have "extractHeredoc ''CONTEXT SOUL <<EOF'' ([''  # kept'', []] @ '' EOF '' # [''MODEL m'']) =
      Inr (TrimSpace pre, heredoc_text_of [''  # kept'', []], 3, [''MODEL m''])"
    using ex [rule_format, of "'' EOF ''" "[''  # kept'', []]" "[''MODEL m'']"]
    by (auto simp: numeral_3_eq_3)
  moreover have "heredoc_text_of [''  # kept'', []] = ''  # kept''" by code_simp
  ultimately show ?thesis using pre by auto
qed

text \<open>On a line whose dollar signs only occur in \<^verbatim>\<open>${k}\<close> references, with
  dollar-free ARG values, \<^const>\<open>expandArgs\<close> is simultaneous substitution: every
  iteration order of the map gives the same line, each declared reference
  replaced by its value and each undeclared one left in place.\<close>

theorem expand_args_substitutes:
  assumes "iter_order args ks" "list_all plain_piece ps"
    and "\<forall>k v. fmlookup args k = Some v \<longrightarrow> plain_key k \<and> CHR ''$'' \<notin> set v"
  shows "expandArgs (render ps) args ks = render (map (subst_all args) ps)"
proof (cases "Contains (render ps) ''${''")
  case False
  then show ?thesis using no_ref_subst [OF assms(2)] by (simp add: expandArgs_def)
next
  case True
  have dom: "k \<in> set ks \<longleftrightarrow> fmlookup args k \<noteq> None" for k
    using assms(1) by (auto simp: iter_order_def fmlookup_dom_iff)
  have "expandArgs (render ps) args ks =
      render (map (\<lambda>p. case p of Lit s \<Rightarrow> Lit s
                   | Ref k \<Rightarrow> if k \<in> set ks then subst_all args (Ref k) else Ref k) ps)"
    unfolding expandArgs_def using True assms(3) dom
    by (subst expand_fold_render [OF assms(2)]) auto
  also have "\<dots> = render (map (subst_all args) ps)"
    using dom by (intro arg_cong [where f = render] map_cong) (auto split: piece.splits option.splits)
  finally show ?thesis .
qed

theorem expand_args_substitutes_witness:
  "expandArgs ''MODEL ${P}/${M}-${X}'' (fmap_of_list [(''M'', ''gpt''), (''P'', ''openai'')]) [''P'', ''M'']
     = ''MODEL openai/gpt-${X}''"
proof -
  let ?args = "fmap_of_list [(''M'', ''gpt''), (''P'', ''openai'')]"
  let ?ps = "[Lit ''MODEL '', Ref ''P'', Lit ''/'', Ref ''M'', Lit ''-'', Ref ''X'']"
  have "iter_order ?args [''P'', ''M'']"
    by (auto simp: iter_order_def fmap_of_list.rep_eq fmlookup_dom_iff split: if_splits)
  moreover have "list_all plain_piece ?ps" by (simp add: plain_key_def)
  moreover have "\<forall>k v. fmlookup ?args k = Some v \<longrightarrow> plain_key k \<and> CHR ''$'' \<notin> set v"
    by (auto simp: fmap_of_list.rep_eq plain_key_def)
  ultimately have "expandArgs (render ?ps) ?args [''P'', ''M''] = render (map (subst_all ?args) ?ps)"
    by (rule expand_args_substitutes)
  then show ?thesis by (simp add: arg_pattern_def fmap_of_list.rep_eq)
qed

text \<open>In general the result does depend on Go's iteration order: with
  \<^verbatim>\<open>ARG A=${B}\<close> and \<^verbatim>\<open>ARG B=x\<close>, the line \<^verbatim>\<open>MODEL ${A}\<close> expands to \<^verbatim>\<open>MODEL x\<close> or
  to \<^verbatim>\<open>MODEL ${B}\<close>.\<close>

theorem expand_args_order_dependent:
  "\<exists>args ks ks'. iter_order args ks \<and> iter_order args ks' \<and>
     expandArgs ''MODEL ${A}'' args ks = ''MODEL x'' \<and>
     expandArgs ''MODEL ${A}'' args ks' = ''MODEL ${B}''"
proof -
  let ?args = "fmap_of_list [(''A'', ''${B}''), (''B'', ''x'')]"
  have "iter_order ?args [''A'', ''B'']" "iter_order ?args [''B'', ''A'']"
    by (auto simp: iter_order_def fmap_of_list.rep_eq fmlookup_dom_iff split: if_splits)
  moreover have "expandArgs ''MODEL ${A}'' ?args [''A'', ''B''] = ''MODEL x''" by code_simp
  moreover have "expandArgs ''MODEL ${A}'' ?args [''B'', ''A''] = ''MODEL ${B}''" by code_simp
  ultimately show ?thesis by blast
qed

text \<open>Every parse error that carries a line number points into the file: the
  number lies between 1 and the count of lines the scanner delivered.\<close>

theorem parse_error_line_in_file:
  assumes "Parse L r = Inl e" "perr_line e = Some n"
  shows "1 \<le> n \<and> n \<le> length (scan_lines r)"
proof -
  have "parse_loop L (scan_lines r) init_state = Inl e"
    using assms by (auto simp: Parse_def validate_def perr_line_def split: sum.splits option.splits if_splits)
  from parse_loop_err_line [OF this assms(2)] show ?thesis by (simp add: init_state_def)
qed

theorem parse_error_line_in_file_witness:
  "1 \<le> (4::nat) \<and> 4 \<le> length (scan_lines (lines_file [''FROM a'', ''CONTEXT x <<EOF'', ''never'', ''closed'']))"
proof (rule parse_error_line_in_file)
  show "Parse grammar_lib (lines_file [''FROM a'', ''CONTEXT x <<EOF'', ''never'', ''closed'']) =
      Inl (HeredocErr 4 (Unterminated ''EOF''))"
    by code_simp
  show "perr_line (HeredocErr 4 (Unterminated ''EOF'')) = Some 4" by (simp add: perr_line_def)
qed



end
