(* ===== verification/Resolve.thy ===== *)
theory Resolve
  imports Parse_Correct
begin

text \<open>
  FROM inheritance, from \<^verbatim>\<open>resolve/resolve.go\<close>: the recursive resolver with its
  depth limit and cycle check, and the merge of a child into its parent.  The
  fetcher is a parameter; the resolver never asks it twice for the same
  normalised reference, so a function of the reference is enough.  Slices are
  copied by the clone helpers before they are appended to; on lists the copy
  is the list itself.
\<close>


section \<open>Merging\<close>

text \<open>\<^verbatim>\<open>mergeStringSet\<close>: the set of strings seen and the output slice.\<close>

definition set_step :: "string \<Rightarrow> (string, unit) gomap \<times> string list \<Rightarrow> (string, unit) gomap \<times> string list" where
  "set_step s acc =
    (if fmlookup (fst acc) s \<noteq> None then acc else (fmupd s () (fst acc), snd acc @ [s]))"

definition mergeStringSet :: "string list \<Rightarrow> string list \<Rightarrow> string list" where
  "mergeStringSet parent child =
    (if parent = [] \<and> child = [] then []
     else snd (fold set_step child (fold set_step parent (fmempty, []))))"

text \<open>\<^verbatim>\<open>mergeContexts\<close>: an index by name into the result slice.\<close>

definition parent_ctx_step ::
  "Context \<Rightarrow> (string, nat) gomap \<times> Context list \<Rightarrow> (string, nat) gomap \<times> Context list" where
  "parent_ctx_step c acc = (fmupd (ctx_name c) (length (snd acc)) (fst acc), snd acc @ [c])"

definition child_ctx_step ::
  "Context \<Rightarrow> (string, nat) gomap \<times> Context list \<Rightarrow> (string, nat) gomap \<times> Context list" where
  "child_ctx_step c acc =
    (case fmlookup (fst acc) (ctx_name c) of
       Some idx \<Rightarrow> (fst acc, (snd acc)[idx := c])
     | None \<Rightarrow> (fmupd (ctx_name c) (length (snd acc)) (fst acc), snd acc @ [c]))"

definition mergeContexts :: "Context list \<Rightarrow> Context list \<Rightarrow> Context list" where
  "mergeContexts parent child =
    snd (fold child_ctx_step child (fold parent_ctx_step parent (fmempty, [])))"

definition cloneConfigs :: "Config list \<Rightarrow> Config list" where
  "cloneConfigs cs = cs"

definition cloneBins :: "Bin list \<Rightarrow> Bin list" where
  "cloneBins bs = bs"

definition cloneAdds :: "Add list \<Rightarrow> Add list" where
  "cloneAdds ds = ds"

definition cloneEnvs :: "Env list \<Rightarrow> Env list" where
  "cloneEnvs es = es"

definition pick :: "string \<Rightarrow> string \<Rightarrow> string" where
  "pick parent child = (if child \<noteq> [] then child else parent)"

definition mergeAgent :: "Agent \<Rightarrow> Agent \<Rightarrow> Agent" where
  "mergeAgent parent child =
    \<lparr>ag_from = ag_from child,
     ag_runtime = pick (ag_runtime parent) (ag_runtime child),
     ag_model = pick (ag_model parent) (ag_model child),
     ag_name = pick (ag_name parent) (ag_name child),
     ag_contexts = mergeContexts (ag_contexts parent) (ag_contexts child),
     ag_configs = (if ag_runtime child \<noteq> [] then cloneConfigs (ag_configs child)
                   else cloneConfigs (ag_configs parent) @ ag_configs child),
     ag_bins = cloneBins (ag_bins parent) @ ag_bins child,
     ag_adds = cloneAdds (ag_adds parent) @ ag_adds child,
     ag_exec = (if ag_exec child \<noteq> [] then ag_exec child else ag_exec parent),
     ag_labels = fm_copy_into (fm_copy_into fmempty (ag_labels parent)) (ag_labels child),
     ag_args = fm_copy_into (fm_copy_into fmempty (ag_args parent)) (ag_args child),
     ag_envs = cloneEnvs (ag_envs parent) @ ag_envs child,
     ag_capabilities = mergeStringSet (ag_capabilities parent) (ag_capabilities child),
     ag_mounts = []\<rparr>"

definition merge_files :: "Agentfile \<Rightarrow> Agentfile \<Rightarrow> (panic, Agentfile) res" where
  "merge_files parent child =
    (case af_agent parent of
       None \<Rightarrow> Inl NilDeref
     | Some p \<Rightarrow>
         (case af_agent child of
            None \<Rightarrow> Inl NilDeref
          | Some c \<Rightarrow> Inr
              \<lparr>af_syntax = (if af_syntax child = [] then af_syntax parent else af_syntax child),
               af_agent = Some (mergeAgent p c)\<rparr>))"


section \<open>The resolver\<close>

datatype 'e rerr = TooDeep | Cycle "string list" | Pulling string 'e | ResolvePanic panic

type_synonym 'e fetcher = "Reference \<Rightarrow> 'e + Agentfile"

definition maxDepth :: nat where
  "maxDepth = 10"

definition is_base :: "string \<Rightarrow> bool" where
  "is_base from \<longleftrightarrow> from = [] \<or> from = ''scratch''"

function resolveDepth ::
  "'e fetcher \<Rightarrow> Agentfile \<Rightarrow> nat \<Rightarrow> string list \<Rightarrow> ('e rerr, Agentfile) res" where
  "resolveDepth fetch af depth chain =
    (if depth > maxDepth then Inl TooDeep
     else case af_agent af of
       None \<Rightarrow> Inl (ResolvePanic NilDeref)
     | Some a \<Rightarrow>
         if is_base (ag_from a) then Inr af
         else
           (let ref = ParseReference (ag_from a); normalized = ref_String ref
            in if normalized \<in> set chain then Inl (Cycle (chain @ [normalized]))
               else case fetch ref of
                 Inl e \<Rightarrow> Inl (Pulling (ag_from a) e)
               | Inr parent \<Rightarrow>
                   (case resolveDepth fetch parent (Suc depth) (chain @ [normalized]) of
                      Inl e \<Rightarrow> Inl e
                    | Inr parent' \<Rightarrow>
                        (case merge_files parent' af of
                           Inl p \<Rightarrow> Inl (ResolvePanic p)
                         | Inr r \<Rightarrow> Inr r))))"
  by pat_completeness auto
termination
  by (relation "measure (\<lambda>(fetch, af, depth, chain). Suc maxDepth - depth)") auto

declare resolveDepth.simps [simp del]

definition Resolve :: "'e fetcher \<Rightarrow> Agentfile \<Rightarrow> ('e rerr, Agentfile) res" where
  "Resolve fetch af = resolveDepth fetch af 0 []"


section \<open>Merging as keyed updates\<close>

lemma set_step_fold:
  assumes "\<And>s. fmlookup seen s \<noteq> None \<longleftrightarrow> s \<in> set out"
  shows "snd (fold set_step xs (seen, out)) = fold add_new xs out \<and>
    (\<forall>s. fmlookup (fst (fold set_step xs (seen, out))) s \<noteq> None \<longleftrightarrow> s \<in> set (fold add_new xs out))"
  using assms
proof (induction xs arbitrary: seen out)
  case Nil
  then show ?case by simp
next
  case (Cons x xs)
  show ?case
  proof (cases "x \<in> set out")
    case True
    then have "set_step x (seen, out) = (seen, out)" using Cons.prems by (simp add: set_step_def)
    then show ?thesis using Cons True by simp
  next
    case False
    then have st: "set_step x (seen, out) = (fmupd x () seen, out @ [x])"
      using Cons.prems [of x] by (simp add: set_step_def)
    have "fmlookup (fmupd x () seen) s \<noteq> None \<longleftrightarrow> s \<in> set (out @ [x])" for s
      using Cons.prems [of s] by auto
    from Cons.IH [OF this] show ?thesis using False by (simp add: st add_new_def [of x out])
  qed
qed

lemma mergeStringSet_eq: "mergeStringSet p c = fold add_new (p @ c) []"
proof -
  have empty: "fmlookup (fmempty :: (string, unit) fmap) s \<noteq> None \<longleftrightarrow> s \<in> set []" for s :: string
    by simp
  obtain seen out where so: "fold set_step p (fmempty, []) = (seen, out)" by fastforce
  have "out = fold add_new p []" "\<And>s. fmlookup seen s \<noteq> None \<longleftrightarrow> s \<in> set out"
    using set_step_fold [OF empty, of p] by (simp_all add: so)
  then show ?thesis
    using set_step_fold [of seen out c] by (simp add: mergeStringSet_def so)
qed

lemma fold_add_new_distinct_id: "distinct (ys @ p) \<Longrightarrow> fold add_new p ys = ys @ p"
  by (induction p arbitrary: ys) (auto simp: add_new_def)

lemma mergeStringSet_distinct: "distinct p \<Longrightarrow> mergeStringSet p c = fold add_new c p"
  using fold_add_new_distinct_id [of "[]" p] by (simp add: mergeStringSet_eq)

lemma fold_add_new_swap: "fold add_new (add_new n c) p = add_new n (fold add_new c p)"
  by (cases "n \<in> set c") (simp_all add: fold_add_new_set add_new_def [of n c])

text \<open>The index of \<^const>\<open>mergeContexts\<close> points at the entry of its name.\<close>

definition index_ok :: "(string, nat) gomap \<Rightarrow> Context list \<Rightarrow> bool" where
  "index_ok ix cs \<longleftrightarrow> distinct (map ctx_name cs) \<and>
     (\<forall>n i. fmlookup ix n = Some i \<longleftrightarrow> i < length cs \<and> ctx_name (cs ! i) = n)"

lemma index_ok_append:
  assumes "index_ok ix cs" "ctx_name c \<notin> ctx_name ` set cs"
  shows "index_ok (fmupd (ctx_name c) (length cs) ix) (cs @ [c])"
proof -
  have "fmlookup (fmupd (ctx_name c) (length cs) ix) n = Some i \<longleftrightarrow>
      i < length (cs @ [c]) \<and> ctx_name ((cs @ [c]) ! i) = n" for n i
  proof (cases "i < length cs")
    case True
    then have "ctx_name (cs ! i) \<noteq> ctx_name c" using assms(2) by (metis image_eqI nth_mem)
    then show ?thesis using True assms(1) by (auto simp: index_ok_def nth_append)
  next
    case False
    then show ?thesis using assms(1) by (auto simp: index_ok_def nth_append)
  qed
  then show ?thesis using assms by (simp add: index_ok_def)
qed

lemma parent_ctx_fold:
  assumes "index_ok ix cs" "distinct (map ctx_name (cs @ ps))"
  shows "snd (fold parent_ctx_step ps (ix, cs)) = cs @ ps \<and>
         index_ok (fst (fold parent_ctx_step ps (ix, cs))) (cs @ ps)"
  using assms
proof (induction ps arbitrary: ix cs)
  case (Cons p ps)
  have ok: "index_ok (fmupd (ctx_name p) (length cs) ix) (cs @ [p])"
    using Cons.prems by (intro index_ok_append) auto
  have "distinct (map ctx_name ((cs @ [p]) @ ps))" using Cons.prems(2) by simp
  from Cons.IH [OF ok this] show ?case by (simp add: parent_ctx_step_def)
qed simp

lemma upsert_nth:
  assumes "distinct (map key xs)" "i < length xs" "key (xs ! i) = key x"
  shows "upsert key x xs = xs[i := x]"
  using assms
proof (induction xs arbitrary: i)
  case (Cons y ys)
  show ?case
  proof (cases i)
    case (Suc j)
    then have j: "j < length ys" "key (ys ! j) = key x" using Cons.prems by simp_all
    then have "key x \<in> key ` set ys" by (metis image_eqI nth_mem)
    then have "key y \<noteq> key x" using Cons.prems(1) by auto
    then show ?thesis using Cons.IH [OF _ j] Cons.prems(1) Suc by simp
  qed (use Cons.prems in simp)
qed simp

lemma index_ok_update:
  assumes "index_ok ix cs" "fmlookup ix (ctx_name c) = Some i"
  shows "cs[i := c] = upsert ctx_name c cs" "index_ok ix (upsert ctx_name c cs)"
proof -
  have i: "i < length cs" "ctx_name (cs ! i) = ctx_name c" and d: "distinct (map ctx_name cs)"
    using assms by (auto simp: index_ok_def)
  show u: "cs[i := c] = upsert ctx_name c cs" using upsert_nth [OF d i] by simp
  have "map ctx_name (cs[i := c]) = map ctx_name cs" using i by (simp add: map_update list_update_same_conv)
  then show "index_ok ix (upsert ctx_name c cs)"
    using assms(1) unfolding u [symmetric] index_ok_def by (metis length_list_update nth_map)
qed

lemma child_ctx_fold:
  assumes "index_ok ix cs"
  shows "snd (fold child_ctx_step ds (ix, cs)) = fold (upsert ctx_name) ds cs"
  using assms
proof (induction ds arbitrary: ix cs)
  case (Cons d ds)
  show ?case
  proof (cases "fmlookup ix (ctx_name d)")
    case None
    have "ctx_name d \<notin> ctx_name ` set cs"
    proof
      assume "ctx_name d \<in> ctx_name ` set cs"
      then obtain i where "i < length cs" "ctx_name (cs ! i) = ctx_name d"
        by (auto simp: in_set_conv_nth)
      then have "fmlookup ix (ctx_name d) = Some i" using Cons.prems by (simp add: index_ok_def)
      with None show False by simp
    qed
    then show ?thesis
      using Cons.IH [OF index_ok_append [OF Cons.prems]] None
      by (simp add: child_ctx_step_def upsert_fresh)
  next
    case (Some i)
    note u = index_ok_update [OF Cons.prems Some]
    show ?thesis using Cons.IH [OF u(2)] Some u(1) by (simp add: child_ctx_step_def)
  qed
qed simp

lemma mergeContexts_eq:
  assumes "distinct (map ctx_name p)"
  shows "mergeContexts p c = fold (upsert ctx_name) c p"
proof -
  have "index_ok fmempty []" by (simp add: index_ok_def)
  from parent_ctx_fold [OF this, of p] assms
  have "snd (fold parent_ctx_step p (fmempty, [])) = p"
    "index_ok (fst (fold parent_ctx_step p (fmempty, []))) p" by simp_all
  then show ?thesis
    using child_ctx_fold [of "fst (fold parent_ctx_step p (fmempty, []))" p c]
    by (simp add: mergeContexts_def prod.collapse [symmetric] del: prod.collapse) (metis prod.collapse)
qed

lemma upsert_twice: "key x = key y \<Longrightarrow> upsert key x (upsert key y q) = upsert key x q"
  by (induction q) auto

lemma upsert_commute:
  "key x \<noteq> key c \<Longrightarrow> key x \<in> key ` set q \<Longrightarrow>
     upsert key x (upsert key c q) = upsert key c (upsert key x q)"
  by (induction q) auto

lemma fold_upsert_mem: "k \<in> key ` set q \<Longrightarrow> k \<in> key ` set (fold (upsert key) cs q)"
  by (induction cs arbitrary: q) (simp_all add: upsert_keys)

lemma fold_upsert_commute:
  assumes "key x \<notin> key ` set cs" "key x \<in> key ` set q"
  shows "fold (upsert key) cs (upsert key x q) = upsert key x (fold (upsert key) cs q)"
  using assms
proof (induction cs arbitrary: q)
  case (Cons c cs)
  then have "upsert key c (upsert key x q) = upsert key x (upsert key c q)"
    using upsert_commute [of key x c q] by auto
  then show ?case using Cons by (simp add: upsert_keys)
qed simp

lemma fold_upsert_swap:
  assumes "distinct (map key cs)"
  shows "fold (upsert key) (upsert key x cs) q = upsert key x (fold (upsert key) cs q)"
proof (cases "key x \<in> key ` set cs")
  case False
  then show ?thesis by (simp add: upsert_fresh)
next
  case True
  then obtain a y b where cs: "cs = a @ y # b" and y: "key y = key x" and a: "key x \<notin> key ` set a"
    using split_list_first_prop [of cs "\<lambda>c. key c = key x"] by fastforce
  have b: "key x \<notin> key ` set b" using assms cs y by (metis distinct.simps(2) distinct_append list.map(2) map_append set_map)
  let ?q = "fold (upsert key) a q"
  have "upsert key x cs = a @ x # b" using a y by (simp add: cs upsert_append)
  then have "fold (upsert key) (upsert key x cs) q = fold (upsert key) b (upsert key x ?q)" by simp
  also have "\<dots> = fold (upsert key) b (upsert key x (upsert key y ?q))"
    using y by (simp add: upsert_twice)
  also have "\<dots> = upsert key x (fold (upsert key) b (upsert key y ?q))"
    using b y by (intro fold_upsert_commute) (simp_all add: upsert_keys)
  finally show ?thesis by (simp add: cs)
qed

lemma fold_upsert_distinct:
  "distinct (map key q) \<Longrightarrow> distinct (map key (fold (upsert key) cs q))"
  by (induction cs arbitrary: q) (simp_all add: upsert_distinct)

lemma fold_upsert_fold:
  assumes "distinct (map key ps)"
  shows "fold (upsert key) cs (fold (upsert key) ps q) = fold (upsert key) (fold (upsert key) cs ps) q"
  using assms
proof (induction cs arbitrary: ps)
  case (Cons c cs)
  then show ?case
    using fold_upsert_swap [OF Cons.prems, of c q] Cons.IH [OF upsert_distinct [OF Cons.prems], of c]
    by simp
qed simp

section \<open>Merging is replaying the child's instructions on the parent\<close>

lemmas clone_defs = cloneConfigs_def cloneBins_def cloneAdds_def cloneEnvs_def

text \<open>A parent as the resolver sees it: names distinct, no runtime-only mounts.\<close>

definition parent_ok :: "Agent \<Rightarrow> bool" where
  "parent_ok p \<longleftrightarrow> distinct (map ctx_name (ag_contexts p)) \<and> distinct (ag_capabilities p) \<and> ag_mounts p = []"

text \<open>The scalar instructions of the grammar carry non-empty identifiers and
  EXEC at least one argument.\<close>

fun solid :: "instruction \<Rightarrow> bool" where
  "solid (IRuntime x) = (x \<noteq> [])"
| "solid (IModel x) = (x \<noteq> [])"
| "solid (IName x) = (x \<noteq> [])"
| "solid (IExec as) = (as \<noteq> [])"
| "solid _ = True"

lemma fm_copy_empty [simp]: "fm_copy_into fmempty m = m"
  by (rule fmap_ext) (simp split: option.splits)

lemma fold_add_capability_merge:
  assumes "distinct p"
  shows "mergeStringSet p (fold add_capability ns c) = fold add_capability ns (mergeStringSet p c)"
  using assms
proof (induction ns arbitrary: c)
  case (Cons n ns)
  then show ?case
    by (simp add: add_capability_def mergeStringSet_distinct fold_add_new_swap)
qed simp

lemma mergeAgent_apply:
  assumes p: "parent_ok p" and c: "agent_inv c" and i: "solid i"
  shows "mergeAgent p (applyInstruction L c i h) = applyInstruction L (mergeAgent p c) i h"
proof -
  have dp: "distinct (map ctx_name (ag_contexts p))" "distinct (ag_capabilities p)"
    using p by (simp_all add: parent_ok_def)
  have dc: "distinct (map ctx_name (ag_contexts c))" using c by (simp add: agent_inv_def)
  note ctx = mergeContexts_eq [OF dp(1)] fold_upsert_swap [OF dc]
  show ?thesis
    using i
    by (cases i)
      (simp_all add: applyInstruction_def mergeAgent_def Let_def pick_def clone_defs ctx
        fm_copy_into_fmupd fold_add_capability_merge [OF dp(2)] split: option.splits)
qed

lemma mergeAgent_run_trace:
  assumes p: "parent_ok p" and tr: "\<forall>t \<in> set tr. solid (fst t)" and c: "agent_inv c"
  shows "mergeAgent p (run_trace L tr c) = run_trace L tr (mergeAgent p c)"
  using tr c
proof (induction tr arbitrary: c)
  case (Cons t tr)
  obtain i h where t: "t = (i, h)" by fastforce
  have "solid i" using Cons.prems by (simp add: t)
  then have "mergeAgent p (applyInstruction L c i h) = applyInstruction L (mergeAgent p c) i h"
    using mergeAgent_apply [OF p Cons.prems(2)] by blast
  then show ?case
    using Cons.IH [of "applyInstruction L c i h"] Cons.prems applyInstruction_inv by (simp add: t)
qed simp

lemma mergeAgent_newAgent:
  "parent_ok p \<Longrightarrow> mergeAgent p newAgent = p\<lparr>ag_from := []\<rparr>"
  by (simp add: parent_ok_def mergeAgent_def newAgent_def pick_def clone_defs mergeContexts_eq
      mergeStringSet_distinct)

lemma agent_inv_parent_ok: "agent_inv a \<Longrightarrow> parent_ok a"
  by (simp add: agent_inv_def parent_ok_def)

lemma mergeAgent_parent_ok:
  "parent_ok p \<Longrightarrow> parent_ok (mergeAgent p c)"
  by (simp add: parent_ok_def mergeAgent_def mergeContexts_eq mergeStringSet_eq fold_upsert_distinct
      fold_add_new_distinct)


section \<open>Lineages\<close>

text \<open>\<open>lineage fetch af ps\<close>: fetching parent after parent from \<open>af\<close> gives \<open>ps\<close>, nearest first,
  and ends at an agent with a base FROM; no agent on the way is nil.\<close>

inductive lineage :: "'e fetcher \<Rightarrow> Agentfile \<Rightarrow> Agentfile list \<Rightarrow> bool" for fetch where
  lin_base: "af_agent af = Some a \<Longrightarrow> is_base (ag_from a) \<Longrightarrow> lineage fetch af []"
| lin_from: "af_agent af = Some a \<Longrightarrow> \<not> is_base (ag_from a) \<Longrightarrow>
    fetch (ParseReference (ag_from a)) = Inr p \<Longrightarrow> lineage fetch p ps \<Longrightarrow> lineage fetch af (p # ps)"

inductive_cases lineage_NilE: "lineage fetch af []"
inductive_cases lineage_ConsE: "lineage fetch af (p # ps)"

definition from_ref :: "Agentfile \<Rightarrow> string" where
  "from_ref af = (case af_agent af of
     Some a \<Rightarrow> ref_String (ParseReference (ag_from a)) | None \<Rightarrow> [])"

text \<open>The normalised references fetched along a lineage.\<close>

fun lineage_refs :: "Agentfile \<Rightarrow> Agentfile list \<Rightarrow> string list" where
  "lineage_refs af [] = []"
| "lineage_refs af (p # ps) = from_ref af # lineage_refs p ps"

definition agent_of :: "Agentfile \<Rightarrow> Agent" where
  "agent_of af = (case af_agent af of Some a \<Rightarrow> a | None \<Rightarrow> newAgent)"

text \<open>Merging along a lineage, the oldest ancestor first.\<close>

fun merge_lineage :: "Agentfile \<Rightarrow> Agentfile list \<Rightarrow> Agentfile" where
  "merge_lineage af [] = af"
| "merge_lineage af (p # ps) =
    (let r = merge_lineage p ps in
     \<lparr>af_syntax = (if af_syntax af = [] then af_syntax r else af_syntax af),
      af_agent = Some (mergeAgent (agent_of r) (agent_of af))\<rparr>)"

lemma merge_lineage_agent:
  "lineage fetch af ps \<Longrightarrow> \<exists>a. af_agent (merge_lineage af ps) = Some a"
  by (cases ps) (auto elim: lineage_NilE simp: Let_def)

lemma merge_files_lineage:
  assumes "lineage fetch p ps" "af_agent af = Some a"
  shows "merge_files (merge_lineage p ps) af = Inr (merge_lineage af (p # ps))"
  using merge_lineage_agent [OF assms(1)] assms(2)
  by (auto simp: merge_files_def agent_of_def Let_def)

lemma resolveDepth_sound:
  "resolveDepth fetch af depth chain = Inr r \<Longrightarrow>
    \<exists>ps. lineage fetch af ps \<and> depth + length ps \<le> maxDepth \<and>
         distinct (lineage_refs af ps) \<and> set (lineage_refs af ps) \<inter> set chain = {} \<and>
         r = merge_lineage af ps"
proof (induction fetch af depth chain arbitrary: r rule: resolveDepth.induct)
  case (1 fetch af depth chain)
  from "1.prems" have depth: "depth \<le> maxDepth"
    by (subst (asm) resolveDepth.simps) (auto split: if_splits)
  with "1.prems" obtain a where a: "af_agent af = Some a"
    by (subst (asm) resolveDepth.simps) (auto split: if_splits option.splits)
  show ?case
  proof (cases "is_base (ag_from a)")
    case True
    then have "r = af" using "1.prems" depth a by (subst (asm) resolveDepth.simps) simp
    then show ?thesis using lin_base [OF a True] depth by (intro exI [of _ "[]"]) simp
  next
    case False
    let ?ref = "ParseReference (ag_from a)"
    from "1.prems" depth a False obtain p p' where
      nc: "ref_String ?ref \<notin> set chain" and p: "fetch ?ref = Inr p"
      and rec: "resolveDepth fetch p (Suc depth) (chain @ [ref_String ?ref]) = Inr p'"
      and m: "merge_files p' af = Inr r"
      by (subst (asm) resolveDepth.simps) (auto simp: Let_def split: if_splits sum.splits)
    from "1.IH" [OF _ a False refl refl nc p rec] depth obtain ps where
      ps: "lineage fetch p ps" "Suc depth + length ps \<le> maxDepth" "distinct (lineage_refs p ps)"
      "set (lineage_refs p ps) \<inter> set (chain @ [ref_String ?ref]) = {}" "p' = merge_lineage p ps"
      by auto
    have "r = merge_lineage af (p # ps)" using merge_files_lineage [OF ps(1) a] m ps(5) by simp
    moreover have "from_ref af = ref_String ?ref" using a by (simp add: from_ref_def)
    ultimately show ?thesis
      using lin_from [OF a False p ps(1)] ps nc by (intro exI [of _ "p # ps"]) auto
  qed
qed

lemma resolveDepth_complete:
  assumes "lineage fetch af ps" "depth + length ps \<le> maxDepth"
    "distinct (lineage_refs af ps)" "set (lineage_refs af ps) \<inter> set chain = {}"
  shows "resolveDepth fetch af depth chain = Inr (merge_lineage af ps)"
  using assms
proof (induction arbitrary: depth chain rule: lineage.induct)
  case (lin_base af a)
  then show ?case by (subst resolveDepth.simps) simp
next
  case (lin_from af a p ps)
  let ?n = "ref_String (ParseReference (ag_from a))"
  have n: "from_ref af = ?n" using lin_from.hyps(1) by (simp add: from_ref_def)
  have "resolveDepth fetch p (Suc depth) (chain @ [?n]) = Inr (merge_lineage p ps)"
    using lin_from.prems n by (intro lin_from.IH) auto
  then show ?case
    using lin_from.hyps lin_from.prems n merge_files_lineage [OF lin_from.hyps(4,1)]
    by (subst resolveDepth.simps) (simp add: Let_def)
qed

lemma lineage_unique: "lineage fetch af ps \<Longrightarrow> lineage fetch af qs \<Longrightarrow> ps = qs"
proof (induction arbitrary: qs rule: lineage.induct)
  case (lin_base af a)
  then show ?case by (auto elim: lineage.cases)
next
  case (lin_from af a p ps)
  from lin_from.prems lin_from.hyps show ?case
    by (cases rule: lineage.cases) (auto dest: lin_from.IH)
qed

section \<open>What merging keeps\<close>

lemma mergeAgent_set:
  assumes "parent_ok p"
  shows "set (ag_contexts (mergeAgent p c)) \<subseteq> set (ag_contexts p) \<union> set (ag_contexts c)"
    "set (ag_configs (mergeAgent p c)) \<subseteq> set (ag_configs p) \<union> set (ag_configs c)"
    "set (ag_bins (mergeAgent p c)) = set (ag_bins p) \<union> set (ag_bins c)"
    "set (ag_adds (mergeAgent p c)) = set (ag_adds p) \<union> set (ag_adds c)"
    "set (ag_envs (mergeAgent p c)) = set (ag_envs p) \<union> set (ag_envs c)"
    "set (ag_capabilities (mergeAgent p c)) = set (ag_capabilities p) \<union> set (ag_capabilities c)"
proof -
  have up: "set (fold (upsert ctx_name) cs q) \<subseteq> set q \<union> set cs" for cs q :: "Context list"
  proof (induction cs arbitrary: q)
    case (Cons c cs)
    then show ?case using set_upsert_subset [of ctx_name c q] by fastforce
  qed simp
  have "distinct (map ctx_name (ag_contexts p))" using assms by (simp add: parent_ok_def)
  then show "set (ag_contexts (mergeAgent p c)) \<subseteq> set (ag_contexts p) \<union> set (ag_contexts c)"
    using up by (simp add: mergeAgent_def mergeContexts_eq)
qed (auto simp: mergeAgent_def clone_defs mergeStringSet_eq fold_add_new_set split: if_splits)

lemma mergeAgent_well_formed:
  assumes "parent_ok p" "well_formed_agent p" "well_formed_agent c"
  shows "well_formed_agent (mergeAgent p c)"
proof -
  note s = mergeAgent_set [OF assms(1), of c]
  have "ag_name (mergeAgent p c) \<in> {ag_name p, ag_name c}" "ag_from (mergeAgent p c) = ag_from c"
    by (simp_all add: mergeAgent_def pick_def)
  moreover have "x \<in> set (ag_contexts p) \<or> x \<in> set (ag_contexts c)"
    if "x \<in> set (ag_contexts (mergeAgent p c))" for x using s(1) that by blast
  moreover have "x \<in> set (ag_configs p) \<or> x \<in> set (ag_configs c)"
    if "x \<in> set (ag_configs (mergeAgent p c))" for x using s(2) that by blast
  ultimately show ?thesis
    using assms(2,3) unfolding well_formed_agent_def s(3-6)
    by (intro conjI ballI) (elim conjE UnE insertE; fastforce)+
qed

lemma merge_lineage_well_formed:
  assumes "lineage fetch af ps" "\<forall>f \<in> set (af # ps). well_formed_agent (agent_of f) \<and> parent_ok (agent_of f)"
  shows "well_formed_agent (agent_of (merge_lineage af ps)) \<and> parent_ok (agent_of (merge_lineage af ps)) \<and>
         ag_from (agent_of (merge_lineage af ps)) = ag_from (agent_of af)"
  using assms
proof (induction rule: lineage.induct)
  case (lin_base af a)
  then show ?case by simp
next
  case (lin_from af a p ps)
  then have "well_formed_agent (agent_of (merge_lineage p ps))" "parent_ok (agent_of (merge_lineage p ps))"
    by auto
  moreover have "agent_of (merge_lineage af (p # ps)) = mergeAgent (agent_of (merge_lineage p ps)) (agent_of af)"
    by (simp add: Let_def agent_of_def)
  moreover have "ag_from (mergeAgent x y) = ag_from y" for x y by (simp add: mergeAgent_def)
  moreover have "well_formed_agent (agent_of af)" using lin_from.prems by simp
  ultimately show ?case using mergeAgent_well_formed mergeAgent_parent_ok by metis
qed

lemma first_with_fold_upsert:
  "first_with key k (fold (upsert key) cs q) =
     (case last_with key k cs of Some c \<Rightarrow> Some c | None \<Rightarrow> first_with key k q)"
  by (induction cs arbitrary: q)
    (auto simp: first_with_upsert last_with_Cons split: option.splits)


section \<open>Properties\<close>

text \<open>C2: the resolver succeeds exactly on the finite, acyclic lineages of at
  most ten ancestors whose agents are all present and whose fetches all
  succeed, and its result is the merge along that lineage, oldest ancestor
  first.  In particular it always returns, a repeated reference never
  resolves, and an eleventh ancestor is an error.\<close>

theorem resolve_iff_lineage:
  "Resolve fetch af = Inr r \<longleftrightarrow>
    (\<exists>ps. lineage fetch af ps \<and> length ps \<le> 10 \<and> distinct (lineage_refs af ps) \<and>
          r = merge_lineage af ps)"
  using resolveDepth_sound [of fetch af 0 "[]" r] resolveDepth_complete [of fetch af _ 0 "[]"]
  by (auto simp: Resolve_def maxDepth_def)

text \<open>C31: inheriting is replaying: merging a child whose file spells the
  instructions \<open>FROM x, tr\<close> into a parent gives the agent obtained by applying
  those same instructions to the parent.  (Identifiers are non-empty and EXEC
  has an argument, as the grammar demands; the parent has distinct context
  names and capabilities, as the parser ensures.)\<close>

theorem merge_replays_child:
  assumes "parent_ok p" "\<forall>t \<in> set tr. solid (fst t)"
  shows "mergeAgent p (run_trace L ((IFrom x, h) # tr) newAgent) = run_trace L ((IFrom x, h) # tr) p"
proof -
  have "mergeAgent p (run_trace L ((IFrom x, h) # tr) newAgent) =
      run_trace L ((IFrom x, h) # tr) (mergeAgent p newAgent)"
    using assms(2) by (intro mergeAgent_run_trace [OF assms(1)]) (simp_all add: newAgent_inv)
  also have "mergeAgent p newAgent = p\<lparr>ag_from := []\<rparr>" by (rule mergeAgent_newAgent [OF assms(1)])
  finally show ?thesis by (simp add: applyInstruction_def)
qed

theorem merge_replays_child_witness:
  "mergeAgent demo_agent (run_trace grammar_lib [(IFrom ''demo'', []), (IRuntime ''r'', []), (ICapability [''b'', ''c''], [])] newAgent)
   = run_trace grammar_lib [(IFrom ''demo'', []), (IRuntime ''r'', []), (ICapability [''b'', ''c''], [])] demo_agent"
  by (rule merge_replays_child) (simp_all add: parent_ok_def demo_agent_def newAgent_def)

text \<open>Inheritance is associative: resolving the grandparent into the parent
  first and then the child, or the parent into the child first, gives the
  same agent.\<close>

theorem merge_associative:
  assumes "parent_ok g" "parent_ok p"
  shows "mergeAgent (mergeAgent g p) c = mergeAgent g (mergeAgent p c)"
proof -
  have d: "distinct (map ctx_name (ag_contexts g))" "distinct (map ctx_name (ag_contexts p))"
    "distinct (ag_capabilities g)" "distinct (ag_capabilities p)"
    using assms by (simp_all add: parent_ok_def)
  have "mergeContexts (mergeContexts (ag_contexts g) (ag_contexts p)) (ag_contexts c) =
      mergeContexts (ag_contexts g) (mergeContexts (ag_contexts p) (ag_contexts c))"
    by (simp add: mergeContexts_eq d fold_upsert_distinct fold_upsert_fold)
  moreover have "mergeStringSet (mergeStringSet (ag_capabilities g) (ag_capabilities p)) (ag_capabilities c) =
      mergeStringSet (ag_capabilities g) (mergeStringSet (ag_capabilities p) (ag_capabilities c))"
  proof -
    have "fold add_new xs (fold add_new ps q) = fold add_new (fold add_new xs ps) q" for xs ps q :: "string list"
      by (induction xs arbitrary: ps) (simp_all add: fold_add_new_swap [symmetric])
    then show ?thesis by (simp add: mergeStringSet_distinct d fold_add_new_distinct)
  qed
  moreover have "fm_copy_into (fm_copy_into a b) d = fm_copy_into a (fm_copy_into b d)"
    for a b d :: "(string, string) fmap"
    by (rule fmap_ext) (simp split: option.splits)
  ultimately show ?thesis by (simp add: mergeAgent_def pick_def clone_defs)
qed

theorem merge_associative_witness:
  "mergeAgent (mergeAgent demo_agent newAgent) demo_agent = mergeAgent demo_agent (mergeAgent newAgent demo_agent)"
  by (rule merge_associative) (simp_all add: parent_ok_def demo_agent_def newAgent_def)

text \<open>The documented inheritance table.  RUNTIME, MODEL, NAME and EXEC are
  replaced when the child sets them; a child RUNTIME drops the parent's
  CONFIGs, otherwise CONFIGs are appended; BIN, ADD and ENV are appended;
  LABEL and ARG are keyed merges won by the child; CONTEXT is a keyed merge
  that keeps the parent's order; CAPABILITY is the set union, parent first,
  without duplicates.\<close>

theorem merge_table:
  assumes "parent_ok p"
  shows "ag_from (mergeAgent p c) = ag_from c \<and>
    ag_runtime (mergeAgent p c) = (if ag_runtime c = [] then ag_runtime p else ag_runtime c) \<and>
    ag_model (mergeAgent p c) = (if ag_model c = [] then ag_model p else ag_model c) \<and>
    ag_name (mergeAgent p c) = (if ag_name c = [] then ag_name p else ag_name c) \<and>
    ag_exec (mergeAgent p c) = (if ag_exec c = [] then ag_exec p else ag_exec c) \<and>
    ag_configs (mergeAgent p c) = (if ag_runtime c = [] then ag_configs p @ ag_configs c else ag_configs c) \<and>
    ag_bins (mergeAgent p c) = ag_bins p @ ag_bins c \<and>
    ag_adds (mergeAgent p c) = ag_adds p @ ag_adds c \<and>
    ag_envs (mergeAgent p c) = ag_envs p @ ag_envs c \<and>
    (\<forall>k. fmlookup (ag_labels (mergeAgent p c)) k =
       (case fmlookup (ag_labels c) k of Some v \<Rightarrow> Some v | None \<Rightarrow> fmlookup (ag_labels p) k)) \<and>
    (\<forall>k. fmlookup (ag_args (mergeAgent p c)) k =
       (case fmlookup (ag_args c) k of Some v \<Rightarrow> Some v | None \<Rightarrow> fmlookup (ag_args p) k)) \<and>
    (\<forall>n. first_with ctx_name n (ag_contexts (mergeAgent p c)) =
       (case last_with ctx_name n (ag_contexts c) of Some x \<Rightarrow> Some x
        | None \<Rightarrow> first_with ctx_name n (ag_contexts p))) \<and>
    distinct (map ctx_name (ag_contexts (mergeAgent p c))) \<and>
    take (length (ag_contexts p)) (map ctx_name (ag_contexts (mergeAgent p c))) = map ctx_name (ag_contexts p) \<and>
    set (ag_capabilities (mergeAgent p c)) = set (ag_capabilities p) \<union> set (ag_capabilities c) \<and>
    distinct (ag_capabilities (mergeAgent p c)) \<and>
    take (length (ag_capabilities p)) (ag_capabilities (mergeAgent p c)) = ag_capabilities p"
proof -
  have d: "distinct (map ctx_name (ag_contexts p))" "distinct (ag_capabilities p)"
    using assms by (simp_all add: parent_ok_def)
  have names: "map ctx_name (fold (upsert ctx_name) cs q) = fold add_new (map ctx_name cs) (map ctx_name q)"
    for cs q :: "Context list"
    by (induction cs arbitrary: q) (simp_all add: upsert_map_keys)
  have pre: "take (length ys) (fold add_new xs ys) = ys" for xs ys :: "string list"
    using fold_add_new_prefix [of xs ys] by auto
  have "take (length (ag_contexts p)) (map ctx_name (fold (upsert ctx_name) (ag_contexts c) (ag_contexts p)))
      = map ctx_name (ag_contexts p)"
    using pre [of "map ctx_name (ag_contexts p)"] by (simp add: names)
  then show ?thesis
    using d
    by (simp add: mergeAgent_def pick_def clone_defs mergeContexts_eq first_with_fold_upsert
        fold_upsert_distinct mergeStringSet_distinct fold_add_new_set fold_add_new_distinct pre Un_commute
        split: option.splits)
qed

theorem merge_table_witness:
  "ag_configs (mergeAgent demo_agent (newAgent\<lparr>ag_runtime := ''r2''\<rparr>)) = []"
proof -
  have "parent_ok demo_agent" by (simp add: parent_ok_def demo_agent_def newAgent_def)
  from merge_table [OF this, of "newAgent\<lparr>ag_runtime := ''r2''\<rparr>"] show ?thesis
    by (simp add: newAgent_def)
qed

text \<open>Resolution keeps validity: when the file and every ancestor on its
  lineage are well-formed with distinct names, the resolved agent is again
  well-formed and keeps the file's own FROM.\<close>

theorem resolve_keeps_validity:
  assumes "Resolve fetch af = Inr r"
    and "well_formed_agent (agent_of af) \<and> parent_ok (agent_of af)"
    and "\<forall>ref f. fetch ref = Inr f \<longrightarrow> well_formed_agent (agent_of f) \<and> parent_ok (agent_of f)"
  shows "\<exists>a. af_agent r = Some a \<and> well_formed_agent a \<and> ag_from a = ag_from (agent_of af)"
proof -
  obtain ps where ps: "lineage fetch af ps" "r = merge_lineage af ps"
    using resolveDepth_sound [OF assms(1) [unfolded Resolve_def]] by blast
  have "\<forall>f \<in> set ps. well_formed_agent (agent_of f) \<and> parent_ok (agent_of f)"
    using ps(1) assms(3) by (induction rule: lineage.induct) auto
  then have "well_formed_agent (agent_of r) \<and> ag_from (agent_of r) = ag_from (agent_of af)"
    using merge_lineage_well_formed [OF ps(1)] assms(2) ps(2) by simp
  moreover obtain a where "af_agent r = Some a" using merge_lineage_agent [OF ps(1)] ps(2) by auto
  ultimately show ?thesis by (simp add: agent_of_def)
qed

definition demo_fetch :: "string fetcher" where
  "demo_fetch ref =
    (if ref = \<lparr>ref_name = ''base'', ref_tag = ''latest''\<rparr>
     then Inr \<lparr>af_syntax = DefaultSyntax, af_agent = Some demo_agent\<rparr> else Inl ''not found'')"

definition demo_child :: Agentfile where
  "demo_child = \<lparr>af_syntax = [], af_agent = Some (newAgent\<lparr>ag_from := ''base'', ag_name := ''kid''\<rparr>)\<rparr>"

theorem resolve_keeps_validity_witness:
  "\<exists>r a. Resolve demo_fetch demo_child = Inr r \<and> af_agent r = Some a \<and> well_formed_agent a \<and> ag_from a = ''base''"
proof -
  have "validate_agent demo_agent = None" by code_simp
  then have wf: "well_formed_agent demo_agent \<and> parent_ok demo_agent"
    unfolding validate_agent_None by (simp add: parent_ok_def demo_agent_def newAgent_def)
  have "validate_agent (agent_of demo_child) = None" by code_simp
  then have c: "well_formed_agent (agent_of demo_child) \<and> parent_ok (agent_of demo_child)"
    unfolding validate_agent_None by (simp add: parent_ok_def demo_child_def agent_of_def newAgent_def)
  have "is_ok (Resolve demo_fetch demo_child)" by code_simp
  then obtain r where r: "Resolve demo_fetch demo_child = Inr r" by (auto simp: is_ok_iff)
  have f: "\<forall>ref f. demo_fetch ref = Inr f \<longrightarrow> well_formed_agent (agent_of f) \<and> parent_ok (agent_of f)"
    using wf by (simp add: demo_fetch_def agent_of_def)
  from resolve_keeps_validity [OF r c f] r show ?thesis
    by (auto simp: demo_child_def agent_of_def)
qed

end
