(* ===== verification/Build.thy ===== *)
theory Build
  imports Docker_Store Resolve
begin

text \<open>
  Package \<^verbatim>\<open>build\<close>: an agentfile, its source bytes, its contexts and its added
  files become the layers, the config and the manifest of an OCI artifact in
  a target.  The source file system is a parameter (\<^const>\<open>None\<close> is a nil file
  system); \<open>now\<close> is the formatted current time.
\<close>


section \<open>Operations\<close>

datatype berr =
    BPushSource oerr
  | BContext string string
  | BPushContext string oerr
  | BRead string string
  | BPushAdd string oerr
  | BMarshalConfig oerr
  | BPushConfig oerr
  | BMarshalManifest oerr
  | BPushManifest oerr
  | BTagDigest oerr
  | BTagName oerr
  | BPanic

type_synonym srcfs = "(string \<Rightarrow> (string, bytes) res) option"

definition blob_desc :: "codec \<Rightarrow> string \<Rightarrow> bytes \<Rightarrow> (string, string) gomap \<Rightarrow> Descriptor" where
  "blob_desc C mediaType data annotations =
    \<lparr>dc_media = mediaType, dc_digest = cd_digest C data, dc_size = int (length data),
     dc_annotations = annotations, dc_platform = None\<rparr>"

definition pushBlob ::
  "codec \<Rightarrow> 's target \<Rightarrow> string \<Rightarrow> bytes \<Rightarrow> (string, string) gomap \<Rightarrow> ('s, oerr, Descriptor) sm" where
  "pushBlob C T mediaType data annotations =
    (let desc = blob_desc C mediaType data annotations in sm_do (tg_Push T desc data) desc)"

definition titled :: "string \<Rightarrow> (string, string) gomap" where
  "titled t = fmupd AnnotationTitle t fmempty"

definition resolveContextContent :: "Context \<Rightarrow> srcfs \<Rightarrow> (string, bytes) res" where
  "resolveContextContent c src =
    (if ctx_content c \<noteq> [] then Inr (ctx_content c)
     else case src of
            Some readFile \<Rightarrow> if ctx_file c \<noteq> [] then readFile (ctx_file c) else Inr []
          | None \<Rightarrow> Inr [])"

definition push_source :: "codec \<Rightarrow> 's target \<Rightarrow> bytes \<Rightarrow> ('s, berr, Descriptor list) sm" where
  "push_source C T source =
    (if source = [] then sm_return []
     else sm_bind (sm_err BPushSource (pushBlob C T AgentfileMediaType source (titled ''Agentfile''))) (\<lambda>d. sm_return [d]))"

definition push_context :: "codec \<Rightarrow> 's target \<Rightarrow> srcfs \<Rightarrow> Context \<Rightarrow> ('s, berr, Descriptor) sm" where
  "push_context C T src c =
    sm_bind (sm_err (BContext (ctx_name c)) (sm_lift (resolveContextContent c src))) (\<lambda>ct.
      sm_err (BPushContext (ctx_name c))
        (pushBlob C T ContextLayerMediaType ct (titled (ctx_name c @ ''.md''))))"

definition add_data :: "Add \<Rightarrow> srcfs \<Rightarrow> (berr, bytes) res" where
  "add_data a src =
    (if add_content a \<noteq> [] then Inr (add_content a)
     else case src of
            None \<Rightarrow> Inl BPanic
          | Some readFile \<Rightarrow>
              (case readFile (add_src a) of Inl e \<Rightarrow> Inl (BRead (add_src a) e) | Inr data \<Rightarrow> Inr data))"

definition push_add :: "codec \<Rightarrow> 's target \<Rightarrow> srcfs \<Rightarrow> Add \<Rightarrow> ('s, berr, Descriptor) sm" where
  "push_add C T src a =
    sm_bind (sm_lift (add_data a src)) (\<lambda>data.
      sm_err (BPushAdd (add_src a)) (pushBlob C T OctetStream data (titled (add_name a))))"

definition manifest_annotations :: "string \<Rightarrow> Agent \<Rightarrow> (string, string) gomap" where
  "manifest_annotations now a =
    (let named = (if ag_name a = [] then ag_labels a else fmupd AnnotationTitle (ag_name a) (ag_labels a))
     in if fmlookup named AnnotationCreated = None then fmupd AnnotationCreated now named else named)"

definition agent_manifest :: "string \<Rightarrow> Agent \<Rightarrow> Descriptor \<Rightarrow> Descriptor list \<Rightarrow> Manifest" where
  "agent_manifest now a configDesc layers =
    \<lparr>mf_media = MediaTypeImageManifest, mf_artifact = AgentArtifactType,
     mf_config = configDesc\<lparr>dc_media := AgentConfigLayerMediatype\<rparr>, mf_layers = layers,
     mf_annotations = manifest_annotations now a\<rparr>"

definition packManifest ::
  "codec \<Rightarrow> 's target \<Rightarrow> string \<Rightarrow> Agentfile \<Rightarrow> Agent \<Rightarrow> Descriptor list \<Rightarrow> ('s, berr, ReferenceWithDigest) sm" where
  "packManifest C T now af a layers =
    sm_bind (sm_err BMarshalConfig (sm_lift (cd_enc_agentfile C af))) (\<lambda>configData.
    sm_bind (sm_err BPushConfig (pushBlob C T AgentConfigLayerMediatype configData fmempty)) (\<lambda>configDesc.
    sm_bind (sm_err BMarshalManifest (sm_lift (cd_enc_manifest C (agent_manifest now a configDesc layers)))) (\<lambda>manifestData.
      (let desc = blob_desc C MediaTypeImageManifest manifestData fmempty;
           ref = \<lparr>ref_name = ag_name a, ref_tag = DefaultTag\<rparr>
       in sm_then (sm_err BPushManifest (sm_do (tg_Push T desc manifestData) ()))
         (sm_then (sm_err BTagDigest (sm_do (tg_Tag T desc (dc_digest desc)) ()))
         (sm_then (if ag_name a = [] then sm_return ()
                   else sm_err BTagName (sm_do (tg_Tag T desc (ref_String ref)) ()))
           (sm_return \<lparr>rwd_reference = ref, rwd_digest = dc_digest desc\<rparr>)))))))"

definition Build ::
  "codec \<Rightarrow> 's target \<Rightarrow> string \<Rightarrow> Agentfile \<Rightarrow> bytes \<Rightarrow> srcfs \<Rightarrow> ('s, berr, ReferenceWithDigest) sm" where
  "Build C T now af source src =
    (case af_agent af of
       None \<Rightarrow> sm_bind (push_source C T source) (\<lambda>_. sm_lift (Inl BPanic))
     | Some a \<Rightarrow>
         sm_bind (push_source C T source) (\<lambda>ss.
         sm_bind (sm_each (push_context C T src) (ag_contexts a)) (\<lambda>cs.
         sm_bind (sm_each (push_add C T src) (ag_adds a)) (\<lambda>as.
           packManifest C T now af a (ss @ cs @ as)))))"

text \<open>\<^verbatim>\<open>FromFile\<close> on the bytes of the file: parse, resolve the parents, build.\<close>

datatype 'e ferr = FRead string | FParse perr | FResolve "'e rerr" | FBuild berr

definition FromFile ::
  "lib \<Rightarrow> codec \<Rightarrow> 's target \<Rightarrow> string \<Rightarrow> 'e fetcher \<Rightarrow> (string, bytes) res \<Rightarrow> srcfs \<Rightarrow>
   ('s, 'e ferr, ReferenceWithDigest) sm" where
  "FromFile L C T now fetch file src =
    sm_bind (sm_err FRead (sm_lift file)) (\<lambda>source.
    sm_bind (sm_err FParse (sm_lift (Parse L \<lparr>rd_content = source, rd_failed = False\<rparr>))) (\<lambda>af.
    sm_bind (sm_err FResolve (sm_lift (Resolve fetch af))) (\<lambda>resolved.
    sm_err FBuild (Build C T now resolved source src))))"


section \<open>The artifact a build describes\<close>

text \<open>A layer to push: media type, title, data.\<close>

type_synonym part = "string \<times> string \<times> bytes"

fun part_desc :: "codec \<Rightarrow> part \<Rightarrow> Descriptor" where
  "part_desc C (m, t, x) = blob_desc C m x (titled t)"

fun part_data :: "part \<Rightarrow> bytes" where
  "part_data (m, t, x) = x"

definition ok_opt :: "('e, 'a) res \<Rightarrow> 'a option" where
  "ok_opt r = (case r of Inl _ \<Rightarrow> None | Inr a \<Rightarrow> Some a)"

lemma ok_opt_Some [simp]: "ok_opt r = Some a \<longleftrightarrow> r = Inr a"
  by (cases r) (simp_all add: ok_opt_def)

definition source_part :: "bytes \<Rightarrow> part list" where
  "source_part source = (if source = [] then [] else [(AgentfileMediaType, ''Agentfile'', source)])"

definition context_part :: "Context \<Rightarrow> bytes \<Rightarrow> part" where
  "context_part c ct = (ContextLayerMediaType, ctx_name c @ ''.md'', ct)"

definition add_part :: "Add \<Rightarrow> bytes \<Rightarrow> part" where
  "add_part a x = (OctetStream, add_name a, x)"

record artifact =
  art_contexts :: "bytes list"
  art_adds :: "bytes list"
  art_config :: bytes
  art_manifest :: Manifest
  art_data :: bytes

definition artifact_parts :: "bytes \<Rightarrow> Agent \<Rightarrow> bytes list \<Rightarrow> bytes list \<Rightarrow> part list" where
  "artifact_parts source a cts ads =
    source_part source @ map2 context_part (ag_contexts a) cts @ map2 add_part (ag_adds a) ads"

definition artifact_of :: "codec \<Rightarrow> string \<Rightarrow> Agentfile \<Rightarrow> bytes \<Rightarrow> srcfs \<Rightarrow> artifact option" where
  "artifact_of C now af source src =
    Option.bind (af_agent af) (\<lambda>a.
    Option.bind (those (map (\<lambda>c. ok_opt (resolveContextContent c src)) (ag_contexts a))) (\<lambda>cts.
    Option.bind (those (map (\<lambda>x. ok_opt (add_data x src)) (ag_adds a))) (\<lambda>ads.
    Option.bind (ok_opt (cd_enc_agentfile C af)) (\<lambda>cfg.
      (let m = agent_manifest now a (blob_desc C AgentConfigLayerMediatype cfg fmempty)
                 (map (part_desc C) (artifact_parts source a cts ads))
       in Option.bind (ok_opt (cd_enc_manifest C m)) (\<lambda>md.
            Some \<lparr>art_contexts = cts, art_adds = ads, art_config = cfg, art_manifest = m, art_data = md\<rparr>))))))"

text \<open>Every blob of the artifact.\<close>

definition artifact_blobs :: "bytes \<Rightarrow> artifact \<Rightarrow> bytes set" where
  "artifact_blobs source art =
    (if source = [] then {} else {source}) \<union> set (art_contexts art) \<union> set (art_adds art) \<union> {art_config art, art_data art}"


section \<open>Pushing into a target\<close>

context oras_target
begin

lemma push_stored:
  assumes "tg_Push T d x s = (None, s')" "dc_digest d = cd_digest C x"
    and "\<forall>y \<in> X. has_blob T s (cd_digest C y) y" "inj_on (cd_digest C) (insert x X)"
  shows "\<forall>y \<in> insert x X. has_blob T s' (cd_digest C y) y"
proof
  fix y assume y: "y \<in> insert x X"
  show "has_blob T s' (cd_digest C y) y"
  proof (cases "y = x")
    case True
    then show ?thesis using push_has_blob [OF assms(1)] assms(2) by simp
  next
    case False
    then have "cd_digest C y \<noteq> cd_digest C x" using y assms(4) by (auto simp: inj_on_def)
    then show ?thesis using push_keeps_blob [OF assms(1)] False y assms(2,3) by auto
  qed
qed

lemma each_push:
  assumes "\<And>x s d s'. x \<in> set xs \<Longrightarrow> f x s = (Inr d, s') \<Longrightarrow>
      \<exists>y. g x = Some y \<and> d = part_desc C (k x y) \<and> part_data (k x y) = y \<and> tg_Push T d y s = (None, s')"
    and "sm_each f xs s = (Inr ds, s')"
    and "\<forall>y \<in> X. has_blob T s (cd_digest C y) y"
  shows "\<exists>ys. those (map g xs) = Some ys \<and> ds = map (part_desc C) (map2 k xs ys) \<and>
    (inj_on (cd_digest C) (X \<union> set ys) \<longrightarrow> (\<forall>y \<in> X \<union> set ys. has_blob T s' (cd_digest C y) y))"
  using assms
proof (induction xs arbitrary: s ds X)
  case (Cons x xs)
  obtain d s1 ds' where x: "f x s = (Inr d, s1)" and xs: "sm_each f xs s1 = (Inr ds', s')" and ds: "ds = d # ds'"
    using Cons.prems(2) by (auto simp: sm_bind_Inr)
  obtain y where y: "g x = Some y" "d = part_desc C (k x y)" "part_data (k x y) = y" "tg_Push T d y s = (None, s1)"
    using Cons.prems(1) [OF _ x] by auto
  have dig: "dc_digest d = cd_digest C y" using y(2,3) by (cases "k x y") (simp add: blob_desc_def)
  show ?case
  proof (cases "inj_on (cd_digest C) (insert y X)")
    case True
    have "\<forall>z \<in> insert y X. has_blob T s1 (cd_digest C z) z" by (rule push_stored [OF y(4) dig Cons.prems(3) True])
    from Cons.IH [OF Cons.prems(1) xs this] obtain ys where ys: "those (map g xs) = Some ys"
      "ds' = map (part_desc C) (map2 k xs ys)"
      "inj_on (cd_digest C) (insert y X \<union> set ys) \<longrightarrow> (\<forall>z \<in> insert y X \<union> set ys. has_blob T s' (cd_digest C z) z)"
      by auto
    then show ?thesis using y ds by (intro exI [of _ "y # ys"]) simp
  next
    case False
    from Cons.IH [OF Cons.prems(1) xs, of "{}"] obtain ys where ys: "those (map g xs) = Some ys"
      "ds' = map (part_desc C) (map2 k xs ys)" by auto
    have "\<not> inj_on (cd_digest C) (X \<union> set (y # ys))" using False by (auto intro: inj_on_subset)
    moreover have "those (map g (x # xs)) = Some (y # ys)" "ds = map (part_desc C) (map2 k (x # xs) (y # ys))"
      using y ds ys by simp_all
    ultimately show ?thesis by blast
  qed
qed simp

end

section \<open>A build stores its artifact\<close>

context oras_target
begin

lemma pushBlob_Inr: "pushBlob C T m x an s = (Inr d, s') \<longleftrightarrow>
    d = blob_desc C m x an \<and> tg_Push T d x s = (None, s')"
  by (auto simp: pushBlob_def Let_def)

lemma blob_desc_digest [simp]: "dc_digest (blob_desc C m x an) = cd_digest C x"
  by (simp add: blob_desc_def)

lemma push_source_stored:
  assumes "push_source C T source s = (Inr ds, s')"
  shows "ds = map (part_desc C) (source_part source) \<and>
    (\<forall>y \<in> (if source = [] then {} else {source}). has_blob T s' (cd_digest C y) y)"
  using assms push_has_blob [of "blob_desc C AgentfileMediaType source (titled ''Agentfile'')" source s s']
  by (auto simp: push_source_def source_part_def sm_bind_Inr pushBlob_Inr split: if_splits)

lemma push_context_Inr:
  assumes "push_context C T src c s = (Inr d, s')"
  shows "\<exists>y. ok_opt (resolveContextContent c src) = Some y \<and> d = part_desc C (context_part c y) \<and>
    part_data (context_part c y) = y \<and> tg_Push T d y s = (None, s')"
  using assms by (auto simp: push_context_def sm_bind_Inr pushBlob_Inr context_part_def)

lemma push_add_Inr:
  assumes "push_add C T src a s = (Inr d, s')"
  shows "\<exists>y. ok_opt (add_data a src) = Some y \<and> d = part_desc C (add_part a y) \<and>
    part_data (add_part a y) = y \<and> tg_Push T d y s = (None, s')"
  using assms by (auto simp: push_add_def sm_bind_Inr pushBlob_Inr add_part_def)

lemmas each_context = each_push [where f = "push_context C T src" and k = context_part and
    g = "\<lambda>c. ok_opt (resolveContextContent c src)" for C src, OF push_context_Inr]

lemmas each_add = each_push [where f = "push_add C T src" and k = add_part and
    g = "\<lambda>x. ok_opt (add_data x src)" for C src, OF push_add_Inr]

lemma pack_stored:
  assumes "packManifest C T now af a layers s = (Inr r, s')" "ag_name a \<noteq> []"
    and "cd_enc_agentfile C af = Inr cfg"
    and "cd_enc_manifest C (agent_manifest now a (blob_desc C AgentConfigLayerMediatype cfg fmempty) layers) = Inr md"
    and "\<forall>y \<in> X. has_blob T s (cd_digest C y) y" "inj_on (cd_digest C) (insert md (insert cfg X))"
  shows "\<exists>s5. tg_Tag T (blob_desc C MediaTypeImageManifest md fmempty) (ag_name a @ '':latest'') s5 = (None, s') \<and>
    (\<forall>y \<in> insert md (insert cfg X). has_blob T s5 (cd_digest C y) y) \<and>
    r = \<lparr>rwd_reference = \<lparr>ref_name = ag_name a, ref_tag = DefaultTag\<rparr>, rwd_digest = cd_digest C md\<rparr>"
proof -
  let ?cd = "blob_desc C AgentConfigLayerMediatype cfg fmempty" and ?md = "blob_desc C MediaTypeImageManifest md fmempty"
  obtain s1 s2 s3 where p: "tg_Push T ?cd cfg s = (None, s1)" "tg_Push T ?md md s1 = (None, s2)"
    "tg_Tag T ?md (cd_digest C md) s2 = (None, s3)" "tg_Tag T ?md (ag_name a @ '':latest'') s3 = (None, s')"
    and r: "r = \<lparr>rwd_reference = \<lparr>ref_name = ag_name a, ref_tag = DefaultTag\<rparr>, rwd_digest = cd_digest C md\<rparr>"
    using assms(1-4)
    by (auto simp: packManifest_def sm_bind_Inr sm_then_Inr pushBlob_Inr Let_def ref_String_def DefaultTag_def)
  have s1: "\<forall>y \<in> insert cfg X. has_blob T s1 (cd_digest C y) y"
    by (rule push_stored [OF p(1) _ assms(5)]) (use assms(6) in \<open>auto intro: inj_on_subset\<close>)
  have s2: "\<forall>y \<in> insert md (insert cfg X). has_blob T s2 (cd_digest C y) y"
    by (rule push_stored [OF p(2) _ s1 assms(6)]) simp
  have s3: "\<forall>y \<in> insert md (insert cfg X). has_blob T s3 (cd_digest C y) y"
    using s2 tag_keeps_blob [OF p(3)] by blast
  show ?thesis using p(4) s3 r by blast
qed

lemma Build_stored:
  assumes b: "Build C T now af source src s = (Inr r, s')" and "af_agent af = Some a" "ag_name a \<noteq> []"
    and art: "artifact_of C now af source src = Some art"
    and inj: "inj_on (cd_digest C) (artifact_blobs source art)"
  shows "\<exists>s5. tg_Tag T (blob_desc C MediaTypeImageManifest (art_data art) fmempty) (ag_name a @ '':latest'') s5 = (None, s') \<and>
    (\<forall>y \<in> artifact_blobs source art. has_blob T s5 (cd_digest C y) y) \<and>
    r = \<lparr>rwd_reference = \<lparr>ref_name = ag_name a, ref_tag = DefaultTag\<rparr>, rwd_digest = cd_digest C (art_data art)\<rparr>"
proof -
  let ?cts = "art_contexts art" and ?ads = "art_adds art"
  have cts: "those (map (\<lambda>c. ok_opt (resolveContextContent c src)) (ag_contexts a)) = Some ?cts"
    and ads: "those (map (\<lambda>x. ok_opt (add_data x src)) (ag_adds a)) = Some ?ads"
    and cfg: "cd_enc_agentfile C af = Inr (art_config art)"
    and md: "cd_enc_manifest C (agent_manifest now a (blob_desc C AgentConfigLayerMediatype (art_config art) fmempty)
       (map (part_desc C) (artifact_parts source a ?cts ?ads))) = Inr (art_data art)"
    using art assms(2) by (auto simp: artifact_of_def Let_def bind_eq_Some_conv)
  obtain ss s1 cs s2 as s3 where st: "push_source C T source s = (Inr ss, s1)"
    "sm_each (push_context C T src) (ag_contexts a) s1 = (Inr cs, s2)"
    "sm_each (push_add C T src) (ag_adds a) s2 = (Inr as, s3)"
    "packManifest C T now af a (ss @ cs @ as) s3 = (Inr r, s')"
    using b assms(2) by (auto simp: Build_def sm_bind_Inr)
  let ?S = "if source = [] then {} else {source}"
  have S: "ss = map (part_desc C) (source_part source)" "\<forall>y \<in> ?S. has_blob T s1 (cd_digest C y) y"
    using push_source_stored [OF st(1)] by blast+
  have i2: "inj_on (cd_digest C) (?S \<union> set ?cts \<union> set ?ads)"
    using inj by (rule inj_on_subset) (auto simp: artifact_blobs_def)
  then have i1: "inj_on (cd_digest C) (?S \<union> set ?cts)" by (rule inj_on_subset) auto
  have c: "cs = map (part_desc C) (map2 context_part (ag_contexts a) ?cts)"
    "\<forall>y \<in> ?S \<union> set ?cts. has_blob T s2 (cd_digest C y) y"
    using each_context [OF _ st(2) S(2)] cts i1 by auto
  have a: "as = map (part_desc C) (map2 add_part (ag_adds a) ?ads)"
    "\<forall>y \<in> ?S \<union> set ?cts \<union> set ?ads. has_blob T s3 (cd_digest C y) y"
    using each_add [OF _ st(3) c(2)] ads i2 by auto
  have layers: "ss @ cs @ as = map (part_desc C) (artifact_parts source a ?cts ?ads)"
    using S(1) c(1) a(1) by (simp add: artifact_parts_def)
  have blobs: "artifact_blobs source art = insert (art_data art) (insert (art_config art) (?S \<union> set ?cts \<union> set ?ads))"
    by (auto simp: artifact_blobs_def)
  show ?thesis
    using pack_stored [OF st(4) assms(3) cfg md [folded layers] a(2) inj [unfolded blobs]] unfolding blobs .
qed

end

section \<open>What survives the config blob\<close>

text \<open>\<^verbatim>\<open>encoding/json\<close> on an agentfile, by the struct tags of \<^verbatim>\<open>spec/types.go\<close>: mounts and
  the content of added files are not serialised, and a number in a CONFIG value comes
  back as a float64 (\<open>F\<close> is the conversion).\<close>

fun json_value :: "(int \<Rightarrow> f64) \<Rightarrow> config_value \<Rightarrow> config_value" where
  "json_value F (VInt i) = VFloat (F i)"
| "json_value F v = v"

definition json_config :: "(int \<Rightarrow> f64) \<Rightarrow> Config \<Rightarrow> Config" where
  "json_config F c = c\<lparr>cfg_value := map_option (json_value F) (cfg_value c)\<rparr>"

definition json_agent :: "(int \<Rightarrow> f64) \<Rightarrow> Agent \<Rightarrow> Agent" where
  "json_agent F a =
    a\<lparr>ag_configs := map (json_config F) (ag_configs a),
      ag_adds := map (\<lambda>x. x\<lparr>add_content := []\<rparr>) (ag_adds a), ag_mounts := []\<rparr>"

definition json_image :: "(int \<Rightarrow> f64) \<Rightarrow> Agentfile \<Rightarrow> Agentfile" where
  "json_image F af = af\<lparr>af_agent := map_option (json_agent F) (af_agent af)\<rparr>"


section \<open>Hydration\<close>

lemma media_distinct [simp]:
  "AgentfileMediaType \<noteq> ContextLayerMediaType" "AgentfileMediaType \<noteq> OctetStream"
  "OctetStream \<noteq> ContextLayerMediaType" "ContextLayerMediaType \<noteq> OctetStream"
  by (simp_all add: AgentfileMediaType_def ContextLayerMediaType_def OctetStream_def)

lemma title_blob_desc [simp]: "title (blob_desc C m x (titled t)) = t" "dc_media (blob_desc C m x an) = m"
  by (simp_all add: title_def blob_desc_def titled_def annot_def map_at_def)

lemma TrimSuffix_md [simp]: "TrimSuffix (n @ ''.md'') ''.md'' = n"
  by (simp add: TrimSuffix_def HasSuffix_def)

lemma hydrate_source:
  "fetch (part_desc C p) = Inr (part_data p) \<Longrightarrow> p \<in> set (source_part source) \<Longrightarrow>
     hydrate_layer fetch (part_desc C p) maps = maps"
  by (auto simp: source_part_def hydrate_layer_def split: if_splits)

lemma hydrate_context_part:
  "fetch (part_desc C (context_part c ct)) = Inr ct \<Longrightarrow>
     hydrate_layer fetch (part_desc C (context_part c ct)) maps = (fmupd (ctx_name c) ct (fst maps), snd maps)"
  by (auto simp: context_part_def hydrate_layer_def)

lemma hydrate_add_part:
  "fetch (part_desc C (add_part a x)) = Inr x \<Longrightarrow> add_name a \<noteq> [] \<Longrightarrow>
     hydrate_layer fetch (part_desc C (add_part a x)) maps = (fst maps, fmupd (add_name a) x (snd maps))"
  by (auto simp: add_part_def hydrate_layer_def)

definition upd_zip :: "('x \<Rightarrow> 'k) \<Rightarrow> ('x \<times> 'v) list \<Rightarrow> ('k, 'v) gomap \<Rightarrow> ('k, 'v) gomap" where
  "upd_zip f = fold (\<lambda>(x, y). fmupd (f x) y)"

lemma upd_zip_other: "k \<notin> f ` fst ` set xys \<Longrightarrow> fmlookup (upd_zip f xys m) k = fmlookup m k"
  by (induction xys arbitrary: m) (auto simp: upd_zip_def)

lemma upd_zip_lookup:
  "distinct (map (f \<circ> fst) xys) \<Longrightarrow> (x, y) \<in> set xys \<Longrightarrow> fmlookup (upd_zip f xys m) (f x) = Some y"
proof (induction xys arbitrary: m)
  case (Cons p xys)
  obtain u v where p: "p = (u, v)" by (cases p)
  show ?case
  proof (cases "(x, y) = p")
    case True
    then have "f x \<notin> f ` fst ` set xys" using Cons.prems(1) p by (auto simp: image_image)
    then show ?thesis using True upd_zip_other [of "f x" f xys "fmupd (f x) y m"] by (simp add: upd_zip_def p)
  next
    case False
    then have "(x, y) \<in> set xys" using Cons.prems(2) by simp
    then show ?thesis using Cons.IH [of "fmupd (f u) v m"] Cons.prems(1) by (simp add: upd_zip_def p)
  qed
qed simp

lemma hydrate_contexts:
  "length cs = length cts \<Longrightarrow> \<forall>p \<in> set (map2 context_part cs cts). fetch (part_desc C p) = Inr (part_data p) \<Longrightarrow>
     fold (hydrate_layer fetch) (map (part_desc C) (map2 context_part cs cts)) maps =
       (upd_zip ctx_name (zip cs cts) (fst maps), snd maps)"
proof (induction cs cts arbitrary: maps rule: list_induct2)
  case (Cons c cs ct cts)
  have "fetch (part_desc C (context_part c ct)) = Inr ct" using Cons.prems by (simp add: context_part_def)
  then show ?case using Cons hydrate_context_part [of fetch C c ct maps] by (simp add: upd_zip_def)
qed (simp add: upd_zip_def)

lemma hydrate_adds:
  "length as = length xs \<Longrightarrow> \<forall>a \<in> set as. add_name a \<noteq> [] \<Longrightarrow>
     \<forall>p \<in> set (map2 add_part as xs). fetch (part_desc C p) = Inr (part_data p) \<Longrightarrow>
     fold (hydrate_layer fetch) (map (part_desc C) (map2 add_part as xs)) maps =
       (fst maps, upd_zip add_name (zip as xs) (snd maps))"
proof (induction as xs arbitrary: maps rule: list_induct2)
  case (Cons a as x xs)
  have "fetch (part_desc C (add_part a x)) = Inr x" using Cons.prems by (simp add: add_part_def)
  then show ?case using Cons hydrate_add_part [of fetch C a x maps] by (simp add: upd_zip_def)
qed (simp add: upd_zip_def)

lemma hydrate_parts:
  assumes "\<forall>p \<in> set (artifact_parts source a cts ads). fetch (part_desc C p) = Inr (part_data p)"
    and "length (ag_contexts a) = length cts" "length (ag_adds a) = length ads"
    and "\<forall>x \<in> set (ag_adds a). add_name x \<noteq> []"
  shows "fold (hydrate_layer fetch) (map (part_desc C) (artifact_parts source a cts ads)) (fmempty, fmempty) =
    (upd_zip ctx_name (zip (ag_contexts a) cts) fmempty, upd_zip add_name (zip (ag_adds a) ads) fmempty)"
proof -
  have "fold (hydrate_layer fetch) (map (part_desc C) (source_part source)) m = m" for m
    using assms(1) hydrate_source [of fetch C "hd (source_part source)" source m]
    by (cases "source = []") (simp_all add: artifact_parts_def source_part_def)
  then show ?thesis
    using assms hydrate_contexts [OF assms(2), of fetch C] hydrate_adds [OF assms(3,4), of fetch C]
    by (simp add: artifact_parts_def)
qed

lemma hydrate_context_zip:
  assumes "distinct (map ctx_name cs)" "list_all2 (\<lambda>c ct. resolveContextContent c src = Inr ct) cs cts"
  shows "map ctx_content (map (hydrate_context (upd_zip ctx_name (zip cs cts) fmempty)) cs) = cts"
proof (rule nth_equalityI)
  have len: "length cs = length cts" using assms(2) by (rule list_all2_lengthD)
  then show "length (map ctx_content (map (hydrate_context (upd_zip ctx_name (zip cs cts) fmempty)) cs)) = length cts" by simp
  fix i assume "i < length (map ctx_content (map (hydrate_context (upd_zip ctx_name (zip cs cts) fmempty)) cs))"
  then have i: "i < length cs" by simp
  have "(cs ! i, cts ! i) \<in> set (zip cs cts)" using i len by (auto simp: in_set_zip)
  moreover have "map (ctx_name \<circ> fst) (zip cs cts) = map ctx_name cs" using len
    by (metis map_fst_zip map_map)
  ultimately have "fmlookup (upd_zip ctx_name (zip cs cts) fmempty) (ctx_name (cs ! i)) = Some (cts ! i)"
    using upd_zip_lookup [of ctx_name "zip cs cts" "cs ! i" "cts ! i"] assms(1) by simp
  moreover have "ctx_content (cs ! i) \<noteq> [] \<Longrightarrow> ctx_content (cs ! i) = cts ! i"
    using list_all2_nthD [OF assms(2) i] by (simp add: resolveContextContent_def)
  ultimately show "map ctx_content (map (hydrate_context (upd_zip ctx_name (zip cs cts) fmempty)) cs) ! i = cts ! i"
    using i by (simp add: hydrate_context_def)
qed

lemma hydrate_add_zip:
  assumes "distinct (map add_name as)" "length as = length xs"
  shows "map (hydrate_add (upd_zip add_name (zip as xs) fmempty)) (map (\<lambda>x. x\<lparr>add_content := []\<rparr>) as) =
    map2 (\<lambda>a x. a\<lparr>add_content := x\<rparr>) as xs"
proof (rule nth_equalityI)
  show "length (map (hydrate_add (upd_zip add_name (zip as xs) fmempty)) (map (\<lambda>x. x\<lparr>add_content := []\<rparr>) as)) =
      length (map2 (\<lambda>a x. a\<lparr>add_content := x\<rparr>) as xs)" using assms(2) by simp
  fix i assume "i < length (map (hydrate_add (upd_zip add_name (zip as xs) fmempty)) (map (\<lambda>x. x\<lparr>add_content := []\<rparr>) as))"
  then have i: "i < length as" by simp
  have "(as ! i, xs ! i) \<in> set (zip as xs)" using i assms(2) by (auto simp: in_set_zip)
  moreover have "map (add_name \<circ> fst) (zip as xs) = map add_name as" using assms(2)
    by (metis map_fst_zip map_map)
  ultimately have "fmlookup (upd_zip add_name (zip as xs) fmempty) (add_name (as ! i)) = Some (xs ! i)"
    using upd_zip_lookup [of add_name "zip as xs" "as ! i" "xs ! i"] assms(1) by simp
  then show "map (hydrate_add (upd_zip add_name (zip as xs) fmempty)) (map (\<lambda>x. x\<lparr>add_content := []\<rparr>) as) ! i =
      map2 (\<lambda>a x. a\<lparr>add_content := x\<rparr>) as xs ! i"
    using i assms(2) by (simp add: hydrate_add_def)
qed

lemma those_list_all2: "those (map f xs) = Some ys \<Longrightarrow> list_all2 (\<lambda>x y. f x = Some y) xs ys"
  by (induction xs arbitrary: ys) (auto split: option.splits)

section \<open>Built artifacts load\<close>

lemma artifact_of_Some:
  assumes "artifact_of C now af source src = Some art" "af_agent af = Some a"
  shows "list_all2 (\<lambda>c ct. resolveContextContent c src = Inr ct) (ag_contexts a) (art_contexts art)"
    and "length (ag_adds a) = length (art_adds art)"
    and "mf_layers (art_manifest art) = map (part_desc C) (artifact_parts source a (art_contexts art) (art_adds art))"
    and "dc_digest (mf_config (art_manifest art)) = cd_digest C (art_config art)"
proof -
  have *: "those (map (\<lambda>c. ok_opt (resolveContextContent c src)) (ag_contexts a)) = Some (art_contexts art)"
    "those (map (\<lambda>x. ok_opt (add_data x src)) (ag_adds a)) = Some (art_adds art)"
    and m: "art_manifest art = agent_manifest now a (blob_desc C AgentConfigLayerMediatype (art_config art) fmempty)
       (map (part_desc C) (artifact_parts source a (art_contexts art) (art_adds art)))"
    using assms by (auto simp: artifact_of_def Let_def bind_eq_Some_conv)
  show "list_all2 (\<lambda>c ct. resolveContextContent c src = Inr ct) (ag_contexts a) (art_contexts art)"
    using those_list_all2 [OF *(1)] by simp
  show "length (ag_adds a) = length (art_adds art)"
    using those_list_all2 [OF *(2)] by (rule list_all2_lengthD)
  show "mf_layers (art_manifest art) = map (part_desc C) (artifact_parts source a (art_contexts art) (art_adds art))"
    "dc_digest (mf_config (art_manifest art)) = cd_digest C (art_config art)"
    by (simp_all add: m agent_manifest_def blob_desc_def)
qed

lemma artifact_part_blobs:
  assumes "p \<in> set (artifact_parts source a (art_contexts art) (art_adds art))"
  shows "part_data p \<in> artifact_blobs source art"
  using assms
  by (auto simp: artifact_parts_def artifact_blobs_def source_part_def context_part_def add_part_def
      dest: set_zip_rightD split: if_splits)

lemma part_desc_digest_cong:
  "cd_digest C = cd_digest D \<Longrightarrow> part_desc C = part_desc D" "cd_digest C = cd_digest D \<Longrightarrow> blob_desc C = blob_desc D"
  by (auto simp: blob_desc_def fun_eq_iff)

lemma part_desc_digest [simp]: "dc_digest (part_desc C p) = cd_digest C (part_data p)"
  by (cases p) (simp add: blob_desc_def)

context oras_target
begin

lemma build_then_load:
  assumes b: "Build C T now af source src s = (Inr r, s')" and a: "af_agent af = Some a" "ag_name a \<noteq> []"
    and names: "distinct (map ctx_name (ag_contexts a))" "distinct (map add_name (ag_adds a))"
      "\<forall>x \<in> set (ag_adds a). add_name x \<noteq> []"
    and art: "artifact_of C now af source src = Some art"
    and inj: "inj_on (cd_digest C) (artifact_blobs source art)"
    and json: "cd_dec_manifest C (art_data art) = Inr (art_manifest art)"
      "cd_dec_agentfile C (art_config art) = Inr (json_image F af)"
  shows "Load C T (rwd_reference r) s' = (Inr (art_manifest art, json_image F af), s') \<and>
    (\<exists>cs. map ctx_content cs = art_contexts art \<and> map ctx_name cs = map ctx_name (ag_contexts a) \<and>
       LoadHydrated C T (rwd_reference r) s' =
         (Inr (af\<lparr>af_agent := Some ((json_agent F a)\<lparr>ag_contexts := cs,
            ag_adds := map2 (\<lambda>x d. x\<lparr>add_content := d\<rparr>) (ag_adds a) (art_adds art)\<rparr>)\<rparr>), s'))"
proof -
  note A = artifact_of_Some [OF art a(1)]
  let ?parts = "artifact_parts source a (art_contexts art) (art_adds art)"
  let ?md = "blob_desc C MediaTypeImageManifest (art_data art) fmempty"
  obtain s5 where tag: "tg_Tag T ?md (ag_name a @ '':latest'') s5 = (None, s')"
    and st: "\<forall>y \<in> artifact_blobs source art. has_blob T s5 (cd_digest C y) y"
    and r: "rwd_reference r = \<lparr>ref_name = ag_name a, ref_tag = DefaultTag\<rparr>"
    using Build_stored [OF b a art inj] by auto
  have tag': "tg_Tag T ?md (ref_String (rwd_reference r)) s5 = (None, s')"
    using tag by (simp add: r ref_String_def DefaultTag_def)
  have blobs: "has_blob T s5 (dc_digest ?md) (art_data art)"
    "has_blob T s5 (dc_digest (mf_config (art_manifest art))) (art_config art)"
    using st by (simp_all add: A(4) artifact_blobs_def)
  have fetch: "\<forall>p \<in> set ?parts. tg_Fetch T (part_desc C p) s5 = Inr (part_data p)"
    using st artifact_part_blobs by (fastforce simp: has_blob_def)
  have img: "af_agent (json_image F af) = Some (json_agent F a)" by (simp add: json_image_def a(1))
  have len: "length (ag_contexts a) = length (art_contexts art)" using A(1) by (rule list_all2_lengthD)
  have hyd: "hydrate_agent (\<lambda>d. tg_Fetch T d s5) (mf_layers (art_manifest art)) (json_agent F a) =
      (json_agent F a)\<lparr>ag_contexts := map (hydrate_context (upd_zip ctx_name (zip (ag_contexts a) (art_contexts art)) fmempty)) (ag_contexts a),
        ag_adds := map2 (\<lambda>x d. x\<lparr>add_content := d\<rparr>) (ag_adds a) (art_adds art)\<rparr>"
    using hydrate_parts [OF fetch len A(2) names(3)] hydrate_add_zip [OF names(2) A(2)]
    by (simp add: hydrate_agent_def A(3) json_agent_def)
  have nm: "map ctx_name (map (hydrate_context m) (ag_contexts a)) = map ctx_name (ag_contexts a)" for m
    by (auto simp: hydrate_context_def split: option.splits)
  have lh: "LoadHydrated C T (rwd_reference r) s' =
      (Inr (af\<lparr>af_agent := Some (hydrate_agent (\<lambda>d. tg_Fetch T d s5) (mf_layers (art_manifest art)) (json_agent F a))\<rparr>), s')"
    using load_hydrated_tagged [OF tag' blobs(1) json(1) blobs(2) json(2) img] by (simp add: json_image_def)
  show ?thesis
    by (intro conjI exI) (rule load_tagged [OF tag' blobs(1) json(1) blobs(2) json(2)],
      rule hydrate_context_zip [OF names(1) A(1)], rule nm, rule lh [unfolded hyd])
qed

end

section \<open>Properties\<close>

text \<open>C4: what Build puts into the docker image store, LoadHydrated gets back.  After a
  successful Build of a named agent whose context and ADD names are distinct, loading the
  returned reference gives the manifest that was built and the agentfile as it survives
  its JSON config; hydrated, every context carries the content the build resolved (inline
  or read from the source tree) and every ADD the bytes the build read, so that a child
  build needs no access to the parent's files.  CONFIG numbers come back as floats and
  mounts are dropped.  (The blobs of the artifact have different digests; manifest and
  config are decoded to what was encoded, up to the JSON image.)\<close>

theorem build_load_roundtrip:
  assumes "Build C (docker_target C cli) now af source src s = (Inr r, s')"
    and "af_agent af = Some a" "ag_name a \<noteq> []"
    and "distinct (map ctx_name (ag_contexts a))" "distinct (map add_name (ag_adds a))"
      "\<forall>x \<in> set (ag_adds a). add_name x \<noteq> []"
    and "artifact_of C now af source src = Some art"
    and "inj_on (cd_digest C) (artifact_blobs source art)"
    and "cd_dec_manifest C (art_data art) = Inr (art_manifest art)"
      "cd_dec_agentfile C (art_config art) = Inr (json_image F af)"
  shows "Load C (docker_target C cli) (rwd_reference r) s' = (Inr (art_manifest art, json_image F af), s') \<and>
    (\<exists>cs. map ctx_content cs = art_contexts art \<and> map ctx_name cs = map ctx_name (ag_contexts a) \<and>
       LoadHydrated C (docker_target C cli) (rwd_reference r) s' =
         (Inr (af\<lparr>af_agent := Some ((json_agent F a)\<lparr>ag_contexts := cs,
            ag_adds := map2 (\<lambda>x d. x\<lparr>add_content := d\<rparr>) (ag_adds a) (art_adds art)\<rparr>)\<rparr>), s'))"
  by (rule docker.build_then_load [OF assms])

definition built_agent :: Agent where
  "built_agent = newAgent\<lparr>ag_from := ''scratch'', ag_name := ''bot'',
     ag_contexts := [\<lparr>ctx_name = ''SOUL'', ctx_description = [], ctx_content = [], ctx_file = ''soul.md''\<rparr>],
     ag_adds := [\<lparr>add_src = ''d.csv'', add_name = ''d.csv'', add_description = [], add_content = []\<rparr>]\<rparr>"

definition built_file :: Agentfile where
  "built_file = \<lparr>af_syntax = DefaultSyntax, af_agent = Some built_agent\<rparr>"

definition built_src :: srcfs where
  "built_src = Some (\<lambda>p. if p = ''soul.md'' then Inr ''k'' else Inr ''1'')"

text \<open>A codec for one agentfile and its manifest, with the identity as digest.\<close>

definition built_codec :: codec where
  "built_codec = demo_codec\<lparr>cd_enc_agentfile := (\<lambda>_. Inr ''c''), cd_dec_agentfile := (\<lambda>_. Inr (json_image (\<lambda>_. 0) built_file)),
     cd_enc_manifest := (\<lambda>_. Inr ''m''), cd_enc_index := (\<lambda>_. Inr ''ix''),
     cd_digest := (\<lambda>x. x)\<rparr>"

definition built_art :: artifact where
  "built_art = \<lparr>art_contexts = [''k''], art_adds = [''1''], art_config = ''c'',
     art_manifest = agent_manifest ''now'' built_agent (blob_desc built_codec AgentConfigLayerMediatype ''c'' fmempty)
        (map (part_desc built_codec) (artifact_parts ''F'' built_agent [''k''] [''1''])),
     art_data = ''m''\<rparr>"

definition built_client :: "unit client" where
  "built_client =
    \<lparr>cl_ImageList = (\<lambda>_. Inr []), cl_ImageSave = (\<lambda>_ _. Inl ErrNotFound), cl_ImageLoad = (\<lambda>_ d. (None, d)),
     cl_order = (\<lambda>_. [])\<rparr>"

definition built_codec2 :: codec where
  "built_codec2 = built_codec\<lparr>cd_dec_manifest := (\<lambda>_. Inr (art_manifest built_art))\<rparr>"

theorem build_load_roundtrip_witness:
  "\<exists>r s' af' a'. Build built_codec2 (docker_target built_codec2 built_client) ''now'' built_file ''F'' built_src
       (NewStore ()) = (Inr r, s') \<and>
     LoadHydrated built_codec2 (docker_target built_codec2 built_client) (rwd_reference r) s' = (Inr af', s') \<and>
     af_agent af' = Some a' \<and> map ctx_content (ag_contexts a') = [''k''] \<and>
     map add_content (ag_adds a') = [''1'']"
proof -
  let ?T = "docker_target built_codec2 built_client"
  have "is_ok (fst (Build built_codec2 ?T ''now'' built_file ''F'' built_src (NewStore ())))"
    by code_simp
  then obtain r s' where b: "Build built_codec2 ?T ''now'' built_file ''F'' built_src (NewStore ()) = (Inr r, s')"
    by (cases "Build built_codec2 ?T ''now'' built_file ''F'' built_src (NewStore ())")
      (auto simp: is_ok_def split: sum.splits)
  have art: "artifact_of built_codec2 ''now'' built_file ''F'' built_src = Some built_art"
  proof -
    have dig: "cd_digest built_codec2 = cd_digest built_codec" by (simp add: built_codec2_def)
    have enc: "cd_enc_agentfile built_codec2 x = Inr ''c''" "cd_enc_manifest built_codec2 y = Inr ''m''" for x y
      by (simp_all add: built_codec2_def built_codec_def)
    have "those (map (\<lambda>c. ok_opt (resolveContextContent c built_src)) (ag_contexts built_agent)) = Some [''k'']"
      "those (map (\<lambda>x. ok_opt (add_data x built_src)) (ag_adds built_agent)) = Some [''1'']"
      by (simp_all add: built_agent_def resolveContextContent_def add_data_def built_src_def ok_opt_def)
    then show ?thesis
      by (simp add: artifact_of_def built_file_def enc ok_opt_def Let_def built_art_def
          part_desc_digest_cong [OF dig])
  qed
  have "Load built_codec2 ?T (rwd_reference r) s' = (Inr (art_manifest built_art, json_image (\<lambda>_. 0) built_file), s') \<and>
    (\<exists>cs. map ctx_content cs = art_contexts built_art \<and> map ctx_name cs = map ctx_name (ag_contexts built_agent) \<and>
       LoadHydrated built_codec2 ?T (rwd_reference r) s' =
         (Inr (built_file\<lparr>af_agent := Some ((json_agent (\<lambda>_. 0) built_agent)\<lparr>ag_contexts := cs,
            ag_adds := map2 (\<lambda>x d. x\<lparr>add_content := d\<rparr>) (ag_adds built_agent) (art_adds built_art)\<rparr>)\<rparr>), s'))"
  proof (rule build_load_roundtrip [OF b _ _ _ _ _ art])
    show "inj_on (cd_digest built_codec2) (artifact_blobs ''F'' built_art)"
      by (simp add: built_codec2_def built_codec_def inj_on_def)
  qed (simp_all add: built_file_def built_agent_def built_codec2_def built_codec_def built_art_def)
  then show ?thesis using b by (auto simp: built_art_def built_agent_def)
qed

end
