(* ===== verification/Agent_Md.thy ===== *)
theory Agent_Md
  imports Paths
begin

text \<open>
  The generated identity card, \<^verbatim>\<open>spec/agentmd.go\<close>: the text of AGENT.md, section by
  section, byte for byte.  The model sees the Binaries section as the list of
  the tools it may call; reading
  its entries back gives exactly the declared binaries.
\<close>


section \<open>Bytes outside the literals\<close>

definition nl :: string where
  "nl = [CHR 0x0A]"

definition em_dash :: string where
  "em_dash = [CHR 0xE2, CHR 0x80, CHR 0x94]"

definition ellipsis :: string where
  "ellipsis = [CHR 0xE2, CHR 0x80, CHR 0xA6]"

definition dquote :: string where
  "dquote = [CHR 0x22]"

definition squote :: string where
  "squote = [CHR 0x27]"


section \<open>Sections\<close>

definition or_dash :: "string \<Rightarrow> string" where
  "or_dash d = (if d = [] then ''-'' else d)"

definition capsContain :: "Capability list \<Rightarrow> string \<Rightarrow> bool" where
  "capsContain caps name \<longleftrightarrow> (\<exists>c \<in> set caps. cap_name c = name)"

definition writeCapabilitiesSection :: "Capability list \<Rightarrow> string" where
  "writeCapabilitiesSection caps =
    (if caps = [] then [] else
      (''## Capabilities'' @ nl @ nl) @
      ''These tool functions are **callable** by you. '' @
      ''Each is registered by the runtime itself (not by an Agentfile BIN directive). '' @
      (''Treat the list as ground truth: a name here is callable, a name absent is not.'' @ nl @ nl) @
      concat (map (\<lambda>c. ''- **`'' @ cap_name c @ (''`** '' @ em_dash @ '' '') @ or_dash (cap_description c) @ nl) caps) @
      nl @
      (''If a request needs a capability *not* in this list, say so plainly and stop '' @ em_dash @ '' '') @
      ''the same rule as for missing binaries. Do not assume something is missing without '' @
      (''checking this list first.'' @ nl @ nl))"

definition memory_text :: string where
  "memory_text =
      (''## Memory '' @ em_dash @ '' when to save, when to read'' @ nl @ nl) @
      ''The `note_*` capabilities above are your **durable memory across sessions**. '' @
      (''Chat history is compacted and eventually drops old facts; notes don'' @ squote @ ''t. '') @
      (''Use them like this:'' @ nl @ nl) @
      (''**Save** (`note_save`) whenever the user states a fact you'' @ squote @ ''ll want again:'' @ nl) @
      (''- cluster / project / environment names'' @ nl) @
      (''- paths the user prefers (`/kubeconfig.yaml`, `~/.config/foo`)'' @ nl) @
      (''- conventions the user expects you to follow (units, output format, naming)'' @ nl) @
      (''- credentials *locations* (never the values '' @ em_dash @ '' env-var name only)'' @ nl @ nl) @
      (''**Pin** (`note_pin`) a saved note when you'' @ squote @ ''ll reference it on every step '') @
      (''of the current task '' @ em_dash @ '' a target cluster, an active project, a deployment '') @
      ''invariant. Pinned notes flow into your system prompt as full-content blocks '' @
      (''on every step, so you don'' @ squote @ ''t burn tool calls re-reading them. '') @
      (''**Unpin** (`note_unpin`) when that task is done '' @ em_dash @ '' keep the pinned set tight.'' @ nl @ nl) @
      ''**Start complex tasks with `note_list`.** Before asking the user a question '' @
      ''you might already have the answer to, scan the note list. '' @
      (''`note_show <key>` returns the full body when a preview isn'' @ squote @ ''t enough.'' @ nl @ nl) @
      (''**Don'' @ squote @ ''t save:** one-off context (this turn'' @ squote @ ''s question), transient state '') @
      ''(a running job ID), or anything the user has explicitly retracted. '' @
      (''`note_delete <key>` when a fact stops being true.'' @ nl @ nl)"

definition writeMemoryDisciplineSection :: "Capability list \<Rightarrow> string" where
  "writeMemoryDisciplineSection caps = (if capsContain caps ''note_save'' then memory_text else [])"

definition writeBinaryCallingConvention :: string where
  "writeBinaryCallingConvention =
      (''### How to call a binary'' @ nl @ nl) @
      ''Each invocation is a JSON object with two optional fields. '' @
      (''At least one must be present.'' @ nl @ nl) @
      (''- **`args`** '' @ em_dash @ '' array of strings, forwarded as argv. '') @
      (''Must be a real JSON array, never a JSON-encoded string.'' @ nl) @
      (''- **`stdin`** '' @ em_dash @ '' string piped to the binary'' @ squote @ ''s standard input.'' @ nl @ nl) @
      (''Correct:   `{'' @ dquote @ ''args'' @ dquote @ '': ['' @ dquote @ ''-c'' @ dquote @ '', '' @ dquote @ ''echo hi'' @ dquote @ '']}`'' @ nl @ nl) @
      (''Incorrect: `{'' @ dquote @ ''args'' @ dquote @ '': '' @ dquote @ ''['' @ [CHR 0x5C] @ dquote @ ''-c'' @ [CHR 0x5C] @ dquote @ '','' @ [CHR 0x5C] @ dquote @ ''echo hi'' @ [CHR 0x5C] @ dquote @ '']'' @ dquote @ ''}` '') @
      (em_dash @ '' `args` is a stringified array; the call is rejected with `invalid parameters`.'' @ nl @ nl)"

definition no_bins_text :: string where
  "no_bins_text =
      ''This agent has **no BIN tools available**. '' @
      ''You cannot execute shell commands, scripts, or any external binaries. '' @
      ''If a request requires running a tool, tell the operator that no tool is wired up '' @
      (''instead of guessing or pretending to run one.'' @ nl @ nl)"

definition bins_intro :: string where
  "bins_intro =
      ''**These are the ONLY binaries you may invoke.** '' @
      ''There is no shell, no PATH lookup beyond this list, and no implicit Unix utilities '' @
      (''(`ls`, `cat`, `grep`, `awk`, `sed`, `find`, `cp`, `mv`, `rm`, '' @ ellipsis @ '') unless they appear below. '') @
      (''Do not assume any command exists just because it'' @ squote @ ''s common '' @ em_dash @ '' '') @
      (''every tool you can call is in this list and nowhere else.'' @ nl @ nl)"

definition bins_outro :: string where
  "bins_outro =
      (''If you need a capability that isn'' @ squote @ ''t covered by the binaries above, '') @
      (''**say so plainly** '' @ em_dash @ '' tell the operator which tool would be needed and stop. '') @
      ''Do not invent a tool call, fabricate output, or substitute a tool from the list '' @
      (''for one that isn'' @ squote @ ''t there.'' @ nl @ nl)"

definition bin_lines :: "Bin \<Rightarrow> string" where
  "bin_lines t =
    ''- **'' @ bin_name t @ ''**'' @
    (if bin_description t = [] then [] else ('' '' @ em_dash @ '' '') @ bin_description t) @ nl @
    (if bin_usage t = [] then []
     else concat (map (\<lambda>line. ''  '' @ line @ nl) (split_on (CHR 0x0A) (bin_usage t))))"

definition writeBinariesSection :: "Bin list \<Rightarrow> string" where
  "writeBinariesSection bins =
    (''## Binaries'' @ nl @ nl) @
    (if bins = [] then no_bins_text
     else bins_intro @ concat (map bin_lines bins) @ nl @ writeBinaryCallingConvention @ bins_outro)"

definition md_identity :: "string \<Rightarrow> string" where
  "md_identity ident =
    (if ident = [] then []
     else (''## Identity'' @ nl @ nl) @
       ''Your agent id is `'' @ ident @ ''`. Pass this string when a tool asks for your '' @
       (''own ref (for example, `agent_create({'' @ dquote @ ''links'' @ dquote @ '':['' @ dquote) @ ident @ (dquote @ '']})` to spawn a '') @
       (''child you can call back).'' @ nl @ nl))"

definition md_adds :: "Add list \<Rightarrow> string" where
  "md_adds adds =
    (if adds = [] then []
     else (''## Data Files'' @ nl @ nl) @ (''| File | Description |'' @ nl) @ (''|------|-------------|'' @ nl) @
       concat (map (\<lambda>a. ''| '' @ add_name a @ '' | '' @ or_dash (add_description a) @ ('' |'' @ nl)) adds) @ nl)"

definition md_envs :: "Env list \<Rightarrow> string" where
  "md_envs envs =
    (if envs = [] then []
     else (''## Environment'' @ nl @ nl) @ (''| Key | Value | Description |'' @ nl) @ (''|-----|-------|-------------|'' @ nl) @
       concat (map (\<lambda>e. ''| `'' @ env_key e @ ''` | `'' @ env_value e @ ''` | '' @
                          or_dash (env_description e) @ ('' |'' @ nl)) envs) @ nl)"

definition md_filesystem :: string where
  "md_filesystem =
    (''## Filesystem'' @ nl @ nl) @ (''| Path | Access |'' @ nl) @ (''|------|--------|'' @ nl) @
    (''| workspace/ | read-write |'' @ nl) @ (''| tmp/ | read-write |'' @ nl) @ (''| var/lib/ | read-write |'' @ nl)"

definition agent_md :: "Agent \<Rightarrow> string \<Rightarrow> Capability list \<Rightarrow> string" where
  "agent_md a ident caps =
    ''# '' @ ag_name a @ nl @ nl @
    (case fmlookup (ag_labels a) ''description'' of Some desc \<Rightarrow> desc @ nl @ nl | None \<Rightarrow> []) @
    md_identity ident @
    writeBinariesSection (ag_bins a) @
    md_adds (ag_adds a) @
    md_envs (ag_envs a) @
    writeCapabilitiesSection caps @
    writeMemoryDisciplineSection caps @
    md_filesystem"

text \<open>A nil agent is dereferenced.\<close>

definition GenerateAgentMD :: "Agentfile \<Rightarrow> string \<Rightarrow> Capability list \<Rightarrow> (panic, string) res" where
  "GenerateAgentMD af ident caps =
    (case af_agent af of None \<Rightarrow> Inl NilDeref | Some a \<Rightarrow> Inr (agent_md a ident caps))"


section \<open>Reading the list of binaries back\<close>

text \<open>A reader of the section takes the lines that start a bold item whose name is not
  code-quoted, and takes the name up to the closing asterisks.\<close>

definition is_item :: "string \<Rightarrow> bool" where
  "is_item l \<longleftrightarrow> HasPrefix l ''- **'' \<and> \<not> HasPrefix l ''- **`''"

definition item_name :: "string \<Rightarrow> string" where
  "item_name l = takeWhile (\<lambda>c. c \<noteq> CHR ''*'') (drop 4 l)"

definition listed_bins :: "string \<Rightarrow> string list" where
  "listed_bins s = map item_name (filter is_item (split_on (CHR 0x0A) s))"

lemma listed_line: "CHR 0x0A \<notin> set l \<Longrightarrow>
    listed_bins (l @ nl @ s) = (if is_item l then [item_name l] else []) @ listed_bins s"
  by (simp add: listed_bins_def nl_def split_on_append)

lemma listed_usage:
  "\<forall>l \<in> set ls. CHR 0x0A \<notin> set l \<Longrightarrow> listed_bins (concat (map (\<lambda>line. ''  '' @ line @ nl) ls) @ s) = listed_bins s"
proof (induction ls)
  case (Cons l ls)
  have "\<not> is_item (''  '' @ l)" by (simp add: is_item_def HasPrefix_def)
  then show ?case using Cons listed_line [of "''  '' @ l"] by simp
qed simp

lemma path_safe_no_markup: "IsPathSafeName s \<Longrightarrow> c \<in> set s \<Longrightarrow> c \<noteq> CHR ''*'' \<and> c \<noteq> CHR ''`'' \<and> c \<noteq> CHR 0x0A"
  using path_safe_chars [of s c] by (auto simp: is_alnum_def is_upper_def is_lower_def is_digit_def less_eq_char_def)

lemma listed_bin:
  assumes "IsPathSafeName (bin_name t)" "CHR 0x0A \<notin> set (bin_description t)"
  shows "listed_bins (bin_lines t @ s) = bin_name t # listed_bins s"
proof -
  let ?h = "''- **'' @ bin_name t @ ''**'' @ (if bin_description t = [] then [] else '' '' @ em_dash @ '' '' @ bin_description t)"
  have safe: "c \<noteq> CHR ''*'' \<and> c \<noteq> CHR ''`'' \<and> c \<noteq> CHR 0x0A" if "c \<in> set (bin_name t)" for c
    using path_safe_no_markup [OF assms(1) that] .
  have "bin_name t \<noteq> []" using path_safe_plain [OF assms(1)] by (simp add: plain_elem_def)
  then have item: "is_item ?h" using safe by (cases "bin_name t") (auto simp: is_item_def HasPrefix_def)
  have name: "item_name ?h = bin_name t" using safe by (simp add: item_name_def takeWhile_append)
  have line: "CHR 0x0A \<notin> set ?h" using safe assms(2) by (auto simp: em_dash_def)
  have eq: "bin_lines t @ s = ?h @ nl @ (if bin_usage t = [] then []
     else concat (map (\<lambda>line. ''  '' @ line @ nl) (split_on (CHR 0x0A) (bin_usage t)))) @ s"
    by (simp add: bin_lines_def)
  show ?thesis unfolding eq listed_line [OF line] using item name listed_usage [of "split_on (CHR 0x0A) (bin_usage t)" s]
    by (auto dest: split_on_parts)
qed

lemma listed_bin_list:
  "\<forall>t \<in> set bins. IsPathSafeName (bin_name t) \<and> CHR 0x0A \<notin> set (bin_description t) \<Longrightarrow>
     listed_bins (concat (map bin_lines bins) @ s) = map bin_name bins @ listed_bins s"
  by (induction bins) (simp_all add: listed_bin)


end
