(* ===== verification/Workspace_Md.thy ===== *)
theory Workspace_Md
  imports Agent_Md Env
begin

text \<open>
  The context files the executor writes about the file system,
  \<^verbatim>\<open>executor/system/workspace.go\<close>: the text of WORKSPACE.md and MOUNTS.md, byte for
  byte, and the paths they advertise.  The property relates the advertised
  paths to the environment the agent is spawned with.
\<close>


section \<open>What is rendered\<close>

record ContextEntry =
  ce_name :: string
  ce_file :: string
  ce_description :: string

record ResolvedTool =
  tl_name :: string
  tl_description :: string
  tl_binary :: string
  tl_ref :: string
  tl_digest :: string
  tl_usage :: string

record WorkspaceView =
  wv_root :: string
  wv_workspace :: string
  wv_bindirs :: "string list"
  wv_runtime :: string
  wv_isolated :: bool

record workspaceContents =
  wc_context :: "ContextEntry list"
  wc_tools :: "ResolvedTool list"
  wc_adds :: "Add list"

record workspacePathSet =
  wp_context :: string
  wp_data :: string
  wp_workspace :: string
  wp_home :: string
  wp_tmp :: string
  wp_varlib :: string
  wp_mounts :: string
  wp_bins :: "string list"
  wp_runtime :: string

definition workspacePaths :: "WorkspaceView \<Rightarrow> workspacePathSet" where
  "workspacePaths view =
    (let root = wv_root view;
         cdir = JoinPath [root, ''etc'', ''context'']
     in \<lparr>wp_context = cdir,
         wp_data = JoinPath [root, ''etc'', ''data''],
         wp_workspace = (if wv_workspace view = [] then JoinPath [root, ''workspace''] else wv_workspace view),
         wp_home = JoinPath [root, ''home''],
         wp_tmp = JoinPath [root, ''tmp''],
         wp_varlib = JoinPath [root, ''var'', ''lib''],
         wp_mounts = JoinPath [cdir, ''MOUNTS.md''],
         wp_bins = (if wv_bindirs view = [] then [JoinPath [root, ''usr'', ''bin'']] else wv_bindirs view),
         wp_runtime = (if wv_runtime view = [] then JoinPath [root, ''usr'', ''local'', ''bin'', ''runtime'']
                       else wv_runtime view)\<rparr>)"


section \<open>WORKSPACE.md\<close>

definition writeTreeEntry :: "string \<Rightarrow> string \<Rightarrow> string" where
  "writeTreeEntry name description =
    (if description = [] then ''    - `'' @ name @ (''`'' @ nl)
     else ''    - `'' @ name @ (''` '' @ em_dash @ '' '') @ description @ nl)"

definition anyToolHasUsage :: "ResolvedTool list \<Rightarrow> bool" where
  "anyToolHasUsage tools \<longleftrightarrow> (\<exists>t \<in> set tools. tl_usage t \<noteq> [])"

definition layout_etc :: "workspacePathSet \<Rightarrow> string" where
  "layout_etc p =
    (let etcDir = path_Dir (wp_context p)
     in ''- `'' @ etcDir @ (''/Agentfile` '' @ em_dash @ '' the verbatim Agentfile the operator wrote; '') @
        (''`cat` it to see the original directives.'' @ nl) @
        ''- `'' @ etcDir @ (''/agent.yaml` '' @ em_dash @ '' the resolved runtime config (name, model, '') @
        (''tools, capabilities, env keys); `cat` it for the structured view.'' @ nl))"

definition layout_context :: "workspacePathSet \<Rightarrow> workspaceContents \<Rightarrow> string" where
  "layout_context p content =
    ''- `'' @ wp_context p @ (''/` '' @ em_dash @ '' your system-prompt context files:'' @ nl) @
    (if wc_context content = [] then
       (''    - (this file lives here, alongside AGENT.md and any MOUNTS.md)'' @ nl)
     else concat (map (\<lambda>c. writeTreeEntry (path_Base (ce_file c)) (ce_description c)) (wc_context content)))"

definition usage_entry :: "workspacePathSet \<Rightarrow> ResolvedTool \<Rightarrow> string" where
  "usage_entry p t =
    (if tl_usage t = [] then []
     else ''    - `'' @ TrimPrefix (tl_usage t) (wp_data p @ ''/'') @ (''` '' @ em_dash @ '' `'') @ tl_name t @
       ''` usage docs (already folded into the `'' @ tl_name t @ (''` tool description).'' @ nl))"

definition layout_data :: "workspacePathSet \<Rightarrow> workspaceContents \<Rightarrow> string" where
  "layout_data p content =
    ''- `'' @ wp_data p @ (''/` '' @ em_dash @ '' static files baked in via `ADD` directives + per-BIN usage docs:'' @ nl) @
    (if wc_adds content = [] \<and> \<not> anyToolHasUsage (wc_tools content) then (''    - (none)'' @ nl)
     else concat (map (\<lambda>a. writeTreeEntry (add_name a) (add_description a)) (wc_adds content)) @
          concat (map (usage_entry p) (wc_tools content)))"

definition layout_bins :: "workspacePathSet \<Rightarrow> workspaceContents \<Rightarrow> string" where
  "layout_bins p content =
    (case wp_bins p of
       [dir] \<Rightarrow>
         ''- `'' @ dir @ (''/` '' @ em_dash @ '' your BIN tools (the ONLY entry on $PATH):'' @ nl) @
         (if wc_tools content = [] then (''    - (none declared)'' @ nl)
          else concat (map (\<lambda>t. writeTreeEntry (tl_name t) (tl_description t)) (wc_tools content)))
     | dirs \<Rightarrow>
         (''- BIN tools '' @ em_dash @ '' one directory per BIN on $PATH:'' @ nl) @
         concat (map (\<lambda>dir. ''    - `'' @ dir @ (''/`'' @ nl)) dirs))"

definition writeLayout :: "workspacePathSet \<Rightarrow> workspaceContents \<Rightarrow> string" where
  "writeLayout p content =
    (''Layout (full file tree):'' @ nl @ nl) @
    layout_etc p @ layout_context p content @ layout_data p content @ layout_bins p content @
    ''- `'' @ wp_runtime p @ (''` '' @ em_dash @ '' the runtime you yourself are.'' @ nl) @
    ''- `'' @ wp_workspace p @ (''/` '' @ em_dash @ '' your default CWD; scratch space for session artefacts.'' @ nl) @
    ''- `'' @ wp_home p @ (''/` '' @ em_dash @ '' `$HOME` for tool subprocesses '') @
    (''(`~/.config`, `~/.cache`, `~/.local/share` live here).'' @ nl) @
    ''- `'' @ wp_tmp p @ (''/` '' @ em_dash @ '' `$TMPDIR`; short-lived files.'' @ nl) @
    ''- `'' @ wp_varlib p @ (''/` '' @ em_dash @ '' persistent state (the memory DB lives here).'' @ nl @ nl)"

definition writeRules :: "string \<Rightarrow> workspacePathSet \<Rightarrow> bool \<Rightarrow> string" where
  "writeRules root p isolated =
    (let etcAbs = (if root = ''/'' then ''/etc/'' else root @ ''/etc/'');
         usrAbs = (if root = ''/'' then ''/usr/'' else root @ ''/usr/'')
     in (''Working-directory rules:'' @ nl @ nl) @
        ''- Default CWD is `'' @ wp_workspace p @ (''/`; relative paths in tool args resolve there.'' @ nl) @
        ''- Prefer writing inside `'' @ wp_workspace p @ ''/`, `'' @ wp_tmp p @ ''/`, or `'' @ wp_home p @
        ''/`; treat `'' @ etcAbs @ ''` and `'' @ usrAbs @ (''` as read-only.'' @ nl) @
        ''- If `'' @ wp_mounts p @ (''` exists, those paths are user-mounted host directories '' @ em_dash @ '' '') @
        (''the only '' @ dquote @ ''outside'' @ dquote @ '' paths you should explore or modify.'' @ nl) @
        (if isolated then
           ''- The container isolates you from the host filesystem; paths like '' @
           (''`/Users/'' @ ellipsis @ ''`, `/home/'' @ ellipsis @ ''`, `/etc/passwd` are not visible inside, do not probe them.'' @ nl)
         else
           ''- Without a MOUNTS.md entry, do not probe arbitrary host paths '' @
           (''(`/Users/'' @ ellipsis @ ''`, `/home/'' @ ellipsis @ ''`, `/etc/passwd`) '' @ em_dash @ '' there is no sandbox enforcing this '') @
           (''today, treat the boundary as a discipline rule.'' @ nl)))"

definition intro_text :: "bool \<Rightarrow> string" where
  "intro_text isolated =
    (if isolated then
       ''You run inside an isolated container. '' @
       ''The openotters daemon bind-mounts a small FHS-style tree at the path below '' @
       ''and image-mounts the runtime + BIN tools read-only beside it. Your environment '' @
       ''is locked down (PATH points only at your BIN tool dirs, HOME / TMPDIR / XDG_* '' @
       ''live inside your tree) so tools that touch `~/.cache` or `~/.config` write '' @
       (''inside your container, not the user'' @ squote @ ''s real home.'' @ nl @ nl)
     else
       (''You run as a subprocess on the user'' @ squote @ ''s host machine. '') @
       ''The openotters daemon prepares a dedicated directory '' @
       ''for you with a small FHS-style layout. Your environment '' @
       ''is locked down (PATH points only at your own bin dir, '' @
       ''HOME / TMPDIR / XDG_* live inside this directory) so '' @
       ''tools that touch `~/.cache` or `~/.config` write inside '' @
       (''your tree, not the user'' @ squote @ ''s real home.'' @ nl @ nl))"

definition root_text :: "WorkspaceView \<Rightarrow> string" where
  "root_text view =
    (if wv_root view = [] then []
     else if wv_isolated view then
       (if wv_root view = ''/'' then
          ''Your filesystem is a standard Linux FHS rooted at `/`. '' @
          ''Each top-level subtree is bind-mounted from the host directly onto the '' @
          (''matching FHS path '' @ em_dash @ '' `/etc/context`, `/home`, `/tmp`, `/var/lib`, '') @
          ''`/workspace`. The host directory is invisible from inside; writes you '' @
          (''make under these paths show up on the host automatically.'' @ nl @ nl)
        else
          ''Your workspace inside the container: `'' @ wv_root view @ (''`'' @ nl @ nl) @
          ''**Every path below is the path you see from inside the container, not the host.** '' @
          ''Use these paths verbatim in tool calls; the host directory is bind-mounted '' @
          (''here so writes inside this tree show up on the host automatically.'' @ nl @ nl))
     else
       ''Your workspace on the host: `'' @ wv_root view @ (''`'' @ nl @ nl) @
       ''**There is no chroot.** Every path below is a real, absolute path on the host. '' @
       (''Use these paths verbatim in tool calls '' @ em_dash @ '' `/etc/context/...` and similar short '') @
       (''forms do not exist outside this directory tree.'' @ nl @ nl))"

definition workspaceContextMarkdownView :: "WorkspaceView \<Rightarrow> workspaceContents \<Rightarrow> bytes" where
  "workspaceContextMarkdownView view content =
    (''# Your workspace'' @ nl @ nl) @ intro_text (wv_isolated view) @ root_text view @
    writeLayout (workspacePaths view) content @
    writeRules (wv_root view) (workspacePaths view) (wv_isolated view)"

definition workspaceContextMarkdown :: "string \<Rightarrow> bytes" where
  "workspaceContextMarkdown root =
    workspaceContextMarkdownView
      \<lparr>wv_root = root, wv_workspace = [], wv_bindirs = [], wv_runtime = [], wv_isolated = False\<rparr>
      \<lparr>wc_context = [], wc_tools = [], wc_adds = []\<rparr>"


section \<open>MOUNTS.md\<close>

definition mount_line :: "Mount \<Rightarrow> string" where
  "mount_line m =
    ''- `'' @ mnt_target m @ ''`'' @
    (if mnt_readonly m then '' *(ro)*'' else []) @
    (if mnt_description m = [] then [] else ('' '' @ em_dash @ '' '') @ mnt_description m) @ nl"

definition mountsContextMarkdown :: "Mount list \<Rightarrow> bytes" where
  "mountsContextMarkdown mounts =
    (''# Host-mounted paths'' @ nl @ nl) @
    (''The following paths inside your workspace are backed by directories on the user'' @ squote @ ''s host machine. '') @
    ''Changes through writable mounts are visible to the host immediately. '' @
    (''Read-only mounts (`(ro)`) reject writes '' @ em_dash @ '' don'' @ squote @ ''t try, the operation will fail. '') @
    (''Do not assume any other top-level paths are mounted.'' @ nl @ nl) @
    concat (map mount_line mounts)"


section \<open>Advertised paths\<close>

lemma inside_extend:
  assumes "strictly_inside d p" "p \<noteq> []" "es \<noteq> []" "list_all plain_elem es"
  shows "strictly_inside d (JoinPath (p # es))"
proof -
  obtain xs where xs: "xs \<noteq> []" "list_all plain_elem xs" "elems p = elems d @ xs" "rooted p = rooted d"
    using assms(1) by (auto simp: strictly_inside_def)
  show ?thesis
    unfolding strictly_inside_def
    using xs JoinPath_plain [OF assms(2-4)] assms(4) by (intro conjI exI [of _ "xs @ es"]) simp_all
qed

lemma JoinPath_nonempty: "d \<noteq> [] \<Longrightarrow> JoinPath (d # es) \<noteq> []"
  by (simp add: JoinPath_def)

lemma plain_literals:
  "plain_elem ''etc''" "plain_elem ''context''" "plain_elem ''data''" "plain_elem ''workspace''" "plain_elem ''home''"
  "plain_elem ''tmp''" "plain_elem ''var''" "plain_elem ''lib''" "plain_elem ''usr''" "plain_elem ''local''" "plain_elem ''bin''"
  "plain_elem ''runtime''" "plain_elem ''MOUNTS.md''" "plain_elem ''opt''" "plain_elem ''bins''" "plain_elem ''USAGE.md''"
  "plain_elem ''AGENT.md''" "plain_elem ''WORKSPACE.md''" "plain_elem ''Agentfile''" "plain_elem ''agent.yaml''"
  "plain_elem ''.config''" "plain_elem ''.cache''" "plain_elem ''.local''" "plain_elem ''share''"
  by (simp_all add: plain_elem_def dotdot_def)


section \<open>Properties\<close>

text \<open>What WORKSPACE.md tells the model agrees with the environment its process gets.
  With the default view of a non-empty root and the environment the
  system executor builds for it, the advertised home and temporary directories
  are the values of HOME and TMPDIR, the advertised binary directories joined by colons
  are PATH, and every advertised directory of the agent lies strictly inside the root.\<close>

theorem layout_matches_env:
  assumes "root \<noteq> []"
  shows "let p = workspacePaths \<lparr>wv_root = root, wv_workspace = [], wv_bindirs = [], wv_runtime = [], wv_isolated = isolated\<rparr>;
             env = BuildLockedEnv \<lparr>eo_root = root, eo_bindirs = [JoinPath [root, ''usr'', ''bin'']], eo_url = url, eo_token = token\<rparr>
         in getenv env ''HOME'' = Some (wp_home p) \<and> getenv env ''TMPDIR'' = Some (wp_tmp p) \<and>
            getenv env ''PATH'' = Some (Join (wp_bins p) '':'') \<and>
            (\<forall>d \<in> {wp_context p, wp_data p, wp_workspace p, wp_home p, wp_tmp p, wp_varlib p, wp_runtime p, wp_mounts p} \<union> set (wp_bins p).
               strictly_inside root d)"
proof -
  have ins: "strictly_inside root (JoinPath (root # es))" if "es \<noteq> []" "list_all plain_elem es" for es
    using JoinPath_inside [OF assms that] .
  have "strictly_inside root (JoinPath [JoinPath [root, ''etc'', ''context''], ''MOUNTS.md''])"
    by (rule inside_extend) (simp_all add: ins plain_literals JoinPath_nonempty assms)
  then show ?thesis
    by (simp add: workspacePaths_def Let_def BuildLockedEnv_def getenv_Cons ins plain_literals)
qed

theorem layout_matches_env_witness:
  "getenv (BuildLockedEnv \<lparr>eo_root = ''/r'', eo_bindirs = [''/r/usr/bin''], eo_url = [], eo_token = []\<rparr>) ''HOME'' = Some ''/r/home'' \<and>
   strictly_inside ''/r'' ''/r/home''"
proof -
  have p: "wp_home (workspacePaths \<lparr>wv_root = ''/r'', wv_workspace = [], wv_bindirs = [], wv_runtime = [], wv_isolated = False\<rparr>) = ''/r/home''"
    "wp_bins (workspacePaths \<lparr>wv_root = ''/r'', wv_workspace = [], wv_bindirs = [], wv_runtime = [], wv_isolated = False\<rparr>) = [''/r/usr/bin'']"
    by code_simp+
  have q: "JoinPath [''/r'', ''usr'', ''bin''] = ''/r/usr/bin''" by code_simp
  show ?thesis using layout_matches_env [of "''/r''" False "[]" "[]"] by (simp add: p q Let_def)
qed

end
