(* ===== verification/Status.thy ===== *)
theory Status
  imports Prelude "HOL-Library.Word"
begin

text \<open>
  The status tracker of \<^verbatim>\<open>executor/status.go\<close>.  Every method takes the mutex, so
  a method is one atomic step on the tracker's state; the channels are kept
  in a store of their own, because a cancelled subscription leaves its closed
  channel (and what is buffered in it) with the subscriber.  A send on a
  closed channel panics in Go, so \<open>setLocked\<close> returns a sum; that it never
  panics is a theorem.  Subscription ids are 64-bit words that wrap around.
  The locale \<open>status_observer\<close> is the contract of \<^verbatim>\<open>executor.StatusObserver\<close> that
  \<^verbatim>\<open>WaitForStatus\<close> relies on, interpreted on the tracker.
\<close>


section \<open>Status and failure reasons\<close>

datatype Status = StatusPulling | StatusStarting | StatusReady | StatusWorking
  | StatusStopped | StatusFailed | StatusRemoving | StatusRemoved

datatype FailureReason = FailureNone | FailurePull | FailureInit | FailureConfig | FailureModel
  | FailureReadinessTimeout | FailureCrashed

fun Status_String :: "Status \<Rightarrow> string" where
  "Status_String StatusPulling = ''pulling''"
| "Status_String StatusStarting = ''starting''"
| "Status_String StatusReady = ''ready''"
| "Status_String StatusWorking = ''working''"
| "Status_String StatusStopped = ''stopped''"
| "Status_String StatusFailed = ''failed''"
| "Status_String StatusRemoving = ''removing''"
| "Status_String StatusRemoved = ''removed''"

fun FailureReason_String :: "FailureReason \<Rightarrow> string" where
  "FailureReason_String FailureNone = []"
| "FailureReason_String FailurePull = ''pull''"
| "FailureReason_String FailureInit = ''init''"
| "FailureReason_String FailureConfig = ''config''"
| "FailureReason_String FailureModel = ''model''"
| "FailureReason_String FailureReadinessTimeout = ''readiness_timeout''"
| "FailureReason_String FailureCrashed = ''crashed''"


section \<open>The tracker\<close>

record chan =
  ch_buf :: "Status list"
  ch_closed :: bool

record tracker =
  tk_status :: Status
  tk_failure :: FailureReason
  tk_nextID :: "64 word"
  tk_subs :: "(64 word, nat) gomap"
  tk_chans :: "(nat, chan) gomap"
  tk_fresh :: nat

definition statusChanSize :: nat where
  "statusChanSize = 16"

definition NewStatusTracker :: tracker where
  "NewStatusTracker =
    \<lparr>tk_status = StatusPulling, tk_failure = FailureNone, tk_nextID = 0, tk_subs = fmempty,
     tk_chans = fmempty, tk_fresh = 0\<rparr>"

definition Get :: "tracker \<Rightarrow> Status" where
  "Get t = tk_status t"

definition Failure :: "tracker \<Rightarrow> FailureReason" where
  "Failure t = tk_failure t"

text \<open>A non-blocking send: dropped when the buffer is full.\<close>

definition try_send :: "Status \<Rightarrow> chan \<Rightarrow> chan" where
  "try_send s c = (if length (ch_buf c) < statusChanSize then c\<lparr>ch_buf := ch_buf c @ [s]\<rparr> else c)"

definition chan_closed :: "tracker \<Rightarrow> nat \<Rightarrow> bool" where
  "chan_closed t c = (case fmlookup (tk_chans t) c of Some ch \<Rightarrow> ch_closed ch | None \<Rightarrow> False)"

definition broadcast :: "Status \<Rightarrow> tracker \<Rightarrow> tracker" where
  "broadcast s t =
    t\<lparr>tk_chans := fmmap_keys (\<lambda>i c. if i |\<in>| fmran (tk_subs t) then try_send s c else c) (tk_chans t)\<rparr>"

datatype tpanic = SendOnClosed | CloseOfClosed

definition setLocked :: "Status \<Rightarrow> FailureReason \<Rightarrow> tracker \<Rightarrow> (tpanic, tracker) res" where
  "setLocked s reason t =
    (let t1 = t\<lparr>tk_status := s, tk_failure := (if s = StatusFailed then reason else FailureNone)\<rparr>
     in if fBex (fmran (tk_subs t1)) (chan_closed t1) then Inl SendOnClosed else Inr (broadcast s t1))"

definition Set :: "Status \<Rightarrow> tracker \<Rightarrow> (tpanic, tracker) res" where
  "Set s t = setLocked s FailureNone t"

definition SetFailure :: "FailureReason \<Rightarrow> tracker \<Rightarrow> (tpanic, tracker) res" where
  "SetFailure reason t = setLocked StatusFailed reason t"

definition SetUnless :: "Status \<Rightarrow> Status list \<Rightarrow> tracker \<Rightarrow> (tpanic, tracker \<times> bool) res" where
  "SetUnless s guard t =
    (if tk_status t \<in> set guard then Inr (t, False)
     else case setLocked s FailureNone t of Inl p \<Rightarrow> Inl p | Inr t' \<Rightarrow> Inr (t', True))"

text \<open>\<^verbatim>\<open>Subscribe\<close> returns the channel and the id its cancel function closes over.\<close>

definition Subscribe :: "tracker \<Rightarrow> tracker \<times> 64 word \<times> nat" where
  "Subscribe t =
    (let sid = tk_nextID t; c = tk_fresh t
     in (t\<lparr>tk_nextID := sid + 1, tk_subs := fmupd sid c (tk_subs t),
          tk_chans := fmupd c \<lparr>ch_buf = [], ch_closed = False\<rparr> (tk_chans t), tk_fresh := Suc c\<rparr>,
         sid, c))"

text \<open>The body of cancel; \<^verbatim>\<open>sync.Once\<close> makes a second call a no-op, which the flag
  \<open>ch_closed\<close> of its own channel records.\<close>

definition cancel :: "64 word \<Rightarrow> nat \<Rightarrow> tracker \<Rightarrow> (tpanic, tracker) res" where
  "cancel sid c t =
    (case fmlookup (tk_chans t) c of
       None \<Rightarrow> Inr t
     | Some ch \<Rightarrow>
         if ch_closed ch then Inr t
         else Inr (t\<lparr>tk_subs := fmdrop sid (tk_subs t),
                     tk_chans := fmupd c (ch\<lparr>ch_closed := True\<rparr>) (tk_chans t)\<rparr>))"

text \<open>A receive by the subscriber takes the oldest buffered status.\<close>

definition recv :: "nat \<Rightarrow> tracker \<Rightarrow> Status option \<times> tracker" where
  "recv c t =
    (case fmlookup (tk_chans t) c of
       Some ch \<Rightarrow>
         (case ch_buf ch of
            [] \<Rightarrow> (None, t)
          | s # rest \<Rightarrow> (Some s, t\<lparr>tk_chans := fmupd c (ch\<lparr>ch_buf := rest\<rparr>) (tk_chans t)\<rparr>))
     | None \<Rightarrow> (None, t))"


section \<open>WaitForStatus\<close>

text \<open>What the select of the loop can yield: a status from the channel, the
  channel closed, or the context done.\<close>

datatype wait_event = Recv Status | ChanClosed | CtxDone

datatype wait_err = ErrStatusClosed | ErrCtx

text \<open>\<^const>\<open>None\<close>: still blocked when the events run out.\<close>

fun wait_loop :: "Status list \<Rightarrow> wait_event list \<Rightarrow> (wait_err, Status) res option" where
  "wait_loop target [] = None"
| "wait_loop target (Recv s # es) = (if s \<in> set target then Some (Inr s) else wait_loop target es)"
| "wait_loop target (ChanClosed # es) = Some (Inl ErrStatusClosed)"
| "wait_loop target (CtxDone # es) = Some (Inl ErrCtx)"

definition WaitForStatus :: "Status \<Rightarrow> Status list \<Rightarrow> wait_event list \<Rightarrow> (wait_err, Status) res option" where
  "WaitForStatus current target es =
    (if current \<in> set target then Some (Inr current) else wait_loop target es)"

lemma wait_loop_Recv:
  "wait_loop target (map Recv ss @ es) =
    (case find (\<lambda>s. s \<in> set target) ss of Some s \<Rightarrow> Some (Inr s) | None \<Rightarrow> wait_loop target es)"
  by (induction ss) simp_all

lemma wait_loop_target: "wait_loop target es = Some (Inr s) \<Longrightarrow> s \<in> set target"
  by (induction target es rule: wait_loop.induct) (auto split: if_splits)


section \<open>Invariant\<close>

text \<open>Channels in the subscriber map are open and were allocated under that id;
  the failure reason is set only in the failed state; buffers are bounded.\<close>

definition tracker_inv :: "tracker \<Rightarrow> bool" where
  "tracker_inv t \<longleftrightarrow>
     (tk_failure t \<noteq> FailureNone \<longrightarrow> tk_status t = StatusFailed) \<and>
     (\<forall>c ch. fmlookup (tk_chans t) c = Some ch \<longrightarrow> c < tk_fresh t \<and> length (ch_buf ch) \<le> statusChanSize) \<and>
     (\<forall>i c. fmlookup (tk_subs t) i = Some c \<longrightarrow>
        (\<exists>ch. fmlookup (tk_chans t) c = Some ch \<and> \<not> ch_closed ch)) \<and>
     (\<forall>i j c. fmlookup (tk_subs t) i = Some c \<and> fmlookup (tk_subs t) j = Some c \<longrightarrow> i = j)"

lemma inv_failure: "tracker_inv t \<Longrightarrow> tk_failure t \<noteq> FailureNone \<Longrightarrow> tk_status t = StatusFailed"
  by (simp add: tracker_inv_def)

lemma inv_chan:
  "tracker_inv t \<Longrightarrow> fmlookup (tk_chans t) c = Some ch \<Longrightarrow> c < tk_fresh t \<and> length (ch_buf ch) \<le> statusChanSize"
  by (simp add: tracker_inv_def)

lemma inv_sub:
  "tracker_inv t \<Longrightarrow> fmlookup (tk_subs t) i = Some c \<Longrightarrow> \<exists>ch. fmlookup (tk_chans t) c = Some ch \<and> \<not> ch_closed ch"
  by (simp add: tracker_inv_def)

lemma inv_inj:
  "tracker_inv t \<Longrightarrow> fmlookup (tk_subs t) i = Some c \<Longrightarrow> fmlookup (tk_subs t) j = Some c \<Longrightarrow> i = j"
  unfolding tracker_inv_def by blast

lemma tracker_invI:
  assumes "tk_failure t \<noteq> FailureNone \<Longrightarrow> tk_status t = StatusFailed"
    and "\<And>c ch. fmlookup (tk_chans t) c = Some ch \<Longrightarrow> c < tk_fresh t \<and> length (ch_buf ch) \<le> statusChanSize"
    and "\<And>i c. fmlookup (tk_subs t) i = Some c \<Longrightarrow> \<exists>ch. fmlookup (tk_chans t) c = Some ch \<and> \<not> ch_closed ch"
    and "\<And>i j c. fmlookup (tk_subs t) i = Some c \<Longrightarrow> fmlookup (tk_subs t) j = Some c \<Longrightarrow> i = j"
  shows "tracker_inv t"
  unfolding tracker_inv_def using assms by blast

lemma fmran_iff: "c |\<in>| fmran m \<longleftrightarrow> (\<exists>k. fmlookup m k = Some c)"
  by (auto simp: fmlookup_ran_iff)

lemma inv_no_closed: "tracker_inv t \<Longrightarrow> \<not> fBex (fmran (tk_subs t)) (chan_closed t)"
  by (fastforce simp: chan_closed_def fmran_iff dest: inv_sub split: option.splits)

lemma setLocked_ok:
  assumes "tracker_inv t"
  shows "setLocked s reason t =
    Inr (broadcast s (t\<lparr>tk_status := s, tk_failure := (if s = StatusFailed then reason else FailureNone)\<rparr>))"
proof -
  let ?t = "t\<lparr>tk_status := s, tk_failure := (if s = StatusFailed then reason else FailureNone)\<rparr>"
  have "\<not> fBex (fmran (tk_subs ?t)) (chan_closed ?t)"
    using inv_no_closed [OF assms] by (simp add: chan_closed_def [abs_def])
  then show ?thesis by (simp add: setLocked_def Let_def)
qed

lemma broadcast_lookup:
  "fmlookup (tk_chans (broadcast s t)) c =
     map_option (\<lambda>ch. if c |\<in>| fmran (tk_subs t) then try_send s ch else ch) (fmlookup (tk_chans t) c)"
  by (simp add: broadcast_def)

lemma broadcast_fields [simp]:
  "tk_status (broadcast s t) = tk_status t" "tk_failure (broadcast s t) = tk_failure t"
  "tk_subs (broadcast s t) = tk_subs t" "tk_fresh (broadcast s t) = tk_fresh t"
  "tk_nextID (broadcast s t) = tk_nextID t"
  by (simp_all add: broadcast_def)

lemma try_send_closed [simp]: "ch_closed (try_send s c) = ch_closed c"
  by (simp add: try_send_def)

lemma try_send_length: "length (ch_buf c) \<le> statusChanSize \<Longrightarrow> length (ch_buf (try_send s c)) \<le> statusChanSize"
  by (simp add: try_send_def)

lemma setLocked_inv:
  assumes "tracker_inv t" "setLocked s reason t = Inr t'"
  shows "tracker_inv t'" "tk_status t' = s"
    "tk_failure t' = (if s = StatusFailed then reason else FailureNone)"
proof -
  have t': "t' = broadcast s (t\<lparr>tk_status := s, tk_failure := (if s = StatusFailed then reason else FailureNone)\<rparr>)"
    using assms setLocked_ok by simp
  show "tk_status t' = s" "tk_failure t' = (if s = StatusFailed then reason else FailureNone)"
    by (simp_all add: t')
  show "tracker_inv t'"
  proof (rule tracker_invI)
    fix c ch assume "fmlookup (tk_chans t') c = Some ch"
    then show "c < tk_fresh t' \<and> length (ch_buf ch) \<le> statusChanSize"
      using inv_chan [OF assms(1)] by (auto simp: t' broadcast_lookup try_send_length)
  next
    fix i c assume "fmlookup (tk_subs t') i = Some c"
    then show "\<exists>ch. fmlookup (tk_chans t') c = Some ch \<and> \<not> ch_closed ch"
      using inv_sub [OF assms(1)] by (fastforce simp: t' broadcast_lookup)
  next
    fix i j c assume "fmlookup (tk_subs t') i = Some c" "fmlookup (tk_subs t') j = Some c"
    then show "i = j" using inv_inj [OF assms(1)] by (simp add: t')
  qed (simp add: t' split: if_splits)
qed

lemma Subscribe_inv:
  assumes "tracker_inv t" "Subscribe t = (t', sid, c)"
  shows "tracker_inv t'" "tk_status t' = tk_status t"
    "fmlookup (tk_subs t') sid = Some c" "fmlookup (tk_chans t') c = Some \<lparr>ch_buf = [], ch_closed = False\<rparr>"
proof -
  have t': "t' = t\<lparr>tk_nextID := tk_nextID t + 1, tk_subs := fmupd (tk_nextID t) (tk_fresh t) (tk_subs t),
          tk_chans := fmupd (tk_fresh t) \<lparr>ch_buf = [], ch_closed = False\<rparr> (tk_chans t), tk_fresh := Suc (tk_fresh t)\<rparr>"
    "sid = tk_nextID t" "c = tk_fresh t"
    using assms(2) by (auto simp: Subscribe_def Let_def)
  show "tk_status t' = tk_status t" "fmlookup (tk_subs t') sid = Some c"
    "fmlookup (tk_chans t') c = Some \<lparr>ch_buf = [], ch_closed = False\<rparr>"
    by (simp_all add: t')
  have used: "x \<noteq> tk_fresh t" if "fmlookup (tk_subs t) i = Some x" for i x
    using inv_sub [OF assms(1) that] inv_chan [OF assms(1)] by fastforce
  show "tracker_inv t'"
  proof (rule tracker_invI)
    fix d ch assume "fmlookup (tk_chans t') d = Some ch"
    then show "d < tk_fresh t' \<and> length (ch_buf ch) \<le> statusChanSize"
      using inv_chan [OF assms(1), of d ch] by (auto simp: t' split: if_splits)
  next
    fix i d assume "fmlookup (tk_subs t') i = Some d"
    then show "\<exists>ch. fmlookup (tk_chans t') d = Some ch \<and> \<not> ch_closed ch"
      using inv_sub [OF assms(1), of i d] used [of i d] by (auto simp: t' split: if_splits)
  next
    fix i j d assume "fmlookup (tk_subs t') i = Some d" "fmlookup (tk_subs t') j = Some d"
    then show "i = j"
      using inv_inj [OF assms(1), of i d j] used [of i d] used [of j d] by (auto simp: t' split: if_splits)
  qed (use inv_failure [OF assms(1)] in \<open>simp add: t'\<close>)
qed

text \<open>A cancel function is called with the id and channel of its own Subscribe:
  the channel is in the map under no other id.\<close>

definition owns :: "tracker \<Rightarrow> 64 word \<Rightarrow> nat \<Rightarrow> bool" where
  "owns t sid c \<longleftrightarrow> (\<forall>i. fmlookup (tk_subs t) i = Some c \<longrightarrow> i = sid)"

lemma cancel_inv:
  assumes "tracker_inv t" "owns t sid c"
  shows "\<exists>t'. cancel sid c t = Inr t' \<and> tracker_inv t' \<and> tk_status t' = tk_status t \<and>
     (\<forall>i. fmlookup (tk_subs t') i \<noteq> Some c) \<and> cancel sid c t' = Inr t'"
proof (cases "fmlookup (tk_chans t) c")
  case None
  then have "\<forall>i. fmlookup (tk_subs t) i \<noteq> Some c" using inv_sub [OF assms(1)] by fastforce
  then show ?thesis using None assms(1) by (simp add: cancel_def)
next
  case (Some ch)
  show ?thesis
  proof (cases "ch_closed ch")
    case True
    then have "\<forall>i. fmlookup (tk_subs t) i \<noteq> Some c" using inv_sub [OF assms(1)] Some by fastforce
    then show ?thesis using Some True assms(1) by (simp add: cancel_def)
  next
    case False
    define t' where "t' = t\<lparr>tk_subs := fmdrop sid (tk_subs t), tk_chans := fmupd c (ch\<lparr>ch_closed := True\<rparr>) (tk_chans t)\<rparr>"
    have gone: "\<forall>i. fmlookup (tk_subs t') i \<noteq> Some c"
      using assms(2) by (auto simp: t'_def owns_def)
    have "tracker_inv t'"
    proof (rule tracker_invI)
      fix d h assume "fmlookup (tk_chans t') d = Some h"
      then show "d < tk_fresh t' \<and> length (ch_buf h) \<le> statusChanSize"
        using inv_chan [OF assms(1)] Some by (auto simp: t'_def split: if_splits)
    next
      fix i d assume a: "fmlookup (tk_subs t') i = Some d"
      then have "d \<noteq> c" using gone by blast
      then show "\<exists>h. fmlookup (tk_chans t') d = Some h \<and> \<not> ch_closed h"
        using a inv_sub [OF assms(1), of i d] by (auto simp: t'_def split: if_splits)
    next
      fix i j d assume "fmlookup (tk_subs t') i = Some d" "fmlookup (tk_subs t') j = Some d"
      then show "i = j" using inv_inj [OF assms(1), of i d j] by (auto simp: t'_def split: if_splits)
    qed (use inv_failure [OF assms(1)] in \<open>simp add: t'_def\<close>)
    then show ?thesis using Some False gone by (simp add: cancel_def t'_def)
  qed
qed

section \<open>Reachable trackers\<close>

text \<open>The trackers a program can reach, with the (id, channel) pairs that
  Subscribe has handed out; a cancel function is only ever called with its own
  pair, any number of times.\<close>

inductive reach :: "tracker \<Rightarrow> (64 word \<times> nat) set \<Rightarrow> bool" where
  r_new: "reach NewStatusTracker {}"
| r_set: "reach t iss \<Longrightarrow> Set s t = Inr t' \<Longrightarrow> reach t' iss"
| r_fail: "reach t iss \<Longrightarrow> SetFailure r t = Inr t' \<Longrightarrow> reach t' iss"
| r_unless: "reach t iss \<Longrightarrow> SetUnless s g t = Inr (t', b) \<Longrightarrow> reach t' iss"
| r_sub: "reach t iss \<Longrightarrow> Subscribe t = (t', sid, c) \<Longrightarrow> reach t' (insert (sid, c) iss)"
| r_cancel: "reach t iss \<Longrightarrow> (sid, c) \<in> iss \<Longrightarrow> cancel sid c t = Inr t' \<Longrightarrow> reach t' iss"
| r_recv: "reach t iss \<Longrightarrow> recv c t = (v, t') \<Longrightarrow> reach t' iss"

definition reach_inv :: "tracker \<Rightarrow> (64 word \<times> nat) set \<Rightarrow> bool" where
  "reach_inv t iss \<longleftrightarrow> tracker_inv t \<and> (\<forall>(sid, c) \<in> iss. owns t sid c \<and> c < tk_fresh t)"

lemma owns_subs: "tk_subs t' = tk_subs t \<Longrightarrow> owns t' sid c = owns t sid c"
  by (simp add: owns_def)

lemma setLocked_reach_inv:
  assumes "reach_inv t iss" "setLocked s r t = Inr t'"
  shows "reach_inv t' iss"
proof -
  have i: "tracker_inv t" using assms(1) by (simp add: reach_inv_def)
  have t': "tk_subs t' = tk_subs t" "tk_fresh t' = tk_fresh t"
    using assms(2) setLocked_ok [OF i] by auto
  show ?thesis
    using assms(1) setLocked_inv(1) [OF i assms(2)] t' by (auto simp: reach_inv_def owns_subs [OF t'(1)])
qed

lemma recv_inv:
  assumes "tracker_inv t" "recv c t = (v, t')"
  shows "tracker_inv t'" "tk_subs t' = tk_subs t" "tk_fresh t' = tk_fresh t"
proof -
  have "tracker_inv t' \<and> tk_subs t' = tk_subs t \<and> tk_fresh t' = tk_fresh t"
  proof (cases "fmlookup (tk_chans t) c")
    case None
    then show ?thesis using assms by (simp add: recv_def)
  next
    case (Some ch)
    show ?thesis
    proof (cases "ch_buf ch")
      case Nil
      then show ?thesis using assms Some by (simp add: recv_def)
    next
      case (Cons s rest)
      then have t': "t' = t\<lparr>tk_chans := fmupd c (ch\<lparr>ch_buf := rest\<rparr>) (tk_chans t)\<rparr>"
        using assms(2) Some by (simp add: recv_def)
      have "tracker_inv t'"
      proof (rule tracker_invI)
        fix d h assume "fmlookup (tk_chans t') d = Some h"
        then show "d < tk_fresh t' \<and> length (ch_buf h) \<le> statusChanSize"
          using inv_chan [OF assms(1), of d] Some Cons by (auto simp: t' split: if_splits)
      next
        fix i d assume "fmlookup (tk_subs t') i = Some d"
        then show "\<exists>h. fmlookup (tk_chans t') d = Some h \<and> \<not> ch_closed h"
          using inv_sub [OF assms(1), of i d] Some by (auto simp: t')
      next
        fix i j d assume "fmlookup (tk_subs t') i = Some d" "fmlookup (tk_subs t') j = Some d"
        then show "i = j" using inv_inj [OF assms(1), of i d j] by (simp add: t')
      qed (use inv_failure [OF assms(1)] in \<open>simp add: t'\<close>)
      then show ?thesis by (simp add: t')
    qed
  qed
  then show "tracker_inv t'" "tk_subs t' = tk_subs t" "tk_fresh t' = tk_fresh t" by simp_all
qed

lemma NewStatusTracker_inv: "tracker_inv NewStatusTracker"
  by (rule tracker_invI) (simp_all add: NewStatusTracker_def)

lemma reach_reach_inv: "reach t iss \<Longrightarrow> reach_inv t iss"
proof (induction rule: reach.induct)
  case r_new
  then show ?case by (simp add: reach_inv_def NewStatusTracker_inv)
next
  case (r_set t iss s t')
  then show ?case by (simp add: Set_def setLocked_reach_inv)
next
  case (r_fail t iss r t')
  then show ?case by (simp add: SetFailure_def setLocked_reach_inv)
next
  case (r_unless t iss s g t' b)
  then show ?case by (auto simp: SetUnless_def intro: setLocked_reach_inv split: if_splits sum.splits)
next
  case (r_sub t iss t' sid c)
  have i: "tracker_inv t" using r_sub.IH by (simp add: reach_inv_def)
  have t': "tk_subs t' = fmupd sid c (tk_subs t)" "tk_fresh t' = Suc (tk_fresh t)" "c = tk_fresh t"
    using r_sub.hyps(2) by (auto simp: Subscribe_def Let_def)
  have "owns t' sid c"
    using inv_sub [OF i, of _ c] inv_chan [OF i, of c] t' by (fastforce simp: owns_def)
  moreover have "owns t' x y \<and> y < tk_fresh t'" if "(x, y) \<in> iss" for x y
    using r_sub.IH that t' by (fastforce simp: reach_inv_def owns_def split: if_splits)
  ultimately show ?case
    using Subscribe_inv(1) [OF i r_sub.hyps(2)] t' by (auto simp: reach_inv_def)
next
  case (r_cancel t iss sid c t')
  have i: "tracker_inv t" "owns t sid c" using r_cancel.IH r_cancel.hyps(2) by (auto simp: reach_inv_def)
  have "tracker_inv t'" using cancel_inv [OF i] r_cancel.hyps(3) by auto
  moreover have "tk_fresh t' = tk_fresh t" "\<And>j d. fmlookup (tk_subs t') j = Some d \<Longrightarrow> fmlookup (tk_subs t) j = Some d"
    using r_cancel.hyps(3) by (auto simp: cancel_def split: option.splits if_splits)
  ultimately show ?case using r_cancel.IH by (fastforce simp: reach_inv_def owns_def)
next
  case (r_recv t iss c v t')
  have i: "tracker_inv t" using r_recv.IH by (simp add: reach_inv_def)
  note r = recv_inv [OF i r_recv.hyps(2)]
  show ?case using r_recv.IH r by (auto simp: reach_inv_def owns_subs [OF r(2)])
qed


section \<open>The observer contract\<close>

text \<open>What a client of \<^verbatim>\<open>StatusObserver\<close> relies on: a fresh subscription starts
  empty, and while it is live every status change is queued for it until the
  queue is full.\<close>

locale status_observer =
  fixes inv :: "'s \<Rightarrow> bool" and status :: "'s \<Rightarrow> Status"
    and subscribe :: "'s \<Rightarrow> 's \<times> 'c" and live :: "'s \<Rightarrow> 'c \<Rightarrow> bool"
    and pending :: "'s \<Rightarrow> 'c \<Rightarrow> Status list" and change :: "Status \<Rightarrow> 's \<Rightarrow> 's" and cap :: nat
  assumes subscribe_inv: "inv s \<Longrightarrow> inv (fst (subscribe s))"
    and subscribe_status: "inv s \<Longrightarrow> status (fst (subscribe s)) = status s"
    and subscribe_live: "inv s \<Longrightarrow> live (fst (subscribe s)) (snd (subscribe s))"
    and subscribe_pending: "inv s \<Longrightarrow> pending (fst (subscribe s)) (snd (subscribe s)) = []"
    and change_inv: "inv s \<Longrightarrow> inv (change x s)"
    and change_status: "inv s \<Longrightarrow> status (change x s) = x"
    and change_live: "inv s \<Longrightarrow> live s c \<Longrightarrow> live (change x s) c"
    and change_pending: "inv s \<Longrightarrow> live s c \<Longrightarrow> length (pending s c) < cap \<Longrightarrow>
      pending (change x s) c = pending s c @ [x]"
begin

lemma pending_changes:
  assumes "inv s" "live s c" "length (pending s c) + length xs \<le> cap"
  shows "pending (fold change xs s) c = pending s c @ xs \<and> live (fold change xs s) c \<and> inv (fold change xs s)"
  using assms
proof (induction xs arbitrary: s)
  case (Cons x xs)
  have "pending (change x s) c = pending s c @ [x]" using Cons.prems by (intro change_pending) simp_all
  then show ?case
    using Cons.IH [of "change x s"] Cons.prems change_inv change_live by simp
qed simp

lemma no_lost_change:
  assumes "inv s" "length xs \<le> cap"
  shows "pending (fold change xs (fst (subscribe s))) (snd (subscribe s)) = xs"
  using pending_changes [of "fst (subscribe s)" "snd (subscribe s)" xs] assms
    subscribe_inv subscribe_live subscribe_pending by simp

lemma wait_observes:
  assumes "inv s" "length xs \<le> cap" "\<exists>x \<in> set (status s # xs). x \<in> set target"
  shows "\<exists>x. WaitForStatus (status (fst (subscribe s))) target
      (map Recv (pending (fold change xs (fst (subscribe s))) (snd (subscribe s))) @ es) = Some (Inr x) \<and>
      x \<in> set target"
proof (cases "status s \<in> set target")
  case True
  then show ?thesis using subscribe_status [OF assms(1)] by (simp add: WaitForStatus_def)
next
  case False
  then obtain y where y: "find (\<lambda>x. x \<in> set target) xs = Some y"
    using assms(3) by (cases "find (\<lambda>x. x \<in> set target) xs") (auto simp: find_None_iff)
  then have "y \<in> set target" by (auto simp: find_Some_iff)
  then show ?thesis
    using False y subscribe_status [OF assms(1)] no_lost_change [OF assms(1,2)]
    by (simp add: WaitForStatus_def wait_loop_Recv)
qed

end

text \<open>The tracker as an observer.\<close>

definition tk_change :: "Status \<Rightarrow> tracker \<Rightarrow> tracker" where
  "tk_change s t = (case Set s t of Inr t' \<Rightarrow> t' | Inl _ \<Rightarrow> t)"

definition tk_live :: "tracker \<Rightarrow> 64 word \<times> nat \<Rightarrow> bool" where
  "tk_live t sc \<longleftrightarrow> fmlookup (tk_subs t) (fst sc) = Some (snd sc)"

definition tk_pending :: "tracker \<Rightarrow> 64 word \<times> nat \<Rightarrow> Status list" where
  "tk_pending t sc = (case fmlookup (tk_chans t) (snd sc) of Some ch \<Rightarrow> ch_buf ch | None \<Rightarrow> [])"

lemma tk_change_eq:
  "tracker_inv t \<Longrightarrow> tk_change s t = broadcast s (t\<lparr>tk_status := s, tk_failure := FailureNone\<rparr>)"
  by (simp add: tk_change_def Set_def setLocked_ok)

interpretation tracker_obs: status_observer tracker_inv Get "\<lambda>t. (fst (Subscribe t), snd (Subscribe t))"
  tk_live tk_pending tk_change statusChanSize
proof unfold_locales
  fix t x and c :: "64 word \<times> nat"
  assume i: "tracker_inv t"
  obtain t' sid d where s: "Subscribe t = (t', sid, d)" by (metis prod_cases3)
  note si = Subscribe_inv [OF i s]
  show "tracker_inv (fst (fst (Subscribe t), snd (Subscribe t)))"
    "Get (fst (fst (Subscribe t), snd (Subscribe t))) = Get t"
    "tk_live (fst (fst (Subscribe t), snd (Subscribe t))) (snd (fst (Subscribe t), snd (Subscribe t)))"
    "tk_pending (fst (fst (Subscribe t), snd (Subscribe t))) (snd (fst (Subscribe t), snd (Subscribe t))) = []"
    using si by (simp_all add: s Get_def tk_live_def tk_pending_def)
  have set: "Set x t = Inr (tk_change x t)" using setLocked_ok [OF i] by (simp add: tk_change_def Set_def)
  then show "tracker_inv (tk_change x t)" "Get (tk_change x t) = x"
    using setLocked_inv(1,2) [OF i, of x FailureNone] by (simp_all add: Set_def Get_def)
  assume l: "tk_live t c"
  then show "tk_live (tk_change x t) c" by (simp add: tk_live_def tk_change_eq [OF i])
  assume "length (tk_pending t c) < statusChanSize"
  moreover obtain ch where "fmlookup (tk_chans t) (snd c) = Some ch"
    using inv_sub [OF i] l by (auto simp: tk_live_def)
  moreover have "snd c |\<in>| fmran (tk_subs t)" using l by (auto simp: tk_live_def fmran_iff)
  ultimately show "tk_pending (tk_change x t) c = tk_pending t c @ [x]"
    by (simp add: tk_pending_def tk_change_eq [OF i] broadcast_lookup try_send_def)
qed


section \<open>Properties\<close>

text \<open>C7: in every reachable tracker the failure reason is set only in the
  failed state, no buffer exceeds its sixteen slots, no status change and no
  cancel panics (no send on a closed channel, no double close), and
  cancelling twice is the same as cancelling once.\<close>

theorem tracker_safe:
  assumes "reach t iss"
  shows "(Failure t \<noteq> FailureNone \<longrightarrow> Get t = StatusFailed) \<and>
    (\<forall>c ch. fmlookup (tk_chans t) c = Some ch \<longrightarrow> length (ch_buf ch) \<le> 16) \<and>
    (\<forall>s r. \<exists>t'. setLocked s r t = Inr t') \<and>
    (\<forall>(sid, c) \<in> iss. \<exists>t'. cancel sid c t = Inr t' \<and> cancel sid c t' = Inr t')"
proof -
  have ri: "reach_inv t iss" by (rule reach_reach_inv [OF assms])
  then have i: "tracker_inv t" by (simp add: reach_inv_def)
  have "\<forall>(sid, c) \<in> iss. \<exists>t'. cancel sid c t = Inr t' \<and> cancel sid c t' = Inr t'"
    using ri cancel_inv [OF i] unfolding reach_inv_def by blast
  then show ?thesis
    using inv_failure [OF i] inv_chan [OF i] setLocked_ok [OF i]
    by (auto simp: Failure_def Get_def statusChanSize_def)
qed

theorem tracker_safe_witness:
  "\<exists>t'. setLocked StatusReady FailureNone (fst (Subscribe NewStatusTracker)) = Inr t'"
proof -
  obtain t sid c where s: "Subscribe NewStatusTracker = (t, sid, c)" by (metis prod_cases3)
  have "reach t (insert (sid, c) {})" by (rule r_sub [OF r_new s])
  from tracker_safe [OF this] show ?thesis by (simp add: s)
qed

text \<open>The guarded update is atomic: \<^const>\<open>SetUnless\<close> leaves the tracker untouched
  and reports false exactly when the current status is guarded; otherwise it
  sets the status, clears the failure reason and reports true.\<close>

theorem set_unless_spec:
  assumes "reach t iss"
  shows "if Get t \<in> set g then SetUnless s g t = Inr (t, False)
    else \<exists>t'. SetUnless s g t = Inr (t', True) \<and> Get t' = s \<and> Failure t' = FailureNone"
proof -
  have i: "tracker_inv t" using reach_reach_inv [OF assms] by (simp add: reach_inv_def)
  obtain t' where t': "setLocked s FailureNone t = Inr t'" using setLocked_ok [OF i] by blast
  show ?thesis
    using setLocked_inv(2,3) [OF i t'] by (simp add: SetUnless_def Get_def Failure_def t')
qed

theorem set_unless_spec_witness:
  "SetUnless StatusStopped [StatusPulling] NewStatusTracker = Inr (NewStatusTracker, False)"
  using set_unless_spec [OF r_new, where g = "[StatusPulling]" and s = StatusStopped]
  by (simp add: Get_def NewStatusTracker_def)



end
