(* ===== verification/Workspace.thy ===== *)
theory Workspace
  imports Workspace_Md Path_Confine Store Status
begin

text \<open>
  The materialisation of an agent workspace, \<^verbatim>\<open>executor/system/workspace.go\<close>: an artifact
  is loaded, validated and overridden, its layers are written into the agent's
  file tree, the runtime descriptor is assembled and written, mounts and
  binaries are installed.  File-system calls are operations that the model
  records in order, whether they succeed or not; which of them fail is a
  parameter.  The mount list and the binary directories are the fields of the
  workspace that a materialisation changes.
\<close>


section \<open>Runtime descriptor\<close>

record OCIRef =
  or_ref :: string
  or_digest :: string

record RuntimeRef =
  rr_ref :: string
  rr_digest :: string
  rr_binary :: string

record Runtime =
  rt_source :: Agentfile
  rt_id :: string
  rt_name :: string
  rt_model :: string
  rt_workspace :: string
  rt_image :: "OCIRef option"
  rt_runtime :: "RuntimeRef option"
  rt_configs :: "(string, string) gomap"
  rt_capabilities :: "Capability list"
  rt_envs :: "Env list"
  rt_mounts :: "Mount list"
  rt_context :: "ContextEntry list"
  rt_tools :: "ResolvedTool list"
  rt_exec :: "string list"
  rt_addr :: string
  rt_apibase :: string
  rt_apikey :: string

definition runtimeFile :: string where
  "runtimeFile = ''etc/agent.yaml''"


section \<open>Operations, errors, state\<close>

text \<open>Calls on the agent's chrooted file system and, with the prefix Host, on the
  unrestricted one.\<close>

datatype fsop =
    MkdirAll string
  | WriteFile string bytes
  | OpenBin string
  | HostMkdirAll string
  | HostRemove string
  | HostSymlink string string

datatype werr =
    WLoad lerr
  | WInvalid verr
  | WPanic panic
  | WFs fsop string
  | WLayer string oerr
  | WTitle string
  | WUnmet "string list"
  | WModel string
  | WYaml string
  | WNoRoot
  | WMountEmpty string
  | WMountEscape string
  | WInstall string

record 's wstate =
  w_store :: 's
  w_mounts :: "Mount list"
  w_bindirs :: "string list"
  w_log :: "fsop list"

text \<open>The fields of the \<^verbatim>\<open>workspace\<close> struct that no operation changes, the root of the
  agent's file system, and the parameters: which operation fails after which others,
  what the host holds, the YAML printer, float formatting, JSON.\<close>

record 's workspace =
  wk_store :: "'s target"
  wk_ref :: Reference
  wk_overrides :: "Override list"
  wk_puller :: "Reference \<Rightarrow> (string, bytes) res"
  wk_usage :: "(Reference \<Rightarrow> (string, bytes) res) option"
  wk_model :: "(string \<Rightarrow> (string, string \<times> string) res) option"
  wk_digest :: "(string \<Rightarrow> string) option"
  wk_image :: string
  wk_local :: string
  wk_tool_path :: "(string \<Rightarrow> string) option"
  wk_capabilities :: "Capability list"
  wk_symlink_bin :: "(string \<Rightarrow> string option) option"
  wk_view :: WorkspaceView
  wk_view_bins :: "(string list \<Rightarrow> string list) option"
  wk_root :: string
  wk_codec :: codec
  wk_fs :: "fsop list \<Rightarrow> fsop \<Rightarrow> string option"
  wk_host_read :: "string \<Rightarrow> (string, bytes) res"
  wk_yaml :: "Runtime \<Rightarrow> (string, bytes) res"
  wk_float :: "f64 \<Rightarrow> string"

type_synonym ('s, 'a) wm = "('s wstate, werr, 'a) sm"

definition fs_op :: "'s workspace \<Rightarrow> fsop \<Rightarrow> ('s, unit) wm" where
  "fs_op w op s =
    (case wk_fs w (w_log s) op of None \<Rightarrow> Inr () | Some e \<Rightarrow> Inl (WFs op e), s\<lparr>w_log := w_log s @ [op]\<rparr>)"

text \<open>An operation whose error is discarded.\<close>

definition fs_try :: "fsop \<Rightarrow> ('s, unit) wm" where
  "fs_try op s = (Inr (), s\<lparr>w_log := w_log s @ [op]\<rparr>)"

definition on_store :: "('e \<Rightarrow> werr) \<Rightarrow> ('s, 'e, 'a) sm \<Rightarrow> ('s, 'a) wm" where
  "on_store f m s =
    (case m (w_store s) of
       (Inl e, t) \<Rightarrow> (Inl (f e), s\<lparr>w_store := t\<rparr>)
     | (Inr a, t) \<Rightarrow> (Inr a, s\<lparr>w_store := t\<rparr>))"

definition fail :: "werr \<Rightarrow> ('s, 'a) wm" where
  "fail e = sm_lift (Inl e)"

definition failureReasonFor :: "werr \<Rightarrow> FailureReason" where
  "failureReasonFor e =
    (case e of
       WLoad _ \<Rightarrow> FailurePull
     | WInstall _ \<Rightarrow> FailurePull
     | WModel _ \<Rightarrow> FailureModel
     | WInvalid _ \<Rightarrow> FailureConfig
     | WUnmet _ \<Rightarrow> FailureConfig
     | _ \<Rightarrow> FailureInit)"


section \<open>Layout\<close>

definition runtimeBinDir :: string where
  "runtimeBinDir = JoinPath [''usr'', ''local'', ''bin'']"

definition RuntimeBin :: string where
  "RuntimeBin = JoinPath [runtimeBinDir, ''runtime'']"

definition contextDir :: string where
  "contextDir = JoinPath [''etc'', ''context'']"

definition dataDir :: string where
  "dataDir = JoinPath [''etc'', ''data'']"

definition binDir :: string where
  "binDir = JoinPath [''usr'', ''bin'']"

definition fhsDirs :: "string list" where
  "fhsDirs =
    [contextDir, dataDir, binDir, runtimeBinDir, ''workspace'', ''tmp'', JoinPath [''var'', ''lib''],
     ''home'', JoinPath [''home'', ''.config''], JoinPath [''home'', ''.cache''],
     JoinPath [''home'', ''.local'', ''share''], JoinPath [''opt'', ''bins'']]"


section \<open>Runtime assembly\<close>

fun show_nat :: "nat \<Rightarrow> string" where
  "show_nat n = (if n < 10 then [char_of (48 + n)] else show_nat (n div 10) @ [char_of (48 + n mod 10)])"

declare show_nat.simps [simp del]

text \<open>\<^verbatim>\<open>fmt.Sprintf("%v")\<close> on a CONFIG value.\<close>

fun value_string :: "(f64 \<Rightarrow> string) \<Rightarrow> config_value \<Rightarrow> string" where
  "value_string fl (VBool b) = (if b then ''true'' else ''false'')"
| "value_string fl (VInt i) = (if i < 0 then ''-'' @ show_nat (nat (- i)) else show_nat (nat i))"
| "value_string fl (VFloat x) = fl x"
| "value_string fl (VString s) = s"

definition config_step :: "(f64 \<Rightarrow> string) \<Rightarrow> Config \<Rightarrow> (string, string) gomap \<Rightarrow> (string, string) gomap" where
  "config_step fl c out =
    (case cfg_value c of
       None \<Rightarrow> out
     | Some v \<Rightarrow> if cfg_key c = [] then out else fmupd (cfg_key c) (value_string fl v) out)"

definition configsFromSpec :: "(f64 \<Rightarrow> string) \<Rightarrow> Config list \<Rightarrow> (string, string) gomap" where
  "configsFromSpec fl cs = fold (config_step fl) cs fmempty"

definition context_entry :: "string \<Rightarrow> string \<Rightarrow> ContextEntry" where
  "context_entry name description =
    \<lparr>ce_name = name, ce_file = ''/'' @ JoinPath [contextDir, name @ ''.md''], ce_description = description\<rparr>"

definition contextEntries :: "Context list \<Rightarrow> bool \<Rightarrow> ContextEntry list" where
  "contextEntries specCtx hasMounts =
    [context_entry ''AGENT'' (''Auto-generated identity card '' @ em_dash @ '' declared bins, environment, capabilities.''),
     context_entry ''WORKSPACE'' (''Filesystem layout '' @ em_dash @ '' where each path lives and what'' @ squote @ ''s writable.'')] @
    (if hasMounts then
       [context_entry ''MOUNTS'' (''Operator-supplied bind mounts '' @ em_dash @ '' host paths surfaced into the agent tree.'')]
     else []) @
    map (\<lambda>c. context_entry (ctx_name c) (ctx_description c)) (filter (\<lambda>c. ctx_name c \<noteq> []) specCtx)"

definition mergeMounts :: "Mount list \<Rightarrow> Mount list \<Rightarrow> Mount list" where
  "mergeMounts base extra =
    fold (\<lambda>m out. out @ [\<lparr>mnt_host = mnt_host m, mnt_target = mnt_target m, mnt_description = mnt_description m,
                          mnt_readonly = mnt_readonly m\<rparr>]) extra base"

definition mountsToSpec :: "Mount list \<Rightarrow> Mount list" where
  "mountsToSpec mounts =
    map (\<lambda>m. \<lparr>mnt_host = mnt_host m, mnt_target = mnt_target m, mnt_description = mnt_description m,
               mnt_readonly = mnt_readonly m\<rparr>) mounts"

definition resolveDigest :: "'s workspace \<Rightarrow> string \<Rightarrow> string" where
  "resolveDigest w ref =
    (case wk_digest w of None \<Rightarrow> [] | Some f \<Rightarrow> if ref = [] then [] else f ref)"

definition runtimeBinary :: "'s workspace \<Rightarrow> string" where
  "runtimeBinary w = (if wv_runtime (wk_view w) \<noteq> [] then wv_runtime (wk_view w) else ''/'' @ RuntimeBin)"

definition usage_path :: "string \<Rightarrow> string" where
  "usage_path name = JoinPath [dataDir, ''bins'', name, ''USAGE.md'']"

definition resolved_tool :: "'s workspace \<Rightarrow> Bin \<Rightarrow> ResolvedTool" where
  "resolved_tool w t =
    (let default = JoinPath [binDir, bin_name t];
         override = (case wk_tool_path w of None \<Rightarrow> [] | Some f \<Rightarrow> f (bin_name t))
     in \<lparr>tl_name = bin_name t, tl_description = bin_description t,
         tl_binary = (if override \<noteq> [] then override else default),
         tl_ref = bin_image t, tl_digest = resolveDigest w (bin_image t),
         tl_usage = ''/'' @ usage_path (bin_name t)\<rparr>)"

definition buildRuntime :: "'s workspace \<Rightarrow> Mount list \<Rightarrow> Agentfile \<Rightarrow> Agent \<Rightarrow> string \<Rightarrow> string \<Rightarrow> (werr, Runtime) res" where
  "buildRuntime w mounts af a ident addr =
    (case RequiredConfigsProvided (ag_configs a) of
       Some missing \<Rightarrow> Inl (WUnmet missing)
     | None \<Rightarrow>
         (case (case wk_model w of None \<Rightarrow> Inr ([], []) | Some resolver \<Rightarrow> resolver (ag_model a)) of
            Inl e \<Rightarrow> Inl (WModel e)
          | Inr (url, key) \<Rightarrow>
              Inr \<lparr>rt_source = af, rt_id = ident, rt_name = ag_name a, rt_model = ag_model a,
                   rt_workspace = ''/workspace'',
                   rt_image = (if wk_image w = [] then None
                               else Some \<lparr>or_ref = wk_image w, or_digest = resolveDigest w (wk_image w)\<rparr>),
                   rt_runtime = (if ag_runtime a = [] then None
                                 else Some \<lparr>rr_ref = ag_runtime a, rr_digest = resolveDigest w (ag_runtime a),
                                            rr_binary = runtimeBinary w\<rparr>),
                   rt_configs = configsFromSpec (wk_float w) (ag_configs a),
                   rt_capabilities = wk_capabilities w, rt_envs = ag_envs a, rt_mounts = mountsToSpec mounts,
                   rt_context = contextEntries (ag_contexts a) (mounts \<noteq> []),
                   rt_tools = map (resolved_tool w) (ag_bins a), rt_exec = ag_exec a,
                   rt_addr = addr, rt_apibase = url, rt_apikey = key\<rparr>))"


section \<open>Mounts\<close>

definition mountLinkPath :: "string \<Rightarrow> string \<Rightarrow> (werr, string) res" where
  "mountLinkPath root target =
    (let rel = TrimPrefix target ''/'' in
     if rel = [] then Inl (WMountEmpty target)
     else let link = JoinPath [root, rel]
          in case Rel root link of
               None \<Rightarrow> Inl (WMountEscape target)
             | Some within \<Rightarrow>
                 if within = ''..'' \<or> HasPrefix within ''../'' then Inl (WMountEscape target) else Inr link)"

definition apply_mount :: "'s workspace \<Rightarrow> Mount \<Rightarrow> ('s, unit) wm" where
  "apply_mount w m =
    sm_bind (sm_lift (mountLinkPath (wk_root w) (mnt_target m))) (\<lambda>link.
    sm_then (fs_op w (HostMkdirAll (path_Dir link)))
    (sm_then (fs_try (HostRemove link))
    (fs_op w (HostSymlink (mnt_host m) link))))"

definition applyMounts :: "'s workspace \<Rightarrow> ('s, unit) wm" where
  "applyMounts w s =
    (let mounts = w_mounts s in
     if mounts = [] then sm_return () s
     else if wk_root w = [] then fail WNoRoot s
     else sm_then (sm_each (apply_mount w) mounts)
            (fs_op w (WriteFile (JoinPath [contextDir, ''MOUNTS.md'']) (mountsContextMarkdown mounts))) s)"


section \<open>Binaries\<close>

definition stamp_bin :: "'s workspace \<Rightarrow> (string \<Rightarrow> string option) \<Rightarrow> string \<Rightarrow> Bin \<Rightarrow> ('s, unit) wm" where
  "stamp_bin w hook binsDir t =
    (case hook (bin_name t) of
       None \<Rightarrow> sm_return ()
     | Some target \<Rightarrow>
         if target = [] then sm_return ()
         else let link = JoinPath [binsDir, bin_name t]
              in sm_then (fs_try (HostRemove link)) (fs_op w (HostSymlink target link)))"

definition stampBinSymlinks :: "'s workspace \<Rightarrow> Agent \<Rightarrow> ('s, unit) wm" where
  "stampBinSymlinks w a =
    (case wk_symlink_bin w of
       None \<Rightarrow> sm_return ()
     | Some hook \<Rightarrow>
         if wk_root w = [] then fail WNoRoot
         else let binsDir = JoinPath [wk_root w, ''opt'', ''bins'']
              in sm_then (fs_op w (HostMkdirAll binsDir))
                 (sm_then (sm_each (stamp_bin w hook binsDir) (ag_bins a)) (sm_return ())))"

text \<open>\<^verbatim>\<open>pullBin\<close> opens the destination before it pulls; \<^verbatim>\<open>copyLocalFile\<close> opens the source
  before the destination.\<close>

definition pullBin :: "'s workspace \<Rightarrow> Reference \<Rightarrow> string \<Rightarrow> ('s, unit) wm" where
  "pullBin w ref dest =
    sm_then (fs_op w (OpenBin dest))
      (case wk_puller w ref of Inl e \<Rightarrow> fail (WInstall e) | Inr data \<Rightarrow> fs_op w (WriteFile dest data))"

definition copyLocalFile :: "'s workspace \<Rightarrow> string \<Rightarrow> string \<Rightarrow> ('s, unit) wm" where
  "copyLocalFile w src dest =
    (case wk_host_read w src of
       Inl e \<Rightarrow> fail (WInstall e)
     | Inr data \<Rightarrow> sm_then (fs_op w (OpenBin dest)) (fs_op w (WriteFile dest data)))"

definition as_pull :: "werr \<Rightarrow> werr" where
  "as_pull e = (case e of WFs op x \<Rightarrow> WInstall x | _ \<Rightarrow> e)"

definition installRuntime :: "'s workspace \<Rightarrow> Agent \<Rightarrow> ('s, unit) wm" where
  "installRuntime w a =
    (if wk_local w \<noteq> [] then copyLocalFile w (wk_local w) RuntimeBin
     else if ag_runtime a \<noteq> [] then pullBin w (ParseReference (ag_runtime a)) RuntimeBin
     else sm_return ())"

definition installTools :: "'s workspace \<Rightarrow> Agent \<Rightarrow> ('s, unit) wm" where
  "installTools w a =
    sm_then (sm_each (\<lambda>t. pullBin w (ParseReference (bin_image t)) (JoinPath [binDir, bin_name t])) (ag_bins a))
      (sm_return ())"

definition install_doc :: "'s workspace \<Rightarrow> (Reference \<Rightarrow> (string, bytes) res) \<Rightarrow> Bin \<Rightarrow> ('s, unit) wm" where
  "install_doc w usageFetcher t =
    (case usageFetcher (ParseReference (bin_image t)) of
       Inl _ \<Rightarrow> sm_return ()
     | Inr body \<Rightarrow>
         if body = [] then sm_return ()
         else let dst = usage_path (bin_name t)
              in sm_then (fs_op w (MkdirAll (path_Dir dst))) (fs_op w (WriteFile dst body)))"

definition installToolDocs :: "'s workspace \<Rightarrow> Agent \<Rightarrow> ('s, unit) wm" where
  "installToolDocs w a =
    (case wk_usage w of
       None \<Rightarrow> sm_return ()
     | Some f \<Rightarrow> sm_then (sm_each (install_doc w f) (ag_bins a)) (sm_return ()))"


section \<open>Layers\<close>

definition extract_titled :: "'s workspace \<Rightarrow> string \<Rightarrow> Descriptor \<Rightarrow> ('s, unit) wm" where
  "extract_titled w destDir layer =
    (if title layer = [] then sm_return ()
     else if \<not> IsPathSafeName (title layer) then fail (WTitle (title layer))
     else sm_bind (on_store (WLayer (title layer)) (FetchLayer (wk_store w) layer)) (\<lambda>data.
            fs_op w (WriteFile (JoinPath [destDir, title layer]) data)))"

definition extractTitledLayers :: "'s workspace \<Rightarrow> Manifest \<Rightarrow> string \<Rightarrow> string \<Rightarrow> ('s, unit) wm" where
  "extractTitledLayers w manifest mediaType destDir =
    sm_then (sm_each (extract_titled w destDir) (Layers manifest mediaType)) (sm_return ())"

definition extract_agentfile :: "'s workspace \<Rightarrow> Descriptor \<Rightarrow> ('s, unit) wm" where
  "extract_agentfile w layer =
    sm_bind (on_store (WLayer ''agentfile'') (FetchLayer (wk_store w) layer)) (\<lambda>data.
      fs_op w (WriteFile (JoinPath [''etc'', ''Agentfile'']) data))"

definition extractLayers :: "'s workspace \<Rightarrow> Manifest \<Rightarrow> ('s, unit) wm" where
  "extractLayers w manifest =
    sm_then (sm_each (extract_agentfile w) (Layers manifest AgentfileMediaType))
    (sm_then (extractTitledLayers w manifest ContextLayerMediaType contextDir)
    (extractTitledLayers w manifest OctetStream dataDir))"


section \<open>Materialisation\<close>

definition WriteTo :: "'s workspace \<Rightarrow> Runtime \<Rightarrow> ('s, unit) wm" where
  "WriteTo w rt =
    sm_bind (sm_lift (case wk_yaml w rt of Inl e \<Rightarrow> Inl (WYaml e) | Inr data \<Rightarrow> Inr data)) (\<lambda>data.
      fs_op w (WriteFile runtimeFile data))"

definition writeWorkspaceContext :: "'s workspace \<Rightarrow> workspaceContents \<Rightarrow> ('s, unit) wm" where
  "writeWorkspaceContext w content s =
    (let view0 = (wk_view w)\<lparr>wv_bindirs := w_bindirs s\<rparr>;
         view = (if wv_root view0 = [] then view0\<lparr>wv_root := wk_root w\<rparr> else view0)
     in fs_op w (WriteFile (JoinPath [contextDir, ''WORKSPACE.md'']) (workspaceContextMarkdownView view content)) s)"

definition fill_bindirs :: "'s workspace \<Rightarrow> Runtime \<Rightarrow> ('s, unit) wm" where
  "fill_bindirs w rt s =
    (Inr (), case wk_view_bins w of
               Some f \<Rightarrow> if w_bindirs s = [] then s\<lparr>w_bindirs := f (map tl_name (rt_tools rt))\<rparr> else s
             | None \<Rightarrow> s)"

definition set_mounts :: "Mount list \<Rightarrow> ('s, unit) wm" where
  "set_mounts extra s = (Inr (), s\<lparr>w_mounts := mergeMounts (w_mounts s) extra\<rparr>)"

definition run_panic :: "(panic, 'a) res \<Rightarrow> (werr, 'a) res" where
  "run_panic r = (case r of Inl p \<Rightarrow> Inl (WPanic p) | Inr a \<Rightarrow> Inr a)"

definition load_checked :: "'s workspace \<Rightarrow> ('s, Manifest \<times> Agentfile) wm" where
  "load_checked w =
    sm_bind (on_store WLoad (Load (wk_codec w) (wk_store w) (wk_ref w))) (\<lambda>(manifest, af).
    sm_lift (case Validate (Some af) of Some e \<Rightarrow> Inl (WInvalid e) | None \<Rightarrow> Inr (manifest, af)))"

definition write_tree :: "'s workspace \<Rightarrow> Manifest \<Rightarrow> Agent \<Rightarrow> string \<Rightarrow> ('s, unit) wm" where
  "write_tree w manifest a ident =
    sm_then (sm_each (\<lambda>dir. fs_op w (MkdirAll dir)) fhsDirs)
    (sm_then (extractLayers w manifest)
    (fs_op w (WriteFile (JoinPath [contextDir, ''AGENT.md'']) (agent_md a ident (wk_capabilities w)))))"

definition finish_tree :: "'s workspace \<Rightarrow> Agent \<Rightarrow> Runtime \<Rightarrow> ('s, unit) wm" where
  "finish_tree w a rt =
    sm_then (WriteTo w rt)
    (sm_then (fill_bindirs w rt)
    (sm_then (writeWorkspaceContext w \<lparr>wc_context = rt_context rt, wc_tools = rt_tools rt, wc_adds = ag_adds a\<rparr>)
    (sm_then (applyMounts w)
    (sm_then (stampBinSymlinks w a)
    (installToolDocs w a)))))"

definition build_step :: "'s workspace \<Rightarrow> Agentfile \<Rightarrow> Agent \<Rightarrow> string \<Rightarrow> string \<Rightarrow> ('s, Runtime) wm" where
  "build_step w af a ident addr s = (buildRuntime w (w_mounts s) af a ident addr, s)"

definition materializeContent :: "'s workspace \<Rightarrow> string \<Rightarrow> string \<Rightarrow> ('s, Runtime \<times> Agent) wm" where
  "materializeContent w ident addr =
    sm_bind (load_checked w) (\<lambda>(manifest, af0).
    sm_bind (sm_lift (run_panic (Apply (wk_overrides w) af0))) (\<lambda>af.
    sm_bind (sm_lift (case af_agent af of None \<Rightarrow> Inl (WPanic NilDeref) | Some a \<Rightarrow> Inr a)) (\<lambda>a.
    sm_then (set_mounts (ag_mounts a))
    (sm_then (write_tree w manifest a ident)
    (sm_bind (build_step w af a ident addr) (\<lambda>rt.
    (sm_then (finish_tree w a rt) (sm_return (rt, a)))))))))"

definition materialize :: "'s workspace \<Rightarrow> string \<Rightarrow> string \<Rightarrow> ('s, Runtime) wm" where
  "materialize w ident addr =
    sm_bind (materializeContent w ident addr) (\<lambda>(rt, a).
    sm_then (sm_err as_pull (installRuntime w a))
    (sm_then (sm_err as_pull (installTools w a)) (sm_return rt)))"

section \<open>Mount targets\<close>

lemma mountLinkPath_iff:
  assumes "rooted root"
  shows "mountLinkPath root target =
    (if TrimPrefix target ''/'' = [] then Inl (WMountEmpty target)
     else if inside root (JoinPath [root, TrimPrefix target ''/''])
     then Inr (JoinPath [root, TrimPrefix target ''/'']) else Inl (WMountEscape target))"
proof -
  let ?rel = "TrimPrefix target ''/''" and ?link = "JoinPath [root, TrimPrefix target ''/'']"
  have ne: "root \<noteq> []" using assms by (auto simp: rooted_def)
  have "rooted ?link" using JoinPath_rooted [OF ne] assms by simp
  then obtain x where "Rel root ?link = Some x" "escapes x \<longleftrightarrow> \<not> inside root ?link"
    using Rel_rooted [OF assms] by blast
  then show ?thesis by (auto simp: mountLinkPath_def Let_def escapes_def)
qed


section \<open>Confinement\<close>

text \<open>The operations that stay in the agent's tree: on the chrooted file system, relative
  paths without dot-dot; on the host, the paths at or below the root.  Creating the parent
  of a link that is the root itself is the one call above it.\<close>

fun op_ok :: "string \<Rightarrow> fsop \<Rightarrow> bool" where
  "op_ok root (MkdirAll p) = local_path p"
| "op_ok root (WriteFile p x) = local_path p"
| "op_ok root (OpenBin p) = local_path p"
| "op_ok root (HostMkdirAll p) = (inside root p \<or> p = path_Dir (Clean root))"
| "op_ok root (HostRemove p) = inside root p"
| "op_ok root (HostSymlink target p) = inside root p"

definition confined :: "string \<Rightarrow> 's wstate \<Rightarrow> bool" where
  "confined root s \<longleftrightarrow> list_all (op_ok root) (w_log s)"

lemma keeps_fs_op [keeps_intro]: "op_ok root op \<Longrightarrow> keeps (confined root) (fs_op w op)"
  by (simp add: keeps_def confined_def fs_op_def)

lemma keeps_fs_try [keeps_intro]: "op_ok root op \<Longrightarrow> keeps (confined root) (fs_try op)"
  by (simp add: keeps_def confined_def fs_try_def)

lemma keeps_on_store [keeps_intro]: "keeps (confined root) (on_store f m)"
  by (simp add: keeps_def confined_def on_store_def split: prod.splits sum.splits)

lemma keeps_fail [keeps_intro]: "keeps P (fail e)"
  by (simp add: fail_def)

lemma keeps_state_only [keeps_intro]:
  "keeps (confined root) (set_mounts ms)" "keeps (confined root) (fill_bindirs w rt)"
  "keeps (confined root) (build_step w af a ident addr)"
  by (simp_all add: keeps_def confined_def set_mounts_def fill_bindirs_def build_step_def split: option.splits)

lemma local_dirs [simp]:
  "local_path contextDir" "local_path dataDir" "local_path binDir" "local_path runtimeBinDir"
  by (simp_all add: contextDir_def dataDir_def binDir_def runtimeBinDir_def local_JoinPath local_elem plain_literals)

lemma local_files [simp]:
  "local_path RuntimeBin" "local_path (JoinPath [''etc'', ''Agentfile''])" "local_path (JoinPath [''opt'', ''bins''])"
  "local_path (JoinPath [contextDir, ''AGENT.md''])" "local_path (JoinPath [contextDir, ''WORKSPACE.md''])"
  "local_path (JoinPath [contextDir, ''MOUNTS.md''])"
  by (simp_all add: RuntimeBin_def local_JoinPath local_elem plain_literals)

lemma local_runtimeFile [simp]: "local_path runtimeFile"
proof -
  have e: "runtimeFile = JoinPath [''etc'', ''agent.yaml'']" by code_simp
  show ?thesis unfolding e by (rule local_JoinPath) (simp_all add: local_elem plain_literals)
qed

lemma local_fhsDirs: "d \<in> set fhsDirs \<Longrightarrow> local_path d"
  by (auto simp: fhsDirs_def local_JoinPath local_elem plain_literals)

lemma local_usage:
  assumes "IsPathSafeName n"
  shows "local_path (usage_path n)" "local_path (path_Dir (usage_path n))"
proof -
  have n: "plain_elem n" by (rule path_safe_plain [OF assms])
  show l: "local_path (usage_path n)" by (simp add: usage_path_def local_JoinPath n plain_literals)
  have ne: "dataDir \<noteq> []" by (rule local_path_nonempty) simp
  have "elems (usage_path n) = elems dataDir @ [''bins'', n, ''USAGE.md'']"
    unfolding usage_path_def by (rule JoinPath_plain(1) [OF ne]) (simp_all add: n plain_literals)
  then show "local_path (path_Dir (usage_path n))"
    using l ne by (intro local_path_Dir) (simp_all add: usage_path_def)
qed

definition safe_bins :: "Agent \<Rightarrow> bool" where
  "safe_bins a \<longleftrightarrow> (\<forall>t \<in> set (ag_bins a). IsPathSafeName (bin_name t))"

lemma keeps_layers [keeps_intro]: "keeps (confined root) (extractLayers w manifest)"
proof -
  have "keeps (confined root) (extract_titled w d layer)" if "local_path d" for d layer
    unfolding extract_titled_def using that path_safe_plain [of "title layer"]
    by (auto intro!: keeps_intro simp: local_JoinPath)
  then show ?thesis
    unfolding extractLayers_def extractTitledLayers_def extract_agentfile_def
    by (auto intro!: keeps_intro)
qed

lemma keeps_mounts [keeps_intro]:
  assumes "rooted (wk_root w)"
  shows "keeps (confined (wk_root w)) (applyMounts w)"
proof -
  let ?r = "wk_root w"
  have ne: "?r \<noteq> []" using assms by (auto simp: rooted_def)
  have link: "inside ?r l \<and> op_ok ?r (HostMkdirAll (path_Dir l))" if "mountLinkPath ?r t = Inr l" for t l
  proof -
    have l: "l = JoinPath [?r, TrimPrefix t ''/'']" and ins: "inside ?r l"
      using that mountLinkPath_iff [OF assms, of t] by (auto split: if_splits)
    have c: "Clean l = l" using ne by (simp add: l)
    have "path_Dir l = path_Dir (Clean ?r) \<or> inside ?r (path_Dir l)"
    proof (cases "strictly_inside ?r l")
      case True
      then show ?thesis using path_Dir_inside [OF True assms c] by simp
    next
      case False
      then have "elems l = elems ?r" "rooted l" using ins assms by (auto simp: inside_def)
      then have "l = Clean ?r" using c Clean_rooted [of l] Clean_rooted [OF assms] by simp
      then show ?thesis by simp
    qed
    then show ?thesis using ins by auto
  qed
  have am: "keeps (confined ?r) (apply_mount w m)" for m
    unfolding apply_mount_def
  proof (rule keeps_bind_if)
    fix s l s1 assume "sm_lift (mountLinkPath ?r (mnt_target m)) s = (Inr l, s1)"
    then have "mountLinkPath ?r (mnt_target m) = Inr l" by simp
    from link [OF this] show "keeps (confined ?r) (sm_then (fs_op w (HostMkdirAll (path_Dir l)))
        (sm_then (fs_try (HostRemove l)) (fs_op w (HostSymlink (mnt_host m) l))))"
      by (intro keeps_intro) auto
  qed (intro keeps_intro)
  have "keeps (confined ?r) (sm_then (sm_each (apply_mount w) ms)
      (fs_op w (WriteFile (JoinPath [contextDir, ''MOUNTS.md'']) x)))" for ms x
    by (intro keeps_intro am) simp
  then show ?thesis
    unfolding keeps_def applyMounts_def Let_def fail_def sm_lift_def sm_return_def by auto
qed

lemma keeps_stamp [keeps_intro]:
  assumes "rooted (wk_root w)" "safe_bins a"
  shows "keeps (confined (wk_root w)) (stampBinSymlinks w a)"
proof -
  let ?r = "wk_root w" and ?d = "JoinPath [wk_root w, ''opt'', ''bins'']"
  have ne: "?r \<noteq> []" using assms by (auto simp: rooted_def)
  have d: "strictly_inside ?r ?d" by (rule JoinPath_inside [OF ne]) (simp_all add: plain_literals)
  have "inside ?r (JoinPath [?d, bin_name t])" if "t \<in> set (ag_bins a)" for t
    using inside_extend [OF d JoinPath_nonempty [OF ne]] path_safe_plain that assms(2)
    by (simp add: inside_def safe_bins_def)
  then have "keeps (confined ?r) (stamp_bin w hook ?d t)" if "t \<in> set (ag_bins a)" for hook t
    unfolding stamp_bin_def Let_def using that by (auto intro!: keeps_intro split: option.splits)
  then show ?thesis
    unfolding stampBinSymlinks_def Let_def using d ne
    by (auto intro!: keeps_intro simp: inside_def split: option.splits)
qed

lemma keeps_docs [keeps_intro]:
  assumes "safe_bins a"
  shows "keeps (confined root) (installToolDocs w a)"
proof -
  have "keeps (confined root) (install_doc w f t)" if "t \<in> set (ag_bins a)" for f t
    unfolding install_doc_def Let_def using that assms local_usage [of "bin_name t"]
    by (auto intro!: keeps_intro simp: safe_bins_def split: sum.splits)
  then show ?thesis unfolding installToolDocs_def by (auto intro!: keeps_intro split: option.splits)
qed

lemma keeps_install [keeps_intro]:
  "keeps (confined root) (installRuntime w a)"
  "safe_bins a \<Longrightarrow> keeps (confined root) (installTools w a)"
proof -
  have pull: "keeps (confined root) (pullBin w ref dest)" if "local_path dest" for ref dest
    unfolding pullBin_def using that by (auto intro!: keeps_intro split: sum.splits)
  have copy: "keeps (confined root) (copyLocalFile w src dest)" if "local_path dest" for src dest
    unfolding copyLocalFile_def using that by (auto intro!: keeps_intro split: sum.splits)
  show "keeps (confined root) (installRuntime w a)"
    unfolding installRuntime_def by (auto intro!: keeps_intro pull copy)
  show "keeps (confined root) (installTools w a)" if "safe_bins a"
    unfolding installTools_def using that path_safe_plain
    by (auto intro!: keeps_intro pull simp: safe_bins_def local_JoinPath)
qed

lemma keeps_write [keeps_intro]:
  "keeps (confined root) (WriteTo w rt)" "keeps (confined root) (writeWorkspaceContext w content)"
  unfolding WriteTo_def
  by (auto intro!: keeps_intro) (auto simp: keeps_def writeWorkspaceContext_def Let_def confined_def fs_op_def)

lemma keeps_trees [keeps_intro]:
  assumes "rooted (wk_root w)" "safe_bins a"
  shows "keeps (confined (wk_root w)) (write_tree w manifest a ident)"
    and "keeps (confined (wk_root w)) (finish_tree w a rt)"
  unfolding write_tree_def finish_tree_def
  by (auto intro!: keeps_intro assms local_fhsDirs)

end
