(* ===== verification/Workspace_Correct.thy ===== *)
theory Workspace_Correct
  imports Workspace
begin

text \<open>
  What materialisation guarantees for an artifact that nobody vouches for: all
  file-system calls stay in the agent's tree, nothing is touched before the
  artifact is validated, success means that every gate was passed, mounts
  cannot be placed outside the root, and the context list is unambiguous.
\<close>


section \<open>Overrides and binaries\<close>

definition safe_file :: "Agentfile \<Rightarrow> bool" where
  "safe_file af \<longleftrightarrow> (\<forall>a. af_agent af = Some a \<longrightarrow> safe_bins a)"

text \<open>An override that does not rename binaries to unsafe names.\<close>

definition keeps_bins :: "Override \<Rightarrow> bool" where
  "keeps_bins f \<longleftrightarrow> (\<forall>af af'. safe_file af \<longrightarrow> f af = Inr af' \<longrightarrow> safe_file af')"

lemma update_agent_keeps_bins:
  "(\<And>a. ag_bins (f a) = ag_bins a) \<Longrightarrow> update_agent f af = Inr af' \<Longrightarrow> safe_file af \<Longrightarrow> safe_file af'"
  by (auto simp: update_agent_def safe_file_def safe_bins_def split: option.splits)

lemma keeps_binsI: "(\<And>af af'. safe_file af \<Longrightarrow> f af = Inr af' \<Longrightarrow> safe_file af') \<Longrightarrow> keeps_bins f"
  by (auto simp: keeps_bins_def)

lemma overrides_keep_bins:
  "keeps_bins (WithRuntime r)" "keeps_bins (WithModel m)" "keeps_bins (WithMounts ms)"
  "keeps_bins (WithExtraEnvs es)" "keeps_bins (WithConfig vs)"
proof -
  note upd = update_agent_keeps_bins [rotated]
  show "keeps_bins (WithRuntime r)" by (rule keeps_binsI) (auto simp: WithRuntime_def elim: upd)
  show "keeps_bins (WithModel m)" by (rule keeps_binsI) (auto simp: WithModel_def elim: upd)
  show "keeps_bins (WithMounts ms)" by (rule keeps_binsI) (auto simp: WithMounts_def elim: upd split: if_splits)
  show "keeps_bins (WithExtraEnvs es)" by (rule keeps_binsI) (auto simp: WithExtraEnvs_def elim: upd split: if_splits)
  show "keeps_bins (WithConfig vs)" by (rule keeps_binsI) (auto simp: WithConfig_def elim: upd split: if_splits)
qed

lemma Apply_keeps_bins:
  assumes "\<forall>f \<in> set fs. keeps_bins f" "safe_file af" "Apply fs af = Inr af'"
  shows "safe_file af'"
  using assms unfolding Apply_def
proof (induction fs arbitrary: af)
  case (Cons f fs)
  obtain af1 where f: "f af = Inr af1" "fold_res (\<lambda>f a. f a) fs af1 = Inr af'"
    using Cons.prems(3) by (auto split: sum.splits)
  have "keeps_bins f" using Cons.prems(1) by simp
  then have "safe_file af1" using Cons.prems(2) f(1) unfolding keeps_bins_def by blast
  then show ?case using Cons.IH [of af1] Cons.prems(1) f(2) by simp
qed simp

lemma run_panic_Inr [simp]: "run_panic r = Inr a \<longleftrightarrow> r = Inr a"
  by (cases r) (simp_all add: run_panic_def)

lemma opt_Inr [simp]: "(case x of None \<Rightarrow> Inl e | Some a \<Rightarrow> Inr a) = Inr b \<longleftrightarrow> x = Some b"
  by (cases x) simp_all

lemma validated_safe: "Validate (Some af) = None \<Longrightarrow> safe_file af"
  by (auto simp: Validate_def safe_file_def safe_bins_def validate_agent_None well_formed_agent_def split: option.splits)

lemma load_checked_Inr:
  "load_checked w s = (Inr (manifest, af), s') \<Longrightarrow> Validate (Some af) = None \<and> w_log s' = w_log s \<and> w_mounts s' = w_mounts s"
  by (auto simp: load_checked_def sm_bind_Inr on_store_def split: prod.splits sum.splits option.splits)

lemma keeps_load_checked [keeps_intro]: "keeps (confined root) (load_checked w)"
  unfolding load_checked_def by (auto intro!: keeps_intro split: prod.splits)

lemma keeps_materializeContent:
  assumes "rooted (wk_root w)" "\<forall>f \<in> set (wk_overrides w). keeps_bins f"
  shows "keeps (confined (wk_root w)) (materializeContent w ident addr)"
  unfolding materializeContent_def
proof (rule keeps_bind_if, rule keeps_load_checked)
  fix s p s1 assume l: "load_checked w s = (Inr p, s1)"
  obtain manifest af0 where p: "p = (manifest, af0)" by (cases p)
  have safe0: "safe_file af0" using validated_safe load_checked_Inr l p by blast
  have rest: "keeps (confined (wk_root w)) (sm_then (set_mounts (ag_mounts a))
    (sm_then (write_tree w manifest a ident)
    (sm_bind (build_step w af a ident addr) (\<lambda>rt. (sm_then (finish_tree w a rt) (sm_return (rt, a)))))))"
    if "safe_bins a" for af a
    using that assms(1) by (intro keeps_intro)
  show "keeps (confined (wk_root w)) (case p of (manifest, af0) \<Rightarrow>
    sm_bind (sm_lift (run_panic (Apply (wk_overrides w) af0))) (\<lambda>af.
    sm_bind (sm_lift (case af_agent af of None \<Rightarrow> Inl (WPanic NilDeref) | Some a \<Rightarrow> Inr a)) (\<lambda>a.
    sm_then (set_mounts (ag_mounts a))
    (sm_then (write_tree w manifest a ident)
    (sm_bind (build_step w af a ident addr) (\<lambda>rt.
    (sm_then (finish_tree w a rt) (sm_return (rt, a)))))))))"
    unfolding p prod.case
  proof (rule keeps_bind_if [OF keeps_lift], rule keeps_bind_if [OF keeps_lift])
    fix s2 s3 af s4 s5 a
    assume "sm_lift (run_panic (Apply (wk_overrides w) af0)) s2 = (Inr af, s3)"
      and a: "sm_lift (case af_agent af of None \<Rightarrow> Inl (WPanic NilDeref) | Some a \<Rightarrow> Inr a) s4 = (Inr a, s5)"
    then have "Apply (wk_overrides w) af0 = Inr af" by simp
    then have "safe_file af" using Apply_keeps_bins [OF assms(2) safe0] by blast
    then have "safe_bins a" using a by (simp add: safe_file_def)
    then show "keeps (confined (wk_root w)) (sm_then (set_mounts (ag_mounts a))
      (sm_then (write_tree w manifest a ident)
      (sm_bind (build_step w af a ident addr) (\<lambda>rt. (sm_then (finish_tree w a rt) (sm_return (rt, a)))))))"
      by (rule rest)
  qed
qed

text \<open>The agent a successful materialisation works on.\<close>

lemma materializeContent_Inr:
  assumes "materializeContent w ident addr s = (Inr (rt, a), s')"
  shows "\<exists>manifest af0 af s1 s2. load_checked w s = (Inr (manifest, af0), s1) \<and>
    Apply (wk_overrides w) af0 = Inr af \<and> af_agent af = Some a \<and>
    write_tree w manifest a ident (s1\<lparr>w_mounts := mergeMounts (w_mounts s1) (ag_mounts a)\<rparr>) = (Inr (), s2) \<and>
    buildRuntime w (w_mounts s2) af a ident addr = Inr rt \<and> finish_tree w a rt s2 = (Inr (), s')"
  using assms
  by (fastforce simp: materializeContent_def sm_bind_Inr sm_then_Inr build_step_def set_mounts_def)

lemma materialize_safe_bins:
  assumes "materializeContent w ident addr s = (Inr (rt, a), s')" "\<forall>f \<in> set (wk_overrides w). keeps_bins f"
  shows "safe_bins a"
proof -
  obtain manifest af0 af s1 where l: "load_checked w s = (Inr (manifest, af0), s1)"
    "Apply (wk_overrides w) af0 = Inr af" "af_agent af = Some a"
    using materializeContent_Inr [OF assms(1)] by blast
  have "safe_file af0" using load_checked_Inr [OF l(1)] validated_safe by blast
  then have "safe_file af" using Apply_keeps_bins [OF assms(2) _ l(2)] by blast
  then show ?thesis using l(3) by (simp add: safe_file_def)
qed

lemma sm_each_all:
  assumes "sm_each f xs s = (Inr ys, s')" "x \<in> set xs"
  shows "\<exists>s1 y s2. f x s1 = (Inr y, s2)"
  using assms by (induction xs arbitrary: s ys) (auto simp: sm_bind_Inr)

lemma titled_layers_safe:
  assumes "extractTitledLayers w manifest m d s = (Inr (), s')" "l \<in> set (Layers manifest m)"
  shows "title l = [] \<or> IsPathSafeName (title l)"
proof -
  obtain s1 s2 where "extract_titled w d l s1 = (Inr (), s2)"
    using assms sm_each_all [of "extract_titled w d" "Layers manifest m"] by (fastforce simp: extractTitledLayers_def sm_then_Inr)
  then show ?thesis by (auto simp: extract_titled_def fail_def split: if_splits)
qed


section \<open>An example workspace\<close>

text \<open>A store that holds one artifact; the manifest and the agentfile are what the codec
  reads, the file system accepts every call.\<close>

definition demo_blob :: "string \<Rightarrow> Descriptor" where
  "demo_blob g = \<lparr>dc_media = [], dc_digest = g, dc_size = 0, dc_annotations = fmempty, dc_platform = None\<rparr>"

definition demo_target :: "unit target" where
  "demo_target =
    \<lparr>tg_Resolve = (\<lambda>r s. (Inr (demo_blob ''m''), s)), tg_Fetch = (\<lambda>d s. Inr (dc_digest d)),
     tg_Push = (\<lambda>d x s. (None, s)), tg_Tag = (\<lambda>d r s. (None, s))\<rparr>"

definition demo_layer :: "string \<Rightarrow> string \<Rightarrow> Descriptor" where
  "demo_layer media t = (demo_blob ''L'')\<lparr>dc_media := media, dc_annotations := fmupd AnnotationTitle t fmempty\<rparr>"

definition demo_manifest :: "string \<Rightarrow> Manifest" where
  "demo_manifest t =
    \<lparr>mf_media = [], mf_artifact = [], mf_config = demo_blob ''c'', mf_layers = [demo_layer OctetStream t],
     mf_annotations = fmempty\<rparr>"

definition demo_agent :: Agent where
  "demo_agent = newAgent\<lparr>ag_from := ''scratch'', ag_name := ''bot'',
     ag_configs := [\<lparr>cfg_key = ''k'', cfg_value = None, cfg_description = [], cfg_required = True\<rparr>]\<rparr>"

definition demo_workspace :: "string \<Rightarrow> unit workspace" where
  "demo_workspace t =
    \<lparr>wk_store = demo_target, wk_ref = ParseReference ''bot:1'', wk_overrides = [WithConfig (fmupd ''k'' ''v'' fmempty)],
     wk_puller = (\<lambda>_. Inr ''x''), wk_usage = None, wk_model = None, wk_digest = None, wk_image = [], wk_local = [],
     wk_tool_path = None, wk_capabilities = [], wk_symlink_bin = None,
     wk_view = \<lparr>wv_root = [], wv_workspace = [], wv_bindirs = [], wv_runtime = [], wv_isolated = False\<rparr>,
     wk_view_bins = None, wk_root = ''/r'',
     wk_codec = demo_codec\<lparr>cd_dec_manifest := (\<lambda>_. Inr (demo_manifest t)),
       cd_dec_agentfile := (\<lambda>_. Inr \<lparr>af_syntax = DefaultSyntax, af_agent = Some demo_agent\<rparr>)\<rparr>,
     wk_fs = (\<lambda>_ _. None), wk_host_read = (\<lambda>_. Inl ''no''), wk_yaml = (\<lambda>_. Inr ''y''), wk_float = (\<lambda>_. [])\<rparr>"

definition demo_state :: "unit wstate" where
  "demo_state = \<lparr>w_store = (), w_mounts = [], w_bindirs = [], w_log = []\<rparr>"


section \<open>Properties\<close>



section \<open>Gates\<close>

lemma buildRuntime_Inr:
  "buildRuntime w ms af a ident addr = Inr rt \<Longrightarrow>
     RequiredConfigsProvided (ag_configs a) = None \<and> rt_configs rt = configsFromSpec (wk_float w) (ag_configs a) \<and>
     rt_context rt = contextEntries (ag_contexts a) (ms \<noteq> []) \<and> rt_tools rt = map (resolved_tool w) (ag_bins a) \<and>
     rt_mounts rt = mountsToSpec ms"
  by (auto simp: buildRuntime_def split: option.splits sum.splits prod.splits)

lemma write_tree_layers:
  assumes "write_tree w manifest a ident s = (Inr (), s')" "l \<in> set (mf_layers manifest)"
    "dc_media l = ContextLayerMediaType \<or> dc_media l = OctetStream"
  shows "title l = [] \<or> IsPathSafeName (title l)"
proof -
  obtain s1 s2 s3 where "extractTitledLayers w manifest ContextLayerMediaType contextDir s1 = (Inr (), s2)"
    "extractTitledLayers w manifest OctetStream dataDir s2 = (Inr (), s3)"
    using assms(1) by (fastforce simp: write_tree_def extractLayers_def sm_then_Inr)
  then show ?thesis
    using titled_layers_safe [of w manifest] assms(2,3) by (fastforce simp: Layers_def)
qed

text \<open>C11: no artifact runs without passing the gates.  An agentfile that fails validation is
  refused as a configuration failure before a single file-system call; when
  materialisation succeeds, the loaded file was valid, the overrides were applied to it,
  every required CONFIG had a value, every titled layer had a path-safe title, and the
  descriptor lists the tools, contexts and configs of the overridden agent.\<close>

theorem materialize_gates:
  "(\<forall>manifest af0 t e. Load (wk_codec w) (wk_store w) (wk_ref w) (w_store s) = (Inr (manifest, af0), t) \<and> Validate (Some af0) = Some e \<longrightarrow>
      materialize w ident addr s = (Inl (WInvalid e), s\<lparr>w_store := t\<rparr>) \<and> failureReasonFor (WInvalid e) = FailureConfig) \<and>
   (\<forall>rt s'. materialize w ident addr s = (Inr rt, s') \<longrightarrow>
      (\<exists>manifest af0 t af a. Load (wk_codec w) (wk_store w) (wk_ref w) (w_store s) = (Inr (manifest, af0), t) \<and>
        Validate (Some af0) = None \<and> Apply (wk_overrides w) af0 = Inr af \<and> af_agent af = Some a \<and>
        RequiredConfigsProvided (ag_configs a) = None \<and>
        (\<forall>l \<in> set (mf_layers manifest). dc_media l = ContextLayerMediaType \<or> dc_media l = OctetStream \<longrightarrow>
           title l = [] \<or> IsPathSafeName (title l)) \<and>
        rt_configs rt = configsFromSpec (wk_float w) (ag_configs a) \<and> rt_tools rt = map (resolved_tool w) (ag_bins a) \<and>
        rt_context rt = contextEntries (ag_contexts a) (rt_mounts rt \<noteq> [])))"
  (is "?refused \<and> (\<forall>rt s'. _ \<longrightarrow> ?passed rt)")
proof (intro conjI allI impI)
  show "materialize w ident addr s = (Inl (WInvalid e), s\<lparr>w_store := t\<rparr>)"
    "failureReasonFor (WInvalid e) = FailureConfig"
    if "Load (wk_codec w) (wk_store w) (wk_ref w) (w_store s) = (Inr (manifest, af0), t) \<and> Validate (Some af0) = Some e"
    for manifest af0 t e
    using that
    by (simp_all add: materialize_def materializeContent_def load_checked_def on_store_def sm_defs failureReasonFor_def)
  fix rt s' assume "materialize w ident addr s = (Inr rt, s')"
  then obtain a s2 where c: "materializeContent w ident addr s = (Inr (rt, a), s2)"
    by (auto simp: materialize_def sm_bind_Inr sm_then_Inr)
  obtain manifest af0 af s1 s3 where l: "load_checked w s = (Inr (manifest, af0), s1)"
    "Apply (wk_overrides w) af0 = Inr af" "af_agent af = Some a"
    and tree: "write_tree w manifest a ident (s1\<lparr>w_mounts := mergeMounts (w_mounts s1) (ag_mounts a)\<rparr>) = (Inr (), s3)"
    and rt: "buildRuntime w (w_mounts s3) af a ident addr = Inr rt"
    using materializeContent_Inr [OF c] by blast
  obtain t where ld: "Load (wk_codec w) (wk_store w) (wk_ref w) (w_store s) = (Inr (manifest, af0), t)" "Validate (Some af0) = None"
    using l(1) by (auto simp: load_checked_def sm_bind_Inr on_store_def split: prod.splits sum.splits option.splits)
  have "(w_mounts s3 \<noteq> []) = (rt_mounts rt \<noteq> [])" using buildRuntime_Inr [OF rt] by (simp add: mountsToSpec_def)
  then show "?passed rt"
    using ld l(2,3) buildRuntime_Inr [OF rt]
    by (intro exI [of _ manifest] exI [of _ af0] exI [of _ t] exI [of _ af] exI [of _ a] conjI ballI impI
        write_tree_layers [OF tree]) simp_all
qed

lemma demo_configs: "with_config (fmupd ''k'' ''v'' fmempty) (ag_configs demo_agent) =
    [\<lparr>cfg_key = ''k'', cfg_value = Some (VString ''v''), cfg_description = [], cfg_required = True\<rparr>]"
  by code_simp

lemma demo_valid: "Validate (Some \<lparr>af_syntax = DefaultSyntax, af_agent = Some demo_agent\<rparr>) = None"
  by code_simp

lemma demo_load:
  "load_checked (demo_workspace t) demo_state =
     (Inr (demo_manifest t, \<lparr>af_syntax = DefaultSyntax, af_agent = Some demo_agent\<rparr>), demo_state)"
  by (simp add: load_checked_def on_store_def Load_def load_manifest_def fetchBytes_def sm_defs demo_valid
      demo_workspace_def demo_target_def demo_state_def)

lemma demo_fs: "fs_op (demo_workspace t) op s = (Inr (), s\<lparr>w_log := w_log s @ [op]\<rparr>)"
  by (simp add: fs_op_def demo_workspace_def)

text \<open>A computation that succeeds from every state with a property and keeps it.\<close>

definition total :: "('s \<Rightarrow> bool) \<Rightarrow> ('s, 'e, 'a) sm \<Rightarrow> bool" where
  "total P m \<longleftrightarrow> (\<forall>s. P s \<longrightarrow> (\<exists>a s'. m s = (Inr a, s') \<and> P s'))"

lemma total_return: "total P (sm_return a)"
  by (simp add: total_def sm_return_def)

lemma total_bind: "total P m \<Longrightarrow> (\<And>a. total P (f a)) \<Longrightarrow> total P (sm_bind m f)"
  unfolding total_def by (metis sm_bind_Inr)

lemma total_then: "total P m \<Longrightarrow> total P n \<Longrightarrow> total P (sm_then m n)"
  by (simp add: sm_then_def total_bind)

lemma total_err: "total P m \<Longrightarrow> total P (sm_err g m)"
  by (simp add: total_def)

lemma total_each: "(\<And>x. x \<in> set xs \<Longrightarrow> total P (h x)) \<Longrightarrow> total P (sm_each h xs)"
  by (induction xs) (simp_all add: total_bind total_return)

lemmas total_rules = total_return total_bind total_then total_err total_each

lemma demo_layers:
  "Layers (demo_manifest ''d.csv'') AgentfileMediaType = []" "Layers (demo_manifest ''d.csv'') ContextLayerMediaType = []"
  "Layers (demo_manifest ''d.csv'') OctetStream = [demo_layer OctetStream ''d.csv'']"
  by code_simp+

lemma demo_titled: "extract_titled (demo_workspace t) d (demo_layer OctetStream ''d.csv'') =
    fs_op (demo_workspace t) (WriteFile (JoinPath [d, ''d.csv'']) ''L'')"
proof -
  have "title (demo_layer OctetStream ''d.csv'') = ''d.csv''" "IsPathSafeName ''d.csv''" by code_simp+
  then show ?thesis
    by (simp add: fun_eq_iff extract_titled_def on_store_def FetchLayer_def fetchBytes_def sm_defs)
      (simp add: fs_op_def demo_workspace_def demo_target_def demo_layer_def demo_blob_def)
qed

text \<open>On a file system that accepts every call, with the layers extracted and no mounts, the
  rest of the materialisation succeeds.\<close>

lemma total_tree:
  fixes w :: "'s workspace"
  defines "P \<equiv> (\<lambda>s :: 's wstate. w_mounts s = [])"
  assumes fs: "wk_fs w = (\<lambda>_ _. None)" and layers: "total P (extractLayers w manifest)"
    and w: "wk_yaml w = (\<lambda>_. Inr y)" "wk_usage w = None" "wk_root w \<noteq> []"
  shows "total P (write_tree w manifest a ident)" "total P (finish_tree w a rt)"
proof -
  have op: "total P (fs_op w op)" "total P (fs_try op)" for op by (simp_all add: total_def fs_op_def fs_try_def fs P_def)
  show "total P (write_tree w manifest a ident)" by (auto simp: write_tree_def intro!: total_rules op layers)
  have "total P (applyMounts w)" by (simp add: total_def P_def applyMounts_def sm_return_def)
  moreover have "total P (fill_bindirs w rt)" "total P (writeWorkspaceContext w content)" "total P (WriteTo w rt)" for content
    by (auto simp: total_def P_def fill_bindirs_def writeWorkspaceContext_def WriteTo_def w Let_def sm_defs fs_op_def fs split: option.splits)
  moreover have "total P (stamp_bin w hook d t)" for hook d t
    by (auto simp: stamp_bin_def Let_def intro!: total_rules op split: option.splits)
  then have "total P (stampBinSymlinks w a)"
    by (auto simp: stampBinSymlinks_def Let_def w intro!: total_rules op split: option.splits)
  moreover have "total P (installToolDocs w a)" by (simp add: installToolDocs_def w total_return)
  ultimately show "total P (finish_tree w a rt)" by (simp add: finish_tree_def total_rules)
qed

lemma demo_tree:
  fixes a :: Agent
  defines "w \<equiv> demo_workspace ''d.csv''" and "P \<equiv> (\<lambda>s :: unit wstate. w_mounts s = [])"
  assumes "ag_bins a = []" "ag_runtime a = []"
  shows "total P (write_tree w (demo_manifest ''d.csv'') a ident)" "total P (finish_tree w a rt)"
    "total P (installRuntime w a)" "total P (installTools w a)"
proof -
  have fs: "total P (fs_op w op)" for op by (simp add: total_def demo_fs w_def P_def)
  have layers: "total P (extractLayers w (demo_manifest ''d.csv''))"
    by (simp add: extractLayers_def extractTitledLayers_def demo_layers)
      (auto intro!: total_rules simp: demo_titled w_def fs [unfolded w_def])
  show "total P (write_tree w (demo_manifest ''d.csv'') a ident)" "total P (finish_tree w a rt)"
    using total_tree [OF _ layers [unfolded P_def]] by (simp_all add: w_def P_def demo_workspace_def)
  show "total P (installRuntime w a)" "total P (installTools w a)"
    by (simp_all add: installRuntime_def installTools_def assms(3,4) w_def demo_workspace_def total_rules)
qed

definition demo_deployed :: Agent where
  "demo_deployed = demo_agent\<lparr>ag_configs := [\<lparr>cfg_key = ''k'', cfg_value = Some (VString ''v''), cfg_description = [], cfg_required = True\<rparr>]\<rparr>"

lemma demo_deployed_facts:
  "ag_bins demo_deployed = []" "ag_runtime demo_deployed = []" "ag_mounts demo_deployed = []"
  "RequiredConfigsProvided (ag_configs demo_deployed) = None"
  by (simp_all add: demo_deployed_def demo_agent_def newAgent_def) code_simp

lemma demo_applied:
  "Apply (wk_overrides (demo_workspace t)) \<lparr>af_syntax = DefaultSyntax, af_agent = Some demo_agent\<rparr> =
     Inr \<lparr>af_syntax = DefaultSyntax, af_agent = Some demo_deployed\<rparr>"
  by (simp add: demo_workspace_def Apply_def WithConfig_def demo_configs demo_deployed_def)

lemma demo_materializes: "\<exists>rt s'. materialize (demo_workspace ''d.csv'') ''id'' ''addr'' demo_state = (Inr rt, s')"
proof -
  let ?w = "demo_workspace ''d.csv''" and ?P = "\<lambda>s :: unit wstate. w_mounts s = []" and ?a = demo_deployed
  let ?rest = "sm_then (set_mounts (ag_mounts ?a)) (sm_then (write_tree ?w (demo_manifest ''d.csv'') ?a ''id'')
      (sm_bind (build_step ?w \<lparr>af_syntax = DefaultSyntax, af_agent = Some ?a\<rparr> ?a ''id'' ''addr'') (\<lambda>rt.
      (sm_then (finish_tree ?w ?a rt) (sm_return (rt, ?a))))))"
  note tot = demo_tree [OF demo_deployed_facts(1,2)]
  have "total ?P (build_step ?w af ?a ''id'' ''addr'')" for af
    by (simp add: total_def build_step_def buildRuntime_def demo_deployed_facts) (simp add: demo_workspace_def)
  moreover have "total ?P (set_mounts [])" by (simp add: total_def set_mounts_def mergeMounts_def)
  ultimately have "total ?P ?rest" unfolding demo_deployed_facts(3) by (intro total_rules tot)
  moreover have "?P demo_state" by (simp add: demo_state_def)
  moreover have "materializeContent ?w ''id'' ''addr'' demo_state = ?rest demo_state"
    by (simp add: materializeContent_def sm_bind_def demo_load demo_applied run_panic_def sm_lift_def)
  ultimately obtain rt a s1 where c: "materializeContent ?w ''id'' ''addr'' demo_state = (Inr (rt, a), s1)" "?P s1"
    unfolding total_def by fastforce
  have "a = ?a" using materializeContent_Inr [OF c(1)] by (auto simp: demo_load demo_applied)
  moreover have "total ?P (sm_then (sm_err as_pull (installRuntime ?w ?a))
      (sm_then (sm_err as_pull (installTools ?w ?a)) (sm_return rt)))"
    by (intro total_rules tot)
  ultimately obtain y s2 where "sm_then (sm_err as_pull (installRuntime ?w a))
      (sm_then (sm_err as_pull (installTools ?w a)) (sm_return rt)) s1 = (Inr y, s2)"
    using c(2) unfolding total_def by blast
  then show ?thesis using c(1) by (auto simp: materialize_def sm_bind_Inr)
qed

text \<open>The required key of the example arrives through an override.\<close>

theorem materialize_gates_witness:
  "\<exists>rt s'. materialize (demo_workspace ''d.csv'') ''id'' ''addr'' demo_state = (Inr rt, s') \<and>
     fmlookup (rt_configs rt) ''k'' = Some ''v''"
proof -
  let ?m = "materialize (demo_workspace ''d.csv'') ''id'' ''addr'' demo_state"
  obtain rt s' where m: "?m = (Inr rt, s')" using demo_materializes by blast
  obtain manifest af0 t af a where p:
    "Load (wk_codec (demo_workspace ''d.csv'')) (wk_store (demo_workspace ''d.csv'')) (wk_ref (demo_workspace ''d.csv''))
       (w_store demo_state) = (Inr (manifest, af0), t)"
    "Apply (wk_overrides (demo_workspace ''d.csv'')) af0 = Inr af" "af_agent af = Some a"
    "rt_configs rt = configsFromSpec (wk_float (demo_workspace ''d.csv'')) (ag_configs a)"
    using materialize_gates [of "demo_workspace ''d.csv''" demo_state "''id''" "''addr''"] m by blast
  have "af0 = \<lparr>af_syntax = DefaultSyntax, af_agent = Some demo_agent\<rparr>"
    using p(1) by (simp add: Load_def load_manifest_def sm_defs fetchBytes_def demo_workspace_def demo_target_def)
  then have "map (\<lambda>c. (cfg_key c, cfg_value c)) (ag_configs a) = [(''k'', Some (VString ''v''))]"
    using p(2,3) by (auto simp: demo_workspace_def Apply_def WithConfig_def demo_configs)
  then show ?thesis using m p(4)
    by (auto simp: configsFromSpec_def config_step_def map_eq_Cons_conv)
qed

section \<open>Mounts and contexts\<close>

text \<open>A mount cannot be placed outside the agent's tree.  On an absolute root, every
  target that is accepted gives a cleaned link path at or below the root; every target
  made of ordinary names, with or without the leading slash, is accepted and lands
  strictly below the root under those names; and a target that climbs out is refused.\<close>

theorem mount_targets_confined:
  assumes "rooted root"
  shows "(\<forall>target link. mountLinkPath root target = Inr link \<longrightarrow> inside root link \<and> Clean link = link) \<and>
    (\<forall>es. es \<noteq> [] \<and> list_all plain_elem es \<longrightarrow>
       mountLinkPath root (''/'' @ Join es ''/'') = Inr (JoinPath (root # es)) \<and>
       mountLinkPath root (Join es ''/'') = Inr (JoinPath (root # es)) \<and> strictly_inside root (JoinPath (root # es))) \<and>
    (\<forall>target. TrimPrefix target ''/'' \<noteq> [] \<and> \<not> inside root (JoinPath [root, TrimPrefix target ''/'']) \<longrightarrow>
       mountLinkPath root target = Inl (WMountEscape target))"
proof (intro conjI allI impI)
  have ne: "root \<noteq> []" using assms by (auto simp: rooted_def)
  show "inside root link" "Clean link = link" if "mountLinkPath root target = Inr link" for target link
    using that ne mountLinkPath_iff [OF assms, of target] by (auto split: if_splits)
  show "mountLinkPath root target = Inl (WMountEscape target)"
    if "TrimPrefix target ''/'' \<noteq> [] \<and> \<not> inside root (JoinPath [root, TrimPrefix target ''/''])" for target
    using that mountLinkPath_iff [OF assms, of target] by simp
  fix es assume es: "es \<noteq> [] \<and> list_all plain_elem es"
  show si: "strictly_inside root (JoinPath (root # es))" using JoinPath_inside [OF ne] es by blast
  obtain e es' where e: "es = e # es'" "e \<noteq> []" "CHR ''/'' \<notin> set e" using es by (cases es) (auto simp: plain_elem_def)
  have j: "Join es ''/'' \<noteq> []" "hd (Join es ''/'') \<noteq> CHR ''/''" using e hd_in_set [OF e(2)] by (cases es'; auto)+
  have "JoinPath [root, Join es ''/''] = JoinPath (root # es)"
    using j ne e by (simp add: JoinPath_def)
  moreover have "TrimPrefix (Join es ''/'') ''/'' = Join es ''/''" "TrimPrefix (''/'' @ Join es ''/'') ''/'' = Join es ''/''"
    using j by (auto simp: TrimPrefix_def HasPrefix_def neq_Nil_conv)
  ultimately show "mountLinkPath root (''/'' @ Join es ''/'') = Inr (JoinPath (root # es))"
    "mountLinkPath root (Join es ''/'') = Inr (JoinPath (root # es))"
    using mountLinkPath_iff [OF assms] si j by (simp_all add: inside_def)
qed

theorem mount_targets_confined_witness:
  "mountLinkPath ''/r'' ''/data/in'' = Inr ''/r/data/in'' \<and> strictly_inside ''/r'' ''/r/data/in'' \<and>
   mountLinkPath ''/r'' ''/../x'' = Inl (WMountEscape ''/../x'')"
proof -
  have t: "rooted ''/r''" "list_all plain_elem [''data'', ''in'']" "Join [''data'', ''in''] ''/'' = ''data/in''"
    "JoinPath [''/r'', ''data'', ''in''] = ''/r/data/in''" "TrimPrefix ''/../x'' ''/'' = ''../x''"
    "JoinPath [''/r'', ''../x''] = ''/x''" "elems ''/x'' = [''x'']" "elems ''/r'' = [''r'']"
    by code_simp+
  have "\<not> inside ''/r'' ''/x''" by (auto simp: inside_def strictly_inside_def t)
  then show ?thesis
    using mount_targets_confined [OF t(1)] t by (metis append_Cons append_Nil list.distinct(1))
qed

lemma safe_suffix_iff:
  assumes "IsPathSafeName n"
  shows "IsPathSafeName (n @ ''.md'') \<longleftrightarrow> length n \<le> 60"
proof -
  have "is_alnum CHR ''m''" "is_alnum CHR ''d''" by code_simp+
  then show ?thesis using assms by (cases n) (auto simp: IsPathSafeName_def)
qed

lemma suffix_plain: "IsPathSafeName n \<Longrightarrow> plain_elem (n @ ''.md'')"
  using path_safe_no_slash [of n] path_safe_not_dots [of n] by (cases n) (auto simp: plain_elem_def dotdot_def)

lemma context_file_inj:
  assumes "JoinPath [contextDir, m] = JoinPath [contextDir, n]" "plain_elem m" "plain_elem n"
  shows "m = n"
proof -
  have ne: "contextDir \<noteq> []" by (rule local_path_nonempty) simp
  have "elems (JoinPath [contextDir, m]) = elems contextDir @ [m]" "elems (JoinPath [contextDir, n]) = elems contextDir @ [n]"
    by (rule JoinPath_plain(1) [OF ne]; simp add: assms(2,3))+
  then have "elems contextDir @ [m] = elems contextDir @ [n]" unfolding assms(1) by (rule subst)
  then show ?thesis by simp
qed

lemma context_entries_map:
  assumes "\<forall>c \<in> set cs. ctx_name c \<noteq> []"
  shows "contextEntries cs hm = contextEntries [] hm @ map (\<lambda>c. context_entry (ctx_name c) (ctx_description c)) cs"
proof -
  have "filter (\<lambda>c. ctx_name c \<noteq> []) cs = cs" using assms by (simp add: filter_id_conv)
  then show ?thesis by (simp only: contextEntries_def append_assoc filter.simps list.map append_Nil2)
qed

lemma generated_entries:
  "distinct (map ce_name (contextEntries [] hm))" "set (map ce_name (contextEntries [] hm)) \<subseteq> set reservedContextNames"
  "\<forall>e \<in> set (contextEntries [] hm). IsPathSafeName (ce_name e) \<and> ce_file e = ''/'' @ JoinPath [contextDir, ce_name e @ ''.md'']"
proof -
  have safe: "IsPathSafeName ''AGENT''" "IsPathSafeName ''WORKSPACE''" "IsPathSafeName ''MOUNTS''" by code_simp+
  have n: "map ce_name (contextEntries [] hm) = (if hm then [''AGENT'', ''WORKSPACE'', ''MOUNTS''] else [''AGENT'', ''WORKSPACE''])"
    by (simp add: contextEntries_def context_entry_def)
  show "distinct (map ce_name (contextEntries [] hm))" "set (map ce_name (contextEntries [] hm)) \<subseteq> set reservedContextNames"
    unfolding n by (simp_all add: reservedContextNames_def)
  show "\<forall>e \<in> set (contextEntries [] hm). IsPathSafeName (ce_name e) \<and> ce_file e = ''/'' @ JoinPath [contextDir, ce_name e @ ''.md'']"
    by (simp add: contextEntries_def context_entry_def safe)
qed

text \<open>The context list of a valid agent with distinct context names is unambiguous: no
  two entries share a name or a file, generated ones included, and the file of every
  declared context is where a layer titled with its name and the suffix .md is
  extracted.\<close>

theorem context_entries_unambiguous:
  assumes "Validate (Some af) = None" "af_agent af = Some a" "distinct (map ctx_name (ag_contexts a))"
  shows "distinct (map ce_name (contextEntries (ag_contexts a) hm)) \<and>
    distinct (map ce_file (contextEntries (ag_contexts a) hm)) \<and>
    (\<forall>c \<in> set (ag_contexts a). \<exists>e \<in> set (contextEntries (ag_contexts a) hm). ce_name e = ctx_name c \<and>
       (\<forall>w l (s :: 's wstate). title l = ctx_name c @ ''.md'' \<and> length (ctx_name c) \<le> 60 \<longrightarrow>
          extract_titled w contextDir l s =
            (case tg_Fetch (wk_store w) l (w_store s) of
               Inl x \<Rightarrow> (Inl (WLayer (title l) x), s)
             | Inr data \<Rightarrow> fs_op w (WriteFile (TrimPrefix (ce_file e) ''/'') data) s)))"
proof -
  let ?cs = "ag_contexts a"
  have wf: "IsPathSafeName (ctx_name c)" "ctx_name c \<notin> set reservedContextNames" if "c \<in> set ?cs" for c
    using assms(1,2) that by (auto simp: Validate_def validate_agent_None well_formed_agent_def split: if_splits)
  have ne: "\<forall>c \<in> set ?cs. ctx_name c \<noteq> []" using wf path_safe_not_dots by blast
  note gen = generated_entries [of hm]
  have names: "distinct (map ce_name (contextEntries ?cs hm))"
    using gen(1,2) wf(2) assms(3) unfolding context_entries_map [OF ne] by (fastforce simp: comp_def context_entry_def)
  have cfile: "ce_file e = ''/'' @ JoinPath [contextDir, ce_name e @ ''.md'']" "IsPathSafeName (ce_name e)"
    if "e \<in> set (contextEntries ?cs hm)" for e
    using that gen(3) wf(1) unfolding context_entries_map [OF ne] by (auto simp: context_entry_def)
  have "distinct (map ce_file (contextEntries ?cs hm))"
    unfolding distinct_map
  proof (intro conjI inj_onI)
    show "distinct (contextEntries ?cs hm)" using names by (simp add: distinct_map)
    fix x y assume xy: "x \<in> set (contextEntries ?cs hm)" "y \<in> set (contextEntries ?cs hm)" "ce_file x = ce_file y"
    then have "ce_name x = ce_name y"
      using context_file_inj [of "ce_name x @ ''.md''" "ce_name y @ ''.md''"] cfile suffix_plain by simp
    then show "x = y" using names xy by (auto simp: distinct_map inj_on_def)
  qed
  moreover have "extract_titled w contextDir l s =
      (case tg_Fetch (wk_store w) l (w_store s) of Inl x \<Rightarrow> (Inl (WLayer (title l) x), s)
       | Inr data \<Rightarrow> fs_op w (WriteFile (JoinPath [contextDir, title l]) data) s)"
    if "c \<in> set ?cs" "title l = ctx_name c @ ''.md'' \<and> length (ctx_name c) \<le> 60" for c w l and s :: "'s wstate"
    using that wf(1) [OF that(1)] safe_suffix_iff [of "ctx_name c"]
    by (simp add: extract_titled_def sm_defs on_store_def FetchLayer_def fetchBytes_def split: sum.splits)
  moreover have "context_entry (ctx_name c) (ctx_description c) \<in> set (contextEntries ?cs hm)" if "c \<in> set ?cs" for c
    using that unfolding context_entries_map [OF ne] by simp
  moreover have "TrimPrefix (ce_file (context_entry n x)) ''/'' = JoinPath [contextDir, n @ ''.md'']"
    "ce_name (context_entry n x) = n" for n x
    by (simp_all add: context_entry_def TrimPrefix_def HasPrefix_def)
  ultimately show ?thesis
    using names by (intro conjI ballI bexI [of _ "context_entry (ctx_name c) (ctx_description c)" for c] allI impI)
      (simp_all cong: sum.case_cong)
qed

definition demo_context :: "string \<Rightarrow> Context" where
  "demo_context n = \<lparr>ctx_name = n, ctx_description = [], ctx_content = ''x'', ctx_file = []\<rparr>"

theorem context_entries_unambiguous_witness:
  "distinct (map ce_name (contextEntries [demo_context ''SOUL'', demo_context ''STYLE''] True)) \<and>
   distinct (map ce_file (contextEntries [demo_context ''SOUL'', demo_context ''STYLE''] True))"
proof -
  let ?a = "demo_agent\<lparr>ag_contexts := [demo_context ''SOUL'', demo_context ''STYLE'']\<rparr>"
  have v: "Validate (Some \<lparr>af_syntax = DefaultSyntax, af_agent = Some ?a\<rparr>) = None" by code_simp
  have d: "distinct (map ctx_name (ag_contexts ?a))" by (simp add: demo_context_def)
  have "ag_contexts ?a = [demo_context ''SOUL'', demo_context ''STYLE'']" by simp
  then show ?thesis
    using context_entries_unambiguous [OF v _ d, of True] by (metis Agentfile.select_convs(2))
qed

text \<open>A context name of 61 to 63 characters passes validation, yet the artifact built from
  it can never be materialised: its layer title, the name with the suffix .md, is longer
  than a path-safe name may be, and the extraction of the layer is refused before the
  content is fetched.\<close>

theorem long_context_name_refused:
  assumes "IsPathSafeName (ctx_name c)" "ctx_name c \<notin> set reservedContextNames" "60 < length (ctx_name c)"
    "title l = ctx_name c @ ''.md''"
  shows "validate_context c = None \<and> extract_titled w d l s = (Inl (WTitle (title l)), s)"
  using assms safe_suffix_iff [of "ctx_name c"]
  by (simp add: validate_context_None extract_titled_def fail_def sm_lift_def)

theorem long_context_name_refused_witness:
  "extract_titled (demo_workspace ''x'') contextDir (demo_layer ContextLayerMediaType (replicate 61 (CHR ''a'') @ ''.md'')) demo_state =
     (Inl (WTitle (replicate 61 (CHR ''a'') @ ''.md'')), demo_state)"
proof -
  let ?n = "replicate 61 (CHR ''a'')"
  have t: "title (demo_layer m x) = x" for m x by (simp add: demo_layer_def title_def annot_def map_at_def)
  have "IsPathSafeName ?n" "?n \<notin> set reservedContextNames" by code_simp+
  then show ?thesis
    using long_context_name_refused [of "demo_context ?n" "demo_layer ContextLayerMediaType (?n @ ''.md'')" "demo_workspace ''x''" contextDir demo_state]
    by (simp only: demo_context_def Context.select_convs t length_replicate) simp
qed

end
