(* ===== verification/Docker_Container.thy ===== *)
theory Docker_Container
  imports Workspace_Correct Env
begin

text \<open>
  How the docker executor describes an agent's container:
  \<^verbatim>\<open>executor/docker/container.go\<close>, the parts of \<^verbatim>\<open>executor/docker/agent.go\<close> that feed it
  and \<^verbatim>\<open>executor/system/materialize_export.go\<close>, through which the docker executor reuses
  the workspace pipeline with its own layout.  Map iteration order and the port parser
  of the moby library are parameters.
\<close>


section \<open>In-container paths\<close>

definition inContainerAgentRoot :: string where "inContainerAgentRoot = ''/''"
definition inContainerWorkspace :: string where "inContainerWorkspace = ''/workspace''"
definition inContainerEtcContext :: string where "inContainerEtcContext = ''/etc/context''"
definition inContainerEtcData :: string where "inContainerEtcData = ''/etc/data''"
definition inContainerAgentfile :: string where "inContainerAgentfile = ''/etc/Agentfile''"
definition inContainerAgentYAML :: string where "inContainerAgentYAML = ''/etc/agent.yaml''"
definition inContainerHome :: string where "inContainerHome = ''/home''"
definition inContainerTmp :: string where "inContainerTmp = ''/tmp''"
definition inContainerVarLib :: string where "inContainerVarLib = ''/var/lib''"
definition inContainerRuntimeDir :: string where "inContainerRuntimeDir = ''/opt/runtime''"
definition inContainerBinImages :: string where "inContainerBinImages = ''/opt/bin-images''"
definition inContainerBinsRoot :: string where "inContainerBinsRoot = ''/opt/bins''"
definition inContainerDaemonSocket :: string where "inContainerDaemonSocket = ''/run/ottersd.sock''"
definition agentGRPCPort :: string where "agentGRPCPort = ''9999''"
definition labelOpenottersAgent :: string where "labelOpenottersAgent = ''io.openotters.agent''"
definition labelValueTrue :: string where "labelValueTrue = ''true''"

lemmas in_container_defs =
  inContainerAgentRoot_def inContainerWorkspace_def inContainerEtcContext_def inContainerEtcData_def
  inContainerAgentfile_def inContainerAgentYAML_def inContainerHome_def inContainerTmp_def inContainerVarLib_def
  inContainerRuntimeDir_def inContainerBinImages_def inContainerBinsRoot_def inContainerDaemonSocket_def


section \<open>Container description\<close>

datatype mount_type = TypeBind | TypeImage

record moby_mount =
  mt_type :: mount_type
  mt_source :: string
  mt_target :: string
  mt_readonly :: bool

record 'p container_config =
  cc_image :: string
  cc_entrypoint :: "string list"
  cc_cmd :: "string list"
  cc_env :: "string list"
  cc_workdir :: string
  cc_user :: string
  cc_ports :: "'p list"
  cc_labels :: "(string, string) gomap"

record 'p host_config =
  hc_mounts :: "moby_mount list"
  hc_ports :: "('p \<times> (string \<times> string) list) list"
  hc_network :: string
  hc_capdrop :: "string list"
  hc_security :: "string list"
  hc_pids :: "int option"
  hc_extrahosts :: "string list"

record containerSpec =
  cs_name :: string
  cs_base :: string
  cs_root :: string
  cs_runtime :: string
  cs_bins :: "(string, string) gomap"
  cs_mounts :: "Mount list"
  cs_apibase :: string
  cs_apikey :: string
  cs_provider :: string
  cs_model :: string
  cs_port :: string
  cs_url :: string
  cs_token :: string
  cs_envs :: "Env list"
  cs_exec :: "string list"
  cs_configs :: "(string, string) gomap"

definition unixScheme :: string where
  "unixScheme = ''unix://''"

text \<open>The URL to dial inside the container, the socket mount and the extra host entry.\<close>

definition daemonAccess :: "string \<Rightarrow> string \<times> moby_mount option \<times> string" where
  "daemonAccess daemonURL =
    (if daemonURL = [] then ([], None, [])
     else if HasPrefix daemonURL unixScheme then
       (let hostPath = TrimPrefix daemonURL unixScheme
        in (unixScheme @ inContainerDaemonSocket,
            Some \<lparr>mt_type = TypeBind, mt_source = hostPath, mt_target = inContainerDaemonSocket, mt_readonly = False\<rparr>, []))
     else if Contains daemonURL ''host.docker.internal'' then (daemonURL, None, ''host.docker.internal:host-gateway'')
     else (daemonURL, None, []))"

definition container_provider_env :: "lib \<Rightarrow> containerSpec \<Rightarrow> string list" where
  "container_provider_env L s =
    (if cs_provider s = [] then []
     else let prefix = ToUpper L (cs_provider s)
          in (if cs_apikey s \<noteq> [] then [env_entry (prefix @ ''_API_KEY'') (cs_apikey s)] else []) @
             (if cs_apibase s \<noteq> [] then [env_entry (prefix @ ''_API_BASE'') (cs_apibase s)] else []))"

definition buildEnv :: "lib \<Rightarrow> containerSpec \<Rightarrow> string list" where
  "buildEnv L s =
    (let binDirs = [inContainerBinsRoot];
         daemonURL = fst (daemonAccess (cs_url s));
         env = BuildLockedEnv \<lparr>eo_root = inContainerAgentRoot, eo_bindirs = binDirs, eo_url = daemonURL, eo_token = cs_token s\<rparr>
     in fst (AppendUserEnv (AppendConfigEnv (env @ container_provider_env L s) (cs_configs s)) (cs_envs s)))"

definition buildConfig :: "lib \<Rightarrow> (string \<Rightarrow> 'p) \<Rightarrow> containerSpec \<Rightarrow> 'p container_config" where
  "buildConfig L ParsePort s =
    \<lparr>cc_image = cs_base s, cc_entrypoint = [inContainerRuntimeDir @ ''/runtime''],
     cc_cmd = (if cs_exec s = [] then [''serve''] else cs_exec s) @
       [''--root'', inContainerAgentRoot, ''--model'', cs_model s, ''--addr'', ''0.0.0.0:'' @ agentGRPCPort],
     cc_env = buildEnv L s, cc_workdir = inContainerWorkspace, cc_user = ''65532:65532'',
     cc_ports = [ParsePort (agentGRPCPort @ ''/tcp'')],
     cc_labels = fmupd labelOpenottersAgent labelValueTrue fmempty\<rparr>"

definition defaultPidsLimit :: int where
  "defaultPidsLimit = 512"

definition pidsLimit :: "int option" where
  "pidsLimit = Some defaultPidsLimit"

definition bind :: "string \<Rightarrow> string \<Rightarrow> string \<Rightarrow> bool \<Rightarrow> moby_mount" where
  "bind agentRoot sub target readOnly =
    \<lparr>mt_type = TypeBind, mt_source = JoinPath [agentRoot, sub], mt_target = target, mt_readonly = readOnly\<rparr>"

definition agentFHSMounts :: "string \<Rightarrow> moby_mount list" where
  "agentFHSMounts agentRoot =
    [bind agentRoot ''etc/context'' inContainerEtcContext True,
     bind agentRoot ''etc/data'' inContainerEtcData True,
     bind agentRoot ''etc/Agentfile'' inContainerAgentfile True,
     bind agentRoot ''etc/agent.yaml'' inContainerAgentYAML True,
     bind agentRoot ''home'' inContainerHome False,
     bind agentRoot ''tmp'' inContainerTmp False,
     bind agentRoot ''var/lib'' inContainerVarLib False,
     bind agentRoot ''workspace'' inContainerWorkspace False,
     \<lparr>mt_type = TypeBind, mt_source = JoinPath [agentRoot, ''opt'', ''bins''], mt_target = inContainerBinsRoot, mt_readonly = True\<rparr>]"

definition image_mount :: "string \<Rightarrow> string \<Rightarrow> moby_mount" where
  "image_mount source target = \<lparr>mt_type = TypeImage, mt_source = source, mt_target = target, mt_readonly = True\<rparr>"

definition user_mount :: "Mount \<Rightarrow> moby_mount" where
  "user_mount m = \<lparr>mt_type = TypeBind, mt_source = mnt_host m, mt_target = mnt_target m, mt_readonly = mnt_readonly m\<rparr>"

text \<open>The executor's own mounts and the operator's; \<open>order\<close> is the order in which the map of
  binaries is visited.\<close>

definition own_mounts :: "string list \<Rightarrow> containerSpec \<Rightarrow> moby_mount list" where
  "own_mounts order s =
    agentFHSMounts (cs_root s) @ [image_mount (cs_runtime s) inContainerRuntimeDir] @
    map (\<lambda>name. image_mount (map_at (cs_bins s) name) (inContainerBinImages @ ''/'' @ name)) order"

definition agent_mounts :: "string list \<Rightarrow> containerSpec \<Rightarrow> moby_mount list" where
  "agent_mounts order s = own_mounts order s @ map user_mount (cs_mounts s)"

definition buildHostConfig :: "(string \<Rightarrow> 'p) \<Rightarrow> string list \<Rightarrow> containerSpec \<Rightarrow> 'p host_config" where
  "buildHostConfig ParsePort order s =
    (let hostCfg =
           \<lparr>hc_mounts = agent_mounts order s,
            hc_ports = [(ParsePort (agentGRPCPort @ ''/tcp''), [(''127.0.0.1'', cs_port s)])],
            hc_network = ''bridge'', hc_capdrop = [''ALL''], hc_security = [''no-new-privileges''],
            hc_pids = pidsLimit, hc_extrahosts = []\<rparr>
     in if cs_url s \<noteq> [] \<and> cs_token s \<noteq> [] then
          (case daemonAccess (cs_url s) of
             (_, Some mount, _) \<Rightarrow> hostCfg\<lparr>hc_mounts := hc_mounts hostCfg @ [mount]\<rparr>
           | (_, None, extraHost) \<Rightarrow>
               if extraHost \<noteq> [] then hostCfg\<lparr>hc_extrahosts := hc_extrahosts hostCfg @ [extraHost]\<rparr> else hostCfg)
        else hostCfg)"


section \<open>From the runtime descriptor to the container\<close>

text \<open>The dependencies of a docker agent; the last fields stand for the workspace's
  parameters.\<close>

record 's agentDeps =
  ad_id :: string
  ad_base :: string
  ad_ref :: Reference
  ad_overrides :: "Override list"
  ad_store :: "'s target"
  ad_puller :: "Reference \<Rightarrow> (string, bytes) res"
  ad_usage :: "(Reference \<Rightarrow> (string, bytes) res) option"
  ad_model :: "(string \<Rightarrow> (string, string \<times> string) res) option"
  ad_mounts :: "Mount list"
  ad_port :: string
  ad_url :: string
  ad_token :: string
  ad_capabilities :: "Capability list"
  ad_root :: string
  ad_codec :: codec
  ad_fs :: "fsop list \<Rightarrow> fsop \<Rightarrow> string option"
  ad_host_read :: "string \<Rightarrow> (string, bytes) res"
  ad_yaml :: "Runtime \<Rightarrow> (string, bytes) res"
  ad_float :: "f64 \<Rightarrow> string"

definition Addr :: "'s agentDeps \<Rightarrow> string" where
  "Addr d = (if ad_port d = [] then [] else ''127.0.0.1:'' @ ad_port d)"

definition materializeOptions :: "'s agentDeps \<Rightarrow> 's workspace" where
  "materializeOptions d =
    \<lparr>wk_store = ad_store d, wk_ref = ad_ref d, wk_overrides = ad_overrides d, wk_puller = ad_puller d,
     wk_usage = ad_usage d, wk_model = ad_model d, wk_digest = None, wk_image = ref_String (ad_ref d), wk_local = [],
     wk_tool_path = Some (\<lambda>name. inContainerBinsRoot @ ''/'' @ name), wk_capabilities = ad_capabilities d,
     wk_symlink_bin = Some (\<lambda>name. Some (inContainerBinImages @ ''/'' @ name @ ''/'' @ name)),
     wk_view = \<lparr>wv_root = inContainerAgentRoot, wv_workspace = inContainerWorkspace, wv_bindirs = [],
                wv_runtime = inContainerRuntimeDir @ ''/runtime'', wv_isolated = True\<rparr>,
     wk_view_bins = Some (\<lambda>_. [inContainerBinsRoot]), wk_root = ad_root d, wk_codec = ad_codec d, wk_fs = ad_fs d,
     wk_host_read = ad_host_read d, wk_yaml = ad_yaml d, wk_float = ad_float d\<rparr>"

definition MaterializeContent :: "'s workspace \<Rightarrow> Mount list \<Rightarrow> string \<Rightarrow> string \<Rightarrow> ('s, Runtime) wm" where
  "MaterializeContent w mounts ident addr s =
    sm_bind (materializeContent w ident addr) (\<lambda>(rt, _). sm_return rt)
      (s\<lparr>w_mounts := mounts, w_bindirs := wv_bindirs (wk_view w)\<rparr>)"

definition materializeFailureReason :: "werr \<Rightarrow> FailureReason" where
  "materializeFailureReason e =
    (case e of
       WLoad _ \<Rightarrow> FailurePull
     | WInstall _ \<Rightarrow> FailurePull
     | WModel _ \<Rightarrow> FailureModel
     | WInvalid _ \<Rightarrow> FailureConfig
     | WUnmet _ \<Rightarrow> FailureConfig
     | _ \<Rightarrow> FailureInit)"

definition runtimeRef :: "Runtime \<Rightarrow> string" where
  "runtimeRef rt =
    (case rt_runtime rt of
       Some r \<Rightarrow> rr_ref r
     | None \<Rightarrow> (case af_agent (rt_source rt) of Some a \<Rightarrow> ag_runtime a | None \<Rightarrow> []))"

definition toolRefs :: "ResolvedTool list \<Rightarrow> (string, string) gomap" where
  "toolRefs tools = fold (\<lambda>t refs. fmupd (tl_name t) (tl_ref t) refs) tools fmempty"

definition effectiveMounts :: "Mount list \<Rightarrow> Mount list \<Rightarrow> Mount list" where
  "effectiveMounts fallback rtMounts =
    (if rtMounts = [] then fallback
     else map (\<lambda>m. \<lparr>mnt_host = mnt_host m, mnt_target = mnt_target m, mnt_description = mnt_description m,
                    mnt_readonly = mnt_readonly m\<rparr>) rtMounts)"

definition container_spec :: "'s agentDeps \<Rightarrow> Runtime \<Rightarrow> containerSpec" where
  "container_spec d rt =
    \<lparr>cs_name = ''otters-'' @ ad_id d, cs_base = ad_base d, cs_root = ad_root d, cs_runtime = runtimeRef rt,
     cs_bins = toolRefs (rt_tools rt), cs_mounts = effectiveMounts (ad_mounts d) (rt_mounts rt),
     cs_apibase = rt_apibase rt, cs_apikey = rt_apikey rt, cs_provider = fst (splitProviderPrefix (rt_model rt)),
     cs_model = rt_model rt, cs_port = ad_port d, cs_url = ad_url d, cs_token = ad_token d, cs_envs = rt_envs rt,
     cs_exec = rt_exec rt, cs_configs = rt_configs rt\<rparr>"

text \<open>The images a container needs, in the order they are pulled.\<close>

definition image_refs :: "'s agentDeps \<Rightarrow> Runtime \<Rightarrow> string list" where
  "image_refs d rt =
    [ad_base d] @ (if runtimeRef rt \<noteq> [] then [runtimeRef rt] else []) @
    map tl_ref (filter (\<lambda>t. tl_ref t \<noteq> []) (rt_tools rt))"

section \<open>What the log keeps\<close>

text \<open>Operations are only ever appended to the log.\<close>

lemma logged_rules:
  "keeps (\<lambda>s. op \<in> set (w_log s)) (fs_op w x)" "keeps (\<lambda>s. op \<in> set (w_log s)) (fs_try x)"
  by (simp_all add: keeps_def fs_op_def fs_try_def)

lemma logged_docs: "keeps (\<lambda>s. op \<in> set (w_log s)) (installToolDocs w a)"
  unfolding installToolDocs_def install_doc_def Let_def
  by (auto intro!: keeps_intro logged_rules split: option.splits sum.splits)

lemma logged_stamp: "keeps (\<lambda>s. op \<in> set (w_log s)) (stamp_bin w hook d t)"
  unfolding stamp_bin_def Let_def by (auto intro!: keeps_intro logged_rules split: option.splits)

lemma keeps_Inr: "keeps P m \<Longrightarrow> m s = (r, s') \<Longrightarrow> P s \<Longrightarrow> P s'"
  using keepsD [of P m s] by simp

lemma stamped:
  assumes "sm_each (stamp_bin w hook d) ts s = (Inr ys, s')" "t \<in> set ts" "hook (bin_name t) = Some target" "target \<noteq> []"
  shows "HostSymlink target (JoinPath [d, bin_name t]) \<in> set (w_log s')"
  using assms(1,2)
proof (induction ts arbitrary: s ys)
  case (Cons u ts)
  then obtain y s1 zs where u: "stamp_bin w hook d u s = (Inr y, s1)" "sm_each (stamp_bin w hook d) ts s1 = (Inr zs, s')"
    by (auto simp: sm_bind_Inr)
  show ?case
  proof (cases "t \<in> set ts")
    case True
    then show ?thesis using Cons.IH u(2) by blast
  next
    case False
    then have "HostSymlink target (JoinPath [d, bin_name t]) \<in> set (w_log s1)"
      using u(1) Cons.prems(2) assms(3,4) by (auto simp: stamp_bin_def Let_def sm_then_Inr fs_op_def split: option.splits)
    then show ?thesis
      using keeps_Inr [OF keeps_each [of ts, OF logged_stamp [of _ w hook d]] u(2)] by blast
  qed
qed simp

lemma docker_stamped:
  assumes "materializeContent (materializeOptions d) ident addr s = (Inr (rt, a), s')" "t \<in> set (ag_bins a)"
  shows "HostSymlink (inContainerBinImages @ ''/'' @ bin_name t @ ''/'' @ bin_name t)
    (JoinPath [JoinPath [ad_root d, ''opt'', ''bins''], bin_name t]) \<in> set (w_log s')"
proof -
  let ?w = "materializeOptions d"
  obtain s2 where "finish_tree ?w a rt s2 = (Inr (), s')"
    using materializeContent_Inr [OF assms(1)] by blast
  then obtain s3 s4 where st: "stampBinSymlinks ?w a s3 = (Inr (), s4)" "installToolDocs ?w a s4 = (Inr (), s')"
    by (fastforce simp: finish_tree_def sm_then_Inr)
  obtain s5 ys where "sm_each (stamp_bin ?w (\<lambda>name. Some (inContainerBinImages @ ''/'' @ name @ ''/'' @ name))
      (JoinPath [ad_root d, ''opt'', ''bins''])) (ag_bins a) s5 = (Inr ys, s4)"
    using st(1) by (auto simp: stampBinSymlinks_def materializeOptions_def fail_def sm_then_Inr Let_def split: if_splits)
  then show ?thesis using keeps_Inr [OF logged_docs st(2)] stamped assms(2) by fastforce
qed

lemma toolRefs_lookup:
  assumes "t \<in> set ts"
  shows "\<exists>t' \<in> set ts. tl_name t' = tl_name t \<and> fmlookup (toolRefs ts) (tl_name t) = Some (tl_ref t')"
proof -
  have "fmlookup (fold (\<lambda>t refs. fmupd (tl_name t) (tl_ref t) refs) ts m) k =
      (case last_with tl_name k ts of Some t' \<Rightarrow> Some (tl_ref t') | None \<Rightarrow> fmlookup m k)" for m k
    by (induction ts arbitrary: m) (auto simp: last_with_Cons split: option.splits)
  moreover obtain t' where "last_with tl_name (tl_name t) ts = Some t'"
    using assms last_with_None_iff [of tl_name "tl_name t" ts] by (cases "last_with tl_name (tl_name t) ts") auto
  moreover have "t' \<in> set ts \<and> tl_name t' = tl_name t" using calculation(2) last_with_SomeD by metis
  ultimately show ?thesis by (auto simp: toolRefs_def)
qed

lemma agent_mounts_sub: "set (agent_mounts order s) \<subseteq> set (hc_mounts (buildHostConfig PP order s))"
  by (auto simp: buildHostConfig_def Let_def split: option.splits prod.splits)

lemma JoinPath_join: "d \<noteq> [] \<Longrightarrow> es \<noteq> [] \<Longrightarrow> JoinPath [d, Join es ''/''] = JoinPath (d # es)"
  by (cases es) (simp_all add: JoinPath_def)


section \<open>Environment of the container\<close>

lemma container_env_kept:
  assumes "k \<in> set reservedRuntimeEnvKeys" "\<forall>e \<in> set (cs_envs s). CHR ''='' \<notin> set (env_key e)"
    and "CHR ''='' \<notin> set (ToUpper L (cs_provider s))"
  shows "getenv (buildEnv L s) k =
    getenv (BuildLockedEnv \<lparr>eo_root = ''/'', eo_bindirs = [''/opt/bins''], eo_url = fst (daemonAccess (cs_url s)), eo_token = cs_token s\<rparr>) k"
proof -
  have "\<forall>e \<in> set (container_provider_env L s). HasSuffix (entry_key e) ''_API_KEY'' \<or> HasSuffix (entry_key e) ''_API_BASE''"
    using api_entry_key [OF assms(3)] by (auto simp: container_provider_env_def Let_def split: if_splits)
  then show ?thesis
    unfolding buildEnv_def Let_def inContainerAgentRoot_def [symmetric] inContainerBinsRoot_def [symmetric]
    by (rule appended_env_kept [OF assms(1,2)])
qed

lemma daemonAccess_nonempty: "fst (daemonAccess url) \<noteq> [] \<longleftrightarrow> url \<noteq> []"
  by (simp add: daemonAccess_def Let_def unixScheme_def)


section \<open>Properties\<close>

text \<open>C10: every tool of a materialised docker agent resolves inside its container.  When the
  content was materialised, the link of each tool was created in the directory of
  binaries under the agent's root; the container mounts that directory where the tool's
  recorded path points, and mounts an image with the reference of a tool of that name
  at the directory the link leads into, whatever order the map is visited in.\<close>

theorem container_tools_resolve:
  assumes "MaterializeContent (materializeOptions d) (ad_mounts d) ident addr s = (Inr rt, s')"
    "t \<in> set (rt_tools rt)" "set order = fset (fmdom (toolRefs (rt_tools rt)))"
  shows "let n = tl_name t; mounts = hc_mounts (buildHostConfig PP order (container_spec d rt)) in
    HostSymlink (''/opt/bin-images/'' @ n @ ''/'' @ n) (JoinPath [JoinPath [ad_root d, ''opt'', ''bins''], n]) \<in> set (w_log s') \<and>
    tl_binary t = ''/opt/bins/'' @ n \<and>
    (\<exists>m \<in> set mounts. mt_type m = TypeBind \<and> mt_source m = JoinPath [ad_root d, ''opt'', ''bins''] \<and> mt_target m = ''/opt/bins'') \<and>
    (\<exists>m \<in> set mounts. \<exists>t' \<in> set (rt_tools rt). mt_type m = TypeImage \<and> mt_target m = ''/opt/bin-images/'' @ n \<and>
       tl_name t' = n \<and> mt_source m = tl_ref t')"
proof -
  let ?w = "materializeOptions d" and ?n = "tl_name t" and ?cs = "container_spec d rt"
  obtain a where c: "materializeContent ?w ident addr (s\<lparr>w_mounts := ad_mounts d, w_bindirs := wv_bindirs (wk_view ?w)\<rparr>) = (Inr (rt, a), s')"
    using assms(1) by (auto simp: MaterializeContent_def sm_bind_Inr)
  have "\<exists>ms af. buildRuntime ?w ms af a ident addr = Inr rt" using materializeContent_Inr [OF c] by blast
  then have tools: "rt_tools rt = map (resolved_tool ?w) (ag_bins a)" using buildRuntime_Inr by metis
  then obtain b where b: "b \<in> set (ag_bins a)" "t = resolved_tool ?w b" using assms(2) by auto
  have n: "?n = bin_name b" "tl_binary t = ''/opt/bins/'' @ ?n"
    by (simp_all add: b(2) resolved_tool_def materializeOptions_def Let_def in_container_defs)
  obtain t' where t': "t' \<in> set (rt_tools rt)" "tl_name t' = ?n" "fmlookup (toolRefs (rt_tools rt)) ?n = Some (tl_ref t')"
    using toolRefs_lookup [OF assms(2)] by blast
  have "?n \<in> set order" using t'(3) assms(3) by (auto intro: fmdomI simp: fmdomI)
  then have "image_mount (tl_ref t') (inContainerBinImages @ ''/'' @ ?n) \<in> set (agent_mounts order ?cs)"
    using t'(3) by (auto simp: agent_mounts_def own_mounts_def container_spec_def map_at_def intro!: image_eqI [of _ _ ?n])
  moreover have "\<lparr>mt_type = TypeBind, mt_source = JoinPath [ad_root d, ''opt'', ''bins''], mt_target = inContainerBinsRoot,
      mt_readonly = True\<rparr> \<in> set (agent_mounts order ?cs)"
    by (simp add: agent_mounts_def own_mounts_def agentFHSMounts_def container_spec_def)
  ultimately have "image_mount (tl_ref t') (inContainerBinImages @ ''/'' @ ?n) \<in> set (hc_mounts (buildHostConfig PP order ?cs))"
    "\<lparr>mt_type = TypeBind, mt_source = JoinPath [ad_root d, ''opt'', ''bins''], mt_target = inContainerBinsRoot,
      mt_readonly = True\<rparr> \<in> set (hc_mounts (buildHostConfig PP order ?cs))"
    using agent_mounts_sub by blast+
  note m = bexI [OF _ this(1)] bexI [OF _ this(2)]
  show ?thesis
    unfolding Let_def
    using docker_stamped [OF c b(1)] n t'(1,2)
    by (intro conjI m bexI [OF _ t'(1)]) (simp_all add: image_mount_def in_container_defs)
qed

text \<open>The agent cannot rewrite its own configuration.  Of the mounts the executor itself
  asks for, no two share a target, all that are not the four scratch directories are
  read-only, and every directory bound from the host lies strictly inside the agent's
  root; image mounts in the final description are read-only without exception.\<close>

theorem container_mounts_protected:
  assumes "cs_root s \<noteq> []" "distinct order"
  shows "distinct (map mt_target (own_mounts order s)) \<and>
    (\<forall>m \<in> set (own_mounts order s). mt_readonly m \<or> mt_target m \<in> {''/home'', ''/tmp'', ''/var/lib'', ''/workspace''}) \<and>
    (\<forall>m \<in> set (own_mounts order s). mt_type m = TypeBind \<longrightarrow> strictly_inside (cs_root s) (mt_source m)) \<and>
    (\<forall>m \<in> set (hc_mounts (buildHostConfig PP order s)). mt_type m = TypeImage \<longrightarrow> mt_readonly m)"
proof (intro conjI)
  note defs = own_mounts_def agentFHSMounts_def bind_def image_mount_def in_container_defs
  show "distinct (map mt_target (own_mounts order s))"
    using assms(2) by (auto simp: defs comp_def distinct_map inj_on_def)
  show "\<forall>m \<in> set (own_mounts order s). mt_readonly m \<or> mt_target m \<in> {''/home'', ''/tmp'', ''/var/lib'', ''/workspace''}"
    by (auto simp: defs)
  have ins: "strictly_inside (cs_root s) (JoinPath [cs_root s, e])"
    if "Join es ''/'' = e" "es \<noteq> []" "list_all plain_elem es" for e es
    using JoinPath_inside [OF assms(1) that(2,3)] JoinPath_join [OF assms(1) that(2)] that(1) by simp
  have "strictly_inside (cs_root s) (JoinPath [cs_root s, e])"
    if "e \<in> {''etc/context'', ''etc/data'', ''etc/Agentfile'', ''etc/agent.yaml'', ''home'', ''tmp'', ''var/lib'', ''workspace''}" for e
    using that ins [of "[''etc'', ''context'']"] ins [of "[''etc'', ''data'']"] ins [of "[''etc'', ''Agentfile'']"]
      ins [of "[''etc'', ''agent.yaml'']"] ins [of "[''home'']"] ins [of "[''tmp'']"] ins [of "[''var'', ''lib'']"]
      ins [of "[''workspace'']"]
    by (auto simp: plain_literals)
  moreover have "strictly_inside (cs_root s) (JoinPath [cs_root s, ''opt'', ''bins''])"
    by (rule JoinPath_inside) (simp_all add: assms plain_literals)
  ultimately show "\<forall>m \<in> set (own_mounts order s). mt_type m = TypeBind \<longrightarrow> strictly_inside (cs_root s) (mt_source m)"
    by (auto simp: defs)
  have "mt_type m = TypeImage \<longrightarrow> mt_readonly m" if "m \<in> set (agent_mounts order s)" for m
    using that by (auto simp: agent_mounts_def user_mount_def defs)
  moreover have "mt_type m = TypeBind" if "daemonAccess url = (u, Some m, x)" for url u m x
    using that by (auto simp: daemonAccess_def Let_def split: if_splits)
  ultimately show "\<forall>m \<in> set (hc_mounts (buildHostConfig PP order s)). mt_type m = TypeImage \<longrightarrow> mt_readonly m"
    by (auto simp: buildHostConfig_def Let_def split: option.splits prod.splits)
qed


definition demo_spec :: containerSpec where
  "demo_spec =
    \<lparr>cs_name = ''otters-1'', cs_base = ''base'', cs_root = ''/r'', cs_runtime = ''rt:1'', cs_bins = fmupd ''jq'' ''jq:1'' fmempty,
     cs_mounts = [], cs_apibase = [], cs_apikey = ''k'', cs_provider = ''openai'', cs_model = ''openai/m'', cs_port = ''1'',
     cs_url = ''unix:///s'', cs_token = ''tok'', cs_envs = [\<lparr>env_key = ''PATH'', env_value = ''/bin'', env_description = []\<rparr>],
     cs_exec = [], cs_configs = fmempty\<rparr>"


theorem container_mounts_protected_witness:
  "distinct (map mt_target (own_mounts [''jq''] demo_spec)) \<and> length (own_mounts [''jq''] demo_spec) = 11"
proof -
  have "cs_root demo_spec \<noteq> []" by (simp add: demo_spec_def)
  then show ?thesis
    using container_mounts_protected [of demo_spec "[''jq'']" "\<lambda>p. p"]
    by (simp add: own_mounts_def agentFHSMounts_def)
qed

definition demo_tool_agent :: Agent where
  "demo_tool_agent = newAgent\<lparr>ag_from := ''scratch'', ag_bins := [\<lparr>bin_name = ''jq'', bin_image = ''jq:1'', bin_description = [], bin_usage = []\<rparr>]\<rparr>"

definition demo_deps :: "unit agentDeps" where
  "demo_deps =
    \<lparr>ad_id = ''1'', ad_base = ''base'', ad_ref = ParseReference ''bot:1'', ad_overrides = [], ad_store = demo_target,
     ad_puller = (\<lambda>_. Inr ''x''), ad_usage = None, ad_model = None, ad_mounts = [], ad_port = ''1'', ad_url = [], ad_token = [],
     ad_capabilities = [], ad_root = ''/r'',
     ad_codec = demo_codec\<lparr>cd_dec_manifest := (\<lambda>_. Inr ((demo_manifest [])\<lparr>mf_layers := []\<rparr>)),
       cd_dec_agentfile := (\<lambda>_. Inr \<lparr>af_syntax = DefaultSyntax, af_agent = Some demo_tool_agent\<rparr>)\<rparr>,
     ad_fs = (\<lambda>_ _. None), ad_host_read = (\<lambda>_. Inl ''no''), ad_yaml = (\<lambda>_. Inr ''y''), ad_float = (\<lambda>_. [])\<rparr>"

lemma demo_docker_materializes:
  "\<exists>rt s'. MaterializeContent (materializeOptions demo_deps) [] ''1'' ''a'' demo_state = (Inr rt, s') \<and>
     map tl_name (rt_tools rt) = [''jq'']"
proof -
  let ?w = "materializeOptions demo_deps" and ?P = "\<lambda>s :: unit wstate. w_mounts s = []" and ?a = demo_tool_agent
  let ?m = "(demo_manifest [])\<lparr>mf_layers := []\<rparr>" and ?af = "\<lparr>af_syntax = DefaultSyntax, af_agent = Some ?a\<rparr>"
  let ?rest = "sm_then (set_mounts (ag_mounts ?a)) (sm_then (write_tree ?w ?m ?a ''1'')
      (sm_bind (build_step ?w ?af ?a ''1'' ''a'') (\<lambda>rt. (sm_then (finish_tree ?w ?a rt) (sm_return (rt, ?a))))))"
  have layers: "total ?P (extractLayers ?w ?m)"
    by (simp add: extractLayers_def extractTitledLayers_def Layers_def total_rules)
  have tree: "total ?P (write_tree ?w ?m ?a ''1'')" "total ?P (finish_tree ?w ?a rt)" for rt
    using total_tree [OF _ layers] by (simp_all add: materializeOptions_def demo_deps_def)
  have cm: "ag_configs ?a = []" "ag_mounts ?a = []" by (simp_all add: demo_tool_agent_def newAgent_def)
  have "RequiredConfigsProvided [] = None" by code_simp
  with cm have "total ?P (build_step ?w ?af ?a ''1'' ''a'')" "total ?P (set_mounts (ag_mounts ?a))"
    by (simp_all add: total_def build_step_def buildRuntime_def set_mounts_def mergeMounts_def)
      (simp add: materializeOptions_def demo_deps_def)
  then have "total ?P ?rest" by (intro total_rules tree)
  moreover have "Validate (Some ?af) = None" by code_simp
  then have ld: "load_checked ?w demo_state = (Inr (?m, ?af), demo_state)"
    by (simp add: load_checked_def on_store_def Load_def load_manifest_def fetchBytes_def sm_defs
        materializeOptions_def demo_deps_def demo_target_def demo_state_def)
  moreover have ap: "Apply (wk_overrides ?w) ?af = Inr ?af" by (simp add: Apply_def materializeOptions_def demo_deps_def)
  moreover have "materializeContent ?w ''1'' ''a'' demo_state = ?rest demo_state"
    by (simp add: materializeContent_def sm_bind_def ld ap run_panic_def sm_lift_def)
  moreover have "?P demo_state" and st: "demo_state\<lparr>w_mounts := [], w_bindirs := wv_bindirs (wk_view ?w)\<rparr> = demo_state"
    by (simp_all add: demo_state_def materializeOptions_def)
  ultimately obtain rt a s1 where c: "materializeContent ?w ''1'' ''a'' demo_state = (Inr (rt, a), s1)"
    unfolding total_def by fastforce
  have "\<exists>ms af. buildRuntime ?w ms af ?a ''1'' ''a'' = Inr rt"
    using materializeContent_Inr [OF c] by (auto simp: ld ap)
  then have "rt_tools rt = map (resolved_tool ?w) (ag_bins ?a)" using buildRuntime_Inr by metis
  then have "map tl_name (rt_tools rt) = [''jq'']" by (simp add: demo_tool_agent_def resolved_tool_def Let_def)
  then show ?thesis using c st by (auto simp: MaterializeContent_def sm_bind_Inr)
qed

theorem container_tools_resolve_witness:
  "\<exists>rt s'. MaterializeContent (materializeOptions demo_deps) [] ''1'' ''a'' demo_state = (Inr rt, s') \<and>
     HostSymlink ''/opt/bin-images/jq/jq'' ''/r/opt/bins/jq'' \<in> set (w_log s')"
proof -
  obtain rt s' where m: "MaterializeContent (materializeOptions demo_deps) [] ''1'' ''a'' demo_state = (Inr rt, s')"
    "map tl_name (rt_tools rt) = [''jq'']"
    using demo_docker_materializes by (elim exE conjE) (rule that)
  then obtain t where t: "t \<in> set (rt_tools rt)" "tl_name t = ''jq''" by (cases "rt_tools rt") auto
  have "ad_mounts demo_deps = []" "ad_root demo_deps = ''/r''" by (simp_all add: demo_deps_def)
  moreover have "JoinPath [JoinPath [''/r'', ''opt'', ''bins''], ''jq''] = ''/r/opt/bins/jq''" by code_simp
  moreover have "set (sorted_keys (toolRefs (rt_tools rt))) = fset (fmdom (toolRefs (rt_tools rt)))" by simp
  ultimately show ?thesis
    using container_tools_resolve [of demo_deps "''1''" "''a''" demo_state rt s' t "sorted_keys (toolRefs (rt_tools rt))" "\<lambda>p. p"] m t
    by (auto simp: Let_def)
qed

end
