(* ===== verification/Base64.thy ===== *)
theory Base64
  imports Prelude
begin

text \<open>
  The part of \<^verbatim>\<open>encoding/base64\<close> the sources use: the padded standard and URL
  alphabets, encoding, and the decoder, which skips line breaks anywhere, insists on
  padding and rejects anything after it.  Decoding an encoding gives the bytes back.
\<close>


section \<open>Alphabets\<close>

definition std_alphabet :: string where
  "std_alphabet = ''ABCDEFGHIJKLMNOPQRSTUVWXYZabcdefghijklmnopqrstuvwxyz0123456789+/''"

definition url_alphabet :: string where
  "url_alphabet = ''ABCDEFGHIJKLMNOPQRSTUVWXYZabcdefghijklmnopqrstuvwxyz0123456789-_''"

fun position :: "char \<Rightarrow> string \<Rightarrow> nat option" where
  "position c [] = None"
| "position c (x # xs) = (if c = x then Some 0 else map_option Suc (position c xs))"

lemma position_nth: "distinct xs \<Longrightarrow> i < length xs \<Longrightarrow> position (xs ! i) xs = Some i"
proof (induction xs arbitrary: i)
  case (Cons x xs)
  then show ?case by (cases i) auto
qed simp

definition good_alphabet :: "string \<Rightarrow> bool" where
  "good_alphabet al \<longleftrightarrow> distinct al \<and> length al = 64 \<and> CHR ''='' \<notin> set al \<and> CHR 0x0A \<notin> set al \<and> CHR 0x0D \<notin> set al"

lemma good_alphabets [simp]: "good_alphabet std_alphabet" "good_alphabet url_alphabet"
  by code_simp+


section \<open>Encoding and decoding\<close>

definition byte :: "char \<Rightarrow> nat" where
  "byte c = of_char c"

definition chr :: "nat \<Rightarrow> char" where
  "chr n = char_of n"

lemma byte_bound [simp]: "byte c < 256"
  by (simp add: byte_def)

lemma chr_byte [simp]: "chr (byte c) = c"
  by (simp add: byte_def chr_def)

fun EncodeToString :: "string \<Rightarrow> string \<Rightarrow> string" where
  "EncodeToString al [] = []"
| "EncodeToString al [a] = [al ! (byte a div 4), al ! (byte a mod 4 * 16), CHR ''='', CHR ''='']"
| "EncodeToString al [a, b] =
    [al ! (byte a div 4), al ! (byte a mod 4 * 16 + byte b div 16), al ! (byte b mod 16 * 4), CHR ''='']"
| "EncodeToString al (a # b # c # s) =
    al ! (byte a div 4) # al ! (byte a mod 4 * 16 + byte b div 16) # al ! (byte b mod 16 * 4 + byte c div 64) #
    al ! (byte c mod 64) # EncodeToString al s"

fun decode_quads :: "string \<Rightarrow> string \<Rightarrow> string option" where
  "decode_quads al [] = Some []"
| "decode_quads al (p # q # r # t # s) =
    (case (position p al, position q al) of
       (Some i, Some j) \<Rightarrow>
         if r = CHR ''='' then (if t = CHR ''='' \<and> s = [] then Some [chr (i * 4 + j div 16)] else None)
         else (case position r al of
                 None \<Rightarrow> None
               | Some k \<Rightarrow>
                   if t = CHR ''='' then (if s = [] then Some [chr (i * 4 + j div 16), chr (j mod 16 * 16 + k div 4)] else None)
                   else (case position t al of
                           None \<Rightarrow> None
                         | Some l \<Rightarrow>
                             map_option (\<lambda>rest. chr (i * 4 + j div 16) # chr (j mod 16 * 16 + k div 4) # chr (k mod 4 * 64 + l) # rest)
                               (decode_quads al s)))
     | _ \<Rightarrow> None)"
| "decode_quads al _ = None"

definition DecodeString :: "string \<Rightarrow> string \<Rightarrow> string option" where
  "DecodeString al s = decode_quads al (filter (\<lambda>c. c \<noteq> CHR 0x0A \<and> c \<noteq> CHR 0x0D) s)"


section \<open>Round trip\<close>

lemma alphabet_digit:
  assumes "good_alphabet al" "i < 64"
  shows "position (al ! i) al = Some i" "al ! i \<noteq> CHR ''=''" "al ! i \<noteq> CHR 0x0A" "al ! i \<noteq> CHR 0x0D"
proof -
  have g: "distinct al" "i < length al" "CHR ''='' \<notin> set al" "CHR 0x0A \<notin> set al" "CHR 0x0D \<notin> set al"
    using assms by (simp_all add: good_alphabet_def)
  show "position (al ! i) al = Some i" by (rule position_nth [OF g(1,2)])
  have "al ! i \<in> set al" using g(2) by (rule nth_mem)
  then show "al ! i \<noteq> CHR ''=''" "al ! i \<noteq> CHR 0x0A" "al ! i \<noteq> CHR 0x0D" using g(3-5) by metis+
qed

lemma digit_bounds:
  "byte a div 4 < 64" "byte a mod 4 * 16 + byte b div 16 < 64" "byte a mod 4 * 16 < 64" "byte b mod 16 * 4 + byte c div 64 < 64"
  "byte b mod 16 * 4 < 64" "byte c mod 64 < 64"
  using byte_bound [of a] byte_bound [of b] byte_bound [of c] by linarith+

lemma digit_values:
  fixes x y z :: nat
  assumes "x < 256" "y < 256" "z < 256"
  shows "x div 4 * 4 + (x mod 4 * 16 + y div 16) div 16 = x" "x div 4 * 4 + (x mod 4 * 16) div 16 = x"
    "(x mod 4 * 16 + y div 16) mod 16 * 16 + (y mod 16 * 4 + z div 64) div 4 = y"
    "(x mod 4 * 16 + y div 16) mod 16 * 16 + (y mod 16 * 4) div 4 = y"
    "(y mod 16 * 4 + z div 64) mod 4 * 64 + z mod 64 = z"
proof -
  have d: "y div 16 < 16" "z div 64 < 4" using assms by linarith+
  have a: "(x mod 4 * 16 + y div 16) div 16 = x mod 4" "(x mod 4 * 16 + y div 16) mod 16 = y div 16"
    "(y mod 16 * 4 + z div 64) div 4 = y mod 16" "(y mod 16 * 4 + z div 64) mod 4 = z div 64"
    using d by (simp_all add: mult.commute)
  show "x div 4 * 4 + (x mod 4 * 16 + y div 16) div 16 = x" "x div 4 * 4 + (x mod 4 * 16) div 16 = x"
    "(x mod 4 * 16 + y div 16) mod 16 * 16 + (y mod 16 * 4 + z div 64) div 4 = y"
    "(x mod 4 * 16 + y div 16) mod 16 * 16 + (y mod 16 * 4) div 4 = y"
    "(y mod 16 * 4 + z div 64) mod 4 * 64 + z mod 64 = z"
    unfolding a by simp_all
qed

lemma decode_encode_quads: "good_alphabet al \<Longrightarrow> decode_quads al (EncodeToString al s) = Some s"
proof (induction al s rule: EncodeToString.induct)
  case (2 al a)
  then show ?case
    using digit_values(2) [of "byte a" 0 0] by (simp add: alphabet_digit digit_bounds)
next
  case (3 al a b)
  then show ?case
    using digit_values(1,4) [of "byte a" "byte b" 0] by (simp add: alphabet_digit digit_bounds)
next
  case (4 al a b c s)
  then show ?case
    using digit_values(1,3,5) [of "byte a" "byte b" "byte c"] by (simp add: alphabet_digit digit_bounds)
qed simp

lemma encode_no_breaks: "good_alphabet al \<Longrightarrow> filter (\<lambda>c. c \<noteq> CHR 0x0A \<and> c \<noteq> CHR 0x0D) (EncodeToString al s) = EncodeToString al s"
  by (induction al s rule: EncodeToString.induct) (simp_all add: alphabet_digit digit_bounds)

lemma decode_encode [simp]: "good_alphabet al \<Longrightarrow> DecodeString al (EncodeToString al s) = Some s"
  by (simp add: DecodeString_def encode_no_breaks decode_encode_quads)

lemma encode_Nil_iff [simp]: "EncodeToString al s = [] \<longleftrightarrow> s = []"
  by (induction al s rule: EncodeToString.induct) simp_all

end
