(* ===== verification/Docker_Auth.thy ===== *)
theory Docker_Auth
  imports Base64 Reference Paths
begin

text \<open>
  \<^verbatim>\<open>executor/docker/auth.go\<close>: the credentials the docker executor sends with an image
  pull.  The user's docker configuration is read once; the registry host of the
  reference selects an entry, which is decoded and re-encoded as the header the
  daemon expects.  The home directory, the file, JSON and the map iteration order are
  parameters.
\<close>

record authEntry =
  ent_Auth :: string

record parsedConfig =
  pc_auths :: "(string, authEntry) gomap"

text \<open>\<open>au_unmarshal\<close> gives None on a syntax error and an inner None for a nil map.\<close>

record auth_env =
  au_home :: "string option"
  au_read :: "string \<Rightarrow> bytes option"
  au_unmarshal :: "bytes \<Rightarrow> (string, authEntry) gomap option option"
  au_marshal :: "(string, string) gomap \<Rightarrow> bytes option"
  au_order :: "(string, authEntry) gomap \<Rightarrow> string list"


section \<open>Hosts\<close>

definition dockerHubShort :: string where "dockerHubShort = ''docker.io''"
definition dockerHubLegacyV1 :: string where "dockerHubLegacyV1 = ''https://index.docker.io/v1/''"
definition dockerHubIndex :: string where "dockerHubIndex = ''index.docker.io''"
definition dockerHubAliases :: "string list" where "dockerHubAliases = [dockerHubLegacyV1, dockerHubIndex]"

definition isHostLike :: "string \<Rightarrow> bool" where
  "isHostLike s \<longleftrightarrow> s = ''localhost'' \<or> ContainsAny s ''.:''"

definition registryHost :: "string \<Rightarrow> string" where
  "registryHost ref0 =
    (let ref = (case Index ref0 ''@'' of Some idx \<Rightarrow> take idx ref0 | None \<Rightarrow> ref0)
     in case LastIndex ref ''/'' of
          Some idx \<Rightarrow>
            (let first0 = take idx ref;
                 first = (case Index first0 ''/'' of Some slash \<Rightarrow> take slash first0 | None \<Rightarrow> first0)
             in if isHostLike first then first else dockerHubShort)
        | None \<Rightarrow> dockerHubShort)"

definition normaliseHost :: "string \<Rightarrow> string" where
  "normaliseHost s0 =
    (let s = TrimPrefix (TrimPrefix s0 ''https://'') ''http://''
     in case Index s ''/'' of Some idx \<Rightarrow> take idx s | None \<Rightarrow> s)"


section \<open>Configuration\<close>

definition readDockerConfig :: "auth_env \<Rightarrow> parsedConfig" where
  "readDockerConfig E =
    (case au_home E of
       None \<Rightarrow> \<lparr>pc_auths = fmempty\<rparr>
     | Some home \<Rightarrow>
         (case au_read E (JoinPath [home, ''.docker'', ''config.json'']) of
            None \<Rightarrow> \<lparr>pc_auths = fmempty\<rparr>
          | Some data \<Rightarrow>
              (case au_unmarshal E data of
                 None \<Rightarrow> \<lparr>pc_auths = fmempty\<rparr>
               | Some None \<Rightarrow> \<lparr>pc_auths = fmempty\<rparr>
               | Some (Some auths) \<Rightarrow> \<lparr>pc_auths = auths\<rparr>)))"

text \<open>The cache that \<^verbatim>\<open>sync.Once\<close> fills: None before the first load.\<close>

type_synonym configCache = "parsedConfig option"

definition cache_Load :: "auth_env \<Rightarrow> configCache \<Rightarrow> parsedConfig \<times> configCache" where
  "cache_Load E c =
    (case c of Some cfg \<Rightarrow> (cfg, c) | None \<Rightarrow> let cfg = readDockerConfig E in (cfg, Some cfg))"

definition entryFor :: "(string, authEntry) gomap \<Rightarrow> string list \<Rightarrow> string \<Rightarrow> authEntry option" where
  "entryFor auths order host =
    (case fmlookup auths host of
       Some entry \<Rightarrow> Some entry
     | None \<Rightarrow>
         (case find (\<lambda>k. normaliseHost k = host) order of
            Some k \<Rightarrow> fmlookup auths k
          | None \<Rightarrow>
              if host = dockerHubShort
              then (case find (\<lambda>alias. fmlookup auths alias \<noteq> None) dockerHubAliases of
                      Some alias \<Rightarrow> fmlookup auths alias
                    | None \<Rightarrow> None)
              else None))"

definition decodeBasicAuth :: "string \<Rightarrow> (string \<times> string) option" where
  "decodeBasicAuth b64 =
    (if b64 = [] then None
     else case DecodeString std_alphabet b64 of
            None \<Rightarrow> None
          | Some raw \<Rightarrow>
              (case Index raw '':'' of
                 None \<Rightarrow> None
               | Some idx \<Rightarrow> if idx = 0 then None else Some (take idx raw, drop (Suc idx) raw)))"

definition auth_fields :: "string \<Rightarrow> string \<Rightarrow> string \<Rightarrow> (string, string) gomap" where
  "auth_fields user pass host =
    fmupd ''serveraddress'' host (fmupd ''password'' pass (fmupd ''username'' user fmempty))"

definition authBlobJSON :: "auth_env \<Rightarrow> string \<Rightarrow> string \<Rightarrow> string \<Rightarrow> string" where
  "authBlobJSON E user pass host =
    (case au_marshal E (auth_fields user pass host) of
       None \<Rightarrow> []
     | Some blob \<Rightarrow> EncodeToString url_alphabet blob)"

definition resolveRegistryAuth :: "auth_env \<Rightarrow> string \<Rightarrow> configCache \<Rightarrow> string \<times> configCache" where
  "resolveRegistryAuth E ref c =
    (let host = registryHost ref in
     if host = [] then ([], c)
     else let (cfg, c') = cache_Load E c in
          (case entryFor (pc_auths cfg) (au_order E (pc_auths cfg)) host of
             None \<Rightarrow> []
           | Some entry \<Rightarrow>
               (case decodeBasicAuth (ent_Auth entry) of
                  None \<Rightarrow> []
                | Some (user, pass) \<Rightarrow> authBlobJSON E user pass host), c'))"


section \<open>Facts about hosts\<close>

lemma take_before:
  assumes "Index s [c] = Some i"
  shows "take i s = takeWhile (\<lambda>x. x \<noteq> c) s"
proof -
  have s: "s = take i s @ c # drop (Suc i) s" using Index_char_split [OF assms] .
  have "takeWhile (\<lambda>x. x \<noteq> c) (take i s @ c # drop (Suc i) s) = take i s"
    using Index_char_take [OF assms] by (subst takeWhile_tail) (auto simp: takeWhile_eq_all_conv)
  then show ?thesis using s by simp
qed

lemma before_char: "(case Index s [c] of Some i \<Rightarrow> take i s | None \<Rightarrow> s) = takeWhile (\<lambda>x. x \<noteq> c) s"
proof (cases "Index s [c]")
  case None
  then have "c \<notin> set s" by (simp add: Index_char_None_iff)
  then have "takeWhile (\<lambda>x. x \<noteq> c) s = s" by (auto simp: takeWhile_eq_all_conv)
  then show ?thesis by (simp only: None option.case)
qed (simp add: take_before)

text \<open>The host is the first segment of the reference, when that is not the whole of it and
  looks like a host.\<close>

lemma registryHost_eq:
  "registryHost ref0 =
    (let ref = takeWhile (\<lambda>c. c \<noteq> CHR ''@'') ref0; h = takeWhile (\<lambda>c. c \<noteq> CHR ''/'') ref
     in if CHR ''/'' \<in> set ref \<and> isHostLike h then h else dockerHubShort)"
proof -
  define ref where "ref = takeWhile (\<lambda>c. c \<noteq> CHR ''@'') ref0"
  show ?thesis
  proof (cases "LastIndex ref ''/''")
    case None
    then have "CHR ''/'' \<notin> set ref" by (simp add: LastIndex_char_None_iff)
    then show ?thesis by (simp add: registryHost_def before_char Let_def ref_def [symmetric] None)
  next
    case (Some i)
    have r: "ref = take i ref @ CHR ''/'' # drop (Suc i) ref" using LastIndex_char_split(1) [OF Some] .
    then have mem: "CHR ''/'' \<in> set ref" by (metis in_set_conv_decomp)
    have "takeWhile (\<lambda>c. c \<noteq> CHR ''/'') (take i ref @ CHR ''/'' # x) = takeWhile (\<lambda>c. c \<noteq> CHR ''/'') (take i ref)" for x
      by (auto simp: takeWhile_append intro: takeWhile_eq_all_conv [THEN iffD2, symmetric])
    then have "takeWhile (\<lambda>c. c \<noteq> CHR ''/'') ref = takeWhile (\<lambda>c. c \<noteq> CHR ''/'') (take i ref)" using r by metis
    then show ?thesis
      using Some mem by (simp add: registryHost_def before_char Let_def ref_def [symmetric])
  qed
qed

lemma registryHost_nonempty: "registryHost ref \<noteq> []"
  by (auto simp: registryHost_eq Let_def isHostLike_def ContainsAny_def dockerHubShort_def)

lemma entryFor_matches:
  assumes "entryFor auths order host = Some entry"
  shows "\<exists>k. fmlookup auths k = Some entry \<and>
    (k = host \<or> normaliseHost k = host \<or> host = dockerHubShort \<and> k \<in> set dockerHubAliases)"
  using assms
  by (auto simp: entryFor_def find_Some_iff split: option.splits if_splits)

lemma decodeBasicAuth_encoded:
  assumes "user \<noteq> []" "CHR '':'' \<notin> set user"
  shows "decodeBasicAuth (EncodeToString std_alphabet (user @ '':'' @ pass)) = Some (user, pass)"
  using assms Index_char_append [of "CHR '':''" user pass] by (simp add: decodeBasicAuth_def)

lemma decodeBasicAuth_Some:
  assumes "decodeBasicAuth b = Some (user, pass)"
  shows "DecodeString std_alphabet b = Some (user @ '':'' @ pass) \<and> user \<noteq> [] \<and> CHR '':'' \<notin> set user"
proof -
  obtain raw i where r: "DecodeString std_alphabet b = Some raw" "Index raw '':'' = Some i" "i \<noteq> 0"
    "user = take i raw" "pass = drop (Suc i) raw"
    using assms by (auto simp: decodeBasicAuth_def split: if_splits option.splits)
  have "raw = user @ '':'' @ pass" "CHR '':'' \<notin> set user"
    using Index_char_split [OF r(2)] Index_char_take [OF r(2)] r(4,5) by simp_all
  then show ?thesis using r by (cases raw) auto
qed


section \<open>Properties\<close>


definition demo_auth :: auth_env where
  "demo_auth = \<lparr>au_home = Some ''/h'', au_read = (\<lambda>p. if p = ''/h/.docker/config.json'' then Some ''{}'' else None),
     au_unmarshal = (\<lambda>_. Some (Some (fmupd ''ghcr.io'' \<lparr>ent_Auth = ''dTpw''\<rparr> fmempty))),
     au_marshal = (\<lambda>m. Some ''blob''), au_order = sorted_keys\<rparr>"


end
