(* ===== verification/Export.thy ===== *)
theory Export
  imports Docker_Store
begin

text \<open>
  Package \<^verbatim>\<open>export\<close>: an artifact as one portable blob, and back into a fresh store.  The
  memory store is a parameter with the laws of \<open>oras_target\<close>; the JSON form of an exported
  artifact is a parameter too.
\<close>

record exportedBlob =
  eb_descriptor :: Descriptor
  eb_data :: bytes

record exportedArtifact =
  ea_manifest :: Descriptor
  ea_blobs :: "exportedBlob list"

record export_codec =
  ec_marshal :: "exportedArtifact \<Rightarrow> (oerr, bytes) res"
  ec_unmarshal :: "bytes \<Rightarrow> (oerr, exportedArtifact) res"

datatype xerr = XResolve oerr | XManifest oerr | XParseManifest oerr | XConfig oerr | XLayer oerr | XMarshal oerr
  | XParse oerr | XImport oerr | XTag oerr

definition readBlob :: "'s target \<Rightarrow> Descriptor \<Rightarrow> ('s, oerr, bytes) sm" where
  "readBlob T desc s = (tg_Fetch T desc s, s)"

definition read_exported :: "(oerr \<Rightarrow> xerr) \<Rightarrow> 's target \<Rightarrow> Descriptor \<Rightarrow> ('s, xerr, exportedBlob) sm" where
  "read_exported f T desc =
    sm_bind (sm_err f (readBlob T desc)) (\<lambda>data. sm_return \<lparr>eb_descriptor = desc, eb_data = data\<rparr>)"

definition Export :: "export_codec \<Rightarrow> codec \<Rightarrow> 's target \<Rightarrow> Reference \<Rightarrow> ('s, xerr, bytes) sm" where
  "Export J C T ref =
    sm_bind (sm_err XResolve (tg_Resolve T (ref_String ref))) (\<lambda>desc.
    sm_bind (read_exported XManifest T desc) (\<lambda>manifestBlob.
    sm_bind (sm_err XParseManifest (sm_lift (cd_dec_manifest C (eb_data manifestBlob)))) (\<lambda>manifest.
    sm_bind (read_exported XConfig T (mf_config manifest)) (\<lambda>configBlob.
    sm_bind (sm_each (read_exported XLayer T) (mf_layers manifest)) (\<lambda>layerBlobs.
    sm_err XMarshal (sm_lift (ec_marshal J
      \<lparr>ea_manifest = desc, ea_blobs = manifestBlob # configBlob # layerBlobs\<rparr>)))))))"

definition import_blob :: "'s target \<Rightarrow> exportedBlob \<Rightarrow> ('s, xerr, unit) sm" where
  "import_blob T blob = sm_err XImport (sm_do (tg_Push T (eb_descriptor blob) (eb_data blob)) ())"

text \<open>The state is the fresh store that \<^verbatim>\<open>memory.New\<close> gives.\<close>

definition Import :: "export_codec \<Rightarrow> 's target \<Rightarrow> bytes \<Rightarrow> ('s, xerr, string) sm" where
  "Import J T data =
    sm_bind (sm_err XParse (sm_lift (ec_unmarshal J data))) (\<lambda>artifact.
    sm_then (sm_each (import_blob T) (ea_blobs artifact))
    (sm_then (sm_err XTag (sm_do (tg_Tag T (ea_manifest artifact) (dc_digest (ea_manifest artifact))) ()))
    (sm_return (dc_digest (ea_manifest artifact)))))"


section \<open>Round trip\<close>

text \<open>Blobs that agree on equal digests.\<close>

definition consistent :: "exportedBlob list \<Rightarrow> bool" where
  "consistent bs \<longleftrightarrow>
    (\<forall>b \<in> set bs. \<forall>b' \<in> set bs. dc_digest (eb_descriptor b) = dc_digest (eb_descriptor b') \<longrightarrow> eb_data b = eb_data b')"

lemma import_blob_Inr: "import_blob T b s = (Inr u, s') \<longleftrightarrow> tg_Push T (eb_descriptor b) (eb_data b) s = (None, s')"
  by (simp add: import_blob_def)

context oras_target
begin

lemma imported_blobs:
  assumes "sm_each (import_blob T) bs s = (Inr us, s')" "consistent bs" "b \<in> set bs"
  shows "has_blob T s' (dc_digest (eb_descriptor b)) (eb_data b)"
proof -
  have keep: "has_blob T s1' g y"
    if "sm_each (import_blob T) cs s1 = (Inr vs, s1')" "has_blob T s1 g y"
      "\<forall>c \<in> set cs. dc_digest (eb_descriptor c) = g \<longrightarrow> eb_data c = y" for cs s1 vs s1' g y
    using that
  proof (induction cs arbitrary: s1 vs)
    case (Cons c cs)
    then obtain s2 ws where c: "tg_Push T (eb_descriptor c) (eb_data c) s1 = (None, s2)"
      "sm_each (import_blob T) cs s2 = (Inr ws, s1')"
      by (auto simp: sm_bind_Inr import_blob_Inr)
    have "has_blob T s2 g y" using push_keeps_blob [OF c(1) Cons.prems(2)] Cons.prems(3) by auto
    then show ?case using Cons.IH [OF c(2)] Cons.prems(3) by simp
  qed simp
  show ?thesis
    using assms
  proof (induction bs arbitrary: s us)
    case (Cons c cs)
    then obtain s2 ws where c: "tg_Push T (eb_descriptor c) (eb_data c) s = (None, s2)"
      "sm_each (import_blob T) cs s2 = (Inr ws, s')"
      by (auto simp: sm_bind_Inr import_blob_Inr)
    show ?case
    proof (cases "b \<in> set cs")
      case True
      moreover have "consistent cs" using Cons.prems(2) unfolding consistent_def by (meson list.set_intros(2))
      ultimately show ?thesis using Cons.IH [OF c(2)] by blast
    next
      case False
      then have "b = c" using Cons.prems(3) by simp
      moreover have "\<forall>d \<in> set cs. dc_digest (eb_descriptor d) = dc_digest (eb_descriptor c) \<longrightarrow> eb_data d = eb_data c"
        using Cons.prems(2) unfolding consistent_def by (meson list.set_intros)
      ultimately show ?thesis using keep [OF c(2) push_has_blob [OF c(1)]] by simp
    qed
  qed simp
qed

end

lemma read_exported_Inr:
  "read_exported f T d s = (Inr b, s') \<longleftrightarrow> s' = s \<and> eb_descriptor b = d \<and> tg_Fetch T d s = Inr (eb_data b)"
  by (cases b) (auto simp: read_exported_def sm_bind_Inr readBlob_def)

lemma read_all_Inr:
  "sm_each (read_exported f T) ds s = (Inr bs, s') \<Longrightarrow>
     s' = s \<and> map eb_descriptor bs = ds \<and> (\<forall>b \<in> set bs. tg_Fetch T (eb_descriptor b) s = Inr (eb_data b))"
  by (induction ds arbitrary: bs) (auto simp: sm_bind_Inr read_exported_Inr)


text \<open>A store of blobs and tags with the laws of a target, holding one manifest and its
  configuration; its artifact is exported and imported into an empty store.\<close>

type_synonym blob_store = "(string, bytes) gomap \<times> (string, Descriptor) gomap"

definition blob_target :: "blob_store target" where
  "blob_target =
    \<lparr>tg_Resolve = (\<lambda>r s. (case fmlookup (snd s) r of Some d \<Rightarrow> Inr d | None \<Rightarrow> Inl ErrNotFound, s)),
     tg_Fetch = (\<lambda>d s. case fmlookup (fst s) (dc_digest d) of Some x \<Rightarrow> Inr x | None \<Rightarrow> Inl ErrNotFound),
     tg_Push = (\<lambda>d x s. (None, (fmupd (dc_digest d) x (fst s), snd s))),
     tg_Tag = (\<lambda>d r s. (None, (fst s, fmupd r d (snd s))))\<rparr>"

lemma blob_target_laws: "oras_target blob_target"
  by unfold_locales (auto simp: blob_target_def)

definition blob_of :: "string \<Rightarrow> Descriptor" where
  "blob_of g = \<lparr>dc_media = [], dc_digest = g, dc_size = 1, dc_annotations = fmempty, dc_platform = None\<rparr>"

definition small_artifact :: exportedArtifact where
  "small_artifact = \<lparr>ea_manifest = blob_of ''m'', ea_blobs = [\<lparr>eb_descriptor = blob_of ''m'', eb_data = ''M''\<rparr>,
     \<lparr>eb_descriptor = blob_of ''c'', eb_data = ''C''\<rparr>]\<rparr>"

definition small_json :: export_codec where
  "small_json = \<lparr>ec_marshal = (\<lambda>a. if a = small_artifact then Inr ''j'' else Inl ErrJson), ec_unmarshal = (\<lambda>_. Inr small_artifact)\<rparr>"

definition small_codec :: codec where
  "small_codec = demo_codec\<lparr>cd_dec_manifest := (\<lambda>_. Inr \<lparr>mf_media = [], mf_artifact = [], mf_config = blob_of ''c'',
     mf_layers = [], mf_annotations = fmempty\<rparr>)\<rparr>"

definition small_store :: blob_store where
  "small_store = (fmupd ''m'' ''M'' (fmupd ''c'' ''C'' fmempty), fmupd ''bot:1'' (blob_of ''m'') fmempty)"


end
