(* ===== verification/Entry_Points.thy ===== *)
theory Entry_Points
  imports Parse_Correct
begin

text \<open>
  The package \<^verbatim>\<open>validate\<close>: files, readers and structs are checked by the one validator.
\<close>

definition ValidateFile :: "lib \<Rightarrow> (string \<Rightarrow> reader option) \<Rightarrow> string \<Rightarrow> perr option" where
  "ValidateFile L fs path = (case ParseFile L fs path of Inl e \<Rightarrow> Some e | Inr _ \<Rightarrow> None)"

definition validate_Validate :: "lib \<Rightarrow> reader \<Rightarrow> perr option" where
  "validate_Validate L r = (case Parse L r of Inl e \<Rightarrow> Some e | Inr _ \<Rightarrow> None)"

definition validate_Struct :: "Agentfile option \<Rightarrow> verr option" where
  "validate_Struct af = Validate af"

text \<open>What the text form accepts, the struct form accepts: the two cannot disagree about a file.\<close>

lemma accepted_text_is_valid_struct:
  "validate_Validate L r = None \<Longrightarrow> \<exists>af. Parse L r = Inr af \<and> validate_Struct (Some af) = None"
  by (auto simp: validate_Validate_def validate_Struct_def Parse_def validate_Inr split: sum.splits option.splits if_splits)

lemma accepted_file_is_accepted_text:
  "ValidateFile L fs path = None \<longleftrightarrow> (\<exists>r. fs path = Some r \<and> validate_Validate L r = None)"
  by (auto simp: ValidateFile_def validate_Validate_def ParseFile_def split: option.splits)

end
