(* ===== verification/Exec_Stream.thy ===== *)
theory Exec_Stream
  imports Prelude "HOL-Library.Word" "HOL-Library.Sublist" "HOL-Library.Multiset"
begin

text \<open>
  The output of a container (\<^verbatim>\<open>dockerStdCopy\<close> of \<^verbatim>\<open>executor/docker/exec_async.go\<close>): the
  multiplexed log stream of the docker engine, split into standard output and standard error and
  forwarded to live sinks, and the sorted list of names both executors print when a binary is
  not declared.  Frames are demultiplexed back to what was written, also when the stream breaks off.
\<close>

unbundle bit_operations_syntax


section \<open>Readers and writers\<close>

datatype io_err = EOF | ErrUnexpectedEOF | Canceled | OtherErr string

text \<open>What a stream delivers, and the error it then ends with.\<close>

record log_stream =
  ls_data :: bytes
  ls_end :: io_err

definition end_of_file :: "io_err \<Rightarrow> bool" where
  "end_of_file e \<longleftrightarrow> e = EOF \<or> e = ErrUnexpectedEOF"

definition quiet_eof :: "io_err \<Rightarrow> io_err option" where
  "quiet_eof e = (if end_of_file e then None else Some e)"

text \<open>One of the two outputs: the local buffer and the chunks its live sink has accepted.  A sink
  decides on every chunk, knowing the earlier ones.\<close>

record log_output =
  out_buf :: bytes
  out_sent :: "bytes list"

type_synonym sink = "(bytes list \<Rightarrow> bytes \<Rightarrow> io_err option) option"

record sinks =
  sk_stdout :: sink
  sk_stderr :: sink

record demux =
  dx_stdout :: log_output
  dx_stderr :: log_output

definition no_output :: log_output where
  "no_output = \<lparr>out_buf = [], out_sent = []\<rparr>"

text \<open>The buffer alone, or \<^verbatim>\<open>io.MultiWriter\<close> of the buffer and the sink: the buffer is written
  first and a failing sink makes the write fail.\<close>

definition write_to :: "sink \<Rightarrow> bytes \<Rightarrow> log_output \<Rightarrow> io_err option \<times> log_output" where
  "write_to k chunk w =
    (let w1 = w\<lparr>out_buf := out_buf w @ chunk\<rparr>
     in case k of
          None \<Rightarrow> (None, w1)
        | Some f \<Rightarrow> (case f (out_sent w) chunk of
                       None \<Rightarrow> (None, w1\<lparr>out_sent := out_sent w @ [chunk]\<rparr>)
                     | Some e \<Rightarrow> (Some e, w1)))"

fun write_chunks :: "sink \<Rightarrow> bytes list \<Rightarrow> log_output \<Rightarrow> io_err option \<times> log_output" where
  "write_chunks k [] w = (None, w)"
| "write_chunks k (c # cs) w =
    (case write_to k c w of
       (Some e, w1) \<Rightarrow> (Some e, w1)
     | (None, w1) \<Rightarrow> write_chunks k cs w1)"


section \<open>Demultiplexing\<close>

definition byte_word :: "char \<Rightarrow> 32 word" where
  "byte_word c = word_of_nat (of_char c)"

text \<open>\<^verbatim>\<open>binary.BigEndian.Uint32\<close> on four bytes.\<close>

definition Uint32 :: "bytes \<Rightarrow> 32 word" where
  "Uint32 b = byte_word (b ! 3) OR push_bit 8 (byte_word (b ! 2)) OR push_bit 16 (byte_word (b ! 1)) OR push_bit 24 (byte_word (b ! 0))"

text \<open>\<open>split\<close> is how the reader cuts a payload into the chunks that are copied one by one.\<close>

definition copy_payload ::
    "(bytes \<Rightarrow> bytes list) \<Rightarrow> sinks \<Rightarrow> nat \<Rightarrow> bytes \<Rightarrow> demux \<Rightarrow> io_err option \<times> demux" where
  "copy_payload split k stream payload d =
    (if stream = 1 then
       (let (e, w) = write_chunks (sk_stdout k) (split payload) (dx_stdout d) in (e, d\<lparr>dx_stdout := w\<rparr>))
     else if stream = 2 then
       (let (e, w) = write_chunks (sk_stderr k) (split payload) (dx_stderr d) in (e, d\<lparr>dx_stderr := w\<rparr>))
     else (None, d))"

function dockerStdCopy ::
    "(bytes \<Rightarrow> bytes list) \<Rightarrow> sinks \<Rightarrow> io_err \<Rightarrow> bytes \<Rightarrow> demux \<Rightarrow> io_err option \<times> demux" where
  "dockerStdCopy split k err src d =
    (if length src < 8 then (quiet_eof err, d)
     else let hdr = take 8 src; rest = drop 8 src; size = unat (Uint32 (drop 4 hdr))
          in if size = 0 then dockerStdCopy split k err rest d
             else case copy_payload split k (of_char (hdr ! 0)) (take size rest) d of
                    (Some e, d1) \<Rightarrow> (quiet_eof e, d1)
                  | (None, d1) \<Rightarrow>
                      if length rest < size then (quiet_eof err, d1)
                      else dockerStdCopy split k err (drop size rest) d1)"
  by pat_completeness auto
termination
  by (relation "measure (\<lambda>(split, k, err, src, d). length src)") auto

declare dockerStdCopy.simps [simp del]


section \<open>The wire format\<close>

text \<open>The engine's frames as the comment of \<^verbatim>\<open>dockerStdCopy\<close> gives them: the stream, three
  zero bytes, the length of the payload as a big-endian number, the payload.\<close>

type_synonym frame = "nat \<times> bytes"

definition PutUint32 :: "32 word \<Rightarrow> bytes" where
  "PutUint32 w = map (\<lambda>i. char_of (unat (drop_bit i w))) [24, 16, 8, 0]"

fun encode_frame :: "frame \<Rightarrow> bytes" where
  "encode_frame (s, p) = [char_of s, char_of (0 :: nat), char_of (0 :: nat), char_of (0 :: nat)] @ PutUint32 (word_of_nat (length p)) @ p"

definition wire :: "frame list \<Rightarrow> bytes" where
  "wire fs = concat (map encode_frame fs)"

fun frame_ok :: "frame \<Rightarrow> bool" where
  "frame_ok (s, p) \<longleftrightarrow> s < 256 \<and> length p < 2 ^ 32"

definition stream_bytes :: "nat \<Rightarrow> frame list \<Rightarrow> bytes" where
  "stream_bytes i fs = concat (map snd (filter (\<lambda>f. fst f = i) fs))"

text \<open>A reader cuts a payload into nonempty chunks; a sink that takes everything.\<close>

definition cuts :: "(bytes \<Rightarrow> bytes list) \<Rightarrow> bool" where
  "cuts split \<longleftrightarrow> (\<forall>p. concat (split p) = p \<and> [] \<notin> set (split p))"

definition accepting :: "sink \<Rightarrow> bool" where
  "accepting k \<longleftrightarrow> (case k of None \<Rightarrow> True | Some f \<Rightarrow> \<forall>cs c. f cs c = None)"

lemma cuts_Nil: "cuts split \<Longrightarrow> split [] = []"
  unfolding cuts_def by (metis concat_eq_Nil_conv list.set_intros(1) neq_Nil_conv)

lemma byte_word_char: "byte_word (char_of (unat w)) = take_bit 8 (w :: 32 word)"
proof -
  have "unat w mod 256 = unat (w mod 256)" by (simp add: unat_mod_distrib)
  then show ?thesis by (simp add: byte_word_def take_bit_eq_mod)
qed

lemma Uint32_Put: "Uint32 (PutUint32 w) = w"
proof (rule bit_eqI)
  fix n assume "possible_bit TYPE(32 word) n"
  then have n: "n < 32" by simp
  have "Uint32 (PutUint32 w) =
      take_bit 8 w OR push_bit 8 (take_bit 8 (drop_bit 8 w)) OR push_bit 16 (take_bit 8 (drop_bit 16 w)) OR push_bit 24 (take_bit 8 (drop_bit 24 w))"
    by (simp add: Uint32_def PutUint32_def byte_word_char)
  then show "bit (Uint32 (PutUint32 w)) n = bit w n"
    using n by (cases "n < 8"; cases "n < 16"; cases "n < 24") (auto simp: bit_simps)
qed

lemma length_PutUint32 [simp]: "length (PutUint32 w) = 4"
  by (simp add: PutUint32_def)

lemma length_encode_frame [simp]: "length (encode_frame (s, p)) = 8 + length p"
  by simp

declare encode_frame.simps [simp del]

lemma frame_parts:
  assumes "frame_ok (s, p)"
  shows "of_char (encode_frame (s, p) ! 0) = s" "unat (Uint32 (drop 4 (take 8 (encode_frame (s, p))))) = length p"
    "drop 8 (encode_frame (s, p)) = p"
proof -
  have "take 8 (encode_frame (s, p)) = [char_of s, char_of (0 :: nat), char_of (0 :: nat), char_of (0 :: nat)] @ PutUint32 (word_of_nat (length p))"
    by (simp add: encode_frame.simps)
  moreover have "unat (word_of_nat (length p) :: 32 word) = length p" using assms by (simp add: unat_of_nat)
  moreover have "encode_frame (s, p) ! 0 = char_of s" by (simp add: encode_frame.simps)
  ultimately show "of_char (encode_frame (s, p) ! 0) = s" "unat (Uint32 (drop 4 (take 8 (encode_frame (s, p))))) = length p"
    using assms by (simp_all add: Uint32_Put)
  show "drop 8 (encode_frame (s, p)) = p" by (simp add: encode_frame.simps)
qed


section \<open>Delivery\<close>

lemma write_chunks_accepting:
  assumes "accepting k"
  shows "write_chunks k cs w =
    (None, w\<lparr>out_buf := out_buf w @ concat cs, out_sent := out_sent w @ (if k = None then [] else cs)\<rparr>)"
  using assms
  by (induction cs arbitrary: w) (auto simp: accepting_def write_to_def split: option.splits)

definition accepting_both :: "sinks \<Rightarrow> bool" where
  "accepting_both k \<longleftrightarrow> accepting (sk_stdout k) \<and> accepting (sk_stderr k)"

lemma copy_payload_accepting:
  assumes "accepting_both k"
  obtains d1 where "copy_payload split k s p d = (None, d1)"
proof
  show "copy_payload split k s p d = (None, snd (copy_payload split k s p d))"
    using assms by (simp add: accepting_both_def copy_payload_def write_chunks_accepting)
qed

lemma copy_payload_Nil: "cuts split \<Longrightarrow> copy_payload split k s [] d = (None, d)"
  by (simp add: copy_payload_def cuts_Nil)

definition deliver :: "(bytes \<Rightarrow> bytes list) \<Rightarrow> sinks \<Rightarrow> frame list \<Rightarrow> demux \<Rightarrow> demux" where
  "deliver split k fs d = fold (\<lambda>(s, p) d. snd (copy_payload split k s p d)) fs d"

lemma deliver_Cons [simp]: "deliver split k ((s, p) # fs) d = deliver split k fs (snd (copy_payload split k s p d))"
  by (simp add: deliver_def)

lemma deliver_Nil [simp]: "deliver split k [] d = d"
  by (simp add: deliver_def)

lemma frame_step:
  assumes "frame_ok (s, p)" "accepting_both k" "cuts split"
  shows "dockerStdCopy split k err (encode_frame (s, p) @ src) d = dockerStdCopy split k err src (snd (copy_payload split k s p d))"
proof -
  have e: "take 8 (encode_frame (s, p) @ src) = take 8 (encode_frame (s, p))" "drop 8 (encode_frame (s, p) @ src) = p @ src"
    using frame_parts(3) [OF assms(1)] by simp_all
  obtain d1 where "copy_payload split k s p d = (None, d1)" using copy_payload_accepting [OF assms(2)] by blast
  then show ?thesis
    using copy_payload_Nil [OF assms(3)]
    by (subst dockerStdCopy.simps) (auto simp: e Let_def frame_parts [OF assms(1)])
qed

lemma frame_cut:
  assumes "frame_ok (s, p)" "accepting_both k" "cuts split" "n < 8 + length p"
  shows "dockerStdCopy split k err (take n (encode_frame (s, p))) d = (quiet_eof err, snd (copy_payload split k s (take (n - 8) p) d))"
proof (cases "n < 8")
  case True
  then show ?thesis by (subst dockerStdCopy.simps) (simp add: copy_payload_Nil assms(3))
next
  case False
  then have e: "take 8 (take n (encode_frame (s, p))) = take 8 (encode_frame (s, p))"
    "drop 8 (take n (encode_frame (s, p))) = take (n - 8) p"
    using frame_parts(3) [OF assms(1)] by (simp_all add: drop_take min_def)
  obtain d1 where "copy_payload split k s (take (n - 8) p) d = (None, d1)" using copy_payload_accepting [OF assms(2)] by blast
  moreover have "p \<noteq> []" "n - 8 < length p" using False assms(4) by auto
  ultimately show ?thesis
    using False by (subst dockerStdCopy.simps) (simp add: e Let_def frame_parts [OF assms(1)])
qed

fun cut_frames :: "nat \<Rightarrow> frame list \<Rightarrow> frame list" where
  "cut_frames n [] = []"
| "cut_frames n ((s, p) # fs) =
    (if n < 8 + length p then [(s, take (n - 8) p)] else (s, p) # cut_frames (n - (8 + length p)) fs)"

lemma wire_Cons: "wire (f # fs) = encode_frame f @ wire fs"
  by (simp add: wire_def)

lemma dockerStdCopy_wire:
  assumes "\<forall>f \<in> set fs. frame_ok f" "accepting_both k" "cuts split"
  shows "dockerStdCopy split k err (take n (wire fs)) d = (quiet_eof err, deliver split k (cut_frames n fs) d)"
  using assms(1)
proof (induction n fs arbitrary: d rule: cut_frames.induct)
  case (1 n)
  show ?case by (subst dockerStdCopy.simps) (simp add: wire_def)
next
  case (2 n s p fs)
  then have ok: "frame_ok (s, p)" by simp
  show ?case
  proof (cases "n < 8 + length p")
    case True
    then show ?thesis using frame_cut [OF ok assms(2,3)] by (simp add: wire_Cons)
  next
    case False
    then show ?thesis using 2 frame_step [OF ok assms(2,3)] by (simp add: wire_Cons)
  qed
qed

lemma copy_payload_view:
  assumes "accepting_both k" "cuts split" "d' = snd (copy_payload split k s p d)"
  shows "out_buf (dx_stdout d') = out_buf (dx_stdout d) @ (if s = 1 then p else [])"
    "out_buf (dx_stderr d') = out_buf (dx_stderr d) @ (if s = 2 then p else [])"
    "concat (out_sent (dx_stdout d')) = concat (out_sent (dx_stdout d)) @ (if s = 1 \<and> sk_stdout k \<noteq> None then p else [])"
    "concat (out_sent (dx_stderr d')) = concat (out_sent (dx_stderr d)) @ (if s = 2 \<and> sk_stderr k \<noteq> None then p else [])"
  using assms by (auto simp: accepting_both_def cuts_def copy_payload_def write_chunks_accepting)

lemma stream_bytes_Cons: "stream_bytes i ((s, p) # fs) = (if s = i then p else []) @ stream_bytes i fs"
  by (simp add: stream_bytes_def)

lemma deliver_view:
  assumes "accepting_both k" "cuts split"
  shows "out_buf (dx_stdout (deliver split k fs d)) = out_buf (dx_stdout d) @ stream_bytes 1 fs \<and>
    out_buf (dx_stderr (deliver split k fs d)) = out_buf (dx_stderr d) @ stream_bytes 2 fs \<and>
    concat (out_sent (dx_stdout (deliver split k fs d))) =
      concat (out_sent (dx_stdout d)) @ (if sk_stdout k \<noteq> None then stream_bytes 1 fs else []) \<and>
    concat (out_sent (dx_stderr (deliver split k fs d))) =
      concat (out_sent (dx_stderr d)) @ (if sk_stderr k \<noteq> None then stream_bytes 2 fs else [])"
proof (induction fs arbitrary: d)
  case Nil
  show ?case by (simp add: stream_bytes_def)
next
  case (Cons f fs)
  obtain s p where f: "f = (s, p)" by fastforce
  note view = copy_payload_view [OF assms refl, of s p d]
  show ?case by (simp add: f Cons.IH view stream_bytes_Cons)
qed

lemma stream_bytes_append: "stream_bytes i (fs @ gs) = stream_bytes i fs @ stream_bytes i gs"
  by (simp add: stream_bytes_def)

lemma cut_frames_prefix: "prefix (stream_bytes i (cut_frames n fs)) (stream_bytes i fs)"
  by (induction n fs rule: cut_frames.induct) (auto simp: stream_bytes_Cons take_is_prefix stream_bytes_def intro: prefix_order.trans)

lemma cut_frames_complete:
  "length (wire fs) \<le> n \<Longrightarrow> prefix (stream_bytes i fs) (stream_bytes i (cut_frames n (fs @ gs)))"
proof (induction n fs rule: cut_frames.induct)
  case (1 n)
  then show ?case by (simp add: stream_bytes_def)
next
  case (2 n s p fs)
  then show ?case by (auto simp: wire_Cons stream_bytes_Cons)
qed



section \<open>Sorted names\<close>

text \<open>The insertion sort of both executors, swapping neighbours in place.\<close>

fun sift :: "nat \<Rightarrow> string list \<Rightarrow> string list" where
  "sift 0 names = names"
| "sift (Suc j) names =
    (if names ! j > names ! Suc j then sift j (names[j := names ! Suc j, Suc j := names ! j]) else names)"

definition insertion_sort :: "string list \<Rightarrow> string list" where
  "insertion_sort names = fold sift [1..<length names] names"

text \<open>An element moved down into a sorted prefix leaves a sorted prefix with the same elements.\<close>

lemma sift_sorted:
  "sorted xs \<Longrightarrow> \<exists>zs. sift (length xs) (xs @ x # ys) = zs @ ys \<and> sorted zs \<and> mset zs = add_mset x (mset xs)"
proof (induction xs arbitrary: ys rule: rev_induct)
  case (snoc z xs)
  show ?case
  proof (cases "x < z")
    case True
    obtain zs where zs: "sift (length xs) (xs @ x # z # ys) = zs @ z # ys" "sorted zs" "mset zs = add_mset x (mset xs)"
      using snoc by (auto simp: sorted_append)
    then have "set zs = insert x (set xs)" by (metis set_mset_add_mset_insert set_mset_mset)
    then have "sorted (zs @ [z])" using zs(2) True snoc.prems by (auto simp: sorted_append)
    moreover have "sift (length (xs @ [z])) ((xs @ [z]) @ x # ys) = (zs @ [z]) @ ys"
      using True zs(1) by (simp add: nth_append list_update_append)
    ultimately show ?thesis using zs(3) by (intro exI [of _ "zs @ [z]"]) simp
  next
    case False
    then have "sorted (xs @ [z, x])" using snoc.prems by (auto simp: sorted_append intro: order_trans)
    moreover have "sift (length (xs @ [z])) ((xs @ [z]) @ x # ys) = (xs @ [z, x]) @ ys"
      using False by (simp add: nth_append)
    ultimately show ?thesis by (intro exI [of _ "xs @ [z, x]"]) simp
  qed
qed simp

lemma insertion_sort_prefix:
  "i < length names \<Longrightarrow> \<exists>zs. fold sift [1..<Suc i] names = zs @ drop (Suc i) names \<and> sorted zs \<and> mset zs = mset (take (Suc i) names)"
proof (induction i)
  case 0
  then show ?case by (intro exI [of _ "take 1 names"]) (cases names, simp_all)
next
  case (Suc i)
  then obtain zs where zs: "fold sift [1..<Suc i] names = zs @ drop (Suc i) names" "sorted zs" "mset zs = mset (take (Suc i) names)"
    by auto
  have "length zs = Suc i" using Suc.prems zs(3) by (metis length_take mset_eq_length min.absorb2 less_imp_le)
  moreover have "drop (Suc i) names = names ! Suc i # drop (Suc (Suc i)) names" using Suc.prems by (rule Cons_nth_drop_Suc [symmetric])
  moreover obtain ws where "sift (length zs) (zs @ names ! Suc i # drop (Suc (Suc i)) names) = ws @ drop (Suc (Suc i)) names"
    "sorted ws" "mset ws = add_mset (names ! Suc i) (mset zs)"
    using sift_sorted [OF zs(2)] by blast
  ultimately show ?case
    using zs(1,3) Suc.prems by (intro exI [of _ ws]) (simp add: take_Suc_conv_app_nth)
qed

lemma insertion_sort_sort: "insertion_sort names = sort names"
proof (cases names)
  case (Cons a as)
  then have "length as < length names" by simp
  from insertion_sort_prefix [OF this] Cons
  obtain zs where "insertion_sort names = zs" "sorted zs" "mset zs = mset names" by (auto simp: insertion_sort_def)
  then show ?thesis by (metis properties_for_sort)
qed (simp add: insertion_sort_def)


section \<open>Properties\<close>

text \<open>C21: a container's log is split into exactly what it wrote.  However the payloads are cut into
  chunks, wherever the stream breaks off, the copy ends without an error; each buffer holds the
  bytes of its own stream in order, at least those of all complete frames received (and so all of
  them when the stream is complete), nothing of other streams; and a live sink has received the
  very bytes of its buffer.\<close>

theorem docker_log_demux:
  assumes "cuts split" "accepting_both k" "\<forall>f \<in> set (fs @ gs). frame_ok f"
    and "length (wire fs) \<le> n" "end_of_file err"
  shows "case dockerStdCopy split k err (take n (wire (fs @ gs))) \<lparr>dx_stdout = no_output, dx_stderr = no_output\<rparr> of (e, d) \<Rightarrow>
    let out = dx_stdout d; errs = dx_stderr d in
    e = None \<and>
    prefix (stream_bytes 1 fs) (out_buf out) \<and> prefix (out_buf out) (stream_bytes 1 (fs @ gs)) \<and>
    prefix (stream_bytes 2 fs) (out_buf errs) \<and> prefix (out_buf errs) (stream_bytes 2 (fs @ gs)) \<and>
    concat (out_sent out) = (if sk_stdout k = None then [] else out_buf out) \<and>
    concat (out_sent errs) = (if sk_stderr k = None then [] else out_buf errs)"
  using deliver_view [OF assms(2,1), of "cut_frames n (fs @ gs)" "\<lparr>dx_stdout = no_output, dx_stderr = no_output\<rparr>"]
  by (simp add: dockerStdCopy_wire [OF assms(3,2,1)] Let_def no_output_def quiet_eof_def assms(5)
      cut_frames_prefix cut_frames_complete [OF assms(4)])

theorem docker_log_demux_witness:
  "out_buf (dx_stdout (snd (dockerStdCopy (\<lambda>p. if p = [] then [] else [p]) \<lparr>sk_stdout = None, sk_stderr = None\<rparr> EOF
     (take 100 (wire [(1, ''ab''), (2, ''c''), (1, ''d'')])) \<lparr>dx_stdout = no_output, dx_stderr = no_output\<rparr>))) = ''abd''"
proof -
  let ?fs = "[(1, ''ab''), (2, ''c''), (1, ''d'')]" and ?split = "\<lambda>p :: bytes. if p = [] then [] else [p]"
  let ?k = "\<lparr>sk_stdout = None, sk_stderr = None\<rparr>"
  have h: "cuts ?split" "accepting_both ?k" "\<forall>f \<in> set (?fs @ []). frame_ok f" "length (wire ?fs) \<le> 100" "end_of_file EOF"
    by (auto simp: cuts_def accepting_both_def accepting_def wire_def end_of_file_def)
  have b: "stream_bytes 1 ?fs = ''abd''" by (simp add: stream_bytes_def)
  show ?thesis
    using docker_log_demux [OF h] b by (auto simp: Let_def split: prod.splits intro: prefix_order.antisym)
qed

text \<open>A sink that refuses a chunk ends the copy: the error is reported and the frames that follow
  are lost for the buffers too.\<close>

lemma sink_failure_stops_copy:
  "dockerStdCopy (\<lambda>p. [p]) \<lparr>sk_stdout = Some (\<lambda>_ _. Some (OtherErr ''full'')), sk_stderr = None\<rparr> EOF
     (wire [(1, ''a''), (2, ''b'')]) \<lparr>dx_stdout = no_output, dx_stderr = no_output\<rparr> =
   (Some (OtherErr ''full''), \<lparr>dx_stdout = \<lparr>out_buf = ''a'', out_sent = []\<rparr>, dx_stderr = no_output\<rparr>)"
  by code_simp

end
