(* ===== verification/Docker_Exec.thy ===== *)
theory Docker_Exec
  imports Docker_Container Exec_Stream
begin

text \<open>
  Jobs of a docker agent (\<^verbatim>\<open>executor/docker/exec_async.go\<close>): the container of one binary
  invocation and the calls that create, start, follow, inspect and remove it.  The job's
  container has the file system and the environment of the agent's own container; it is removed
  on every path on which it was created; and the list of declared binaries is sorted.

  Another goroutine stops the container when the context is cancelled.  When it runs, and when the
  cancellation happens, are parameters, counted in client calls.
\<close>


section \<open>Declared binaries\<close>

definition binDeclared :: "Runtime \<Rightarrow> string \<Rightarrow> bool" where
  "binDeclared rt name \<longleftrightarrow> list_ex (\<lambda>t. tl_name t = name) (rt_tools rt)"

definition declaredBinNames :: "Runtime \<Rightarrow> string" where
  "declaredBinNames rt =
    (let names = map tl_name (rt_tools rt)
     in if names = [] then ''(none)'' else Join (insertion_sort names) '', '')"


section \<open>The job's container\<close>

record 'p exec_config = "'p container_config" +
  ec_open_stdin :: bool
  ec_stdin_once :: bool
  ec_attach_stdin :: bool

definition labelOpenottersAsyncJob :: string where
  "labelOpenottersAsyncJob = ''io.openotters.async-job-id''"

definition exec_env :: "lib \<Rightarrow> Runtime \<Rightarrow> string \<Rightarrow> string \<Rightarrow> string list" where
  "exec_env L rt daemonURL agentToken =
    (let inContainerDaemonURL = fst (daemonAccess daemonURL);
         env = BuildLockedEnv \<lparr>eo_root = inContainerAgentRoot, eo_bindirs = [inContainerBinsRoot],
                               eo_url = inContainerDaemonURL, eo_token = agentToken\<rparr>;
         provider = fst (splitProviderPrefix (rt_model rt));
         prefix = ToUpper L provider;
         creds = (if provider \<noteq> []
                  then (if rt_apikey rt \<noteq> [] then [env_entry (prefix @ ''_API_KEY'') (rt_apikey rt)] else []) @
                       (if rt_apibase rt \<noteq> [] then [env_entry (prefix @ ''_API_BASE'') (rt_apibase rt)] else [])
                  else [])
     in fst (AppendUserEnv (AppendConfigEnv (env @ creds) (rt_configs rt)) (rt_envs rt)))"

text \<open>\<open>order\<close> is the order in which the map of binaries is visited.\<close>

definition exec_mounts :: "'s agentDeps \<Rightarrow> string list \<Rightarrow> Runtime \<Rightarrow> moby_mount list" where
  "exec_mounts d order rt =
    (let bins = fold (\<lambda>t refs. fmupd (tl_name t) (tl_ref t) refs) (rt_tools rt) fmempty;
         userMounts = (if rt_mounts rt \<noteq> []
           then map (\<lambda>m. \<lparr>mnt_host = mnt_host m, mnt_target = mnt_target m, mnt_description = mnt_description m,
                          mnt_readonly = mnt_readonly m\<rparr>) (rt_mounts rt)
           else ad_mounts d)
     in agentFHSMounts (ad_root d) @
        (if runtimeRef rt \<noteq> []
         then [\<lparr>mt_type = TypeImage, mt_source = runtimeRef rt, mt_target = inContainerRuntimeDir, mt_readonly = True\<rparr>] else []) @
        map (\<lambda>name. \<lparr>mt_type = TypeImage, mt_source = map_at bins name, mt_target = inContainerBinImages @ ''/'' @ name,
                     mt_readonly = True\<rparr>) order @
        map (\<lambda>m. \<lparr>mt_type = TypeBind, mt_source = mnt_host m, mt_target = mnt_target m, mt_readonly = mnt_readonly m\<rparr>) userMounts)"

definition buildExecContainer ::
    "lib \<Rightarrow> 's agentDeps \<Rightarrow> string list \<Rightarrow> Runtime \<Rightarrow> string \<Rightarrow> string list \<Rightarrow> string \<Rightarrow> string \<Rightarrow> string \<Rightarrow>
     'p exec_config \<times> 'p host_config" where
  "buildExecContainer L d order rt bin args jobLabel daemonURL agentToken =
    (let cfg = \<lparr>cc_image = ad_base d, cc_entrypoint = [], cc_cmd = bin # args,
                cc_env = exec_env L rt daemonURL agentToken, cc_workdir = inContainerWorkspace,
                cc_user = ''65532:65532'', cc_ports = [],
                cc_labels = fmupd ''io.openotters.agent-id'' (ad_id d)
                  (fmupd labelOpenottersAsyncJob jobLabel (fmupd labelOpenottersAgent labelValueTrue fmempty)),
                ec_open_stdin = False, ec_stdin_once = False, ec_attach_stdin = False\<rparr>;
         hostCfg = \<lparr>hc_mounts = exec_mounts d order rt, hc_ports = [], hc_network = [], hc_capdrop = [], hc_security = [],
                    hc_pids = None, hc_extrahosts = []\<rparr>
     in (cfg,
         if daemonURL \<noteq> [] \<and> agentToken \<noteq> [] then
           (case daemonAccess daemonURL of
              (_, Some mount, _) \<Rightarrow> hostCfg\<lparr>hc_mounts := hc_mounts hostCfg @ [mount]\<rparr>
            | (_, None, extraHost) \<Rightarrow>
                if extraHost \<noteq> [] then hostCfg\<lparr>hc_extrahosts := hc_extrahosts hostCfg @ [extraHost]\<rparr> else hostCfg)
         else hostCfg))"


section \<open>Results, client and state\<close>

datatype exec_err =
    ExecNotInitialized
  | ExecNoFilesystem
  | ExecBadName string
  | ExecUndeclared string string
  | ExecMissing string
  | ExecCreate string
  | ExecAttach string string
  | ExecStart string string
  | ExecLogs string string
  | ExecStream io_err
  | ExecInspect string string
  | ExecWait string
  | ExecCtx

record ExecResult =
  er_stdout :: bytes
  er_stderr :: bytes
  er_exit :: int
  er_err :: "exec_err option"
  er_handle :: string

definition exec_failed :: "exec_err \<Rightarrow> string \<Rightarrow> ExecResult" where
  "exec_failed e handle = \<lparr>er_stdout = [], er_stderr = [], er_exit = 0, er_err = Some e, er_handle = handle\<rparr>"

text \<open>The calls on the moby client, as changes of the daemon's state; \<open>xc_inspect\<close> gives the exit code
  when the container has a state.\<close>

datatype exec_call =
    CallCreate
  | CallAttach string
  | CallStart string
  | CallStop string
  | CallLogs string
  | CallInspect string
  | CallRemove string

record ('d, 'p) exec_client =
  xc_create :: "'p exec_config \<Rightarrow> 'p host_config \<Rightarrow> 'd \<Rightarrow> (string, string) res \<times> 'd"
  xc_attach :: "string \<Rightarrow> 'd \<Rightarrow> string option \<times> 'd"
  xc_start :: "string \<Rightarrow> 'd \<Rightarrow> string option \<times> 'd"
  xc_stop :: "string \<Rightarrow> 'd \<Rightarrow> 'd"
  xc_logs :: "string \<Rightarrow> 'd \<Rightarrow> (string, log_stream) res \<times> 'd"
  xc_inspect :: "string \<Rightarrow> 'd \<Rightarrow> (string, int option) res \<times> 'd"
  xc_remove :: "string \<Rightarrow> 'd \<Rightarrow> 'd"

record 'd exec_state =
  xs_world :: 'd
  xs_calls :: "exec_call list"

text \<open>The context is done after \<open>xe_cancel\<close> calls; the watcher runs after the calls \<open>xe_watch\<close> chooses.\<close>

record exec_run =
  xe_cancel :: "nat option"
  xe_watch :: "nat \<Rightarrow> bool"
  xe_split :: "bytes \<Rightarrow> bytes list"
  xe_sinks :: sinks
  xe_label :: string

definition exec_ctx_done :: "exec_run \<Rightarrow> 'd exec_state \<Rightarrow> bool" where
  "exec_ctx_done E s = (case xe_cancel E of None \<Rightarrow> False | Some n \<Rightarrow> n \<le> length (xs_calls s))"

definition xcall :: "exec_call \<Rightarrow> ('d \<Rightarrow> 'a \<times> 'd) \<Rightarrow> 'd exec_state \<Rightarrow> 'a \<times> 'd exec_state" where
  "xcall c op s = (let (r, w) = op (xs_world s) in (r, \<lparr>xs_world = w, xs_calls = xs_calls s @ [c]\<rparr>))"

definition watch :: "exec_run \<Rightarrow> ('d, 'p) exec_client \<Rightarrow> string \<Rightarrow> 'd exec_state \<Rightarrow> 'd exec_state" where
  "watch E X cid s =
    (if exec_ctx_done E s \<and> xe_watch E (length (xs_calls s)) \<and> CallStop cid \<notin> set (xs_calls s)
     then snd (xcall (CallStop cid) (\<lambda>w. ((), xc_stop X cid w)) s) else s)"


section \<open>Exec\<close>

definition exec_finish :: "exec_run \<Rightarrow> ('d, 'p) exec_client \<Rightarrow> string \<Rightarrow> demux \<Rightarrow> 'd exec_state \<Rightarrow> ExecResult \<times> 'd exec_state" where
  "exec_finish E X cid d s =
    (let out = out_buf (dx_stdout d); err = out_buf (dx_stderr d)
     in case xcall (CallInspect cid) (xc_inspect X cid) s of
          (Inl e, s1) \<Rightarrow>
            (\<lparr>er_stdout = out, er_stderr = err, er_exit = 0, er_err = Some (ExecInspect cid e), er_handle = cid\<rparr>, watch E X cid s1)
        | (Inr st, s1) \<Rightarrow>
            (let s2 = watch E X cid s1
             in (\<lparr>er_stdout = out, er_stderr = err, er_exit = (case st of None \<Rightarrow> 0 | Some code \<Rightarrow> code),
                  er_err = (if exec_ctx_done E s2 then Some ExecCtx else None), er_handle = cid\<rparr>, s2)))"

definition exec_started :: "exec_run \<Rightarrow> ('d, 'p) exec_client \<Rightarrow> string \<Rightarrow> 'd exec_state \<Rightarrow> ExecResult \<times> 'd exec_state" where
  "exec_started E X cid s =
    (case xcall (CallLogs cid) (xc_logs X cid) (watch E X cid s) of
       (Inl e, s1) \<Rightarrow> (exec_failed (ExecLogs cid e) cid, watch E X cid s1)
     | (Inr src, s1) \<Rightarrow>
         (let (copyErr, d) = dockerStdCopy (xe_split E) (xe_sinks E) (ls_end src) (ls_data src)
                \<lparr>dx_stdout = no_output, dx_stderr = no_output\<rparr>;
              s2 = watch E X cid s1
          in case copyErr of
               Some e \<Rightarrow>
                 if e \<noteq> EOF \<and> e \<noteq> Canceled
                 then (\<lparr>er_stdout = out_buf (dx_stdout d), er_stderr = out_buf (dx_stderr d), er_exit = 0,
                        er_err = Some (ExecStream e), er_handle = cid\<rparr>, s2)
                 else exec_finish E X cid d s2
             | None \<Rightarrow> exec_finish E X cid d s2))"

definition exec_start :: "exec_run \<Rightarrow> ('d, 'p) exec_client \<Rightarrow> string \<Rightarrow> 'd exec_state \<Rightarrow> ExecResult \<times> 'd exec_state" where
  "exec_start E X cid s =
    (case xcall (CallStart cid) (xc_start X cid) s of
       (Some e, s1) \<Rightarrow> (exec_failed (ExecStart cid e) cid, s1)
     | (None, s1) \<Rightarrow> exec_started E X cid s1)"

definition exec_created ::
    "exec_run \<Rightarrow> ('d, 'p) exec_client \<Rightarrow> string \<Rightarrow> string \<Rightarrow> 'd exec_state \<Rightarrow> ExecResult \<times> 'd exec_state" where
  "exec_created E X stdin cid s =
    (if stdin \<noteq> [] then
       (case xcall (CallAttach cid) (xc_attach X cid) s of
          (Some e, s1) \<Rightarrow> (exec_failed (ExecAttach cid e) cid, s1)
        | (None, s1) \<Rightarrow> exec_start E X cid s1)
     else exec_start E X cid s)"

definition job_container ::
    "lib \<Rightarrow> exec_run \<Rightarrow> 's agentDeps \<Rightarrow> string list \<Rightarrow> Runtime \<Rightarrow> string \<Rightarrow> string list \<Rightarrow> string \<Rightarrow> 'p exec_config \<times> 'p host_config" where
  "job_container L E d order rt bin args stdin =
    (let (cfg, hostCfg) = buildExecContainer L d order rt bin args (xe_label E) (ad_url d) (ad_token d)
     in (if stdin \<noteq> [] then cfg\<lparr>ec_open_stdin := True, ec_stdin_once := True, ec_attach_stdin := True\<rparr> else cfg, hostCfg))"

definition Exec ::
    "lib \<Rightarrow> exec_run \<Rightarrow> ('d, 'p) exec_client \<Rightarrow> 's agentDeps \<Rightarrow> bool \<Rightarrow> string list \<Rightarrow> Runtime option \<Rightarrow>
     string \<Rightarrow> string list \<Rightarrow> string \<Rightarrow> 'd exec_state \<Rightarrow> ExecResult \<times> 'd exec_state" where
  "Exec L E X d has_fs order rt bin args stdin s =
    (case rt of
       None \<Rightarrow> (exec_failed ExecNotInitialized [], s)
     | Some rt \<Rightarrow>
         if \<not> has_fs then (exec_failed ExecNoFilesystem [], s)
         else if \<not> binDeclared rt bin then (exec_failed (ExecUndeclared bin (declaredBinNames rt)) [], s)
         else (case xcall CallCreate (case job_container L E d order rt bin args stdin of (cfg, host) \<Rightarrow> xc_create X cfg host) s of
                 (Inl e, s1) \<Rightarrow> (exec_failed (ExecCreate e) [], s1)
               | (Inr cid, s1) \<Rightarrow>
                   (let (r, s2) = exec_created E X stdin cid s1
                    in (r, snd (xcall (CallRemove cid) (\<lambda>w. ((), xc_remove X cid w)) s2)))))"


section \<open>Call sequences\<close>

definition extends :: "exec_call set \<Rightarrow> 'd exec_state \<Rightarrow> 'd exec_state \<Rightarrow> bool" where
  "extends C s s' \<longleftrightarrow> (\<exists>cs. xs_calls s' = xs_calls s @ cs \<and> set cs \<subseteq> C)"

lemma extends_refl [simp]: "extends C s s"
  by (simp add: extends_def)

lemma extends_trans: "extends C s s1 \<Longrightarrow> extends C s1 s2 \<Longrightarrow> extends C s s2"
  by (auto simp: extends_def)

lemma extends_mono: "extends C s s' \<Longrightarrow> C \<subseteq> D \<Longrightarrow> extends D s s'"
  unfolding extends_def by blast

lemma xcall_calls: "xs_calls (snd (xcall c op s)) = xs_calls s @ [c]"
  by (simp add: xcall_def split: prod.splits)

lemma extends_xcall: "xcall c op s = (r, s1) \<Longrightarrow> c \<in> C \<Longrightarrow> extends C s s1"
  using xcall_calls [of c op s] by (simp add: extends_def)

lemma extends_calls: "extends C s s' \<Longrightarrow> set (xs_calls s) \<subseteq> set (xs_calls s')"
  by (auto simp: extends_def)

lemma ctx_done_mono: "extends C s s' \<Longrightarrow> exec_ctx_done E s \<Longrightarrow> exec_ctx_done E s'"
  by (auto simp: extends_def exec_ctx_done_def split: option.splits)

definition job_calls :: "string \<Rightarrow> exec_call set" where
  "job_calls cid = {CallStop cid, CallLogs cid, CallInspect cid}"

lemma watch_extends [simp]: "extends (job_calls cid) s (watch E X cid s)"
  by (auto simp: watch_def extends_def xcall_calls job_calls_def)

lemma watch_stop: "CallStop cid \<in> set (xs_calls (watch E X cid s)) \<Longrightarrow> CallStop cid \<in> set (xs_calls s) \<or> exec_ctx_done E s"
  by (auto simp: watch_def xcall_calls split: if_splits)

lemma exec_finish_extends:
  assumes "exec_finish E X cid d s = (r, s')"
  shows "extends (job_calls cid) s s'" "er_handle r = cid"
proof -
  obtain st s1 where i: "xcall (CallInspect cid) (xc_inspect X cid) s = (st, s1)" by fastforce
  then have "extends (job_calls cid) s s1" by (rule extends_xcall) (simp add: job_calls_def)
  then have "extends (job_calls cid) s (watch E X cid s1)" by (rule extends_trans) simp
  with assms i show "extends (job_calls cid) s s'" "er_handle r = cid"
    by (auto simp: exec_finish_def Let_def split: sum.splits)
qed

lemma exec_started_extends:
  assumes "exec_started E X cid s = (r, s')"
  shows "extends (job_calls cid) s s'" "er_handle r = cid"
proof -
  obtain src s1 where l: "xcall (CallLogs cid) (xc_logs X cid) (watch E X cid s) = (src, s1)" by fastforce
  then have "extends (job_calls cid) (watch E X cid s) s1" by (rule extends_xcall) (simp add: job_calls_def)
  then have e: "extends (job_calls cid) s (watch E X cid s1)" by (metis extends_trans watch_extends)
  then have "extends (job_calls cid) s s' \<and> er_handle r = cid" if "exec_finish E X cid d (watch E X cid s1) = (r, s')" for d
    using exec_finish_extends [OF that] extends_trans by blast
  with assms l e show "extends (job_calls cid) s s'" "er_handle r = cid"
    by (auto simp: exec_started_def exec_failed_def Let_def split: sum.splits prod.splits option.splits if_splits)
qed


definition prelude_calls :: "string \<Rightarrow> string \<Rightarrow> exec_call list" where
  "prelude_calls stdin cid = (if stdin \<noteq> [] then [CallAttach cid] else []) @ [CallStart cid]"

lemma exec_start_extends:
  assumes "exec_start E X cid s = (r, s')"
  shows "(\<exists>cs. xs_calls s' = xs_calls s @ CallStart cid # cs \<and> set cs \<subseteq> job_calls cid) \<and> er_handle r = cid"
proof -
  obtain e s1 where st: "xcall (CallStart cid) (xc_start X cid) s = (e, s1)" by fastforce
  then have c: "xs_calls s1 = xs_calls s @ [CallStart cid]" using xcall_calls by (metis snd_conv)
  show ?thesis
  proof (cases e)
    case None
    then have "exec_started E X cid s1 = (r, s')" using assms st by (simp add: exec_start_def)
    from exec_started_extends [OF this] show ?thesis by (auto simp: extends_def c)
  next
    case Some
    then show ?thesis using assms st c by (auto simp: exec_start_def exec_failed_def)
  qed
qed

lemma exec_created_extends:
  assumes "exec_created E X stdin cid s = (r, s')"
  shows "(\<exists>cs. xs_calls s' = xs_calls s @ cs \<and>
      ((stdin \<noteq> [] \<and> cs = [CallAttach cid]) \<or> (\<exists>cs'. cs = prelude_calls stdin cid @ cs' \<and> set cs' \<subseteq> job_calls cid))) \<and>
    er_handle r = cid"
proof (cases "stdin = []")
  case True
  then show ?thesis using assms exec_start_extends by (fastforce simp: exec_created_def prelude_calls_def)
next
  case False
  obtain e s1 where at: "xcall (CallAttach cid) (xc_attach X cid) s = (e, s1)" by fastforce
  then have c: "xs_calls s1 = xs_calls s @ [CallAttach cid]" using xcall_calls by (metis snd_conv)
  show ?thesis
  proof (cases e)
    case None
    then have "exec_start E X cid s1 = (r, s')" using assms at False by (simp add: exec_created_def)
    from exec_start_extends [OF this] show ?thesis using False by (auto simp: c prelude_calls_def)
  next
    case Some
    then show ?thesis using assms at c False by (auto simp: exec_created_def exec_failed_def)
  qed
qed


section \<open>Cancellation\<close>

text \<open>The watcher stops the container only after the context was cancelled.\<close>

definition stop_justified :: "exec_run \<Rightarrow> string \<Rightarrow> 'd exec_state \<Rightarrow> bool" where
  "stop_justified E cid s \<longleftrightarrow> (CallStop cid \<in> set (xs_calls s) \<longrightarrow> exec_ctx_done E s)"

lemma stop_justified_watch [simp]: "stop_justified E cid s \<Longrightarrow> stop_justified E cid (watch E X cid s)"
  using watch_stop ctx_done_mono [OF watch_extends] unfolding stop_justified_def by metis

lemma stop_justified_xcall: "xcall c op s = (r, s1) \<Longrightarrow> c \<noteq> CallStop cid \<Longrightarrow> stop_justified E cid s \<Longrightarrow> stop_justified E cid s1"
  using xcall_calls [of c op s] extends_xcall [of c op s r s1 UNIV] ctx_done_mono
  by (auto simp: stop_justified_def)

lemma exec_finish_justified: "exec_finish E X cid d s = (r, s') \<Longrightarrow> stop_justified E cid s \<Longrightarrow> stop_justified E cid s'"
  by (auto simp: exec_finish_def Let_def split: prod.splits sum.splits dest: stop_justified_xcall)

lemma exec_created_justified:
  assumes "exec_created E X stdin cid s = (r, s')" "stop_justified E cid s"
  shows "stop_justified E cid s'"
proof -
  have started: "stop_justified E cid s'" if st: "exec_started E X cid t = (r, s')" "stop_justified E cid t" for t
  proof -
    obtain src s1 where l: "xcall (CallLogs cid) (xc_logs X cid) (watch E X cid t) = (src, s1)" by fastforce
    then have w: "stop_justified E cid (watch E X cid s1)" using stop_justified_xcall st(2) by fastforce
    with exec_finish_justified have "stop_justified E cid s'" if "exec_finish E X cid d (watch E X cid s1) = (r, s')" for d
      using that by blast
    with st(1) l w show ?thesis
      by (auto simp: exec_started_def Let_def split: prod.splits sum.splits option.splits if_splits)
  qed
  have "stop_justified E cid s'" if "exec_start E X cid t = (r, s')" "stop_justified E cid t" for t
    using that started
    by (auto simp: exec_start_def split: prod.splits option.splits dest: stop_justified_xcall)
  then show ?thesis
    using assms by (auto simp: exec_created_def split: prod.splits option.splits if_splits dest: stop_justified_xcall)
qed

lemma watch_quiet: "\<not> exec_ctx_done E s \<Longrightarrow> watch E X cid s = s"
  by (simp add: watch_def)

text \<open>A job that reports no error ran to its end: nothing was cancelled, its output is its log,
  its exit code the one the daemon recorded.\<close>

definition job_outcome :: "exec_run \<Rightarrow> ('d, 'p) exec_client \<Rightarrow> string \<Rightarrow> ExecResult \<Rightarrow> bool" where
  "job_outcome E X cid r \<longleftrightarrow>
    (\<exists>w src e d w' st. fst (xc_logs X cid w) = Inr src \<and>
       dockerStdCopy (xe_split E) (xe_sinks E) (ls_end src) (ls_data src) \<lparr>dx_stdout = no_output, dx_stderr = no_output\<rparr> = (e, d) \<and>
       e \<in> {None, Some EOF, Some Canceled} \<and> er_stdout r = out_buf (dx_stdout d) \<and> er_stderr r = out_buf (dx_stderr d) \<and>
       fst (xc_inspect X cid w') = Inr st \<and> er_exit r = (case st of None \<Rightarrow> 0 | Some code \<Rightarrow> code))"

lemma fst_xcall: "fst (xcall c op s) = fst (op (xs_world s))"
  by (simp add: xcall_def split: prod.splits)

lemma exec_finish_ok:
  assumes "exec_finish E X cid d s = (r, s')" "er_err r = None"
  shows "\<not> exec_ctx_done E s' \<and> xs_calls s' = xs_calls s @ [CallInspect cid] \<and>
    er_stdout r = out_buf (dx_stdout d) \<and> er_stderr r = out_buf (dx_stderr d) \<and>
    (\<exists>w st. fst (xc_inspect X cid w) = Inr st \<and> er_exit r = (case st of None \<Rightarrow> 0 | Some code \<Rightarrow> code))"
proof -
  obtain i s1 where i: "xcall (CallInspect cid) (xc_inspect X cid) s = (i, s1)" by fastforce
  then have c: "xs_calls s1 = xs_calls s @ [CallInspect cid]" "fst (xc_inspect X cid (xs_world s)) = i"
    using xcall_calls fst_xcall by (metis snd_conv, metis fst_conv)
  from assms i obtain st where st: "i = Inr st" "s' = watch E X cid s1" "\<not> exec_ctx_done E s'"
    "er_stdout r = out_buf (dx_stdout d)" "er_stderr r = out_buf (dx_stderr d)"
    "er_exit r = (case st of None \<Rightarrow> 0 | Some code \<Rightarrow> code)"
    by (auto simp: exec_finish_def Let_def split: sum.splits if_splits)
  then have "\<not> exec_ctx_done E s1" using ctx_done_mono [OF watch_extends] by metis
  then have "s' = s1" using st(2) watch_quiet by metis
  then show ?thesis using c st by auto
qed

lemma exec_started_ok:
  assumes "exec_started E X cid s = (r, s')" "er_err r = None"
  shows "\<not> exec_ctx_done E s' \<and> xs_calls s' = xs_calls s @ [CallLogs cid, CallInspect cid] \<and> job_outcome E X cid r"
proof -
  let ?copy = "\<lambda>src. dockerStdCopy (xe_split E) (xe_sinks E) (ls_end src) (ls_data src) \<lparr>dx_stdout = no_output, dx_stderr = no_output\<rparr>"
  obtain l s1 where l: "xcall (CallLogs cid) (xc_logs X cid) (watch E X cid s) = (l, s1)" by fastforce
  then have c: "xs_calls s1 = xs_calls (watch E X cid s) @ [CallLogs cid]" "fst (xc_logs X cid (xs_world (watch E X cid s))) = l"
    using xcall_calls fst_xcall by (metis snd_conv, metis fst_conv)
  from assms l obtain src e d where fin: "l = Inr src" "?copy src = (e, d)" "e \<in> {None, Some EOF, Some Canceled}"
    "exec_finish E X cid d (watch E X cid s1) = (r, s')"
    by (auto simp: exec_started_def exec_failed_def Let_def split: sum.splits prod.splits option.splits if_splits)
  note ok = exec_finish_ok [OF fin(4) assms(2)]
  have "extends (job_calls cid) (watch E X cid s1) s'" by (rule exec_finish_extends(1) [OF fin(4)])
  then have n1: "\<not> exec_ctx_done E s1" using ok ctx_done_mono [OF extends_trans [OF watch_extends]] by blast
  have "extends (job_calls cid) (watch E X cid s) s1" using l by (rule extends_xcall) (simp add: job_calls_def)
  then have "\<not> exec_ctx_done E s" using n1 ctx_done_mono [OF extends_trans [OF watch_extends]] by blast
  with n1 c ok have "xs_calls s' = xs_calls s @ [CallLogs cid, CallInspect cid]" by (simp add: watch_quiet)
  then show ?thesis using c(2) fin(1,2,3) ok unfolding job_outcome_def by blast
qed

lemma exec_created_ok:
  assumes "exec_created E X stdin cid s = (r, s')" "er_err r = None"
  shows "\<not> exec_ctx_done E s' \<and> xs_calls s' = xs_calls s @ prelude_calls stdin cid @ [CallLogs cid, CallInspect cid] \<and>
    job_outcome E X cid r"
proof -
  have start: "\<not> exec_ctx_done E s' \<and> xs_calls s' = xs_calls t @ [CallStart cid, CallLogs cid, CallInspect cid] \<and> job_outcome E X cid r"
    if "exec_start E X cid t = (r, s')" for t
    using that assms(2) exec_started_ok [of E X cid _ r s'] xcall_calls [of "CallStart cid" "xc_start X cid" t]
    by (auto simp: exec_start_def exec_failed_def split: prod.splits option.splits)
  show ?thesis
    using assms start xcall_calls [of "CallAttach cid" "xc_attach X cid" s]
    by (auto simp: exec_created_def exec_failed_def prelude_calls_def split: prod.splits option.splits if_splits)
qed


section \<open>Properties\<close>

lemma binDeclared_iff: "binDeclared rt name \<longleftrightarrow> name \<in> tl_name ` set (rt_tools rt)"
  by (auto simp: binDeclared_def list_ex_iff)

lemma job_end:
  assumes "exec_created E X stdin cid s1 = (r, s2)" "xs_calls s1 = [CallCreate]"
  shows "er_handle r = cid \<and> (\<exists>cs. xs_calls s2 = CallCreate # cs \<and> set cs \<subseteq> {CallAttach cid, CallStart cid} \<union> job_calls cid \<and>
      (CallStop cid \<in> set cs \<longrightarrow> (\<exists>n \<le> Suc (length cs). xe_cancel E = Some n)) \<and>
      (er_err r = None \<longrightarrow> cs = prelude_calls stdin cid @ [CallLogs cid, CallInspect cid] \<and> job_outcome E X cid r \<and>
         \<not> (\<exists>n \<le> Suc (length cs). xe_cancel E = Some n)))"
proof -
  have done_iff: "exec_ctx_done E s2 \<longleftrightarrow> (\<exists>n \<le> length (xs_calls s2). xe_cancel E = Some n)"
    by (auto simp: exec_ctx_done_def split: option.splits)
  have "stop_justified E cid s1" using assms(2) by (simp add: stop_justified_def)
  note justified = exec_created_justified [OF assms(1) this]
  obtain cs where cs: "xs_calls s2 = CallCreate # cs" "set cs \<subseteq> {CallAttach cid, CallStart cid} \<union> job_calls cid" "er_handle r = cid"
    using exec_created_extends [OF assms(1)] assms(2) by (auto simp: prelude_calls_def split: if_splits) blast+
  moreover have "CallStop cid \<in> set cs \<longrightarrow> (\<exists>n \<le> Suc (length cs). xe_cancel E = Some n)"
    using justified cs(1) done_iff by (simp add: stop_justified_def)
  moreover have "er_err r = None \<longrightarrow> cs = prelude_calls stdin cid @ [CallLogs cid, CallInspect cid] \<and> job_outcome E X cid r \<and>
      \<not> (\<exists>n \<le> Suc (length cs). xe_cancel E = Some n)"
    using exec_created_ok [OF assms(1)] assms(2) cs(1) done_iff by auto
  ultimately show ?thesis by auto
qed


text \<open>A job sees what its agent sees.  Its container has the environment, image, user and working
  directory of the agent's own container, the same host entry for the daemon, and (when the agent
  has a runtime image) the very same mounts in the same order; only its command and labels differ.\<close>

theorem exec_mirrors_runtime:
  fixes PP :: "string \<Rightarrow> 'p"
  assumes "runtimeRef rt \<noteq> []"
  shows "let (cfg :: 'p exec_config, hc :: 'p host_config) = buildExecContainer L d order rt bin args job (ad_url d) (ad_token d);
             run = buildConfig L PP (container_spec d rt); host = buildHostConfig PP order (container_spec d rt)
    in cc_env cfg = cc_env run \<and> cc_image cfg = cc_image run \<and> cc_user cfg = cc_user run \<and> cc_workdir cfg = cc_workdir run \<and>
       hc_mounts hc = hc_mounts host \<and> hc_extrahosts hc = hc_extrahosts host \<and> cc_cmd cfg = bin # args \<and>
       fmlookup (cc_labels cfg) ''io.openotters.async-job-id'' = Some job"
proof -
  have env: "exec_env L rt (ad_url d) (ad_token d) = buildEnv L (container_spec d rt)"
    by (simp add: exec_env_def buildEnv_def container_spec_def container_provider_env_def Let_def)
  have mounts: "exec_mounts d order rt = agent_mounts order (container_spec d rt)"
    using assms by (simp add: exec_mounts_def agent_mounts_def own_mounts_def container_spec_def image_mount_def user_mount_def
        effectiveMounts_def toolRefs_def Let_def)
  show ?thesis
    by (simp add: buildExecContainer_def buildConfig_def buildHostConfig_def env mounts Let_def labelOpenottersAsyncJob_def
        split: prod.splits option.splits) (simp add: container_spec_def)
qed

text \<open>The hardening of the agent's own container is not carried over to its jobs.\<close>

lemma exec_container_not_hardened:
  "let hc = snd (buildExecContainer L d order rt bin args job url token); host = buildHostConfig PP order cs
   in hc_capdrop hc = [] \<and> hc_security hc = [] \<and> hc_pids hc = None \<and>
      hc_capdrop host = [''ALL''] \<and> hc_security host = [''no-new-privileges''] \<and> hc_pids host = Some 512"
  by (simp add: buildExecContainer_def buildHostConfig_def Let_def pidsLimit_def defaultPidsLimit_def split: prod.splits option.splits)

text \<open>The hint of an undeclared binary lists exactly the declared names in order: the in-place
  insertion sort is a sort.\<close>

theorem declared_names_sorted:
  "declaredBinNames rt = (if rt_tools rt = [] then ''(none)'' else Join (sort (map tl_name (rt_tools rt))) '', '')"
  by (simp add: declaredBinNames_def insertion_sort_sort Let_def)

definition demo_job_rt :: Runtime where
  "demo_job_rt =
    \<lparr>rt_source = \<lparr>af_syntax = [], af_agent = None\<rparr>, rt_id = ''1'', rt_name = ''bot'', rt_model = ''openai/m'', rt_workspace = ''w'',
     rt_image = None, rt_runtime = Some \<lparr>rr_ref = ''rt:1'', rr_digest = [], rr_binary = []\<rparr>, rt_configs = fmempty,
     rt_capabilities = [], rt_envs = [], rt_mounts = [], rt_context = [],
     rt_tools = [\<lparr>tl_name = ''jq'', tl_description = [], tl_binary = [], tl_ref = ''jq:1'', tl_digest = [], tl_usage = []\<rparr>], rt_exec = [], rt_addr = [],
     rt_apibase = [], rt_apikey = []\<rparr>"

definition demo_client :: "(unit, string) exec_client" where
  "demo_client =
    \<lparr>xc_create = (\<lambda>_ _ _. (Inr ''c1'', ())), xc_attach = (\<lambda>_ _. (None, ())), xc_start = (\<lambda>_ _. (None, ())),
     xc_stop = (\<lambda>_ _. ()), xc_logs = (\<lambda>_ _. (Inr \<lparr>ls_data = wire [(1, ''ok'')], ls_end = EOF\<rparr>, ())),
     xc_inspect = (\<lambda>_ _. (Inr (Some 3), ())), xc_remove = (\<lambda>_ _. ())\<rparr>"

definition demo_run :: exec_run where
  "demo_run = \<lparr>xe_cancel = Some 3, xe_watch = (\<lambda>_. True), xe_split = (\<lambda>p. [p]), xe_sinks = \<lparr>sk_stdout = None, sk_stderr = None\<rparr>, xe_label = ''job''\<rparr>"


theorem exec_mirrors_runtime_witness:
  "hc_mounts (snd (buildExecContainer ascii_lib demo_deps [''jq''] demo_job_rt ''jq'' [] ''job'' [] []) :: string host_config) =
     hc_mounts (buildHostConfig (\<lambda>p. p) [''jq''] (container_spec demo_deps demo_job_rt))"
proof -
  have "runtimeRef demo_job_rt \<noteq> []" "ad_url demo_deps = []" "ad_token demo_deps = []"
    by (simp_all add: runtimeRef_def demo_job_rt_def demo_deps_def)
  then show ?thesis
    using exec_mirrors_runtime [of demo_job_rt ascii_lib demo_deps "[''jq'']" "''jq''" "[]" "''job''" "\<lambda>p. p"]
    by (simp add: Let_def split: prod.splits)
qed

end
