(* ===== verification/System_Exec.thy ===== *)
theory System_Exec
  imports Docker_Exec Path_Confine
begin

text \<open>
  Jobs of the system executor (\<^verbatim>\<open>executor/system/exec_async.go\<close>): the checks before a declared
  binary is spawned, its command, and how the end of the process and the cancellation of the context
  become a result.  The operating system is a parameter: which files exist, whether the process
  starts, what it prints, how it ends and whether the cancellation comes first.
\<close>


section \<open>Processes\<close>

datatype wait_error = WaitExit int | WaitOther string

text \<open>What a job is started with: path, arguments, directory, environment, standard input.\<close>

record job_cmd =
  jc_path :: string
  jc_args :: "string list"
  jc_dir :: string
  jc_env :: "string list"
  jc_stdin :: "string option"

text \<open>The branch the selects take: the process ended (the flag tells whether the context was
  done by then), it ended after the kill, or it had not ended two seconds after the kill.\<close>

datatype job_race = Ended "wait_error option" bool | EndedAfterKill "wait_error option" | Wedged

record job_os =
  os_stat :: "string \<Rightarrow> bool"
  os_start :: "job_cmd \<Rightarrow> (string, nat) res"
  os_race :: "job_cmd \<Rightarrow> job_race"
  os_output :: "job_cmd \<Rightarrow> bytes \<times> bytes"

datatype job_event = Spawn job_cmd | KillGroup nat | KillLeader nat

text \<open>The parts of the agent a job reads.\<close>

record job_agent =
  ja_runtime :: "Runtime option"
  ja_initialized :: bool
  ja_root :: "string option"
  ja_url :: string
  ja_token :: string


section \<open>Exec\<close>

definition systemBinDeclared :: "Runtime \<Rightarrow> string \<Rightarrow> bool" where
  "systemBinDeclared rt name \<longleftrightarrow> list_ex (\<lambda>t. tl_name t = name) (rt_tools rt)"

definition systemDeclaredBinNames :: "Runtime \<Rightarrow> string" where
  "systemDeclaredBinNames rt =
    (let names = map tl_name (rt_tools rt)
     in if names = [] then ''(none)'' else Join (insertion_sort names) '', '')"

definition filepathExistsRelative :: "job_os \<Rightarrow> string \<Rightarrow> string list \<Rightarrow> bool" where
  "filepathExistsRelative OS root parts = os_stat OS (JoinPath (root # parts))"

definition wrapResult :: "bytes \<Rightarrow> bytes \<Rightarrow> wait_error option \<Rightarrow> string \<Rightarrow> bool \<Rightarrow> ExecResult" where
  "wrapResult stdout stderr waitErr handle ctxErr =
    (let out = \<lparr>er_stdout = stdout, er_stderr = stderr, er_exit = 0, er_err = None, er_handle = handle\<rparr>
     in case waitErr of
          None \<Rightarrow> out
        | Some (WaitExit code) \<Rightarrow>
            (let out1 = out\<lparr>er_exit := code\<rparr> in if ctxErr then out1\<lparr>er_err := Some ExecCtx\<rparr> else out1)
        | Some (WaitOther e) \<Rightarrow>
            if ctxErr then out\<lparr>er_err := Some ExecCtx\<rparr> else out\<lparr>er_err := Some (ExecWait e)\<rparr>)"

text \<open>The fields of the runtime descriptor the environment is built from.\<close>

definition runtime_config :: "Runtime \<Rightarrow> run_config" where
  "runtime_config rt =
    \<lparr>rc_model = rt_model rt, rc_configs = rt_configs rt, rc_envs = rt_envs rt, rc_exec = rt_exec rt, rc_addr = rt_addr rt,
     rc_apibase = rt_apibase rt, rc_apikey = rt_apikey rt\<rparr>"

definition job_command :: "lib \<Rightarrow> job_agent \<Rightarrow> Runtime \<Rightarrow> string \<Rightarrow> string \<Rightarrow> string list \<Rightarrow> string \<Rightarrow> job_cmd" where
  "job_command L a rt rootDir bin args stdin =
    \<lparr>jc_path = JoinPath [rootDir, ''usr'', ''bin'', bin], jc_args = args, jc_dir = JoinPath [rootDir, ''workspace''],
     jc_env = buildCmdEnv L (runtime_config rt) rootDir (ja_url a) (ja_token a),
     jc_stdin = (if stdin \<noteq> [] then Some stdin else None)\<rparr>"

definition run_job :: "job_os \<Rightarrow> job_cmd \<Rightarrow> string \<Rightarrow> ExecResult \<times> job_event list" where
  "run_job OS cmd bin =
    (case os_start OS cmd of
       Inl e \<Rightarrow> (exec_failed (ExecStart bin e) [], [Spawn cmd])
     | Inr pid \<Rightarrow>
         (let handle = show_nat pid; (stdout, stderr) = os_output OS cmd
          in case os_race OS cmd of
               Ended err ctxErr \<Rightarrow> (wrapResult stdout stderr err handle ctxErr, [Spawn cmd])
             | EndedAfterKill err \<Rightarrow> (wrapResult stdout stderr err handle True, [Spawn cmd, KillGroup pid])
             | Wedged \<Rightarrow>
                 (\<lparr>er_stdout = stdout, er_stderr = stderr, er_exit = 0, er_err = Some ExecCtx, er_handle = handle\<rparr>,
                  [Spawn cmd, KillGroup pid, KillLeader pid])))"

definition system_Exec :: "lib \<Rightarrow> job_os \<Rightarrow> job_agent \<Rightarrow> string \<Rightarrow> string list \<Rightarrow> string \<Rightarrow> ExecResult \<times> job_event list" where
  "system_Exec L OS a bin args stdin =
    (case ja_runtime a of
       None \<Rightarrow> (exec_failed ExecNotInitialized [], [])
     | Some rt \<Rightarrow>
         if \<not> ja_initialized a then (exec_failed ExecNotInitialized [], [])
         else case ja_root a of
           None \<Rightarrow> (exec_failed ExecNoFilesystem [], [])
         | Some rootDir \<Rightarrow>
             if \<not> IsPathSafeName bin then (exec_failed (ExecBadName bin) [], [])
             else if \<not> systemBinDeclared rt bin then (exec_failed (ExecUndeclared bin (systemDeclaredBinNames rt)) [], [])
             else if \<not> filepathExistsRelative OS rootDir [''usr'', ''bin'', bin] then (exec_failed (ExecMissing bin) [], [])
             else run_job OS (job_command L a rt rootDir bin args stdin) bin)"


section \<open>Properties\<close>

lemma wrapResult_err:
  "er_err (wrapResult out err w h c) = None \<longleftrightarrow> w = None \<or> (\<exists>code. w = Some (WaitExit code) \<and> \<not> c)"
  "er_exit (wrapResult out err w h c) = (case w of Some (WaitExit code) \<Rightarrow> code | _ \<Rightarrow> 0)"
  "er_handle (wrapResult out err w h c) = h"
  by (auto simp: wrapResult_def Let_def split: option.splits wait_error.splits)

lemma job_path_inside:
  assumes "rootDir \<noteq> []" "IsPathSafeName bin"
  shows "strictly_inside (JoinPath [rootDir, ''usr'', ''bin'']) (JoinPath [rootDir, ''usr'', ''bin'', bin])"
proof -
  have p: "plain_elem ''usr''" "plain_elem ''bin''" "plain_elem bin"
    using path_safe_plain [OF assms(2)] by (simp_all add: plain_elem_def dotdot_def)
  show ?thesis
    using JoinPath_plain [OF assms(1), of "[''usr'', ''bin'']"] JoinPath_plain [OF assms(1), of "[''usr'', ''bin'', bin]"] p
    by (simp add: strictly_inside_def)
qed

text \<open>How a started process becomes a result: the group is killed exactly when the cancellation comes
  first, and a result without an error carries the exit code of a process that ended.\<close>

definition job_settled :: "job_os \<Rightarrow> job_cmd \<Rightarrow> nat \<Rightarrow> ExecResult \<Rightarrow> job_event list \<Rightarrow> bool" where
  "job_settled OS cmd pid r ks \<longleftrightarrow>
     er_handle r = show_nat pid \<and> (er_stdout r, er_stderr r) = os_output OS cmd \<and>
     (KillGroup pid \<in> set ks \<longleftrightarrow> (\<nexists>w c. os_race OS cmd = Ended w c)) \<and> set ks \<subseteq> {KillGroup pid, KillLeader pid} \<and>
     (er_err r = None \<longrightarrow>
        (\<exists>w. w \<in> {None, Some (WaitExit (er_exit r))} \<and> (w = None \<longrightarrow> er_exit r = 0) \<and>
             ((\<exists>c. os_race OS cmd = Ended w c \<and> (w = None \<or> \<not> c)) \<or> (os_race OS cmd = EndedAfterKill w \<and> w = None)))) \<and>
     (\<forall>code. os_race OS cmd = Ended (Some (WaitExit code)) False \<longrightarrow> er_err r = None \<and> er_exit r = code)"

lemma wrapResult_output: "(er_stdout (wrapResult out err w h c), er_stderr (wrapResult out err w h c)) = (out, err)"
  by (simp add: wrapResult_def Let_def split: option.splits wait_error.splits)

lemma run_job_settled:
  assumes "run_job OS cmd bin = (r, es)"
  shows "case os_start OS cmd of
      Inl e \<Rightarrow> r = exec_failed (ExecStart bin e) [] \<and> es = [Spawn cmd]
    | Inr pid \<Rightarrow> \<exists>ks. es = Spawn cmd # ks \<and> job_settled OS cmd pid r ks"
proof (cases "os_start OS cmd")
  case (Inr pid)
  obtain out err where o: "os_output OS cmd = (out, err)" by fastforce
  show ?thesis
  proof (cases "os_race OS cmd")
    case (Ended w c)
    then show ?thesis
      using assms Inr o wrapResult_output [of out err w "show_nat pid" c]
      by (auto simp: run_job_def job_settled_def wrapResult_err split: option.splits wait_error.splits)
  next
    case (EndedAfterKill w)
    then show ?thesis
      using assms Inr o wrapResult_output [of out err w "show_nat pid" True]
      by (auto simp: run_job_def job_settled_def wrapResult_err)
  next
    case Wedged
    then show ?thesis using assms Inr o by (auto simp: run_job_def job_settled_def)
  qed
qed (use assms in \<open>simp add: run_job_def\<close>)


definition demo_os :: job_os where
  "demo_os = \<lparr>os_stat = (\<lambda>_. True), os_start = (\<lambda>_. Inr 42), os_race = (\<lambda>_. Ended (Some (WaitExit 3)) False), os_output = (\<lambda>_. (''out'', []))\<rparr>"


text \<open>When the end of a cancelled process is seen before the cancellation, its group is not killed.\<close>

lemma cancelled_group_survives:
  "os_start OS cmd = Inr pid \<Longrightarrow> os_race OS cmd = Ended (Some (WaitExit (- 1))) True \<Longrightarrow>
   snd (run_job OS cmd bin) = [Spawn cmd] \<and> er_err (fst (run_job OS cmd bin)) = Some ExecCtx"
  by (simp add: run_job_def wrapResult_def Let_def split: prod.splits)

end
