(* ===== verification/Runtime_File.thy ===== *)
theory Runtime_File
  imports Workspace_Correct
begin

text \<open>
  The descriptor on disk (\<^verbatim>\<open>executor/runtime.go\<close>, and the \<^verbatim>\<open>yaml\<close> tags of \<^verbatim>\<open>spec/types.go\<close>): which fields
  \<^verbatim>\<open>etc/agent.yaml\<close> holds, how it is written and read back.  The file a successful
  materialisation leaves is a function of the fields that may be persisted, so credentials, values of
  environment variables and host paths of mounts are not in it.
\<close>


section \<open>Marshalling\<close>

text \<open>A document as the YAML library sees it; the order of a map's keys is the library's.\<close>

datatype yaml = YStr string | YBool bool | YSeq "yaml list" | YStruct "(string \<times> yaml) list" | YStrMap "(string, string) gomap"

definition field :: "string \<Rightarrow> string \<Rightarrow> (string \<times> yaml) list" where
  "field key v = [(key, YStr v)]"

definition omitempty :: "string \<Rightarrow> string \<Rightarrow> (string \<times> yaml) list" where
  "omitempty key v = (if v = [] then [] else [(key, YStr v)])"

definition omitempty_seq :: "string \<Rightarrow> yaml list \<Rightarrow> (string \<times> yaml) list" where
  "omitempty_seq key vs = (if vs = [] then [] else [(key, YSeq vs)])"

definition omitempty_struct :: "string \<Rightarrow> yaml option \<Rightarrow> (string \<times> yaml) list" where
  "omitempty_struct key v = (case v of None \<Rightarrow> [] | Some y \<Rightarrow> [(key, y)])"

definition OCIRef_yaml :: "OCIRef \<Rightarrow> yaml" where
  "OCIRef_yaml r = YStruct (field ''ref'' (or_ref r) @ omitempty ''digest'' (or_digest r))"

definition RuntimeRef_yaml :: "RuntimeRef \<Rightarrow> yaml" where
  "RuntimeRef_yaml r =
    YStruct (field ''ref'' (rr_ref r) @ omitempty ''digest'' (rr_digest r) @ omitempty ''binary'' (rr_binary r))"

definition ContextEntry_yaml :: "ContextEntry \<Rightarrow> yaml" where
  "ContextEntry_yaml c =
    YStruct (field ''name'' (ce_name c) @ field ''file'' (ce_file c) @ omitempty ''description'' (ce_description c))"

definition ResolvedTool_yaml :: "ResolvedTool \<Rightarrow> yaml" where
  "ResolvedTool_yaml t =
    YStruct (field ''name'' (tl_name t) @ omitempty ''description'' (tl_description t) @ field ''binary'' (tl_binary t) @
      omitempty ''ref'' (tl_ref t) @ omitempty ''digest'' (tl_digest t) @ omitempty ''usage'' (tl_usage t))"

definition Env_yaml :: "Env \<Rightarrow> yaml" where
  "Env_yaml e = YStruct (field ''key'' (env_key e) @ omitempty ''description'' (env_description e))"

definition Mount_yaml :: "Mount \<Rightarrow> yaml" where
  "Mount_yaml m =
    YStruct (field ''target'' (mnt_target m) @ omitempty ''description'' (mnt_description m) @
      (if mnt_readonly m then [(''read_only'', YBool True)] else []))"

definition Capability_yaml :: "Capability \<Rightarrow> yaml" where
  "Capability_yaml c = YStruct (field ''name'' (cap_name c) @ omitempty ''description'' (cap_description c))"

definition Runtime_yaml :: "Runtime \<Rightarrow> yaml" where
  "Runtime_yaml rt =
    YStruct (field ''id'' (rt_id rt) @ field ''name'' (rt_name rt) @ field ''model'' (rt_model rt) @
      omitempty ''workspace'' (rt_workspace rt) @
      omitempty_struct ''image'' (map_option OCIRef_yaml (rt_image rt)) @
      omitempty_struct ''runtime'' (map_option RuntimeRef_yaml (rt_runtime rt)) @
      (if rt_configs rt = fmempty then [] else [(''configs'', YStrMap (rt_configs rt))]) @
      omitempty_seq ''capabilities'' (map Capability_yaml (rt_capabilities rt)) @
      omitempty_seq ''envs'' (map Env_yaml (rt_envs rt)) @
      omitempty_seq ''mounts'' (map Mount_yaml (rt_mounts rt)) @
      omitempty_seq ''context'' (map ContextEntry_yaml (rt_context rt)) @
      omitempty_seq ''tools'' (map ResolvedTool_yaml (rt_tools rt)) @
      omitempty_seq ''exec'' (map YStr (rt_exec rt)))"


section \<open>What is persisted\<close>

text \<open>The fields tagged \<^verbatim>\<open>yaml:"-"\<close> dropped: a decoder leaves them at their zero values.  \<open>no_source\<close> stands for
  the nil pointer to the agentfile.\<close>

definition no_source :: Agentfile where
  "no_source = \<lparr>af_syntax = [], af_agent = None\<rparr>"

definition persisted :: "Runtime \<Rightarrow> Runtime" where
  "persisted rt = rt\<lparr>rt_source := no_source, rt_addr := [], rt_apibase := [], rt_apikey := [],
     rt_envs := map (\<lambda>e. e\<lparr>env_value := []\<rparr>) (rt_envs rt), rt_mounts := map (\<lambda>m. m\<lparr>mnt_host := []\<rparr>) (rt_mounts rt)\<rparr>"

lemma Env_yaml_value [simp]: "Env_yaml (e\<lparr>env_value := v\<rparr>) = Env_yaml e"
  by (simp add: Env_yaml_def)

lemma Mount_yaml_host [simp]: "Mount_yaml (m\<lparr>mnt_host := h\<rparr>) = Mount_yaml m"
  by (simp add: Mount_yaml_def)

lemma Runtime_yaml_persisted [simp]: "Runtime_yaml (persisted rt) = Runtime_yaml rt"
  by (simp add: Runtime_yaml_def persisted_def comp_def)


section \<open>Unmarshalling\<close>

text \<open>Decoding by the same tags a document of the shape above: a missing key leaves the zero value.\<close>

fun struct_get :: "yaml \<Rightarrow> string \<Rightarrow> yaml option" where
  "struct_get (YStruct fs) key = map_of fs key"
| "struct_get _ key = None"

definition get_str :: "yaml \<Rightarrow> string \<Rightarrow> string" where
  "get_str y key = (case struct_get y key of Some (YStr s) \<Rightarrow> s | _ \<Rightarrow> [])"

definition get_seq :: "(yaml \<Rightarrow> 'a) \<Rightarrow> yaml \<Rightarrow> string \<Rightarrow> 'a list" where
  "get_seq f y key = (case struct_get y key of Some (YSeq ys) \<Rightarrow> map f ys | _ \<Rightarrow> [])"

definition yaml_OCIRef :: "yaml \<Rightarrow> OCIRef" where
  "yaml_OCIRef y = \<lparr>or_ref = get_str y ''ref'', or_digest = get_str y ''digest''\<rparr>"

definition yaml_RuntimeRef :: "yaml \<Rightarrow> RuntimeRef" where
  "yaml_RuntimeRef y = \<lparr>rr_ref = get_str y ''ref'', rr_digest = get_str y ''digest'', rr_binary = get_str y ''binary''\<rparr>"

definition yaml_ContextEntry :: "yaml \<Rightarrow> ContextEntry" where
  "yaml_ContextEntry y =
    \<lparr>ce_name = get_str y ''name'', ce_file = get_str y ''file'', ce_description = get_str y ''description''\<rparr>"

definition yaml_ResolvedTool :: "yaml \<Rightarrow> ResolvedTool" where
  "yaml_ResolvedTool y =
    \<lparr>tl_name = get_str y ''name'', tl_description = get_str y ''description'', tl_binary = get_str y ''binary'',
     tl_ref = get_str y ''ref'', tl_digest = get_str y ''digest'', tl_usage = get_str y ''usage''\<rparr>"

definition yaml_Env :: "yaml \<Rightarrow> Env" where
  "yaml_Env y = \<lparr>env_key = get_str y ''key'', env_value = [], env_description = get_str y ''description''\<rparr>"

definition yaml_Mount :: "yaml \<Rightarrow> Mount" where
  "yaml_Mount y =
    \<lparr>mnt_host = [], mnt_target = get_str y ''target'', mnt_description = get_str y ''description'',
     mnt_readonly = (struct_get y ''read_only'' = Some (YBool True))\<rparr>"

definition yaml_Capability :: "yaml \<Rightarrow> Capability" where
  "yaml_Capability y = \<lparr>cap_name = get_str y ''name'', cap_description = get_str y ''description''\<rparr>"

definition yaml_string :: "yaml \<Rightarrow> string" where
  "yaml_string y = (case y of YStr s \<Rightarrow> s | _ \<Rightarrow> [])"

definition yaml_Runtime :: "yaml \<Rightarrow> Runtime" where
  "yaml_Runtime y =
    \<lparr>rt_source = no_source, rt_id = get_str y ''id'', rt_name = get_str y ''name'', rt_model = get_str y ''model'',
     rt_workspace = get_str y ''workspace'', rt_image = map_option yaml_OCIRef (struct_get y ''image''),
     rt_runtime = map_option yaml_RuntimeRef (struct_get y ''runtime''),
     rt_configs = (case struct_get y ''configs'' of Some (YStrMap m) \<Rightarrow> m | _ \<Rightarrow> fmempty),
     rt_capabilities = get_seq yaml_Capability y ''capabilities'', rt_envs = get_seq yaml_Env y ''envs'',
     rt_mounts = get_seq yaml_Mount y ''mounts'', rt_context = get_seq yaml_ContextEntry y ''context'',
     rt_tools = get_seq yaml_ResolvedTool y ''tools'', rt_exec = get_seq yaml_string y ''exec'',
     rt_addr = [], rt_apibase = [], rt_apikey = []\<rparr>"


section \<open>Round trips\<close>

lemma map_of_fields [simp]:
  "map_of (field k v) k' = (if k = k' then Some (YStr v) else None)"
  "map_of (omitempty k v) k' = (if k = k' \<and> v \<noteq> [] then Some (YStr v) else None)"
  "map_of (omitempty_seq k vs) k' = (if k = k' \<and> vs \<noteq> [] then Some (YSeq vs) else None)"
  "map_of (omitempty_struct k v') k' = (if k = k' then v' else None)"
  by (auto simp: field_def omitempty_def omitempty_seq_def omitempty_struct_def split: option.splits)

lemma map_of_first: "map_of (a @ b) k = (case map_of a k of Some v \<Rightarrow> Some v | None \<Rightarrow> map_of b k)"
  by (simp add: map_add_def)

lemmas decode_defs = get_str_def get_seq_def map_of_first

lemma Runtime_scalars:
  "get_str (Runtime_yaml rt) ''id'' = rt_id rt" "get_str (Runtime_yaml rt) ''name'' = rt_name rt"
  "get_str (Runtime_yaml rt) ''model'' = rt_model rt" "get_str (Runtime_yaml rt) ''workspace'' = rt_workspace rt"
  by (simp_all add: Runtime_yaml_def decode_defs del: map_of_append)

lemma Runtime_structs:
  "struct_get (Runtime_yaml rt) ''image'' = map_option OCIRef_yaml (rt_image rt)"
  "struct_get (Runtime_yaml rt) ''runtime'' = map_option RuntimeRef_yaml (rt_runtime rt)"
  "struct_get (Runtime_yaml rt) ''configs'' = (if rt_configs rt = fmempty then None else Some (YStrMap (rt_configs rt)))"
  by (simp_all add: Runtime_yaml_def map_of_first del: map_of_append split: option.splits)

lemma Runtime_seqs:
  "get_seq f (Runtime_yaml rt) ''capabilities'' = map (f \<circ> Capability_yaml) (rt_capabilities rt)"
  "get_seq g (Runtime_yaml rt) ''envs'' = map (g \<circ> Env_yaml) (rt_envs rt)"
  "get_seq h (Runtime_yaml rt) ''mounts'' = map (h \<circ> Mount_yaml) (rt_mounts rt)"
  "get_seq i (Runtime_yaml rt) ''context'' = map (i \<circ> ContextEntry_yaml) (rt_context rt)"
  "get_seq j (Runtime_yaml rt) ''tools'' = map (j \<circ> ResolvedTool_yaml) (rt_tools rt)"
  "get_seq l (Runtime_yaml rt) ''exec'' = map (l \<circ> YStr) (rt_exec rt)"
  by (simp_all add: Runtime_yaml_def decode_defs del: map_of_append)

lemma OCIRef_roundtrip [simp]: "yaml_OCIRef (OCIRef_yaml r) = r"
  by (simp add: yaml_OCIRef_def OCIRef_yaml_def decode_defs del: map_of_append)

lemma RuntimeRef_roundtrip [simp]: "yaml_RuntimeRef (RuntimeRef_yaml r) = r"
  by (simp add: yaml_RuntimeRef_def RuntimeRef_yaml_def decode_defs del: map_of_append)

lemma ContextEntry_roundtrip [simp]: "yaml_ContextEntry (ContextEntry_yaml c) = c"
  by (simp add: yaml_ContextEntry_def ContextEntry_yaml_def decode_defs del: map_of_append)

lemma ResolvedTool_roundtrip [simp]: "yaml_ResolvedTool (ResolvedTool_yaml t) = t"
  by (simp add: yaml_ResolvedTool_def ResolvedTool_yaml_def decode_defs del: map_of_append)

lemma Capability_roundtrip [simp]: "yaml_Capability (Capability_yaml c) = c"
  by (simp add: yaml_Capability_def Capability_yaml_def decode_defs del: map_of_append)

lemma Env_roundtrip [simp]: "yaml_Env (Env_yaml e) = e\<lparr>env_value := []\<rparr>"
  by (simp add: yaml_Env_def Env_yaml_def decode_defs del: map_of_append)

lemma Mount_roundtrip [simp]: "yaml_Mount (Mount_yaml m) = m\<lparr>mnt_host := []\<rparr>"
  by (simp add: yaml_Mount_def Mount_yaml_def decode_defs del: map_of_append)

lemma yaml_string [simp]: "yaml_string (YStr s) = s"
  by (simp add: yaml_string_def)

lemma Runtime_roundtrip: "yaml_Runtime (Runtime_yaml rt) = persisted rt"
  by (simp add: yaml_Runtime_def Runtime_scalars Runtime_structs Runtime_seqs persisted_def comp_def option.map_comp option.map_ident)


section \<open>The file a materialisation leaves\<close>

text \<open>The content of a file after a log of calls, when no call failed half-way: opening truncates it.\<close>

definition write_effect :: "string \<Rightarrow> fsop \<Rightarrow> bytes option \<Rightarrow> bytes option" where
  "write_effect p op acc =
    (case op of
       WriteFile q x \<Rightarrow> if q = p then Some x else acc
     | OpenBin q \<Rightarrow> if q = p then Some [] else acc
     | _ \<Rightarrow> acc)"

definition last_write :: "string \<Rightarrow> fsop list \<Rightarrow> bytes option" where
  "last_write p log = fold (write_effect p) log None"

lemma last_write_snoc [simp]: "last_write p (log @ [op]) = write_effect p op (last_write p log)"
  by (simp add: last_write_def)

abbreviation holds :: "bytes \<Rightarrow> 's wstate \<Rightarrow> bool" where
  "holds data s \<equiv> last_write runtimeFile (w_log s) = Some data"

fun spares :: "fsop \<Rightarrow> bool" where
  "spares (WriteFile q x) = (q \<noteq> runtimeFile)"
| "spares (OpenBin q) = (q \<noteq> runtimeFile)"
| "spares _ = True"

lemma write_effect_spares [simp]: "spares op \<Longrightarrow> write_effect runtimeFile op acc = acc"
  by (cases op) (simp_all add: write_effect_def)

lemma holds_ops:
  "spares op \<Longrightarrow> keeps (holds data) (fs_op w op)" "spares op \<Longrightarrow> keeps (holds data) (fs_try op)"
  by (simp_all add: keeps_def fs_op_def fs_try_def)

lemma elems_runtimeFile: "elems runtimeFile = [''etc'', ''agent.yaml'']"
  by code_simp

lemma spared_files [simp]:
  "RuntimeBin \<noteq> runtimeFile" "JoinPath [contextDir, ''MOUNTS.md''] \<noteq> runtimeFile"
  "JoinPath [contextDir, ''WORKSPACE.md''] \<noteq> runtimeFile"
  by code_simp+

lemma spared_dirs: "elems binDir = [''usr'', ''bin'']" "elems dataDir = [''etc'', ''data'']"
  by code_simp+

lemma spared_bin:
  assumes "IsPathSafeName n"
  shows "JoinPath [binDir, n] \<noteq> runtimeFile" "usage_path n \<noteq> runtimeFile"
proof -
  have n: "plain_elem n" by (rule path_safe_plain [OF assms])
  have "elems (JoinPath [binDir, n]) = elems binDir @ [n]"
    by (rule JoinPath_plain(1)) (simp_all add: n local_path_nonempty)
  then show "JoinPath [binDir, n] \<noteq> runtimeFile" using elems_runtimeFile by (auto simp: spared_dirs)
  have "elems (usage_path n) = elems dataDir @ [''bins'', n, ''USAGE.md'']"
    unfolding usage_path_def by (rule JoinPath_plain(1)) (simp_all add: n plain_literals local_path_nonempty)
  then show "usage_path n \<noteq> runtimeFile" using elems_runtimeFile by (auto simp: spared_dirs)
qed

lemma holds_mounts: "keeps (holds data) (applyMounts w)"
proof -
  have "keeps (holds data) (sm_then (sm_each (apply_mount w) ms) (fs_op w (WriteFile (JoinPath [contextDir, ''MOUNTS.md'']) x)))" for ms x
    unfolding apply_mount_def by (intro keeps_intro holds_ops) simp_all
  then show ?thesis unfolding keeps_def applyMounts_def Let_def fail_def sm_lift_def sm_return_def by auto
qed

lemma holds_stamp: "keeps (holds data) (stampBinSymlinks w a)"
  unfolding stampBinSymlinks_def stamp_bin_def Let_def by (auto intro!: keeps_intro holds_ops split: option.splits)

lemma holds_docs: "safe_bins a \<Longrightarrow> keeps (holds data) (installToolDocs w a)"
  unfolding installToolDocs_def install_doc_def Let_def
  by (auto intro!: keeps_intro holds_ops simp: safe_bins_def spared_bin split: option.splits sum.splits)

lemma holds_install:
  "keeps (holds data) (installRuntime w a)" "safe_bins a \<Longrightarrow> keeps (holds data) (installTools w a)"
  unfolding installRuntime_def installTools_def pullBin_def copyLocalFile_def
  by (auto intro!: keeps_intro holds_ops simp: safe_bins_def spared_bin split: sum.splits)

lemma holds_views: "keeps (holds data) (fill_bindirs w rt)" "keeps (holds data) (writeWorkspaceContext w c)"
  by (simp_all add: keeps_def fill_bindirs_def writeWorkspaceContext_def Let_def fs_op_def split: option.splits)

lemma finish_tree_writes:
  assumes "finish_tree w a rt s = (Inr (), s')" "safe_bins a"
  obtains data where "wk_yaml w rt = Inr data" "holds data s'"
proof -
  obtain s1 where wr: "WriteTo w rt s = (Inr (), s1)"
    and rest: "sm_then (fill_bindirs w rt)
      (sm_then (writeWorkspaceContext w \<lparr>wc_context = rt_context rt, wc_tools = rt_tools rt, wc_adds = ag_adds a\<rparr>)
      (sm_then (applyMounts w) (sm_then (stampBinSymlinks w a) (installToolDocs w a)))) s1 = (Inr (), s')"
    using assms(1) by (auto simp: finish_tree_def sm_then_Inr [of "WriteTo w rt"])
  obtain data where d: "wk_yaml w rt = Inr data" "holds data s1"
    using wr by (auto simp: WriteTo_def sm_bind_Inr fs_op_def write_effect_def split: sum.splits)
  have "keeps (holds data) (sm_then (fill_bindirs w rt)
      (sm_then (writeWorkspaceContext w \<lparr>wc_context = rt_context rt, wc_tools = rt_tools rt, wc_adds = ag_adds a\<rparr>)
      (sm_then (applyMounts w) (sm_then (stampBinSymlinks w a) (installToolDocs w a)))))"
    using assms(2) by (intro keeps_intro holds_views holds_mounts holds_stamp holds_docs)
  then have "holds data s'" using keepsD [of "holds data", OF _ d(2)] rest by (metis snd_conv)
  then show ?thesis using d(1) that by blast
qed

lemma materialize_writes:
  assumes "materialize w ident addr s = (Inr rt, s')" "\<forall>f \<in> set (wk_overrides w). keeps_bins f"
  obtains data where "wk_yaml w rt = Inr data" "holds data s'" "rt_id rt = ident" "rt_addr rt = addr"
proof -
  obtain a s2 where c: "materializeContent w ident addr s = (Inr (rt, a), s2)"
    and inst: "sm_then (sm_err as_pull (installRuntime w a)) (sm_then (sm_err as_pull (installTools w a)) (sm_return rt)) s2 = (Inr rt, s')"
    using assms(1) by (auto simp: materialize_def sm_bind_Inr sm_then_Inr)
  have safe: "safe_bins a" by (rule materialize_safe_bins [OF c assms(2)])
  obtain ms af s3 where b: "buildRuntime w ms af a ident addr = Inr rt" and f: "finish_tree w a rt s3 = (Inr (), s2)"
    using materializeContent_Inr [OF c] by blast
  have i: "rt_id rt = ident" "rt_addr rt = addr"
    using b by (auto simp: buildRuntime_def split: option.splits sum.splits prod.splits)
  obtain data where d: "wk_yaml w rt = Inr data" "holds data s2" by (rule finish_tree_writes [OF f safe])
  have "keeps (holds data) (sm_then (sm_err as_pull (installRuntime w a)) (sm_then (sm_err as_pull (installTools w a)) (sm_return rt)))"
    using safe by (intro keeps_intro holds_install)
  then have "holds data s'" using keepsD [of "holds data", OF _ d(2)] inst by (metis snd_conv)
  then show ?thesis using d(1) i that by blast
qed


section \<open>Properties\<close>

text \<open>C23: no secret reaches the agent's tree through its descriptor.  When materialisation succeeds, the file
  \<^verbatim>\<open>etc/agent.yaml\<close> holds the descriptor, and it would hold the same bytes whatever the credentials and the address, the values
  of the environment variables and the host paths of the mounts were; decoding the document
  gives every other field back.\<close>

theorem descriptor_without_secrets:
  assumes "materialize w ident addr s = (Inr rt, s')" "\<forall>f \<in> set (wk_overrides w). keeps_bins f"
    "wk_yaml w = (\<lambda>rt. print (Runtime_yaml rt))"
  shows "\<exists>data. last_write runtimeFile (w_log s') = Some data \<and> wk_yaml w rt = Inr data \<and> yaml_Runtime (Runtime_yaml rt) = persisted rt \<and>
    (\<forall>base key addr' val host.
       wk_yaml w (rt\<lparr>rt_apibase := base, rt_apikey := key, rt_addr := addr',
         rt_envs := map (\<lambda>e. e\<lparr>env_value := val e\<rparr>) (rt_envs rt),
         rt_mounts := map (\<lambda>m. m\<lparr>mnt_host := host m\<rparr>) (rt_mounts rt)\<rparr>) = Inr data)"
proof -
  obtain data where d: "wk_yaml w rt = Inr data" "holds data s'" by (rule materialize_writes [OF assms(1,2)])
  show ?thesis
  proof (intro exI [of _ data] conjI allI)
    fix base key addr' and val :: "Env \<Rightarrow> string" and host :: "Mount \<Rightarrow> string"
    have "Runtime_yaml (rt\<lparr>rt_apibase := base, rt_apikey := key, rt_addr := addr',
        rt_envs := map (\<lambda>e. e\<lparr>env_value := val e\<rparr>) (rt_envs rt),
        rt_mounts := map (\<lambda>m. m\<lparr>mnt_host := host m\<rparr>) (rt_mounts rt)\<rparr>) = Runtime_yaml rt"
      by (simp add: Runtime_yaml_def comp_def)
    then show "wk_yaml w (rt\<lparr>rt_apibase := base, rt_apikey := key, rt_addr := addr',
        rt_envs := map (\<lambda>e. e\<lparr>env_value := val e\<rparr>) (rt_envs rt),
        rt_mounts := map (\<lambda>m. m\<lparr>mnt_host := host m\<rparr>) (rt_mounts rt)\<rparr>) = Inr data"
      using d(1) by (simp add: assms(3))
  qed (use d in \<open>simp_all add: Runtime_roundtrip\<close>)
qed

theorem descriptor_without_secrets_witness:
  "\<exists>rt s'. materialize (demo_workspace ''d.csv'') ''id'' ''addr'' demo_state = (Inr rt, s') \<and> rt_addr rt = ''addr'' \<and>
     last_write runtimeFile (w_log s') = Some ''y'' \<and> wk_yaml (demo_workspace ''d.csv'') (rt\<lparr>rt_addr := ''elsewhere''\<rparr>) = Inr ''y''"
proof -
  let ?w = "demo_workspace ''d.csv''"
  obtain rt s' where m: "materialize ?w ''id'' ''addr'' demo_state = (Inr rt, s')" using demo_materializes by blast
  have bins: "\<forall>f \<in> set (wk_overrides ?w). keeps_bins f" by (simp add: demo_workspace_def overrides_keep_bins)
  have y: "wk_yaml ?w = (\<lambda>rt. (\<lambda>_. Inr ''y'') (Runtime_yaml rt))" by (simp add: demo_workspace_def)
  obtain data where "last_write runtimeFile (w_log s') = Some data" "wk_yaml ?w rt = Inr data"
    using descriptor_without_secrets [OF m bins y] by blast
  moreover have "rt_addr rt = ''addr''" by (rule materialize_writes [OF m bins])
  ultimately show ?thesis using m y by auto
qed

end
