(* ===== verification/System_Agent.thy ===== *)
theory System_Agent
  imports System_Exec Runtime_File Status
begin

text \<open>
  One agent of the system executor as data (\<^verbatim>\<open>executor/system/agent.go\<close>, \<^verbatim>\<open>options.go\<close>, \<^verbatim>\<open>process.go\<close>):
  its options, its initialisation by the materialiser, the command it runs and how the
  process is awaited and shut down, credentials and mounts on a restart.  The interleavings of its
  methods are the subject of Lifecycle; here each method runs on its own.
\<close>


section \<open>The agent and its options\<close>

datatype stream_writer = OsStdout | OsStderr | LogFile string | OtherWriter string

record proc_cmd = job_cmd +
  pc_stdout :: stream_writer
  pc_stderr :: stream_writer

text \<open>How the process ends: by itself, after the interrupt, or after the kill that follows the grace period; the
  argument is what \<^verbatim>\<open>Wait\<close> returns.\<close>

datatype proc_end = Exits "string option" | Interrupted "string option" | Forced "string option"

text \<open>A spawner by what its commands do: whether one starts, and how it ends.\<close>

record spawner =
  sp_start :: "proc_cmd \<Rightarrow> string option"
  sp_end :: "proc_cmd \<Rightarrow> proc_end"

record 's sagent =
  sa_id :: string
  sa_root :: string
  sa_ws :: "'s workspace"
  sa_mounts :: "Mount list"
  sa_spawner :: spawner
  sa_stdout :: stream_writer
  sa_stderr :: stream_writer
  sa_status :: tracker
  sa_rt :: "Runtime option"
  sa_addr :: string
  sa_url :: string
  sa_token :: string
  sa_init :: bool
  sa_closer :: "stream_writer option"

type_synonym 's AgentOption = "'s sagent \<Rightarrow> 's sagent"

definition on_ws :: "('s workspace \<Rightarrow> 's workspace) \<Rightarrow> 's AgentOption" where
  "on_ws f a = a\<lparr>sa_ws := f (sa_ws a)\<rparr>"

definition WithStore :: "'s target \<Rightarrow> 's AgentOption" where
  "WithStore s = on_ws (\<lambda>w. w\<lparr>wk_store := s\<rparr>)"

definition WithReference :: "Reference \<Rightarrow> 's AgentOption" where
  "WithReference ref = on_ws (\<lambda>w. w\<lparr>wk_ref := ref\<rparr>)"

definition WithOverrides :: "Override list \<Rightarrow> 's AgentOption" where
  "WithOverrides overrides = on_ws (\<lambda>w. w\<lparr>wk_overrides := overrides\<rparr>)"

definition WithAgentPuller :: "(Reference \<Rightarrow> (string, bytes) res) \<Rightarrow> 's AgentOption" where
  "WithAgentPuller p = on_ws (\<lambda>w. w\<lparr>wk_puller := p\<rparr>)"

definition WithAgentUsageFetcher :: "(Reference \<Rightarrow> (string, bytes) res) option \<Rightarrow> 's AgentOption" where
  "WithAgentUsageFetcher f = on_ws (\<lambda>w. w\<lparr>wk_usage := f\<rparr>)"

definition WithAgentLocalRuntime :: "string \<Rightarrow> 's AgentOption" where
  "WithAgentLocalRuntime path = on_ws (\<lambda>w. w\<lparr>wk_local := path\<rparr>)"

definition WithModelResolver :: "(string \<Rightarrow> (string, string \<times> string) res) option \<Rightarrow> 's AgentOption" where
  "WithModelResolver r = on_ws (\<lambda>w. w\<lparr>wk_model := r\<rparr>)"

definition StaticResolver :: "string \<Rightarrow> string \<Rightarrow> string \<Rightarrow> (string, string \<times> string) res" where
  "StaticResolver apiURL apiKey = (\<lambda>_. Inr (apiURL, apiKey))"

definition WithStaticModelResolver :: "string \<Rightarrow> string \<Rightarrow> 's AgentOption" where
  "WithStaticModelResolver apiURL apiKey = on_ws (\<lambda>w. w\<lparr>wk_model := Some (StaticResolver apiURL apiKey)\<rparr>)"

definition WithDigestResolver :: "(string \<Rightarrow> string) option \<Rightarrow> 's AgentOption" where
  "WithDigestResolver r = on_ws (\<lambda>w. w\<lparr>wk_digest := r\<rparr>)"

definition WithImageRef :: "string \<Rightarrow> 's AgentOption" where
  "WithImageRef ref = on_ws (\<lambda>w. w\<lparr>wk_image := ref\<rparr>)"

definition WithCapabilities :: "Capability list \<Rightarrow> 's AgentOption" where
  "WithCapabilities caps = on_ws (\<lambda>w. w\<lparr>wk_capabilities := caps\<rparr>)"

definition withAgentHostFS :: "(string \<Rightarrow> (string, bytes) res) \<Rightarrow> 's AgentOption" where
  "withAgentHostFS fs = on_ws (\<lambda>w. w\<lparr>wk_host_read := fs\<rparr>)"

definition WithStdout :: "stream_writer \<Rightarrow> 's AgentOption" where
  "WithStdout w a = a\<lparr>sa_stdout := w\<rparr>"

definition WithStderr :: "stream_writer \<Rightarrow> 's AgentOption" where
  "WithStderr w a = a\<lparr>sa_stderr := w\<rparr>"

definition withLogCloser :: "stream_writer \<Rightarrow> 's AgentOption" where
  "withLogCloser c a = a\<lparr>sa_closer := Some c\<rparr>"

definition WithAddr :: "string \<Rightarrow> 's AgentOption" where
  "WithAddr addr a = a\<lparr>sa_addr := addr\<rparr>"

definition WithDaemonURL :: "string \<Rightarrow> 's AgentOption" where
  "WithDaemonURL url a = a\<lparr>sa_url := url\<rparr>"

definition WithAgentToken :: "string \<Rightarrow> 's AgentOption" where
  "WithAgentToken token a = a\<lparr>sa_token := token\<rparr>"

definition agent_WithMounts :: "Mount list \<Rightarrow> 's AgentOption" where
  "agent_WithMounts m a = a\<lparr>sa_mounts := m\<rparr>"

definition WithSpawner :: "spawner \<Rightarrow> 's AgentOption" where
  "WithSpawner s a = a\<lparr>sa_spawner := s\<rparr>"

text \<open>\<open>ws0\<close> is the workspace of a fresh agent on its root: the zero values of the code and the surroundings the
  workspace calls; \<open>os\<close> is the spawner of real processes.\<close>

definition NewAgent :: "spawner \<Rightarrow> string \<Rightarrow> string \<Rightarrow> 's workspace \<Rightarrow> 's AgentOption list \<Rightarrow> 's sagent" where
  "NewAgent os ident root ws0 opts =
    fold (\<lambda>opt a. opt a) opts
      \<lparr>sa_id = ident, sa_root = root, sa_ws = ws0, sa_mounts = [], sa_spawner = os, sa_stdout = OsStdout, sa_stderr = OsStderr,
       sa_status = NewStatusTracker, sa_rt = None, sa_addr = [], sa_url = [], sa_token = [], sa_init = False, sa_closer = None\<rparr>"


section \<open>Initialisation\<close>

definition system_SetAgentToken :: "string \<Rightarrow> 's sagent \<Rightarrow> 's sagent" where
  "system_SetAgentToken token a = a\<lparr>sa_token := token\<rparr>"

text \<open>The materialiser works on the state of the store and the log of file-system calls; the mounts it merges
  stay with the agent.\<close>

definition system_initialize :: "'s sagent \<Rightarrow> 's wstate \<Rightarrow> (werr, unit) res \<times> 's sagent \<times> 's wstate" where
  "system_initialize a s =
    (if sa_init a then (Inr (), a, s)
     else case materialize (sa_ws a) (sa_id a) (sa_addr a) (s\<lparr>w_mounts := sa_mounts a\<rparr>) of
            (Inl e, s') \<Rightarrow> (Inl e, a\<lparr>sa_mounts := w_mounts s'\<rparr>, s')
          | (Inr rt, s') \<Rightarrow> (Inr (), a\<lparr>sa_mounts := w_mounts s', sa_rt := Some rt, sa_init := True\<rparr>, s'))"

definition markInitialized :: "Runtime \<Rightarrow> 's sagent \<Rightarrow> 's sagent" where
  "markInitialized rt a = (if sa_init a then a else a\<lparr>sa_rt := Some rt, sa_init := True\<rparr>)"

definition ReapplyMounts :: "'s sagent \<Rightarrow> ('s, unit) wm" where
  "ReapplyMounts a s = (if sa_mounts a = [] then (Inr (), s) else applyMounts (sa_ws a) (s\<lparr>w_mounts := sa_mounts a\<rparr>))"

definition reresolveCredentials :: "'s sagent \<Rightarrow> (string, unit) res \<times> 's sagent" where
  "reresolveCredentials a =
    (case (sa_rt a, wk_model (sa_ws a)) of
       (Some rt, Some resolver) \<Rightarrow>
         if rt_model rt = [] then (Inr (), a)
         else (case resolver (rt_model rt) of
                 Inl e \<Rightarrow> (Inl e, a)
               | Inr (apiBase, apiKey) \<Rightarrow> (Inr (), a\<lparr>sa_rt := Some (rt\<lparr>rt_apibase := apiBase, rt_apikey := apiKey\<rparr>)\<rparr>))
     | _ \<Rightarrow> (Inr (), a))"


section \<open>The process\<close>

text \<open>\<open>None\<close> is the nil dereference of an agent without a descriptor.\<close>

definition system_command :: "lib \<Rightarrow> 's sagent \<Rightarrow> proc_cmd option" where
  "system_command L a =
    (case sa_rt a of
       None \<Rightarrow> None
     | Some rt \<Rightarrow>
         Some \<lparr>jc_path = JoinPath [sa_root a, RuntimeBin], jc_args = buildCmdArgs (runtime_config rt) (sa_root a),
               jc_dir = JoinPath [sa_root a, ''workspace''],
               jc_env = buildCmdEnv L (runtime_config rt) (sa_root a) (sa_url a) (sa_token a), jc_stdin = None,
               pc_stdout = sa_stdout a, pc_stderr = sa_stderr a\<rparr>)"

datatype proc_event = ProcStart proc_cmd | ProcInterrupt | ProcKill | ProcWaited

definition shutdown :: "proc_end \<Rightarrow> string option \<times> proc_event list" where
  "shutdown e =
    (case e of
       Exits err \<Rightarrow> (err, [ProcInterrupt, ProcWaited])
     | Interrupted err \<Rightarrow> (err, [ProcInterrupt, ProcWaited])
     | Forced err \<Rightarrow> (err, [ProcInterrupt, ProcKill, ProcWaited]))"

definition serve :: "spawner \<Rightarrow> proc_cmd \<Rightarrow> string option \<times> proc_event list" where
  "serve sp cmd =
    (case sp_start sp cmd of
       Some e \<Rightarrow> (Some e, [ProcStart cmd])
     | None \<Rightarrow>
         (case sp_end sp cmd of
            Exits err \<Rightarrow> (err, [ProcStart cmd, ProcWaited])
          | e \<Rightarrow> (let (err, es) = shutdown e in (err, ProcStart cmd # es))))"


section \<open>Options\<close>

text \<open>Options leave the identity, the tree, the descriptor and the lifecycle of an agent alone; all those of the
  package do.\<close>

definition plain_option :: "'s AgentOption \<Rightarrow> bool" where
  "plain_option opt \<longleftrightarrow>
    (\<forall>a. sa_id (opt a) = sa_id a \<and> sa_root (opt a) = sa_root a \<and> sa_status (opt a) = sa_status a \<and>
         sa_rt (opt a) = sa_rt a \<and> sa_init (opt a) = sa_init a)"

named_theorems plain_options

lemma plain_ws [plain_options]: "plain_option (on_ws f)"
  by (simp add: plain_option_def on_ws_def)

lemma plain_ws_options [plain_options]:
  "plain_option (WithStore s)" "plain_option (WithReference ref)" "plain_option (WithOverrides overrides)"
  "plain_option (WithAgentPuller p)" "plain_option (WithAgentUsageFetcher f)" "plain_option (WithAgentLocalRuntime path)"
  "plain_option (WithModelResolver r)" "plain_option (WithStaticModelResolver apiURL apiKey)"
  "plain_option (WithDigestResolver g)" "plain_option (WithImageRef i)" "plain_option (WithCapabilities caps)"
  "plain_option (withAgentHostFS fs)"
  by (simp_all add: WithStore_def WithReference_def WithOverrides_def WithAgentPuller_def WithAgentUsageFetcher_def
      WithAgentLocalRuntime_def WithModelResolver_def WithStaticModelResolver_def WithDigestResolver_def WithImageRef_def
      WithCapabilities_def withAgentHostFS_def plain_ws)

lemma plain_agent_options [plain_options]:
  "plain_option (WithStdout w)" "plain_option (WithStderr w)" "plain_option (withLogCloser w)" "plain_option (WithAddr addr)"
  "plain_option (WithDaemonURL url)" "plain_option (WithAgentToken token)" "plain_option (agent_WithMounts m)" "plain_option (WithSpawner sp)"
  by (simp_all add: plain_option_def WithStdout_def WithStderr_def withLogCloser_def WithAddr_def WithDaemonURL_def
      WithAgentToken_def agent_WithMounts_def WithSpawner_def)

lemma plain_fold:
  "list_all plain_option opts \<Longrightarrow>
    sa_id (fold (\<lambda>opt a. opt a) opts a) = sa_id a \<and> sa_root (fold (\<lambda>opt a. opt a) opts a) = sa_root a \<and>
    sa_status (fold (\<lambda>opt a. opt a) opts a) = sa_status a \<and> sa_rt (fold (\<lambda>opt a. opt a) opts a) = sa_rt a \<and>
    sa_init (fold (\<lambda>opt a. opt a) opts a) = sa_init a"
  by (induction opts arbitrary: a) (simp_all add: plain_option_def)

lemma NewAgent_plain:
  "list_all plain_option opts \<Longrightarrow>
    sa_id (NewAgent os ident root ws0 opts) = ident \<and> sa_root (NewAgent os ident root ws0 opts) = root \<and>
    sa_status (NewAgent os ident root ws0 opts) = NewStatusTracker \<and> sa_rt (NewAgent os ident root ws0 opts) = None \<and>
    \<not> sa_init (NewAgent os ident root ws0 opts)"
  unfolding NewAgent_def by (simp add: plain_fold)

text \<open>The last option that sets an address decides it.\<close>

lemma NewAgent_snoc: "NewAgent os ident root ws0 (opts @ [opt]) = opt (NewAgent os ident root ws0 opts)"
  by (simp add: NewAgent_def)

lemma NewAgent_addr:
  assumes "\<forall>opt \<in> set post. \<forall>a. sa_addr (opt a) = sa_addr a"
  shows "sa_addr (NewAgent os ident root ws0 (pre @ WithAddr addr # post)) = addr"
  using assms
proof (induction post rule: rev_induct)
  case Nil
  then show ?case by (simp add: NewAgent_def WithAddr_def)
next
  case (snoc opt post)
  then show ?case using NewAgent_snoc [of os ident root ws0 "pre @ WithAddr addr # post" opt] by simp
qed


section \<open>Initialised agents\<close>

lemma system_initialize_Inr:
  assumes "system_initialize a s = (Inr (), a', s')" "\<not> sa_init a" "\<forall>f \<in> set (wk_overrides (sa_ws a)). keeps_bins f"
  obtains rt data where "sa_init a'" "sa_rt a' = Some rt" "rt_id rt = sa_id a" "rt_addr rt = sa_addr a"
    "sa_addr a' = sa_addr a" "sa_root a' = sa_root a" "sa_id a' = sa_id a" "wk_yaml (sa_ws a) rt = Inr data" "holds data s'"
proof -
  obtain r s1 where r: "materialize (sa_ws a) (sa_id a) (sa_addr a) (s\<lparr>w_mounts := sa_mounts a\<rparr>) = (r, s1)"
    by (cases "materialize (sa_ws a) (sa_id a) (sa_addr a) (s\<lparr>w_mounts := sa_mounts a\<rparr>)")
  have ini: "system_initialize a s = (case r of Inl e \<Rightarrow> (Inl e, a\<lparr>sa_mounts := w_mounts s1\<rparr>, s1)
      | Inr rt \<Rightarrow> (Inr (), a\<lparr>sa_mounts := w_mounts s1, sa_rt := Some rt, sa_init := True\<rparr>, s1))"
    unfolding system_initialize_def r if_not_P [OF assms(2)] by (cases r) simp_all
  obtain rt where rt: "r = Inr rt" using ini assms(1) by (cases r) simp_all
  note m = r [unfolded rt]
  have a': "a' = a\<lparr>sa_mounts := w_mounts s1, sa_rt := Some rt, sa_init := True\<rparr>" "s' = s1"
    using ini assms(1) by (simp_all add: rt)
  obtain data where "wk_yaml (sa_ws a) rt = Inr data" "holds data s1" "rt_id rt = sa_id a" "rt_addr rt = sa_addr a"
    by (rule materialize_writes [OF m assms(3)])
  then show ?thesis using a' by (intro that [of rt data]) simp_all
qed

lemma system_initialize_once: "sa_init a \<Longrightarrow> system_initialize a s = (Inr (), a, s)"
  by (simp add: system_initialize_def)


section \<open>The end of a process\<close>

text \<open>A process that started is always waited for, last and once; it is killed only after it was asked to stop, and
  only when it did not.\<close>

lemma serve_waits:
  assumes "serve sp cmd = (err, es)" "sp_start sp cmd = None"
  shows "\<exists>mid. es = ProcStart cmd # mid @ [ProcWaited] \<and> mid \<in> {[], [ProcInterrupt], [ProcInterrupt, ProcKill]} \<and>
    (ProcKill \<in> set mid \<longleftrightarrow> sp_end sp cmd = Forced err)"
  using assms by (auto simp: serve_def shutdown_def split: proc_end.splits)

lemma serve_not_started: "sp_start sp cmd = Some e \<Longrightarrow> serve sp cmd = (Some e, [ProcStart cmd])"
  by (simp add: serve_def)

end
