(* ===== verification/Lifecycle.thy ===== *)
theory Lifecycle
  imports Status
begin

text \<open>
  The lifecycle of a system agent under concurrent callers, from
  \<^verbatim>\<open>executor/system/agent.go\<close>: Run, Start, Stop and Remove as threads whose
  program counters stand at the points where the code takes or has released
  a lock.  One atomic section is one definition on the shared state; \<open>go\<close>
  moves one thread by one section, with a flag for the outcomes the code does
  not control (materialise succeeds or fails, credentials resolve or not, the
  caller's context expires, the workspace can be deleted or not).  A run owns
  a token, which stands for its \<^verbatim>\<open>ran\<close> channel and its cancellable context.
  Status changes of the daemon's supervisor are outside the repository and
  not modelled.
\<close>


section \<open>Shared state\<close>

datatype pc =
    RunBegin
  | RunPull nat
  | RunPrepare nat
  | RunStarting nat
  | RunServe nat
  | EndUnlock nat
  | EndSettle nat
  | EndClose nat
  | StartCheck
  | StartCredentials
  | StopRead bool
  | StopWait nat bool
  | RemoveMark
  | RemoveDelete
  | RemoveDone
  | Returned bool

record lstate =
  l_running :: bool
  l_ran :: "nat option"
  l_cancel :: "nat option"
  l_cancelled :: "nat list"
  l_closed :: "nat list"
  l_initialized :: bool
  l_status :: Status
  l_gone :: bool
  l_next :: nat
  l_threads :: "(nat, pc) gomap"

definition l_init :: lstate where
  "l_init =
    \<lparr>l_running = False, l_ran = None, l_cancel = None, l_cancelled = [], l_closed = [],
     l_initialized = False, l_status = StatusPulling, l_gone = False, l_next = 0, l_threads = fmempty\<rparr>"


section \<open>Atomic sections\<close>

text \<open>\<^verbatim>\<open>beginRun\<close>: \<^const>\<open>None\<close> is "agent already running"; otherwise the new run's token.\<close>

definition beginRun :: "lstate \<Rightarrow> (lstate \<times> nat) option" where
  "beginRun s =
    (if l_running s then None
     else Some (s\<lparr>l_running := True, l_cancel := Some (l_next s), l_ran := Some (l_next s),
                  l_next := Suc (l_next s)\<rparr>, l_next s))"

text \<open>The three parts of \<^verbatim>\<open>endRun\<close>: clear the run state under the lock, settle the
  status, close the channel.\<close>

definition endRun_unlock :: "lstate \<Rightarrow> lstate" where
  "endRun_unlock s = s\<lparr>l_running := False, l_cancel := None, l_ran := None\<rparr>"

definition endRun_settle :: "lstate \<Rightarrow> lstate" where
  "endRun_settle s =
    (if l_status s \<in> {StatusFailed, StatusRemoving, StatusRemoved} then s
     else s\<lparr>l_status := StatusStopped\<rparr>)"

definition endRun_close :: "nat \<Rightarrow> lstate \<Rightarrow> lstate" where
  "endRun_close r s = s\<lparr>l_closed := r # l_closed s\<rparr>"

text \<open>\<^verbatim>\<open>initialize\<close>: an initialised agent does not materialise again, a failed
  materialise is not cached.\<close>

definition initialize :: "bool \<Rightarrow> lstate \<Rightarrow> lstate \<times> bool" where
  "initialize ok s =
    (if l_initialized s then (s, True)
     else if ok then (s\<lparr>l_initialized := True\<rparr>, True)
     else (s, False))"

text \<open>\<^verbatim>\<open>Prepare\<close> in the context of run \<open>r\<close>: a failure is recorded unless the run was
  cancelled.\<close>

definition Prepare :: "bool \<Rightarrow> nat \<Rightarrow> lstate \<Rightarrow> lstate \<times> bool" where
  "Prepare ok r s =
    (case initialize ok s of
       (s', True) \<Rightarrow> (s', True)
     | (s', False) \<Rightarrow> (if r \<in> set (l_cancelled s') then s' else s'\<lparr>l_status := StatusFailed\<rparr>, False))"

text \<open>The status switch at the head of \<^verbatim>\<open>Start\<close>: may it go on?\<close>

definition Start_check :: "lstate \<Rightarrow> bool" where
  "Start_check s \<longleftrightarrow> l_status s \<in> {StatusStopped, StatusFailed}"

text \<open>The locked read of \<^verbatim>\<open>Stop\<close> and its cancel: \<^const>\<open>None\<close> when no run is there to wait for.\<close>

definition Stop_read :: "lstate \<Rightarrow> lstate \<times> nat option" where
  "Stop_read s =
    (case l_cancel s of
       Some r \<Rightarrow> (s\<lparr>l_cancelled := r # l_cancelled s\<rparr>, l_ran s)
     | None \<Rightarrow> (s, l_ran s))"

definition at :: "nat \<Rightarrow> pc \<Rightarrow> lstate \<Rightarrow> lstate" where
  "at i p s = s\<lparr>l_threads := fmupd i p (l_threads s)\<rparr>"

text \<open>One step of thread \<open>i\<close> standing at the given program counter; \<open>ok\<close> is the
  outcome of whatever the section waits for.  \<^const>\<open>None\<close>: blocked or finished.\<close>

fun go :: "bool \<Rightarrow> nat \<Rightarrow> pc \<Rightarrow> lstate \<Rightarrow> lstate option" where
  "go ok i RunBegin s =
    (case beginRun s of
       None \<Rightarrow> Some (at i (Returned False) s)
     | Some (s', r) \<Rightarrow> Some (at i (RunPull r) s'))"
| "go ok i (RunPull r) s = Some (at i (RunPrepare r) (s\<lparr>l_status := StatusPulling\<rparr>))"
| "go ok i (RunPrepare r) s =
    (let (s', done) = Prepare ok r s
     in Some (at i (if done then RunStarting r else EndUnlock r) s'))"
| "go ok i (RunStarting r) s = Some (at i (RunServe r) (s\<lparr>l_status := StatusStarting\<rparr>))"
| "go ok i (RunServe r) s = Some (at i (EndUnlock r) s)"
| "go ok i (EndUnlock r) s = Some (at i (EndSettle r) (endRun_unlock s))"
| "go ok i (EndSettle r) s = Some (at i (EndClose r) (endRun_settle s))"
| "go ok i (EndClose r) s = Some (at i (Returned True) (endRun_close r s))"
| "go ok i StartCheck s =
    Some (at i (if Start_check s then StartCredentials else Returned False) s)"
| "go ok i StartCredentials s =
    (if ok then Some (at i RunBegin s) else Some (at i (Returned False) (s\<lparr>l_status := StatusFailed\<rparr>)))"
| "go ok i (StopRead rm) s =
    (case Stop_read s of
       (s', None) \<Rightarrow> Some (at i (if rm then RemoveMark else Returned True) s')
     | (s', Some r) \<Rightarrow> Some (at i (StopWait r rm) s'))"
| "go ok i (StopWait r rm) s =
    (if \<not> ok then Some (at i (Returned False) s)
     else if r \<in> set (l_closed s) then Some (at i (if rm then RemoveMark else Returned True) s)
     else None)"
| "go ok i RemoveMark s = Some (at i RemoveDelete (s\<lparr>l_status := StatusRemoving\<rparr>))"
| "go ok i RemoveDelete s =
    (if ok then Some (at i RemoveDone (s\<lparr>l_gone := True\<rparr>)) else Some (at i (Returned False) s))"
| "go ok i RemoveDone s = Some (at i (Returned True) (s\<lparr>l_status := StatusRemoved\<rparr>))"
| "go ok i (Returned b) s = None"

datatype call = CallRun | CallStart | CallStop | CallRemove

fun entry :: "call \<Rightarrow> pc" where
  "entry CallRun = RunBegin"
| "entry CallStart = StartCheck"
| "entry CallStop = StopRead False"
| "entry CallRemove = StopRead True"

datatype act = Call nat call | Go nat bool | Cancel nat

text \<open>A new caller arrives, some thread takes a step, or the caller of a run cancels the
  context it passed.\<close>

fun lstep :: "act \<Rightarrow> lstate \<Rightarrow> lstate option" where
  "lstep (Call i c) s = (if fmlookup (l_threads s) i = None then Some (at i (entry c) s) else None)"
| "lstep (Go i ok) s = (case fmlookup (l_threads s) i of None \<Rightarrow> None | Some p \<Rightarrow> go ok i p s)"
| "lstep (Cancel r) s = (if r < l_next s then Some (s\<lparr>l_cancelled := r # l_cancelled s\<rparr>) else None)"

inductive reachable :: "lstate \<Rightarrow> bool" where
  reach_init: "reachable l_init"
| reach_step: "reachable s \<Longrightarrow> lstep a s = Some s' \<Longrightarrow> reachable s'"

fun run_acts :: "act list \<Rightarrow> lstate \<Rightarrow> lstate option" where
  "run_acts [] s = Some s"
| "run_acts (a # as) s = (case lstep a s of None \<Rightarrow> None | Some s' \<Rightarrow> run_acts as s')"

lemma run_acts_reachable: "reachable s \<Longrightarrow> run_acts as s = Some s' \<Longrightarrow> reachable s'"
  by (induction as s rule: run_acts.induct) (auto split: option.splits intro: reach_step)


section \<open>Invariant\<close>

text \<open>The token of a run that has begun and not yet released the lock of endRun,
  and the token of a run that has begun and not yet closed its channel.\<close>

fun active :: "pc \<Rightarrow> nat option" where
  "active (RunPull r) = Some r"
| "active (RunPrepare r) = Some r"
| "active (RunStarting r) = Some r"
| "active (RunServe r) = Some r"
| "active (EndUnlock r) = Some r"
| "active _ = None"

fun holds :: "pc \<Rightarrow> nat option" where
  "holds (EndSettle r) = Some r"
| "holds (EndClose r) = Some r"
| "holds p = active p"

definition act_tok :: "lstate \<Rightarrow> nat \<Rightarrow> nat option" where
  "act_tok s i = (case fmlookup (l_threads s) i of Some p \<Rightarrow> active p | None \<Rightarrow> None)"

definition hold_tok :: "lstate \<Rightarrow> nat \<Rightarrow> nat option" where
  "hold_tok s i = (case fmlookup (l_threads s) i of Some p \<Rightarrow> holds p | None \<Rightarrow> None)"

definition life_inv :: "lstate \<Rightarrow> bool" where
  "life_inv s \<longleftrightarrow>
     l_cancel s = l_ran s \<and> (l_running s \<longleftrightarrow> l_ran s \<noteq> None) \<and>
     (\<forall>r. l_ran s = Some r \<longrightarrow> (\<exists>i. act_tok s i = Some r)) \<and>
     (\<forall>i r. act_tok s i = Some r \<longrightarrow> l_ran s = Some r) \<and>
     (\<forall>i r. hold_tok s i = Some r \<longrightarrow> r < l_next s \<and> r \<notin> set (l_closed s)) \<and>
     (\<forall>i j r. hold_tok s i = Some r \<longrightarrow> hold_tok s j = Some r \<longrightarrow> i = j) \<and>
     (\<forall>r \<in> set (l_closed s). r < l_next s)"

lemma life_invI:
  assumes "l_cancel s = l_ran s" "l_running s \<longleftrightarrow> l_ran s \<noteq> None"
    and "\<And>r. l_ran s = Some r \<Longrightarrow> \<exists>i. act_tok s i = Some r"
    and "\<And>i r. act_tok s i = Some r \<Longrightarrow> l_ran s = Some r"
    and "\<And>i r. hold_tok s i = Some r \<Longrightarrow> r < l_next s \<and> r \<notin> set (l_closed s)"
    and "\<And>i j r. hold_tok s i = Some r \<Longrightarrow> hold_tok s j = Some r \<Longrightarrow> i = j"
    and "\<And>r. r \<in> set (l_closed s) \<Longrightarrow> r < l_next s"
  shows "life_inv s"
  unfolding life_inv_def using assms by blast

lemma life_invD:
  assumes "life_inv s"
  shows "l_cancel s = l_ran s" "l_running s \<longleftrightarrow> l_ran s \<noteq> None"
    and "l_ran s = Some r \<Longrightarrow> \<exists>i. act_tok s i = Some r"
    and "act_tok s i = Some r \<Longrightarrow> l_ran s = Some r"
    and "hold_tok s i = Some r \<Longrightarrow> r < l_next s \<and> r \<notin> set (l_closed s)"
    and "hold_tok s i = Some r \<Longrightarrow> hold_tok s j = Some r \<Longrightarrow> i = j"
    and "r \<in> set (l_closed s) \<Longrightarrow> r < l_next s"
  using assms unfolding life_inv_def by blast+

lemma active_holds: "active p = Some r \<Longrightarrow> holds p = Some r"
  by (cases p) simp_all

lemma active_entry [simp]: "active (entry c) = None" "holds (entry c) = None"
  by (cases c; simp)+

text \<open>Moving one thread without touching the run state.\<close>

definition same_run :: "lstate \<Rightarrow> lstate \<Rightarrow> bool" where
  "same_run s s' \<longleftrightarrow> l_running s' = l_running s \<and> l_ran s' = l_ran s \<and> l_cancel s' = l_cancel s \<and>
     l_closed s' = l_closed s \<and> l_next s' = l_next s \<and> l_threads s' = l_threads s"

lemma at_fields [simp]:
  "l_running (at i p s) = l_running s" "l_ran (at i p s) = l_ran s" "l_cancel (at i p s) = l_cancel s"
  "l_closed (at i p s) = l_closed s" "l_next (at i p s) = l_next s" "l_status (at i p s) = l_status s"
  "l_gone (at i p s) = l_gone s" "l_cancelled (at i p s) = l_cancelled s"
  "l_initialized (at i p s) = l_initialized s"
  "l_threads (at i p s) = fmupd i p (l_threads s)"
  by (simp_all add: at_def)

lemma tok_at [simp]:
  "act_tok (at i q s) = (act_tok s)(i := active q)" "hold_tok (at i q s) = (hold_tok s)(i := holds q)"
  by (auto simp: act_tok_def hold_tok_def fun_eq_iff)

lemma tok_cong: "l_threads s' = l_threads s \<Longrightarrow> act_tok s' = act_tok s \<and> hold_tok s' = hold_tok s"
  by (simp add: act_tok_def [abs_def] hold_tok_def [abs_def])

lemma tok_upd [simp]:
  "act_tok (s\<lparr>l_running := a\<rparr>) = act_tok s" "hold_tok (s\<lparr>l_running := a\<rparr>) = hold_tok s"
  "act_tok (s\<lparr>l_ran := b\<rparr>) = act_tok s" "hold_tok (s\<lparr>l_ran := b\<rparr>) = hold_tok s"
  "act_tok (s\<lparr>l_cancel := b\<rparr>) = act_tok s" "hold_tok (s\<lparr>l_cancel := b\<rparr>) = hold_tok s"
  "act_tok (s\<lparr>l_closed := c\<rparr>) = act_tok s" "hold_tok (s\<lparr>l_closed := c\<rparr>) = hold_tok s"
  "act_tok (s\<lparr>l_next := n\<rparr>) = act_tok s" "hold_tok (s\<lparr>l_next := n\<rparr>) = hold_tok s"
  by (simp_all add: act_tok_def [abs_def] hold_tok_def [abs_def])

lemma act_hold_tok: "act_tok s i = Some r \<Longrightarrow> hold_tok s i = Some r"
  by (simp add: act_tok_def hold_tok_def active_holds split: option.splits)

lemma life_inv_move:
  assumes inv: "life_inv s" and same: "same_run s s'"
    and "act_tok s i = active q" "hold_tok s i = holds q"
  shows "life_inv (at i q s')"
proof -
  have t: "act_tok s' = act_tok s" "hold_tok s' = hold_tok s"
    using tok_cong [of s' s] same by (simp_all add: same_run_def)
  have "act_tok (at i q s') = act_tok s" "hold_tok (at i q s') = hold_tok s"
    using assms(3,4) by (auto simp: t fun_eq_iff)
  moreover have "l_running s' = l_running s" "l_ran s' = l_ran s" "l_cancel s' = l_cancel s"
    "l_closed s' = l_closed s" "l_next s' = l_next s"
    using same by (simp_all add: same_run_def)
  ultimately have "life_inv (at i q s') = life_inv s" by (simp only: life_inv_def at_fields)
  then show ?thesis using inv by simp
qed

lemma beginRun_inv:
  assumes inv: "life_inv s" and b: "beginRun s = Some (s', r)" and i: "hold_tok s i = None"
  shows "life_inv (at i (RunPull r) s')"
proof -
  have idle: "\<not> l_running s" and s': "s' = s\<lparr>l_running := True, l_cancel := Some r, l_ran := Some r, l_next := Suc r\<rparr>"
    and r: "r = l_next s" using b by (auto simp: beginRun_def split: if_splits)
  have none: "act_tok s j = None" for j
    using life_invD(2,4) [OF inv] idle by (metis not_None_eq)
  show ?thesis
  proof (rule life_invI)
    fix j x assume "hold_tok (at i (RunPull r) s') j = Some x"
    then show "x < l_next (at i (RunPull r) s') \<and> x \<notin> set (l_closed (at i (RunPull r) s'))"
      using life_invD(5) [OF inv, of j x] life_invD(7) [OF inv] by (auto simp: s' r split: if_splits)
  next
    fix j k x assume "hold_tok (at i (RunPull r) s') j = Some x" "hold_tok (at i (RunPull r) s') k = Some x"
    then show "j = k"
      using life_invD(6) [OF inv, of j x k] life_invD(5) [OF inv, of j x] life_invD(5) [OF inv, of k x]
      by (auto simp: s' r split: if_splits)
  next
    fix x assume "x \<in> set (l_closed (at i (RunPull r) s'))"
    then show "x < l_next (at i (RunPull r) s')" using life_invD(7) [OF inv, of x] by (simp add: s' r)
  qed (auto simp: s' none split: if_splits)
qed

lemma endRun_unlock_inv:
  assumes inv: "life_inv s" and i: "act_tok s i = Some r" "hold_tok s i = Some r"
  shows "life_inv (at i (EndSettle r) (endRun_unlock s))"
proof -
  have only: "act_tok s j = None" if "j \<noteq> i" for j
  proof (rule ccontr)
    assume "act_tok s j \<noteq> None"
    then obtain x where x: "act_tok s j = Some x" by blast
    then have "x = r" using life_invD(4) [OF inv x] life_invD(4) [OF inv i(1)] by simp
    then show False using that life_invD(6) [OF inv i(2)] act_hold_tok [OF x] by auto
  qed
  show ?thesis
  proof (rule life_invI)
    fix j x assume "hold_tok (at i (EndSettle r) (endRun_unlock s)) j = Some x"
    then have "hold_tok s j = Some x" using i(2) by (simp add: endRun_unlock_def split: if_splits)
    then show "x < l_next (at i (EndSettle r) (endRun_unlock s)) \<and> x \<notin> set (l_closed (at i (EndSettle r) (endRun_unlock s)))"
      using life_invD(5) [OF inv] by (simp add: endRun_unlock_def)
  next
    fix j k x assume "hold_tok (at i (EndSettle r) (endRun_unlock s)) j = Some x"
      "hold_tok (at i (EndSettle r) (endRun_unlock s)) k = Some x"
    then have "hold_tok s j = Some x" "hold_tok s k = Some x" using i(2) by (auto simp: endRun_unlock_def split: if_splits)
    then show "j = k" by (rule life_invD(6) [OF inv])
  qed (use only life_invD(7) [OF inv] in \<open>auto simp: endRun_unlock_def split: if_splits\<close>)
qed

lemma endRun_close_inv:
  assumes inv: "life_inv s" and i: "act_tok s i = None" "hold_tok s i = Some r"
  shows "life_inv (at i (Returned True) (endRun_close r s))"
proof -
  have other: "hold_tok s j \<noteq> Some r" if "j \<noteq> i" for j using that life_invD(6) [OF inv i(2)] by blast
  have r: "r < l_next s" using life_invD(5) [OF inv i(2)] by simp
  show ?thesis
  proof (rule life_invI)
    fix x assume "l_ran (at i (Returned True) (endRun_close r s)) = Some x"
    then obtain j where j: "act_tok s j = Some x" using life_invD(3) [OF inv, of x] by (auto simp: endRun_close_def)
    then have "j \<noteq> i" using i(1) by auto
    then show "\<exists>j. act_tok (at i (Returned True) (endRun_close r s)) j = Some x" using j by (auto simp: endRun_close_def)
  next
    fix j x assume a: "hold_tok (at i (Returned True) (endRun_close r s)) j = Some x"
    then have "j \<noteq> i" "hold_tok s j = Some x" by (auto simp: endRun_close_def split: if_splits)
    then show "x < l_next (at i (Returned True) (endRun_close r s)) \<and> x \<notin> set (l_closed (at i (Returned True) (endRun_close r s)))"
      using life_invD(5) [OF inv, of j x] other [of j] by (auto simp: endRun_close_def)
  next
    fix j k x assume "hold_tok (at i (Returned True) (endRun_close r s)) j = Some x"
      "hold_tok (at i (Returned True) (endRun_close r s)) k = Some x"
    then show "j = k" using life_invD(6) [OF inv, of j x k] by (auto simp: endRun_close_def split: if_splits)
  next
    fix j x assume "act_tok (at i (Returned True) (endRun_close r s)) j = Some x"
    then show "l_ran (at i (Returned True) (endRun_close r s)) = Some x"
      using life_invD(4) [OF inv, of j x] by (auto simp: endRun_close_def split: if_splits)
  next
    fix x assume "x \<in> set (l_closed (at i (Returned True) (endRun_close r s)))"
    then show "x < l_next (at i (Returned True) (endRun_close r s))"
      using r life_invD(7) [OF inv, of x] by (auto simp: endRun_close_def)
  qed (use life_invD(1,2) [OF inv] in \<open>simp_all add: endRun_close_def\<close>)
qed

lemma go_inv:
  assumes inv: "life_inv s" and p: "fmlookup (l_threads s) i = Some p" and g: "go ok i p s = Some s'"
  shows "life_inv s'"
proof -
  have tok: "act_tok s i = active p" "hold_tok s i = holds p" using p by (simp_all add: act_tok_def hold_tok_def)
  show ?thesis
  proof (cases p)
    case RunBegin
    show ?thesis
    proof (cases "beginRun s")
      case None
      then show ?thesis
        using g tok RunBegin life_inv_move [OF inv, of s i "Returned False"] by (simp add: same_run_def)
    next
      case (Some a)
      then show ?thesis using g tok RunBegin beginRun_inv [OF inv, of "fst a" "snd a" i] by (cases a) simp
    qed
  next
    case (EndUnlock r)
    then show ?thesis using g tok endRun_unlock_inv [OF inv, of i r] by simp
  next
    case (EndClose r)
    then show ?thesis using g tok endRun_close_inv [OF inv, of i r] by simp
  qed (use g tok in \<open>auto intro!: life_inv_move [OF inv] simp: same_run_def Prepare_def initialize_def endRun_settle_def
        Stop_read_def Let_def split: if_splits option.splits prod.splits\<close>)
qed

lemma reachable_inv: "reachable s \<Longrightarrow> life_inv s"
proof (induction rule: reachable.induct)
  case reach_init
  show ?case by (rule life_invI) (simp_all add: l_init_def act_tok_def hold_tok_def)
next
  case (reach_step s a s')
  show ?case
  proof (cases a)
    case (Call i c)
    have "act_tok s i = None" "hold_tok s i = None"
      using reach_step.hyps(2) Call by (auto simp: act_tok_def hold_tok_def split: if_splits)
    then show ?thesis
      using reach_step Call life_inv_move [OF reach_step.IH, of s i "entry c"]
      by (auto simp: same_run_def split: if_splits)
  next
    case (Go i ok)
    then show ?thesis using reach_step go_inv [OF reach_step.IH] by (auto split: option.splits)
  next
    case (Cancel r)
    have "life_inv (s\<lparr>l_cancelled := r # l_cancelled s\<rparr>) = life_inv s"
      by (simp add: life_inv_def act_tok_def hold_tok_def)
    then show ?thesis using reach_step Cancel by (auto split: if_splits)
  qed
qed

text \<open>A thread that waits for a run waits for one whose channel is closed or will be
  closed by the thread that owns it.\<close>

definition waits_ok :: "lstate \<Rightarrow> bool" where
  "waits_ok s \<longleftrightarrow> (\<forall>i r rm. fmlookup (l_threads s) i = Some (StopWait r rm) \<longrightarrow>
     r \<in> set (l_closed s) \<or> (\<exists>j. hold_tok s j = Some r))"

lemma go_frame:
  "go ok i p s = Some s' \<Longrightarrow>
     \<exists>q. l_threads s' = fmupd i q (l_threads s) \<and> set (l_closed s) \<subseteq> set (l_closed s') \<and>
         (\<forall>r. holds p = Some r \<longrightarrow> holds q = Some r \<or> r \<in> set (l_closed s')) \<and>
         (\<forall>r rm. q = StopWait r rm \<longrightarrow> l_ran s = Some r)"
  by (cases p) (auto simp: beginRun_def Prepare_def initialize_def endRun_unlock_def endRun_settle_def endRun_close_def
      Stop_read_def Let_def split: option.splits if_splits prod.splits)

lemma waits_ok_go:
  assumes inv: "life_inv s" and w: "waits_ok s" and p: "fmlookup (l_threads s) i = Some p"
    and g: "go ok i p s = Some s'"
  shows "waits_ok s'"
proof -
  obtain q where th: "l_threads s' = fmupd i q (l_threads s)" and cl: "set (l_closed s) \<subseteq> set (l_closed s')"
    and h: "\<And>r. holds p = Some r \<Longrightarrow> holds q = Some r \<or> r \<in> set (l_closed s')"
    and sw: "\<And>r rm. q = StopWait r rm \<Longrightarrow> l_ran s = Some r"
    using go_frame [OF g] by blast
  have keep: "r \<in> set (l_closed s') \<or> (\<exists>j. hold_tok s' j = Some r)" if "hold_tok s j = Some r" for j r
  proof (cases "j = i")
    case True
    then have "holds p = Some r" using that p by (simp add: hold_tok_def)
    then show ?thesis using h [of r] th by (auto simp: hold_tok_def intro: exI [of _ i])
  next
    case False
    then have "hold_tok s' j = Some r" using that th by (simp add: hold_tok_def)
    then show ?thesis by blast
  qed
  show ?thesis unfolding waits_ok_def
  proof (intro allI impI)
    fix k r rm assume k: "fmlookup (l_threads s') k = Some (StopWait r rm)"
    show "r \<in> set (l_closed s') \<or> (\<exists>j. hold_tok s' j = Some r)"
    proof (cases "k = i")
      case True
      then have "l_ran s = Some r" using k th sw by simp
      then obtain j where "act_tok s j = Some r" using life_invD(3) [OF inv] by blast
      then show ?thesis using keep act_hold_tok by blast
    next
      case False
      then have "fmlookup (l_threads s) k = Some (StopWait r rm)" using k th by simp
      then show ?thesis using w keep cl unfolding waits_ok_def by blast
    qed
  qed
qed

lemma entry_not_wait [simp]: "entry c \<noteq> StopWait r rm"
  by (cases c) simp_all

lemma reachable_waits: "reachable s \<Longrightarrow> waits_ok s"
proof (induction rule: reachable.induct)
  case reach_init
  show ?case by (simp add: waits_ok_def l_init_def)
next
  case (reach_step s a s')
  show ?case
  proof (cases a)
    case (Call i c)
    then have s': "s' = at i (entry c) s" and new: "fmlookup (l_threads s) i = None"
      using reach_step.hyps(2) by (auto split: if_splits)
    have "hold_tok s' j = hold_tok s j" for j using new by (simp add: s' hold_tok_def)
    then show ?thesis using reach_step.IH by (auto simp: waits_ok_def s')
  next
    case (Go i ok)
    then show ?thesis
      using reach_step waits_ok_go [OF reachable_inv [OF reach_step.hyps(1)] reach_step.IH]
      by (auto split: option.splits)
  next
    case (Cancel r)
    have "waits_ok (s\<lparr>l_cancelled := r # l_cancelled s\<rparr>) = waits_ok s"
      by (simp add: waits_ok_def hold_tok_def)
    then show ?thesis using reach_step Cancel by (auto split: if_splits)
  qed
qed

lemmas reachable_life = life_invD [OF reachable_inv]

section \<open>Progress of the owner of a run\<close>

fun left :: "pc \<Rightarrow> nat" where
  "left (RunPull r) = 7"
| "left (RunPrepare r) = 6"
| "left (RunStarting r) = 5"
| "left (RunServe r) = 4"
| "left (EndUnlock r) = 3"
| "left (EndSettle r) = 2"
| "left (EndClose r) = 1"
| "left _ = 0"

lemma owner_step:
  "holds p = Some r \<Longrightarrow>
     \<exists>q s'. go True j p s = Some s' \<and> l_threads s' = fmupd j q (l_threads s) \<and>
       (r \<in> set (l_closed s') \<and> left p = 1 \<or> holds q = Some r \<and> left p = Suc (left q))"
  by (cases p) (auto simp: Prepare_def initialize_def endRun_unlock_def endRun_settle_def endRun_close_def Let_def)

lemma owner_finishes:
  "fmlookup (l_threads s) j = Some p \<Longrightarrow> holds p = Some r \<Longrightarrow>
     \<exists>s'. run_acts (replicate (left p) (Go j True)) s = Some s' \<and> r \<in> set (l_closed s') \<and>
        (\<forall>k. k \<noteq> j \<longrightarrow> fmlookup (l_threads s') k = fmlookup (l_threads s) k)"
proof (induction "left p" arbitrary: p s)
  case 0
  then show ?case by (cases p) simp_all
next
  case (Suc n)
  obtain q s1 where g: "go True j p s = Some s1" and th: "l_threads s1 = fmupd j q (l_threads s)"
    and alt: "r \<in> set (l_closed s1) \<and> left p = 1 \<or> holds q = Some r \<and> left p = Suc (left q)"
    using owner_step [OF Suc.prems(2)] by blast
  have others: "fmlookup (l_threads s1) k = fmlookup (l_threads s) k" if "k \<noteq> j" for k
    using that th by simp
  from alt show ?case
  proof
    assume a: "r \<in> set (l_closed s1) \<and> left p = 1"
    then show ?case using g Suc.prems(1) others by simp
  next
    assume a: "holds q = Some r \<and> left p = Suc (left q)"
    then have "\<exists>s'. run_acts (replicate (left q) (Go j True)) s1 = Some s' \<and> r \<in> set (l_closed s') \<and>
        (\<forall>k. k \<noteq> j \<longrightarrow> fmlookup (l_threads s') k = fmlookup (l_threads s1) k)"
      using Suc.hyps(1) [of q s1] Suc.hyps(2) th by simp
    then show ?case using a g Suc.prems(1) others by simp
  qed
qed


section \<open>Removal\<close>

text \<open>The program counters at which a thread can no longer start a run when the status is
  Removing or Removed.\<close>

fun tame :: "pc \<Rightarrow> bool" where
  "tame StartCheck = True"
| "tame (StopRead rm) = True"
| "tame (StopWait r rm) = True"
| "tame RemoveMark = True"
| "tame RemoveDelete = True"
| "tame RemoveDone = True"
| "tame (Returned b) = True"
| "tame _ = False"

definition removed_quiet :: "lstate \<Rightarrow> bool" where
  "removed_quiet s \<longleftrightarrow> l_status s \<in> {StatusRemoving, StatusRemoved} \<and> fmpred (\<lambda>_ p. tame p) (l_threads s)"

lemma removed_quiet_step:
  assumes q: "removed_quiet s" and st: "lstep a s = Some s'" and nr: "\<And>i. a \<noteq> Call i CallRun"
  shows "removed_quiet s' \<and> l_running s' = l_running s"
proof (cases a)
  case (Call i c)
  then have "tame (entry c)" using nr by (cases c) auto
  then show ?thesis using q st Call by (auto simp: removed_quiet_def fmpred_iff split: if_splits)
next
  case (Go i ok)
  then obtain p where p: "fmlookup (l_threads s) i = Some p" "go ok i p s = Some s'"
    using st by (auto split: option.splits)
  then have "tame p" using q by (auto simp: removed_quiet_def fmpred_iff)
  then show ?thesis using q p
    by (cases p) (auto simp: removed_quiet_def fmpred_iff Start_check_def Stop_read_def
        split: if_splits option.splits)
next
  case (Cancel r)
  then show ?thesis using q st by (auto simp: removed_quiet_def split: if_splits)
qed


section \<open>Properties\<close>

text \<open>C5: at most one run of an agent is in flight.  In every interleaving of Run,
  Start, Stop and Remove callers, two threads that are both inside a run (between
  beginRun and the unlock of endRun) are the same thread, the running flag is set
  exactly while there is such a thread, and the channel that Stop will wait on is the
  channel of that run.\<close>

theorem single_run:
  assumes "reachable s"
  shows "(act_tok s i \<noteq> None \<and> act_tok s j \<noteq> None \<longrightarrow> i = j) \<and>
    (l_running s \<longleftrightarrow> (\<exists>k. act_tok s k \<noteq> None)) \<and>
    (\<forall>r. act_tok s k = Some r \<longrightarrow> l_ran s = Some r \<and> l_cancel s = Some r)"
proof (intro conjI impI allI)
  assume "act_tok s i \<noteq> None \<and> act_tok s j \<noteq> None"
  then obtain x y where xy: "act_tok s i = Some x" "act_tok s j = Some y" by blast
  then have "x = y" using reachable_life(4) [OF assms, of i x] reachable_life(4) [OF assms, of j y] by simp
  then show "i = j" using xy act_hold_tok reachable_life(6) [OF assms, of i x j] by blast
next
  show "l_running s \<longleftrightarrow> (\<exists>k. act_tok s k \<noteq> None)"
    using reachable_life(2) [OF assms] reachable_life(3) [OF assms] reachable_life(4) [OF assms]
    by (metis not_None_eq)
next
  fix r assume "act_tok s k = Some r"
  then show "l_ran s = Some r" by (rule reachable_life(4) [OF assms])
  then show "l_cancel s = Some r" using reachable_life(1) [OF assms] by simp
qed

definition demo_serving :: lstate where
  "demo_serving = (case run_acts [Call 0 CallRun, Go 0 True, Go 0 True, Go 0 True, Go 0 True, Call 1 CallStop,
     Go 1 True] l_init of Some s \<Rightarrow> s | None \<Rightarrow> l_init)"

lemma demo_serving_acts:
  "run_acts [Call 0 CallRun, Go 0 True, Go 0 True, Go 0 True, Go 0 True, Call 1 CallStop, Go 1 True] l_init
     = Some demo_serving"
  by code_simp

lemma demo_serving_reachable: "reachable demo_serving"
  by (rule run_acts_reachable [OF reach_init demo_serving_acts])

theorem single_run_witness:
  "act_tok demo_serving 0 = Some 0 \<and> l_running demo_serving \<and> l_ran demo_serving = Some 0"
proof -
  have a: "act_tok demo_serving 0 = Some 0" by code_simp
  then have "l_running demo_serving \<longleftrightarrow> (\<exists>k. act_tok demo_serving k \<noteq> None)"
    using single_run [OF demo_serving_reachable, of 0 0 0] by blast
  then show ?thesis using a single_run [OF demo_serving_reachable, of 0 0 0] by auto
qed




definition demo_removed :: lstate where
  "demo_removed = (case run_acts [Call 0 CallRemove, Go 0 True, Go 0 True, Go 0 True, Go 0 True] l_init of
     Some s \<Rightarrow> s | None \<Rightarrow> l_init)"


text \<open>A run that nobody interferes with settles the status.  A Run called on an agent
  that is not running goes through Pulling, materialises, and after its process ends
  leaves the agent not running, the channel closed and the status Stopped; when
  materialising fails the status is Failed, unless the failure is that of a cancelled
  run, which settles to Stopped.\<close>

theorem run_settles:
  assumes "\<not> l_running s" and "fmlookup (l_threads s) i = None" and "l_next s \<notin> set (l_cancelled s)"
  shows "\<exists>s1 s2. run_acts [Call i CallRun, Go i True, Go i True] s = Some s1 \<and>
      l_running s1 \<and> l_status s1 = StatusPulling \<and>
      run_acts ((if cancelled then [Cancel (l_next s)] else []) @ [Go i ok] @
        (if l_initialized s \<or> ok then [Go i True, Go i True] else []) @ [Go i True, Go i True, Go i True]) s1
        = Some s2 \<and>
      \<not> l_running s2 \<and> l_next s \<in> set (l_closed s2) \<and> fmlookup (l_threads s2) i = Some (Returned True) \<and>
      l_status s2 = (if l_initialized s \<or> ok \<or> cancelled then StatusStopped else StatusFailed)"
  using assms
  by (simp add: beginRun_def Prepare_def initialize_def endRun_unlock_def endRun_settle_def endRun_close_def at_def)

theorem run_settles_witness:
  "\<exists>s1 s2. run_acts [Call 7 CallRun, Go 7 True, Go 7 True] l_init = Some s1 \<and>
      run_acts [Go 7 False, Go 7 True, Go 7 True, Go 7 True] s1 = Some s2 \<and> l_status s2 = StatusFailed"
proof -
  have "\<not> l_running l_init" "fmlookup (l_threads l_init) 7 = None" "l_next l_init \<notin> set (l_cancelled l_init)"
    "\<not> l_initialized l_init" by (simp_all add: l_init_def)
  then show ?thesis using run_settles [of l_init 7 False False] by (simp del: run_acts.simps) blast
qed

text \<open>Two interleavings break the promises of the comments in agent.go.  First, endRun
  releases the lock before it settles the status, so a Run that begins in between is
  overtaken by the settle of its predecessor: the new run serves while the status says
  Stopped, a status on which Start does not refuse.  Second, Start reads the status
  before it runs, so a Remove that completes in between does not keep it from running:
  the workspace is deleted and the status goes from Removed back to Pulling.\<close>

definition race_settle :: "act list" where
  "race_settle =
    [Call 0 CallRun, Go 0 True, Go 0 True, Go 0 True, Go 0 True, Go 0 True, Go 0 True,
     Call 1 CallRun, Go 1 True, Go 1 True, Go 1 True, Go 1 True, Go 0 True]"

definition race_remove :: "act list" where
  "race_remove =
    [Call 0 CallRun, Go 0 True, Go 0 True, Go 0 True, Go 0 True, Go 0 True, Go 0 True, Go 0 True, Go 0 True,
     Call 1 CallStart, Go 1 True, Go 1 True,
     Call 2 CallRemove, Go 2 True, Go 2 True, Go 2 True, Go 2 True,
     Go 1 True, Go 1 True]"

theorem lifecycle_races:
  "(\<exists>s. reachable s \<and> fmlookup (l_threads s) 1 = Some (RunServe 1) \<and> l_running s \<and>
        l_status s = StatusStopped \<and> Start_check s) \<and>
   (\<exists>s. reachable s \<and> l_gone s \<and> fmlookup (l_threads s) 2 = Some (Returned True) \<and> l_running s \<and>
        l_status s = StatusPulling)"
proof -
  have a: "(case run_acts race_settle l_init of None \<Rightarrow> False | Some s \<Rightarrow>
      fmlookup (l_threads s) 1 = Some (RunServe 1) \<and> l_running s \<and> l_status s = StatusStopped \<and> Start_check s)"
    by code_simp
  have b: "(case run_acts race_remove l_init of None \<Rightarrow> False | Some s \<Rightarrow>
      l_gone s \<and> fmlookup (l_threads s) 2 = Some (Returned True) \<and> l_running s \<and> l_status s = StatusPulling)"
    by code_simp
  show ?thesis
    using a b run_acts_reachable [OF reach_init, of race_settle] run_acts_reachable [OF reach_init, of race_remove]
    by (auto split: option.splits)
qed

end
