(* ===== verification/System_Run.thy ===== *)
theory System_Run
  imports System_Agent Lifecycle
begin

text \<open>
  The methods of a system agent from end to end (\<^verbatim>\<open>executor/system/agent.go\<close>): Prepare, Run, Start, Stop and
  Remove over the agent with its tracker, its tree and its process.  Lifecycle interleaves these methods but abstracts from
  what they do; here each one runs on its own, with everything it does.  Sequences of calls are
  shown to be executions of the interleaving model, so that what is proved there holds for the agent.
\<close>


section \<open>State\<close>

text \<open>\<open>lv_running\<close> stands for the fields \<^verbatim>\<open>running\<close>, \<^verbatim>\<open>cancel\<close> and \<^verbatim>\<open>ran\<close>, which are set and cleared together;
  \<open>lv_closed\<close> tells whether the log file was closed, \<open>lv_gone\<close> whether the tree was deleted.\<close>

record 's live =
  lv_agent :: "'s sagent"
  lv_ws :: "'s wstate"
  lv_running :: bool
  lv_cancelled :: bool
  lv_closed :: bool
  lv_gone :: bool
  lv_events :: "proc_event list"

text \<open>The surroundings of a call: the library, whether its context is done by the time the materialisation
  returns, and whether the tree can be deleted.\<close>

record senv =
  se_lib :: lib
  se_cancelled :: bool
  se_removeall :: "string option"

datatype serr =
    SErrAlreadyRunning
  | SErrRemoved
  | SErrMaterialize werr
  | SErrModel string
  | SErrProcess string
  | SErrRemoveAll string
  | SErrCtx
  | SNilRuntime
  | SPanic tpanic

type_synonym ('s, 'a) lm = "('s live, serr, 'a) sm"

definition live_status :: "(tracker \<Rightarrow> (tpanic, tracker) res) \<Rightarrow> ('s, unit) lm" where
  "live_status f l =
    (case f (sa_status (lv_agent l)) of
       Inl p \<Rightarrow> (Inl (SPanic p), l)
     | Inr t \<Rightarrow> (Inr (), l\<lparr>lv_agent := (lv_agent l)\<lparr>sa_status := t\<rparr>\<rparr>))"

definition system_fail :: "serr \<Rightarrow> ('s, 'a) lm" where
  "system_fail e l = (Inl e, l)"

definition new_live :: "'s sagent \<Rightarrow> 's wstate \<Rightarrow> 's live" where
  "new_live a ws =
    \<lparr>lv_agent = a, lv_ws = ws, lv_running = False, lv_cancelled = False, lv_closed = False, lv_gone = False, lv_events = []\<rparr>"


section \<open>Methods\<close>

definition system_Prepare :: "senv \<Rightarrow> ('s, unit) lm" where
  "system_Prepare E l =
    (case system_initialize (lv_agent l) (lv_ws l) of
       (Inr _, a, ws) \<Rightarrow> (Inr (), l\<lparr>lv_agent := a, lv_ws := ws\<rparr>)
     | (Inl e, a, ws) \<Rightarrow>
         sm_then (if lv_cancelled l \<or> se_cancelled E then sm_return () else live_status (SetFailure (failureReasonFor e)))
           (system_fail (SErrMaterialize e)) (l\<lparr>lv_agent := a, lv_ws := ws\<rparr>))"

definition system_beginRun :: "('s, unit) lm" where
  "system_beginRun l =
    (if lv_running l then (Inl SErrAlreadyRunning, l) else (Inr (), l\<lparr>lv_running := True, lv_cancelled := False\<rparr>))"

definition system_endRun :: "('s, unit) lm" where
  "system_endRun l =
    live_status (\<lambda>t. map_sum (\<lambda>p. p) fst (SetUnless StatusStopped [StatusFailed, StatusRemoving, StatusRemoved] t))
      (l\<lparr>lv_running := False, lv_cancelled := False\<rparr>)"

definition system_serve :: "senv \<Rightarrow> ('s, unit) lm" where
  "system_serve E l =
    (case system_command (se_lib E) (lv_agent l) of
       None \<Rightarrow> (Inl SNilRuntime, l)
     | Some cmd \<Rightarrow>
         (let (err, es) = serve (sa_spawner (lv_agent l)) cmd
          in (case err of None \<Rightarrow> Inr () | Some e \<Rightarrow> Inl (SErrProcess e), l\<lparr>lv_events := lv_events l @ es\<rparr>)))"

definition system_run_body :: "senv \<Rightarrow> ('s, unit) lm" where
  "system_run_body E =
    sm_then (live_status (Set StatusPulling))
    (sm_then (system_Prepare E)
    (sm_then (live_status (Set StatusStarting))
             (system_serve E)))"

text \<open>\<^verbatim>\<open>endRun\<close> is deferred: it runs after the body however that ended.\<close>

definition system_Run :: "senv \<Rightarrow> ('s, unit) lm" where
  "system_Run E =
    sm_then system_beginRun (\<lambda>l.
      let (r, l1) = system_run_body E l
      in case system_endRun l1 of (Inl p, l2) \<Rightarrow> (Inl p, l2) | (Inr _, l2) \<Rightarrow> (r, l2))"

definition system_Start :: "senv \<Rightarrow> ('s, unit) lm" where
  "system_Start E l =
    (case Get (sa_status (lv_agent l)) of
       StatusRemoving \<Rightarrow> (Inl SErrRemoved, l)
     | StatusRemoved \<Rightarrow> (Inl SErrRemoved, l)
     | StatusPulling \<Rightarrow> (Inl SErrAlreadyRunning, l)
     | StatusStarting \<Rightarrow> (Inl SErrAlreadyRunning, l)
     | StatusReady \<Rightarrow> (Inl SErrAlreadyRunning, l)
     | StatusWorking \<Rightarrow> (Inl SErrAlreadyRunning, l)
     | _ \<Rightarrow>
         (case reresolveCredentials (lv_agent l) of
            (Inl e, a) \<Rightarrow> sm_then (live_status (SetFailure FailureModel)) (system_fail (SErrModel e)) (l\<lparr>lv_agent := a\<rparr>)
          | (Inr _, a) \<Rightarrow> system_Run E (l\<lparr>lv_agent := a\<rparr>)))"

text \<open>\<open>await\<close> is what the other goroutine does until it closes \<^verbatim>\<open>ran\<close>; false when the context of Stop is done
  first.\<close>

definition system_Stop :: "('s live \<Rightarrow> bool \<times> 's live) \<Rightarrow> ('s, unit) lm" where
  "system_Stop await l =
    (if \<not> lv_running l then (Inr (), l)
     else case await (l\<lparr>lv_cancelled := True\<rparr>) of (closed, l1) \<Rightarrow> (if closed then Inr () else Inl SErrCtx, l1))"

definition close_log :: "('s, unit) lm" where
  "close_log l = (Inr (), case sa_closer (lv_agent l) of None \<Rightarrow> l | Some _ \<Rightarrow> l\<lparr>lv_closed := True\<rparr>)"

text \<open>Every agent a provider creates has a file system.\<close>

definition delete_tree :: "senv \<Rightarrow> ('s, unit) lm" where
  "delete_tree E l = (case se_removeall E of None \<Rightarrow> (Inr (), l\<lparr>lv_gone := True\<rparr>) | Some e \<Rightarrow> (Inl (SErrRemoveAll e), l))"

definition system_Remove :: "senv \<Rightarrow> ('s live \<Rightarrow> bool \<times> 's live) \<Rightarrow> ('s, unit) lm" where
  "system_Remove E await =
    sm_then (system_Stop await)
    (sm_then (live_status (Set StatusRemoving))
    (sm_then close_log
    (sm_then (delete_tree E)
             (live_status (Set StatusRemoved)))))"



section \<open>Outcomes\<close>

abbreviation live_tracker :: "'s live \<Rightarrow> tracker" where
  "live_tracker l \<equiv> sa_status (lv_agent l)"

lemma live_status_set:
  assumes "tracker_inv (live_tracker l)" "f = setLocked st reason"
  obtains t where "live_status f l = (Inr (), l\<lparr>lv_agent := (lv_agent l)\<lparr>sa_status := t\<rparr>\<rparr>)" "tracker_inv t" "Get t = st"
    "Failure t = (if st = StatusFailed then reason else FailureNone)"
proof -
  obtain t where t: "setLocked st reason (live_tracker l) = Inr t" using setLocked_ok [OF assms(1)] by blast
  then show ?thesis
    using setLocked_inv [OF assms(1) t] by (intro that [of t]) (simp_all add: live_status_def assms(2) Get_def Failure_def)
qed

lemma Set_locked: "Set st = setLocked st FailureNone" "SetFailure reason = setLocked StatusFailed reason"
  by (simp_all add: fun_eq_iff Set_def SetFailure_def)

lemma system_initialize_frame:
  assumes "system_initialize a s = (r, a', s')"
  shows "sa_status a' = sa_status a \<and> sa_spawner a' = sa_spawner a \<and> sa_closer a' = sa_closer a \<and>
    (case r of Inl e \<Rightarrow> \<not> sa_init a \<and> \<not> sa_init a' | Inr _ \<Rightarrow> sa_init a')"
proof (cases "sa_init a")
  case True
  then show ?thesis using assms by (auto simp: system_initialize_def)
next
  case False
  obtain q s1 where q: "materialize (sa_ws a) (sa_id a) (sa_addr a) (s\<lparr>w_mounts := sa_mounts a\<rparr>) = (q, s1)"
    by (cases "materialize (sa_ws a) (sa_id a) (sa_addr a) (s\<lparr>w_mounts := sa_mounts a\<rparr>)")
  have "system_initialize a s = (case q of Inl e \<Rightarrow> (Inl e, a\<lparr>sa_mounts := w_mounts s1\<rparr>, s1)
      | Inr rt \<Rightarrow> (Inr (), a\<lparr>sa_mounts := w_mounts s1, sa_rt := Some rt, sa_init := True\<rparr>, s1))"
    unfolding system_initialize_def q if_not_P [OF False] by (cases q) simp_all
  then show ?thesis using assms False by (cases q) auto
qed

text \<open>Preparing either fails, recording the reason unless the context is done, or leaves an initialised agent.\<close>

lemma system_Prepare_cases:
  assumes "system_Prepare E l = (r, l')" "tracker_inv (live_tracker l)"
  shows "tracker_inv (live_tracker l') \<and> lv_running l' = lv_running l \<and> lv_cancelled l' = lv_cancelled l \<and> lv_gone l' = lv_gone l \<and>
    lv_closed l' = lv_closed l \<and> lv_events l' = lv_events l \<and> sa_spawner (lv_agent l') = sa_spawner (lv_agent l) \<and>
    (case r of
       Inr _ \<Rightarrow> sa_init (lv_agent l') \<and> live_tracker l' = live_tracker l
     | Inl x \<Rightarrow> \<not> sa_init (lv_agent l) \<and> \<not> sa_init (lv_agent l') \<and>
         (\<exists>e. x = SErrMaterialize e \<and> fst (system_initialize (lv_agent l) (lv_ws l)) = Inl e \<and>
            (if lv_cancelled l \<or> se_cancelled E then live_tracker l' = live_tracker l
             else Get (live_tracker l') = StatusFailed \<and> Failure (live_tracker l') = failureReasonFor e)))"
proof -
  obtain q a ws where q: "system_initialize (lv_agent l) (lv_ws l) = (q, a, ws)"
    by (cases "system_initialize (lv_agent l) (lv_ws l)")
  note frame = system_initialize_frame [OF q]
  let ?l1 = "l\<lparr>lv_agent := a, lv_ws := ws\<rparr>"
  have inv: "tracker_inv (live_tracker ?l1)" using frame assms(2) by simp
  show ?thesis
  proof (cases q)
    case (Inr u)
    then have "r = Inr ()" "l' = ?l1" using assms(1) q by (simp_all add: system_Prepare_def)
    then show ?thesis using frame Inr inv by simp
  next
    case (Inl e)
    show ?thesis
    proof (cases "lv_cancelled l \<or> se_cancelled E")
      case True
      then have "r = Inl (SErrMaterialize e)" "l' = ?l1"
        using assms(1) q Inl by (auto simp: system_Prepare_def sm_then_def sm_bind_def sm_return_def system_fail_def)
      then show ?thesis using frame Inl inv True q by simp
    next
      case False
      obtain t where t: "live_status (SetFailure (failureReasonFor e)) ?l1 = (Inr (), ?l1\<lparr>lv_agent := (lv_agent ?l1)\<lparr>sa_status := t\<rparr>\<rparr>)"
        "tracker_inv t" "Get t = StatusFailed" "Failure t = failureReasonFor e"
        by (rule live_status_set [OF inv Set_locked(2) [of "failureReasonFor e"]]) simp
      have "r = Inl (SErrMaterialize e)" "l' = ?l1\<lparr>lv_agent := (lv_agent ?l1)\<lparr>sa_status := t\<rparr>\<rparr>"
        using assms(1) q Inl False t(1) by (auto simp: system_Prepare_def sm_then_def sm_bind_def system_fail_def)
      then show ?thesis using frame Inl t(2-4) False q by simp
    qed
  qed
qed

lemma system_serve_frame:
  assumes "system_serve E l = (r, l')"
  shows "lv_agent l' = lv_agent l \<and> lv_running l' = lv_running l \<and> lv_cancelled l' = lv_cancelled l \<and> lv_gone l' = lv_gone l \<and>
    lv_closed l' = lv_closed l \<and>
    (case system_command (se_lib E) (lv_agent l) of
       None \<Rightarrow> r = Inl SNilRuntime \<and> lv_events l' = lv_events l
     | Some cmd \<Rightarrow> lv_events l' = lv_events l @ snd (serve (sa_spawner (lv_agent l)) cmd) \<and>
         r = (case fst (serve (sa_spawner (lv_agent l)) cmd) of None \<Rightarrow> Inr () | Some e \<Rightarrow> Inl (SErrProcess e)))"
  using assms by (auto simp: system_serve_def Let_def split: option.splits prod.splits)

text \<open>What a run that was not refused leaves behind.\<close>

definition settled :: "senv \<Rightarrow> 's live \<Rightarrow> (serr, unit) res \<Rightarrow> 's live \<Rightarrow> bool" where
  "settled E l r l' \<longleftrightarrow>
    tracker_inv (live_tracker l') \<and> \<not> lv_running l' \<and> lv_gone l' = lv_gone l \<and> lv_closed l' = lv_closed l \<and>
    ((\<exists>e. r = Inl (SErrMaterialize e) \<and> fst (system_initialize (lv_agent l) (lv_ws l)) = Inl e \<and> \<not> sa_init (lv_agent l') \<and> lv_events l' = lv_events l \<and>
        (if se_cancelled E then Get (live_tracker l') = StatusStopped
         else Get (live_tracker l') = StatusFailed \<and> Failure (live_tracker l') = failureReasonFor e)) \<or>
     (sa_init (lv_agent l') \<and> Get (live_tracker l') = StatusStopped \<and>
        (case system_command (se_lib E) (lv_agent l') of
           None \<Rightarrow> r = Inl SNilRuntime \<and> lv_events l' = lv_events l
         | Some cmd \<Rightarrow> lv_events l' = lv_events l @ snd (serve (sa_spawner (lv_agent l)) cmd) \<and>
             r = (case fst (serve (sa_spawner (lv_agent l)) cmd) of None \<Rightarrow> Inr () | Some e \<Rightarrow> Inl (SErrProcess e)))))"

lemma system_initialize_status [simp]: "fst (system_initialize (a\<lparr>sa_status := t\<rparr>) s) = fst (system_initialize a s)"
proof (cases "sa_init a")
  case False
  obtain q s1 where "materialize (sa_ws a) (sa_id a) (sa_addr a) (s\<lparr>w_mounts := sa_mounts a\<rparr>) = (q, s1)"
    by (cases "materialize (sa_ws a) (sa_id a) (sa_addr a) (s\<lparr>w_mounts := sa_mounts a\<rparr>)")
  then show ?thesis using False unfolding system_initialize_def by (cases q) simp_all
qed (simp add: system_initialize_def)

lemma initialize_error: "fst (system_initialize a s) = Inl e \<Longrightarrow> \<not> sa_init a"
  by (auto simp: system_initialize_def)

lemma system_command_status [simp]: "system_command L (a\<lparr>sa_status := t\<rparr>) = system_command L a"
  by (simp add: system_command_def split: option.splits)

lemma system_endRun_cases:
  assumes "tracker_inv (live_tracker l)" "Get (live_tracker l) \<notin> {StatusRemoving, StatusRemoved}"
  obtains t where "system_endRun l = (Inr (), l\<lparr>lv_agent := (lv_agent l)\<lparr>sa_status := t\<rparr>, lv_running := False, lv_cancelled := False\<rparr>)"
    "tracker_inv t" "if Get (live_tracker l) = StatusFailed then t = live_tracker l else Get t = StatusStopped"
proof (cases "Get (live_tracker l) = StatusFailed")
  case True
  have "(l\<lparr>lv_running := False, lv_cancelled := False\<rparr>)\<lparr>lv_agent := lv_agent l\<rparr> = l\<lparr>lv_running := False, lv_cancelled := False\<rparr>" by simp
  then show ?thesis
    using True assms by (intro that [of "live_tracker l"]) (simp_all add: system_endRun_def live_status_def SetUnless_def Get_def)
next
  case False
  obtain t where t: "setLocked StatusStopped FailureNone (live_tracker l) = Inr t" using setLocked_ok [OF assms(1)] by blast
  show ?thesis
    using False assms t setLocked_inv [OF assms(1) t]
    by (intro that [of t]) (simp_all add: system_endRun_def live_status_def SetUnless_def Get_def)
qed

lemma system_run_body_cases:
  assumes "system_run_body E l = (r, l')" "tracker_inv (live_tracker l)" "\<not> lv_cancelled l"
  shows "tracker_inv (live_tracker l') \<and> lv_gone l' = lv_gone l \<and> lv_closed l' = lv_closed l \<and>
    ((\<exists>e. r = Inl (SErrMaterialize e) \<and> fst (system_initialize (lv_agent l) (lv_ws l)) = Inl e \<and> \<not> sa_init (lv_agent l') \<and> lv_events l' = lv_events l \<and>
        (if se_cancelled E then Get (live_tracker l') = StatusPulling
         else Get (live_tracker l') = StatusFailed \<and> Failure (live_tracker l') = failureReasonFor e)) \<or>
     (sa_init (lv_agent l') \<and> Get (live_tracker l') = StatusStarting \<and>
        (case system_command (se_lib E) (lv_agent l') of
           None \<Rightarrow> r = Inl SNilRuntime \<and> lv_events l' = lv_events l
         | Some cmd \<Rightarrow> lv_events l' = lv_events l @ snd (serve (sa_spawner (lv_agent l)) cmd) \<and>
             r = (case fst (serve (sa_spawner (lv_agent l)) cmd) of None \<Rightarrow> Inr () | Some e \<Rightarrow> Inl (SErrProcess e)))))"
proof -
  obtain t1 where p1: "live_status (Set StatusPulling) l = (Inr (), l\<lparr>lv_agent := (lv_agent l)\<lparr>sa_status := t1\<rparr>\<rparr>)"
    "tracker_inv t1" "Get t1 = StatusPulling" by (rule live_status_set [OF assms(2) Set_locked(1) [of StatusPulling]])
  let ?l1 = "l\<lparr>lv_agent := (lv_agent l)\<lparr>sa_status := t1\<rparr>\<rparr>"
  obtain q l2 where p2: "system_Prepare E ?l1 = (q, l2)" by (cases "system_Prepare E ?l1")
  have "tracker_inv (live_tracker ?l1)" using p1(2) by simp
  note prep = system_Prepare_cases [OF p2 this]
  show ?thesis
  proof (cases q)
    case (Inl x)
    then have "r = Inl x" "l' = l2" using assms(1) p1(1) p2 by (simp_all add: system_run_body_def sm_then_def sm_bind_def)
    then show ?thesis using prep Inl p1(3) assms(3) by auto
  next
    case (Inr u)
    have inv2: "tracker_inv (live_tracker l2)" using prep by simp
    obtain t3 where p3: "live_status (Set StatusStarting) l2 = (Inr (), l2\<lparr>lv_agent := (lv_agent l2)\<lparr>sa_status := t3\<rparr>\<rparr>)"
      "tracker_inv t3" "Get t3 = StatusStarting" by (rule live_status_set [OF inv2 Set_locked(1) [of StatusStarting]])
    let ?l3 = "l2\<lparr>lv_agent := (lv_agent l2)\<lparr>sa_status := t3\<rparr>\<rparr>"
    have p4: "system_serve E ?l3 = (r, l')"
      using assms(1) p1(1) p2 p3(1) Inr by (simp add: system_run_body_def sm_then_def sm_bind_def)
    note srv = system_serve_frame [OF p4]
    have "lv_agent l' = (lv_agent l2)\<lparr>sa_status := t3\<rparr>" using srv by simp
    then show ?thesis using srv prep Inr p3(2,3) by (auto split: option.splits)
  qed
qed

lemma system_Run_settled:
  assumes "system_Run E l = (r, l')" "tracker_inv (live_tracker l)" "\<not> lv_running l"
  shows "settled E l r l'"
proof -
  let ?l0 = "l\<lparr>lv_running := True, lv_cancelled := False\<rparr>"
  obtain r1 l1 where b: "system_run_body E ?l0 = (r1, l1)" by (cases "system_run_body E ?l0")
  have inv0: "tracker_inv (live_tracker ?l0)" "\<not> lv_cancelled ?l0" using assms(2) by simp_all
  note body = system_run_body_cases [OF b inv0]
  have inv1: "tracker_inv (live_tracker l1)" "Get (live_tracker l1) \<notin> {StatusRemoving, StatusRemoved}"
    using body by (auto split: if_splits)
  obtain t where t: "system_endRun l1 = (Inr (), l1\<lparr>lv_agent := (lv_agent l1)\<lparr>sa_status := t\<rparr>, lv_running := False, lv_cancelled := False\<rparr>)"
    "tracker_inv t" "if Get (live_tracker l1) = StatusFailed then t = live_tracker l1 else Get t = StatusStopped"
    by (rule system_endRun_cases [OF inv1])
  have r: "r = r1" "l' = l1\<lparr>lv_agent := (lv_agent l1)\<lparr>sa_status := t\<rparr>, lv_running := False, lv_cancelled := False\<rparr>"
    using assms(1,3) b t(1) by (auto simp: system_Run_def sm_then_def sm_bind_def system_beginRun_def)
  show ?thesis using body t(2,3) unfolding settled_def r by (auto split: option.splits if_splits)
qed



section \<open>Refinement of the interleaving model\<close>

text \<open>What the two models have in common.\<close>

definition live_view :: "'s live \<Rightarrow> bool \<times> bool \<times> Status \<times> bool" where
  "live_view l = (lv_running l, sa_init (lv_agent l), Get (live_tracker l), lv_gone l)"

definition life_view :: "lstate \<Rightarrow> bool \<times> bool \<times> Status \<times> bool" where
  "life_view s = (l_running s, l_initialized s, l_status s, l_gone s)"

text \<open>The steps of one thread, and of the caller of its run.\<close>

fun own_act :: "nat \<Rightarrow> lstate \<Rightarrow> act \<Rightarrow> bool" where
  "own_act i s (Go j ok) = (j = i)"
| "own_act i s (Cancel r) = (r = l_next s)"
| "own_act i s (Call j c) = False"

definition simulated :: "nat \<Rightarrow> pc \<Rightarrow> lstate \<Rightarrow> bool \<times> bool \<times> Status \<times> bool \<Rightarrow> bool" where
  "simulated i p s v \<longleftrightarrow>
    (\<exists>acts s' b. list_all (own_act i s) acts \<and> run_acts acts (at i p s) = Some s' \<and> life_view s' = v \<and>
       fmlookup (l_threads s') i = Some (Returned b))"

lemmas life_defs = at_def beginRun_def Prepare_def initialize_def endRun_unlock_def endRun_settle_def endRun_close_def
  life_view_def Start_check_def Stop_read_def

lemma run_simulated:
  assumes "\<not> l_running s" "l_next s \<notin> set (l_cancelled s)"
  shows "simulated i RunBegin s (False, True, StatusStopped, l_gone s)"
    and "\<not> l_initialized s \<Longrightarrow> simulated i RunBegin s (False, False, StatusFailed, l_gone s)"
    and "\<not> l_initialized s \<Longrightarrow> simulated i RunBegin s (False, False, StatusStopped, l_gone s)"
proof -
  show "simulated i RunBegin s (False, True, StatusStopped, l_gone s)"
    unfolding simulated_def
    by (rule exI [of _ "[Go i True, Go i True, Go i True, Go i True, Go i True, Go i True, Go i True, Go i True]"])
      (use assms in \<open>cases "l_initialized s"; auto simp: life_defs\<close>)
  show "simulated i RunBegin s (False, False, StatusFailed, l_gone s)" if "\<not> l_initialized s"
    unfolding simulated_def
    by (rule exI [of _ "[Go i True, Go i True, Go i False, Go i True, Go i True, Go i True]"])
      (use assms that in \<open>auto simp: life_defs\<close>)
  show "simulated i RunBegin s (False, False, StatusStopped, l_gone s)" if "\<not> l_initialized s"
    unfolding simulated_def
    by (rule exI [of _ "[Go i True, Go i True, Cancel (l_next s), Go i False, Go i True, Go i True, Go i True]"])
      (use assms that in \<open>auto simp: life_defs\<close>)
qed

lemma simulated_step:
  assumes "lstep (Go i ok) (at i p s) = Some (at i q s1)" "simulated i q s1 v" "l_next s1 = l_next s"
  shows "simulated i p s v"
proof -
  obtain acts s' b where a: "list_all (own_act i s1) acts" "run_acts acts (at i q s1) = Some s'" "life_view s' = v"
    "fmlookup (l_threads s') i = Some (Returned b)" using assms(2) by (auto simp: simulated_def)
  have "own_act i s1 x = own_act i s x" for x using assms(3) by (cases x) simp_all
  then have "own_act i s1 = own_act i s" by (rule ext)
  then show ?thesis unfolding simulated_def using a assms(1) by (intro exI [of _ "Go i ok # acts"]) simp
qed

lemma start_refused_simulated:
  "l_status s \<notin> {StatusStopped, StatusFailed} \<Longrightarrow> simulated i StartCheck s (life_view s)"
  unfolding simulated_def by (rule exI [of _ "[Go i True]"]) (auto simp: life_defs)

lemma start_model_simulated:
  "l_status s \<in> {StatusStopped, StatusFailed} \<Longrightarrow> \<not> l_running s \<Longrightarrow>
    simulated i StartCheck s (False, l_initialized s, StatusFailed, l_gone s)"
  unfolding simulated_def by (rule exI [of _ "[Go i True, Go i False]"]) (auto simp: life_defs)

lemma start_run_simulated:
  assumes "l_status s \<in> {StatusStopped, StatusFailed}" "simulated i RunBegin s v"
  shows "simulated i StartCheck s v"
proof -
  have "simulated i StartCredentials s v"
    by (rule simulated_step [of i True StartCredentials s RunBegin s, OF _ assms(2)]) (simp_all add: at_def)
  then show ?thesis
    by (rule simulated_step [of i True StartCheck s StartCredentials s, rotated]) (use assms(1) in \<open>auto simp: at_def Start_check_def\<close>)
qed

lemma stop_simulated:
  assumes "l_cancel s = None" "l_ran s = None"
  shows "simulated i (StopRead False) s (life_view s)"
    "simulated i (StopRead True) s (l_running s, l_initialized s, StatusRemoving, l_gone s)"
    "simulated i (StopRead True) s (l_running s, l_initialized s, StatusRemoved, True)"
proof -
  show "simulated i (StopRead False) s (life_view s)"
    unfolding simulated_def by (rule exI [of _ "[Go i True]"]) (use assms in \<open>auto simp: life_defs\<close>)
  show "simulated i (StopRead True) s (l_running s, l_initialized s, StatusRemoving, l_gone s)"
    unfolding simulated_def by (rule exI [of _ "[Go i True, Go i True, Go i False]"]) (use assms in \<open>auto simp: life_defs\<close>)
  show "simulated i (StopRead True) s (l_running s, l_initialized s, StatusRemoved, True)"
    unfolding simulated_def by (rule exI [of _ "[Go i True, Go i True, Go i True, Go i True]"]) (use assms in \<open>auto simp: life_defs\<close>)
qed


section \<open>Calls\<close>

text \<open>A call of an idle agent: there is no run for Stop to wait for.\<close>

fun system_call :: "senv \<Rightarrow> call \<Rightarrow> ('s, unit) lm" where
  "system_call E CallRun = system_Run E"
| "system_call E CallStart = system_Start E"
| "system_call E CallStop = system_Stop (\<lambda>l. (False, l))"
| "system_call E CallRemove = system_Remove E (\<lambda>l. (False, l))"

text \<open>Calls one after another, with their results.\<close>

primrec system_calls :: "(senv \<times> call) list \<Rightarrow> 's live \<Rightarrow> (serr, unit) res list \<times> 's live" where
  "system_calls [] l = ([], l)"
| "system_calls (ec # cs) l =
    (let (r, l1) = system_call (fst ec) (snd ec) l; (rs, l2) = system_calls cs l1 in (r # rs, l2))"

text \<open>Between calls: the tracker in order, no run, and a descriptor once initialised.\<close>

definition described :: "'s sagent \<Rightarrow> bool" where
  "described a \<longleftrightarrow> (sa_init a \<longrightarrow> sa_rt a \<noteq> None)"

definition idle :: "'s live \<Rightarrow> bool" where
  "idle l \<longleftrightarrow> tracker_inv (live_tracker l) \<and> \<not> lv_running l \<and> described (lv_agent l)"

text \<open>Results that are panics of the code.\<close>

fun sound_result :: "(serr, unit) res \<Rightarrow> bool" where
  "sound_result (Inl (SPanic p)) = False"
| "sound_result (Inl SNilRuntime) = False"
| "sound_result r = True"

lemma cancelled_old: "reachable s \<Longrightarrow> \<forall>r \<in> set (l_cancelled s). r < l_next s"
proof (induction rule: reachable.induct)
  case reach_init
  then show ?case by (simp add: l_init_def)
next
  case (reach_step s a s')
  have ran: "l_cancel s = Some r \<Longrightarrow> r < l_next s" for r
    using reachable_life(1,3,5) [OF reach_step.hyps(1)] act_hold_tok by metis
  show ?case
  proof (cases a)
    case (Call i c)
    then show ?thesis using reach_step by (auto split: if_splits)
  next
    case (Cancel r)
    then show ?thesis using reach_step by (auto split: if_splits)
  next
    case (Go i ok)
    then obtain p where "go ok i p s = Some s'" using reach_step.hyps(2) by (auto split: option.splits)
    then show ?thesis using reach_step.IH ran
      by (cases p) (auto simp: beginRun_def Prepare_def initialize_def endRun_unlock_def endRun_settle_def endRun_close_def Stop_read_def
          Let_def less_Suc_eq split: if_splits option.splits prod.splits bool.splits)
  qed
qed

lemma reresolve_frame:
  assumes "reresolveCredentials a = (r, a')"
  shows "sa_status a' = sa_status a" "sa_init a' = sa_init a" "described a \<Longrightarrow> described a'"
  using assms by (auto simp: reresolveCredentials_def described_def split: option.splits if_splits sum.splits prod.splits)

lemma initialize_described: "described a \<Longrightarrow> described (fst (snd (system_initialize a s)))"
proof (cases "sa_init a")
  case False
  obtain q s1 where "materialize (sa_ws a) (sa_id a) (sa_addr a) (s\<lparr>w_mounts := sa_mounts a\<rparr>) = (q, s1)"
    by (cases "materialize (sa_ws a) (sa_id a) (sa_addr a) (s\<lparr>w_mounts := sa_mounts a\<rparr>)")
  then show ?thesis using False unfolding system_initialize_def described_def if_not_P [OF False] by (cases q) simp_all
qed (simp add: system_initialize_def)

lemma live_status_described: "described (lv_agent l) \<Longrightarrow> described (lv_agent (snd (live_status f l)))"
  by (simp add: live_status_def described_def split: sum.splits)

lemma Prepare_described: "described (lv_agent l) \<Longrightarrow> described (lv_agent (snd (system_Prepare E l)))"
proof -
  assume d: "described (lv_agent l)"
  obtain q a ws where q: "system_initialize (lv_agent l) (lv_ws l) = (q, a, ws)"
    by (cases "system_initialize (lv_agent l) (lv_ws l)")
  have "described a" using initialize_described [OF d, of "lv_ws l"] q by simp
  then show ?thesis
    by (cases q) (auto simp: system_Prepare_def q sm_then_def sm_bind_def sm_return_def system_fail_def described_def live_status_def
        split: sum.splits prod.splits)
qed

lemma sm_then_described:
  assumes "\<And>l. described (lv_agent l) \<Longrightarrow> described (lv_agent (snd (f l)))"
    "\<And>l. described (lv_agent l) \<Longrightarrow> described (lv_agent (snd (g l)))" "described (lv_agent l)"
  shows "described (lv_agent (snd (sm_then f g l)))"
  using assms(1) [OF assms(3)] assms(2) by (auto simp: sm_then_def sm_bind_def split: prod.splits sum.splits)

lemma serve_described: "described (lv_agent l) \<Longrightarrow> described (lv_agent (snd (system_serve E l)))"
proof (cases "system_serve E l")
  case (Pair r l')
  assume "described (lv_agent l)"
  then show ?thesis unfolding Pair snd_conv conjunct1 [OF system_serve_frame [OF Pair]] .
qed

lemma Run_described: "described (lv_agent l) \<Longrightarrow> described (lv_agent (snd (system_Run E l)))"
  unfolding system_Run_def
proof (erule sm_then_described [rotated 2])
  fix l :: "'a live" assume d: "described (lv_agent l)"
  show "described (lv_agent (snd (system_beginRun l)))" using d by (simp add: system_beginRun_def)
  have "described (lv_agent (snd (system_run_body E l)))"
    unfolding system_run_body_def by (intro sm_then_described live_status_described Prepare_described serve_described d)
  then show "described (lv_agent (snd (let (r, l1) = system_run_body E l
      in case system_endRun l1 of (Inl p, l2) \<Rightarrow> (Inl p, l2) | (Inr _, l2) \<Rightarrow> (r, l2))))"
    by (auto simp: system_endRun_def live_status_def described_def split: prod.splits sum.splits)
qed

lemma settled_sound: "settled E l r l' \<Longrightarrow> described (lv_agent l') \<Longrightarrow> sound_result r"
  by (auto simp: settled_def described_def system_command_def split: option.splits)

text \<open>The state a lifecycle agent is in when no run is.\<close>

lemma reachable_idle:
  assumes "reachable s" "\<not> l_running s"
  shows "l_cancel s = None" "l_ran s = None" "l_next s \<notin> set (l_cancelled s)"
  using reachable_life(1,2) [OF assms(1)] assms(2) cancelled_old [OF assms(1)] by auto

lemma Run_simulated:
  assumes "reachable s" "idle l" "life_view s = live_view l" "system_Run E l = (r, l')"
  shows "idle l' \<and> sound_result r \<and> simulated i RunBegin s (live_view l')"
proof -
  have s: "settled E l r l'" using system_Run_settled [OF assms(4)] assms(2) by (simp add: idle_def)
  have d: "described (lv_agent l')" using Run_described [of l E] assms(2,4) by (simp add: idle_def)
  have nr: "\<not> l_running s" using assms(2,3) by (simp add: life_view_def live_view_def idle_def)
  have "simulated i RunBegin s (live_view l')"
    using s assms(3) run_simulated [OF nr reachable_idle(3) [OF assms(1) nr], of i]
    by (auto simp: settled_def live_view_def life_view_def dest: initialize_error split: if_splits)
  then show ?thesis using s d settled_sound [OF s d] by (simp add: idle_def settled_def)
qed

text \<open>Start either refuses, fails on the credentials, or runs.\<close>

lemma system_Start_cases:
  assumes "idle l" "system_Start E l = (r, l')"
  obtains "Get (live_tracker l) \<notin> {StatusStopped, StatusFailed}" "l' = l" "r = Inl SErrRemoved \<or> r = Inl SErrAlreadyRunning"
  | e where "Get (live_tracker l) \<in> {StatusStopped, StatusFailed}" "r = Inl (SErrModel e)" "idle l'"
      "live_view l' = (False, sa_init (lv_agent l), StatusFailed, lv_gone l)"
  | l1 where "Get (live_tracker l) \<in> {StatusStopped, StatusFailed}" "idle l1" "live_view l1 = live_view l" "system_Run E l1 = (r, l')"
proof (cases "Get (live_tracker l) \<in> {StatusStopped, StatusFailed}")
  case False
  have "l' = l" "r = Inl SErrRemoved \<or> r = Inl SErrAlreadyRunning"
    using assms(2) False by (cases "Get (live_tracker l)"; auto simp: system_Start_def)+
  then show ?thesis by (rule that(1) [OF False])
next
  case True
  obtain q a where q: "reresolveCredentials (lv_agent l) = (q, a)" by (cases "reresolveCredentials (lv_agent l)")
  let ?l1 = "l\<lparr>lv_agent := a\<rparr>"
  have i1: "idle ?l1" "live_view ?l1 = live_view l" "sa_init a = sa_init (lv_agent l)"
    using reresolve_frame [OF q] assms(1) by (simp_all add: idle_def live_view_def)
  show ?thesis
  proof (cases q)
    case (Inr u)
    then have "system_Run E ?l1 = (r, l')" using assms(2) True q by (auto simp: system_Start_def)
    then show ?thesis by (rule that(3) [OF True i1(1,2)])
  next
    case (Inl e)
    have "tracker_inv (live_tracker ?l1)" using i1(1) by (simp add: idle_def)
    then obtain t where t: "live_status (SetFailure FailureModel) ?l1 = (Inr (), ?l1\<lparr>lv_agent := (lv_agent ?l1)\<lparr>sa_status := t\<rparr>\<rparr>)"
      "tracker_inv t" "Get t = StatusFailed" by (rule live_status_set [OF _ Set_locked(2) [of FailureModel]])
    have r: "r = Inl (SErrModel e)" and l': "l' = ?l1\<lparr>lv_agent := (lv_agent ?l1)\<lparr>sa_status := t\<rparr>\<rparr>"
      using assms(2) True q Inl t(1) by (auto simp: system_Start_def sm_then_def sm_bind_def system_fail_def)
    have "idle l'" "live_view l' = (False, sa_init (lv_agent l), StatusFailed, lv_gone l)"
      using i1(1,3) t(2,3) by (simp_all add: l' idle_def live_view_def described_def)
    then show ?thesis by (rule that(2) [OF True r])
  qed
qed

lemma Start_simulated:
  assumes "reachable s" "idle l" "life_view s = live_view l" "system_Start E l = (r, l')"
  shows "idle l' \<and> sound_result r \<and> simulated i StartCheck s (live_view l')"
  using assms(2,4)
proof (cases rule: system_Start_cases)
  case 1
  then show ?thesis using start_refused_simulated [of s i] assms(2,3) by (auto simp: live_view_def life_view_def)
next
  case (2 e)
  then have "l_status s \<in> {StatusStopped, StatusFailed}" "\<not> l_running s"
    using assms(2,3) by (simp_all add: life_view_def live_view_def idle_def)
  from start_model_simulated [OF this, of i] show ?thesis using 2 assms(3) by (auto simp: life_view_def live_view_def)
next
  case (3 l1)
  then have "l_status s \<in> {StatusStopped, StatusFailed}" using assms(3) by (simp add: life_view_def live_view_def)
  then show ?thesis using Run_simulated [OF assms(1) 3(2) _ 3(4), of i] 3(3) assms(3) start_run_simulated by auto
qed

text \<open>Remove of an idle agent.\<close>

lemma system_Remove_cases:
  assumes "idle l" "system_Remove E await l = (r, l')"
  shows "idle l' \<and>
    (r = Inr () \<and> live_view l' = (False, sa_init (lv_agent l), StatusRemoved, True) \<or>
     (\<exists>e. r = Inl (SErrRemoveAll e) \<and> live_view l' = (False, sa_init (lv_agent l), StatusRemoving, lv_gone l)))"
proof -
  have nr: "\<not> lv_running l" and inv: "tracker_inv (live_tracker l)" and d: "described (lv_agent l)"
    using assms(1) by (simp_all add: idle_def)
  obtain t where t: "live_status (Set StatusRemoving) l = (Inr (), l\<lparr>lv_agent := (lv_agent l)\<lparr>sa_status := t\<rparr>\<rparr>)"
    "tracker_inv t" "Get t = StatusRemoving" by (rule live_status_set [OF inv Set_locked(1) [of StatusRemoving]])
  obtain l1 where l1: "close_log (l\<lparr>lv_agent := (lv_agent l)\<lparr>sa_status := t\<rparr>\<rparr>) = (Inr (), l1)"
    "lv_agent l1 = (lv_agent l)\<lparr>sa_status := t\<rparr>" "lv_running l1 = lv_running l" "lv_gone l1 = lv_gone l"
    by (simp add: close_log_def split: option.splits)
  show ?thesis
  proof (cases "se_removeall E")
    case (Some e)
    then have "r = Inl (SErrRemoveAll e)" "l' = l1"
      using assms(2) nr t(1) l1(1) by (simp_all add: system_Remove_def system_Stop_def delete_tree_def sm_then_def sm_bind_def)
    then show ?thesis using l1 t(2,3) nr d by (simp add: idle_def live_view_def described_def)
  next
    case None
    have inv2: "tracker_inv (live_tracker (l1\<lparr>lv_gone := True\<rparr>))" using l1(2) t(2) by simp
    obtain u where u: "live_status (Set StatusRemoved) (l1\<lparr>lv_gone := True\<rparr>) =
        (Inr (), (l1\<lparr>lv_gone := True\<rparr>)\<lparr>lv_agent := (lv_agent (l1\<lparr>lv_gone := True\<rparr>))\<lparr>sa_status := u\<rparr>\<rparr>)"
      "tracker_inv u" "Get u = StatusRemoved" by (rule live_status_set [OF inv2 Set_locked(1) [of StatusRemoved]])
    have "r = Inr ()" "l' = (l1\<lparr>lv_gone := True\<rparr>)\<lparr>lv_agent := (lv_agent (l1\<lparr>lv_gone := True\<rparr>))\<lparr>sa_status := u\<rparr>\<rparr>"
      using assms(2) nr t(1) l1(1) u(1) None
      by (simp_all add: system_Remove_def system_Stop_def delete_tree_def sm_then_def sm_bind_def)
    then show ?thesis using l1 u(2,3) nr d by (simp add: idle_def live_view_def described_def)
  qed
qed

lemma Remove_simulated:
  assumes "reachable s" "idle l" "life_view s = live_view l" "system_Remove E await l = (r, l')"
  shows "idle l' \<and> sound_result r \<and> simulated i (StopRead True) s (live_view l')"
proof -
  have v: "\<not> l_running s" "l_initialized s = sa_init (lv_agent l)" "l_gone s = lv_gone l"
    using assms(2,3) by (simp_all add: idle_def life_view_def live_view_def)
  show ?thesis
    using system_Remove_cases [OF assms(2,4)] stop_simulated(2,3) [OF reachable_idle(1,2) [OF assms(1) v(1)], of i] v by auto
qed

lemma call_simulated:
  assumes "reachable s" "idle l" "life_view s = live_view l" "system_call E c l = (r, l')"
  shows "idle l' \<and> sound_result r \<and> simulated i (entry c) s (live_view l')"
proof (cases c)
  case CallStop
  have nr: "\<not> lv_running l" "\<not> l_running s" using assms(2,3) by (simp_all add: idle_def life_view_def live_view_def)
  have "r = Inr ()" "l' = l" using assms(4) nr(1) CallStop by (simp_all add: system_Stop_def)
  then show ?thesis
    using stop_simulated(1) [OF reachable_idle(1,2) [OF assms(1) nr(2)], of i] assms(2,3) CallStop by simp
qed (use assms(4) Run_simulated [OF assms(1-3)] Start_simulated [OF assms(1-3)] Remove_simulated [OF assms(1-3)] in simp_all)

text \<open>Executions of the interleaving model in which the calls are served one after another: each arrives in a new
  thread, which alone takes steps until it has returned; its caller may cancel the run it begins.\<close>

inductive serial :: "lstate \<Rightarrow> call list \<Rightarrow> lstate \<Rightarrow> bool" where
  serial_done: "serial s [] s"
| serial_call: "fmlookup (l_threads s) i = None \<Longrightarrow> list_all (own_act i s) acts \<Longrightarrow> run_acts acts (at i (entry c) s) = Some s1 \<Longrightarrow>
    fmlookup (l_threads s1) i = Some (Returned b) \<Longrightarrow> serial s1 cs s' \<Longrightarrow> serial s (c # cs) s'"

lemma call_reachable:
  assumes "reachable s" "fmlookup (l_threads s) i = None" "run_acts acts (at i (entry c) s) = Some s'"
  shows "reachable s'"
proof -
  have "reachable (at i (entry c) s)" by (rule reach_step [OF assms(1), of "Call i c"]) (simp add: assms(2))
  then show ?thesis using run_acts_reachable [OF _ assms(3)] by blast
qed

lemma serial_reachable: "serial s cs s' \<Longrightarrow> reachable s \<Longrightarrow> reachable s'"
  by (induction rule: serial.induct) (auto dest: call_reachable)

lemma fresh_thread: "\<exists>i. fmlookup (l_threads s) i = None"
proof -
  have "fset (fmdom (l_threads s)) \<noteq> UNIV" by (metis finite_fset infinite_UNIV_nat)
  then show ?thesis by (auto simp: fmlookup_dom_iff)
qed

lemma calls_simulated:
  assumes "reachable s" "idle l" "life_view s = live_view l" "system_calls cs l = (rs, l')"
  shows "list_all sound_result rs \<and> length rs = length cs \<and> idle l' \<and> (\<exists>s'. serial s (map snd cs) s' \<and> life_view s' = live_view l')"
  using assms
proof (induction cs arbitrary: s l rs)
  case Nil
  then show ?case by (auto intro: serial_done)
next
  case (Cons ec cs)
  obtain r l1 where c: "system_call (fst ec) (snd ec) l = (r, l1)" by (cases "system_call (fst ec) (snd ec) l")
  obtain rs1 where rest: "system_calls cs l1 = (rs1, l')" "rs = r # rs1"
    using Cons.prems(4) c by (auto split: prod.splits)
  obtain i where i: "fmlookup (l_threads s) i = None" using fresh_thread by blast
  note step = call_simulated [OF Cons.prems(1-3) c, of i]
  then obtain acts s1 b where a: "list_all (own_act i s) acts" "run_acts acts (at i (entry (snd ec)) s) = Some s1"
    "life_view s1 = live_view l1" "fmlookup (l_threads s1) i = Some (Returned b)" by (auto simp: simulated_def)
  note ih = Cons.IH [OF call_reachable [OF Cons.prems(1) i a(2)] _ a(3) rest(1)]
  then obtain s' where "serial s1 (map snd cs) s'" "life_view s' = live_view l'" using step by blast
  then have "\<exists>s'. serial s (map snd (ec # cs)) s' \<and> life_view s' = live_view l'" using serial_call [OF i a(1,2,4)] by auto
  then show ?case using ih step rest(2) by simp
qed

lemma new_live_view: "life_view l_init = live_view (new_live (NewAgent os ident root ws0 opts) ws)"
  if "list_all plain_option opts"
  using NewAgent_plain [OF that, of os ident root ws0]
  by (simp add: life_view_def live_view_def l_init_def new_live_def Get_def NewStatusTracker_def)


section \<open>Properties\<close>

text \<open>C6: a system agent used by one caller behaves like the lifecycle that is proved safe under concurrency.  Take a
  new agent, built with any of the package's options, and any sequence of calls of Run, Start, Stop and Remove, each with
  its own outcome of pulling, resolving, spawning and deleting.  No call panics or dereferences a nil descriptor, no run is
  left behind, and the interleaving model, serving the same calls one after another, can reach a state
  with the same status, the same initialisation and the same state of the tree.\<close>

theorem system_calls_refine_lifecycle:
  assumes "list_all plain_option opts"
    and "system_calls cs (new_live (NewAgent os ident root ws0 opts) ws) = (rs, l')"
  shows "list_all sound_result rs \<and> length rs = length cs \<and> idle l' \<and>
    (\<exists>s. reachable s \<and> serial l_init (map snd cs) s \<and> life_view s = live_view l')"
proof -
  let ?a = "NewAgent os ident root ws0 opts"
  have a: "sa_status ?a = NewStatusTracker" "\<not> sa_init ?a" using NewAgent_plain [OF assms(1), of os ident root ws0] by simp_all
  have "idle (new_live ?a ws)" using a by (simp add: idle_def described_def new_live_def NewStatusTracker_inv)
  from calls_simulated [OF reach_init this new_live_view [OF assms(1)] assms(2)]
  show ?thesis using serial_reachable [OF _ reach_init] by blast
qed

definition demo_spawner :: spawner where
  "demo_spawner = \<lparr>sp_start = (\<lambda>_. None), sp_end = (\<lambda>_. Forced (Some ''killed''))\<rparr>"

definition demo_senv :: senv where
  "demo_senv = \<lparr>se_lib = ascii_lib, se_cancelled = False, se_removeall = None\<rparr>"

definition demo_live :: "unit live" where
  "demo_live = new_live (NewAgent demo_spawner ''id'' ''/a/id'' (demo_workspace ''d.csv'') [WithAddr ''addr'']) demo_state"

theorem system_calls_refine_lifecycle_witness:
  "\<exists>l'. system_calls [(demo_senv, CallStop), (demo_senv, CallRemove), (demo_senv, CallStart)] demo_live =
      ([Inr (), Inr (), Inl SErrRemoved], l') \<and> Get (live_tracker l') = StatusRemoved \<and>
    (\<exists>s. reachable s \<and> serial l_init [CallStop, CallRemove, CallStart] s \<and> l_status s = StatusRemoved \<and> l_gone s)"
proof -
  let ?cs = "[(demo_senv, CallStop), (demo_senv, CallRemove), (demo_senv, CallStart)]"
  obtain rs l' where c: "system_calls ?cs demo_live = (rs, l')" by (cases "system_calls ?cs demo_live")
  have p: "list_all plain_option [WithAddr ''addr'' :: unit AgentOption]" by (simp add: plain_options)
  have v: "rs = [Inr (), Inr (), Inl SErrRemoved]" "Get (live_tracker l') = StatusRemoved" "lv_gone l'"
    using c by (auto simp: demo_live_def new_live_def NewAgent_def WithAddr_def demo_senv_def system_Remove_def system_Stop_def
        system_Start_def sm_then_def sm_bind_def close_log_def delete_tree_def live_status_def Set_def setLocked_ok NewStatusTracker_inv
        setLocked_def NewStatusTracker_def Get_def broadcast_def)
  obtain s where "reachable s" "serial l_init (map snd ?cs) s" "life_view s = live_view l'"
    using system_calls_refine_lifecycle [OF p c [unfolded demo_live_def]] by blast
  moreover have "l_status s = StatusRemoved \<and> l_gone s"
    using \<open>life_view s = live_view l'\<close> v(2,3) by (simp add: life_view_def live_view_def)
  ultimately show ?thesis using c v by (intro exI [of _ l']) auto
qed

text \<open>C15: what a run leaves behind.  Run called on an agent without one ends with no run and with the tracker in order.
  Either materialising failed: then no process was started, the agent is still to be materialised by the next call, and
  the status is Failed with the reason of the error, or Stopped if the context was done.  Or the agent is initialised
  and the status Stopped: the process of the agent's own command was asked to start, and if it started it was waited
  for, last and once, and killed only after it was interrupted; Run returns its error.\<close>

theorem system_run_settles:
  assumes "idle l" and "system_Run E l = (r, l')"
  shows "idle l' \<and>
    ((\<exists>e. r = Inl (SErrMaterialize e) \<and> fst (system_initialize (lv_agent l) (lv_ws l)) = Inl e \<and> \<not> sa_init (lv_agent l') \<and> lv_events l' = lv_events l \<and>
        (if se_cancelled E then Get (live_tracker l') = StatusStopped
         else Get (live_tracker l') = StatusFailed \<and> Failure (live_tracker l') = failureReasonFor e)) \<or>
     (sa_init (lv_agent l') \<and> Get (live_tracker l') = StatusStopped \<and>
      (\<exists>cmd. system_command (se_lib E) (lv_agent l') = Some cmd \<and>
         (case sp_start (sa_spawner (lv_agent l)) cmd of
            Some e \<Rightarrow> r = Inl (SErrProcess e) \<and> lv_events l' = lv_events l @ [ProcStart cmd]
          | None \<Rightarrow>
              (\<exists>mid err. lv_events l' = lv_events l @ ProcStart cmd # mid @ [ProcWaited] \<and>
                 mid \<in> {[], [ProcInterrupt], [ProcInterrupt, ProcKill]} \<and>
                 sp_end (sa_spawner (lv_agent l)) cmd \<in> {Exits err, Interrupted err, Forced err} \<and>
                 r = (case err of None \<Rightarrow> Inr () | Some e \<Rightarrow> Inl (SErrProcess e)))))))"
proof -
  have s: "settled E l r l'" using system_Run_settled [OF assms(2)] assms(1) by (simp add: idle_def)
  have d: "described (lv_agent l')" using Run_described [of l E] assms by (simp add: idle_def)
  have i: "idle l'" using s d by (simp add: idle_def settled_def)
  show ?thesis
  proof (cases "sa_init (lv_agent l')")
    case False
    then show ?thesis using s i by (auto simp: settled_def)
  next
    case True
    obtain cmd where cmd: "system_command (se_lib E) (lv_agent l') = Some cmd"
      using d True by (auto simp: described_def system_command_def)
    obtain err es where v: "serve (sa_spawner (lv_agent l)) cmd = (err, es)" by (cases "serve (sa_spawner (lv_agent l)) cmd")
    have e: "lv_events l' = lv_events l @ es" "r = (case err of None \<Rightarrow> Inr () | Some e \<Rightarrow> Inl (SErrProcess e))"
      "Get (live_tracker l') = StatusStopped" using s True cmd v by (simp_all add: settled_def)
    show ?thesis
    proof (cases "sp_start (sa_spawner (lv_agent l)) cmd")
      case (Some x)
      then have "err = Some x" "es = [ProcStart cmd]" using v serve_not_started [OF Some] by simp_all
      then show ?thesis using i True cmd e Some by simp
    next
      case None
      have "sp_end (sa_spawner (lv_agent l)) cmd \<in> {Exits err, Interrupted err, Forced err}"
        using v None by (auto simp: serve_def shutdown_def split: proc_end.splits)
      then show ?thesis using i True cmd e None serve_waits [OF v None] by auto
    qed
  qed
qed

text \<open>The example agent materialises, and its process has to be killed.\<close>

lemma demo_live_idle: "idle demo_live"
  by (simp add: idle_def described_def demo_live_def new_live_def NewAgent_def WithAddr_def NewStatusTracker_inv)

lemma demo_live_initializes: "\<exists>rt. fst (system_initialize (lv_agent demo_live) (lv_ws demo_live)) = Inr rt"
proof -
  obtain rt s' where m: "materialize (demo_workspace ''d.csv'') ''id'' ''addr'' demo_state = (Inr rt, s')" using demo_materializes by blast
  have "demo_state\<lparr>w_mounts := []\<rparr> = demo_state" by (simp add: demo_state_def)
  then show ?thesis by (simp add: demo_live_def new_live_def NewAgent_def WithAddr_def system_initialize_def m)
qed

theorem system_run_settles_witness:
  "\<exists>cmd mid l'. system_Run demo_senv demo_live = (Inl (SErrProcess ''killed''), l') \<and> sa_init (lv_agent l') \<and>
     Get (live_tracker l') = StatusStopped \<and> lv_events l' = ProcStart cmd # mid @ [ProcWaited]"
proof -
  obtain r l' where r: "system_Run demo_senv demo_live = (r, l')" by (cases "system_Run demo_senv demo_live")
  have sp: "sa_spawner (lv_agent demo_live) = demo_spawner" "lv_events demo_live = []"
    by (simp_all add: demo_live_def new_live_def NewAgent_def WithAddr_def)
  have "sp_start demo_spawner cmd = None" "sp_end demo_spawner cmd = Forced (Some ''killed'')" for cmd
    by (simp_all add: demo_spawner_def)
  then show ?thesis using system_run_settles [OF demo_live_idle r] demo_live_initializes r sp by auto
qed

end
