(* ===== verification/Docker_Agent.thy ===== *)
theory Docker_Agent
  imports Docker_Exec Docker_Auth Status
begin

text \<open>
  The lifecycle of a docker agent (\<^verbatim>\<open>executor/docker/agent.go\<close>): preparing the workspace, pulling
  the images, creating, starting and following the container, stopping and removing it, with the
  status every path leaves behind.  The moby client is a parameter.  Every call on it is recorded
  with its outcome; the moment of a cancellation is counted in calls.  A run is proved to settle,
  to have its images before its container, and removal to be final and repeatable.
\<close>


section \<open>State\<close>

datatype dcall =
    DMaterialize
  | DInspect string bool
  | DPull string string bool
  | DRemoveContainer string bool
  | DCreate containerSpec bool
  | DStart string bool
  | DStop string
  | DLogs string bool
  | DExit string
  | DRemoveAll bool

datatype derr =
    DErrAlreadyRunning
  | DErrRemoved
  | DErrMaterialize werr
  | DErrNoRuntime
  | DErrPull string string
  | DErrOrphan string string
  | DErrCreate string
  | DErrNoContainer
  | DErrStart string string
  | DErrLogs string
  | DErrExit int
  | DErrRemove string string
  | DErrRemoveAll string
  | DErrCtx
  | DPanic tpanic

text \<open>\<open>da_running\<close> stands for the three fields \<^verbatim>\<open>running\<close>, \<^verbatim>\<open>cancel\<close> and \<^verbatim>\<open>ran\<close>, which are set and cleared
  together; \<open>da_cancelled\<close> tells whether the context of the run in flight was cancelled by Stop.\<close>

record ('s, 'd) dagent =
  da_deps :: "'s agentDeps"
  da_status :: tracker
  da_cid :: string
  da_rt :: "Runtime option"
  da_init :: bool
  da_running :: bool
  da_cancelled :: bool
  da_ws :: "'s wstate"
  da_auth :: configCache
  da_world :: 'd
  da_calls :: "dcall list"

datatype remove_err = NotFoundErr | RemoveErr string

record ('d, 'p) moby =
  mo_inspect :: "string \<Rightarrow> 'd \<Rightarrow> bool \<times> 'd"
  mo_pull :: "string \<Rightarrow> string \<Rightarrow> 'd \<Rightarrow> string option \<times> 'd"
  mo_create :: "'p container_config \<Rightarrow> 'p host_config \<Rightarrow> string \<Rightarrow> 'd \<Rightarrow> (string, string) res \<times> 'd"
  mo_start :: "string \<Rightarrow> 'd \<Rightarrow> string option \<times> 'd"
  mo_stop :: "string \<Rightarrow> 'd \<Rightarrow> 'd"
  mo_remove :: "string \<Rightarrow> 'd \<Rightarrow> remove_err option \<times> 'd"
  mo_logs :: "string \<Rightarrow> 'd \<Rightarrow> string option \<times> 'd"
  mo_exit :: "string \<Rightarrow> 'd \<Rightarrow> (string, int option) res \<times> 'd"

text \<open>The surroundings of a call: client, credentials, library, the order in which maps are visited,
  when its context is cancelled, and whether the tree can be deleted.\<close>

record ('d, 'p) denv =
  dv_client :: "('d, 'p) moby"
  dv_auth :: auth_env
  dv_lib :: lib
  dv_port :: "string \<Rightarrow> 'p"
  dv_order :: "(string, string) gomap \<Rightarrow> string list"
  dv_cancel :: "nat option"
  dv_removeall :: "string option"

type_synonym ('s, 'd, 'a) dm = "(('s, 'd) dagent, derr, 'a) sm"

definition new_docker_agent :: "'s agentDeps \<Rightarrow> 's wstate \<Rightarrow> configCache \<Rightarrow> 'd \<Rightarrow> ('s, 'd) dagent" where
  "new_docker_agent deps ws cache w =
    \<lparr>da_deps = deps, da_status = NewStatusTracker, da_cid = [], da_rt = None, da_init = False, da_running = False,
     da_cancelled = False, da_ws = ws, da_auth = cache, da_world = w, da_calls = []\<rparr>"

definition SetAgentToken :: "string \<Rightarrow> ('s, 'd) dagent \<Rightarrow> ('s, 'd) dagent" where
  "SetAgentToken token s = s\<lparr>da_deps := (da_deps s)\<lparr>ad_token := token\<rparr>\<rparr>"

definition ctx_done :: "('d, 'p) denv \<Rightarrow> ('s, 'd) dagent \<Rightarrow> bool" where
  "ctx_done E s \<longleftrightarrow> da_cancelled s \<or> (case dv_cancel E of None \<Rightarrow> False | Some n \<Rightarrow> n \<le> length (da_calls s))"

text \<open>A call on the client, recorded with its outcome.\<close>

definition client_call :: "('a \<Rightarrow> dcall) \<Rightarrow> ('d \<Rightarrow> 'a \<times> 'd) \<Rightarrow> ('s, 'd, 'a) dm" where
  "client_call c op s = (let (r, w) = op (da_world s) in (Inr r, s\<lparr>da_world := w, da_calls := da_calls s @ [c r]\<rparr>))"

definition on_status :: "(tracker \<Rightarrow> (tpanic, tracker) res) \<Rightarrow> ('s, 'd, unit) dm" where
  "on_status f s = (case f (da_status s) of Inl p \<Rightarrow> (Inl (DPanic p), s) | Inr t \<Rightarrow> (Inr (), s\<lparr>da_status := t\<rparr>))"

definition docker_fail :: "derr \<Rightarrow> ('s, 'd, 'a) dm" where
  "docker_fail e s = (Inl e, s)"


section \<open>Preparing\<close>

definition failUnless :: "('d, 'p) denv \<Rightarrow> FailureReason \<Rightarrow> ('s, 'd, unit) dm" where
  "failUnless E reason s = (if ctx_done E s then (Inr (), s) else on_status (SetFailure reason) s)"

definition docker_Prepare :: "('d, 'p) denv \<Rightarrow> ('s, 'd, unit) dm" where
  "docker_Prepare E s =
    (if da_init s then (Inr (), s)
     else let d = da_deps s
          in case MaterializeContent (materializeOptions d) (ad_mounts d) (ad_id d) (Addr d) (da_ws s) of
               (Inl e, ws) \<Rightarrow>
                 sm_then (failUnless E (materializeFailureReason e)) (docker_fail (DErrMaterialize e))
                   (s\<lparr>da_ws := ws, da_calls := da_calls s @ [DMaterialize]\<rparr>)
             | (Inr rt, ws) \<Rightarrow>
                 (Inr (), s\<lparr>da_ws := ws, da_calls := da_calls s @ [DMaterialize], da_rt := Some rt, da_init := True\<rparr>))"


section \<open>Images\<close>

definition imageCached :: "('d, 'p) denv \<Rightarrow> string \<Rightarrow> ('s, 'd, bool) dm" where
  "imageCached E ref = client_call (DInspect ref) (mo_inspect (dv_client E) ref)"

definition pullImage :: "('d, 'p) denv \<Rightarrow> string \<Rightarrow> ('s, 'd, string option) dm" where
  "pullImage E ref s =
    (let (auth, cache) = resolveRegistryAuth (dv_auth E) ref (da_auth s)
     in client_call (\<lambda>e. DPull ref auth (e = None)) (mo_pull (dv_client E) ref auth) (s\<lparr>da_auth := cache\<rparr>))"

definition ensure_image :: "('d, 'p) denv \<Rightarrow> string \<Rightarrow> ('s, 'd, unit) dm" where
  "ensure_image E ref =
    sm_bind (imageCached E ref) (\<lambda>cached.
      if cached then sm_return ()
      else sm_bind (pullImage E ref) (\<lambda>e. case e of None \<Rightarrow> sm_return () | Some msg \<Rightarrow> docker_fail (DErrPull ref msg)))"

definition ensureImagesPulled :: "('d, 'p) denv \<Rightarrow> ('s, 'd, unit) dm" where
  "ensureImagesPulled E s =
    (case da_rt s of
       None \<Rightarrow> (Inl DErrNoRuntime, s)
     | Some rt \<Rightarrow> sm_then (sm_each (ensure_image E) (image_refs (da_deps s) rt)) (sm_return ()) s)"


section \<open>The container\<close>

definition removeOrphanContainer :: "('d, 'p) denv \<Rightarrow> string \<Rightarrow> ('s, 'd, unit) dm" where
  "removeOrphanContainer E name =
    sm_bind (client_call (\<lambda>e. DRemoveContainer name (e = None)) (mo_remove (dv_client E) name)) (\<lambda>e.
      case e of Some (RemoveErr msg) \<Rightarrow> docker_fail (DErrOrphan name msg) | _ \<Rightarrow> sm_return ())"

definition create_container :: "('d, 'p) denv \<Rightarrow> containerSpec \<Rightarrow> ('s, 'd, unit) dm" where
  "create_container E cs =
    sm_then (removeOrphanContainer E (cs_name cs))
      (sm_bind (client_call (\<lambda>r. DCreate cs (\<not> isl r))
         (mo_create (dv_client E) (buildConfig (dv_lib E) (dv_port E) cs)
            (buildHostConfig (dv_port E) (dv_order E (cs_bins cs)) cs) (cs_name cs)))
         (\<lambda>r t. case r of Inl e \<Rightarrow> (Inl (DErrCreate e), t) | Inr cid \<Rightarrow> (Inr (), t\<lparr>da_cid := cid\<rparr>)))"

definition create :: "('d, 'p) denv \<Rightarrow> ('s, 'd, unit) dm" where
  "create E s =
    (case da_rt s of
       None \<Rightarrow> (Inl DErrNoRuntime, s)
     | Some rt \<Rightarrow> create_container E (container_spec (da_deps s) rt) s)"

definition start :: "('d, 'p) denv \<Rightarrow> ('s, 'd, unit) dm" where
  "start E s =
    (if da_cid s = [] then (Inl DErrNoContainer, s)
     else sm_bind (client_call (\<lambda>e. DStart (da_cid s) (e = None)) (mo_start (dv_client E) (da_cid s)))
            (\<lambda>e. case e of None \<Rightarrow> sm_return () | Some msg \<Rightarrow> docker_fail (DErrStart (da_cid s) msg)) s)"

definition stopContainer :: "('d, 'p) denv \<Rightarrow> string \<Rightarrow> ('s, 'd, unit) dm" where
  "stopContainer E cid = client_call (\<lambda>_. DStop cid) (\<lambda>w. ((), mo_stop (dv_client E) cid w))"

definition exitCode :: "('d, 'p) denv \<Rightarrow> string \<Rightarrow> ('s, 'd, int) dm" where
  "exitCode E cid =
    sm_bind (client_call (\<lambda>_. DExit cid) (mo_exit (dv_client E) cid)) (\<lambda>r.
      sm_return (case r of Inr (Some code) \<Rightarrow> code | _ \<Rightarrow> 0))"

definition wait :: "('d, 'p) denv \<Rightarrow> ('s, 'd, unit) dm" where
  "wait E s =
    (let cid = da_cid s
     in if cid = [] then (Inr (), s)
        else sm_bind (client_call (\<lambda>e. DLogs cid (e = None)) (mo_logs (dv_client E) cid)) (\<lambda>e t.
               case e of
                 Some msg \<Rightarrow> (Inl (DErrLogs msg), t)
               | None \<Rightarrow>
                   if ctx_done E t then stopContainer E cid t
                   else sm_bind (exitCode E cid) (\<lambda>code. if code \<noteq> 0 then docker_fail (DErrExit code) else sm_return ()) t) s)"


section \<open>Run, Start, Stop, Remove\<close>

definition docker_beginRun :: "('s, 'd, unit) dm" where
  "docker_beginRun s =
    (if da_running s then (Inl DErrAlreadyRunning, s) else (Inr (), s\<lparr>da_running := True, da_cancelled := False\<rparr>))"

definition docker_endRun :: "('s, 'd, unit) dm" where
  "docker_endRun s =
    on_status (\<lambda>t. map_sum id fst (SetUnless StatusStopped [StatusFailed, StatusRemoving, StatusRemoved] t))
      (s\<lparr>da_running := False, da_cancelled := False\<rparr>)"

text \<open>A step whose error is recorded under a reason before it is returned.\<close>

definition or_fail :: "('d, 'p) denv \<Rightarrow> FailureReason \<Rightarrow> ('s, 'd, unit) dm \<Rightarrow> ('s, 'd, unit) dm" where
  "or_fail E reason m s =
    (case m s of
       (Inl e, s1) \<Rightarrow> sm_then (failUnless E reason) (docker_fail e) s1
     | (Inr u, s1) \<Rightarrow> (Inr u, s1))"

definition run_body :: "('d, 'p) denv \<Rightarrow> ('s, 'd, unit) dm" where
  "run_body E =
    sm_then (on_status (Set StatusPulling))
    (sm_then (docker_Prepare E)
    (sm_then (or_fail E FailurePull (ensureImagesPulled E))
    (sm_then (on_status (Set StatusStarting))
    (sm_then (or_fail E FailureInit (create E))
    (sm_then (or_fail E FailureInit (start E))
             (wait E))))))"

text \<open>\<^verbatim>\<open>endRun\<close> is deferred: it runs after the body however that ended.\<close>

definition docker_Run :: "('d, 'p) denv \<Rightarrow> ('s, 'd, unit) dm" where
  "docker_Run E =
    sm_then docker_beginRun (\<lambda>s.
      let (r, s1) = run_body E s
      in case docker_endRun s1 of (Inl p, s2) \<Rightarrow> (Inl p, s2) | (Inr _, s2) \<Rightarrow> (r, s2))"

definition docker_Start :: "('d, 'p) denv \<Rightarrow> ('s, 'd, unit) dm" where
  "docker_Start E s =
    (case Get (da_status s) of
       StatusStopped \<Rightarrow> docker_Run E s
     | StatusFailed \<Rightarrow> docker_Run E s
     | StatusRemoving \<Rightarrow> (Inl DErrRemoved, s)
     | StatusRemoved \<Rightarrow> (Inl DErrRemoved, s)
     | _ \<Rightarrow> (Inl DErrAlreadyRunning, s))"

text \<open>\<open>await\<close> is what the other goroutine does until it closes \<^verbatim>\<open>ran\<close>; false when the context of
  Stop is done first.\<close>

definition docker_Stop :: "('d, 'p) denv \<Rightarrow> (('s, 'd) dagent \<Rightarrow> bool \<times> ('s, 'd) dagent) \<Rightarrow> ('s, 'd, unit) dm" where
  "docker_Stop E await s =
    (let s1 = (if da_running s then s\<lparr>da_cancelled := True\<rparr> else s);
         s2 = (if da_cid s \<noteq> [] then snd (stopContainer E (da_cid s) s1) else s1)
     in if \<not> da_running s then (Inr (), s2)
        else case await s2 of (closed, s3) \<Rightarrow> (if closed then Inr () else Inl DErrCtx, s3))"

definition remove_container :: "('d, 'p) denv \<Rightarrow> ('s, 'd, unit) dm" where
  "remove_container E s =
    (if da_cid s = [] then (Inr (), s)
     else sm_bind (client_call (\<lambda>e. DRemoveContainer (da_cid s) (e = None)) (mo_remove (dv_client E) (da_cid s)))
            (\<lambda>e t. case e of
                     Some (RemoveErr msg) \<Rightarrow> (Inl (DErrRemove (da_cid s) msg), t)
                   | _ \<Rightarrow> (Inr (), t\<lparr>da_cid := []\<rparr>)) s)"

text \<open>Every agent a provider creates has a file system.\<close>

definition remove_tree :: "('d, 'p) denv \<Rightarrow> ('s, 'd, unit) dm" where
  "remove_tree E s =
    (case dv_removeall E of
       None \<Rightarrow> (Inr (), s\<lparr>da_calls := da_calls s @ [DRemoveAll True]\<rparr>)
     | Some msg \<Rightarrow> (Inl (DErrRemoveAll msg), s\<lparr>da_calls := da_calls s @ [DRemoveAll False]\<rparr>))"

definition docker_Remove :: "('d, 'p) denv \<Rightarrow> (('s, 'd) dagent \<Rightarrow> bool \<times> ('s, 'd) dagent) \<Rightarrow> ('s, 'd, unit) dm" where
  "docker_Remove E await =
    sm_then (docker_Stop E await)
    (sm_then (on_status (Set StatusRemoving))
    (sm_then (remove_container E)
    (sm_then (remove_tree E)
             (on_status (Set StatusRemoved)))))"


section \<open>Steps\<close>

text \<open>A step that leaves the agent's status and configuration alone, only makes calls of one kind and only fails
  with errors of one kind.\<close>

definition tame :: "(dcall \<Rightarrow> bool) \<Rightarrow> (derr \<Rightarrow> bool) \<Rightarrow> ('s, 'd, 'a) dm \<Rightarrow> bool" where
  "tame C F m \<longleftrightarrow> (\<forall>s r s'. m s = (r, s') \<longrightarrow>
     da_status s' = da_status s \<and> da_running s' = da_running s \<and> da_cancelled s' = da_cancelled s \<and>
     da_rt s' = da_rt s \<and> da_deps s' = da_deps s \<and> da_init s' = da_init s \<and>
     (\<exists>cs. da_calls s' = da_calls s @ cs \<and> list_all C cs) \<and> (\<forall>e. r = Inl e \<longrightarrow> F e))"

named_theorems tame_intro

lemma tameI:
  assumes "\<And>s r s'. m s = (r, s') \<Longrightarrow>
     da_status s' = da_status s \<and> da_running s' = da_running s \<and> da_cancelled s' = da_cancelled s \<and>
     da_rt s' = da_rt s \<and> da_deps s' = da_deps s \<and> da_init s' = da_init s \<and>
     (\<exists>cs. da_calls s' = da_calls s @ cs \<and> list_all C cs) \<and> (\<forall>e. r = Inl e \<longrightarrow> F e)"
  shows "tame C F m"
  unfolding tame_def using assms by blast

lemma tameD:
  assumes "tame C F m" "m s = (r, s')"
  shows "da_status s' = da_status s" "da_running s' = da_running s" "da_cancelled s' = da_cancelled s"
    "da_rt s' = da_rt s" "da_deps s' = da_deps s" "da_init s' = da_init s"
    "\<exists>cs. da_calls s' = da_calls s @ cs \<and> list_all C cs" "r = Inl e \<Longrightarrow> F e"
  using assms unfolding tame_def by blast+

lemma tame_return [tame_intro]: "tame C F (sm_return a)"
  by (simp add: tame_def sm_return_def)

lemma tame_fail [tame_intro]: "F e \<Longrightarrow> tame C F (docker_fail e)"
  by (simp add: tame_def docker_fail_def)

lemma tame_call [tame_intro]: "(\<And>r. C (c r)) \<Longrightarrow> tame C F (client_call c op)"
  by (auto simp: tame_def client_call_def Let_def split: prod.splits)

lemma tame_bind [tame_intro]:
  assumes "tame C F m" "\<And>a. tame C F (f a)"
  shows "tame C F (sm_bind m f)"
proof (rule tameI)
  fix s r s'
  assume b: "sm_bind m f s = (r, s')"
  obtain x s1 where m: "m s = (x, s1)" by fastforce
  note t1 = tameD [OF assms(1) m]
  show "da_status s' = da_status s \<and> da_running s' = da_running s \<and> da_cancelled s' = da_cancelled s \<and>
     da_rt s' = da_rt s \<and> da_deps s' = da_deps s \<and> da_init s' = da_init s \<and>
     (\<exists>cs. da_calls s' = da_calls s @ cs \<and> list_all C cs) \<and> (\<forall>e. r = Inl e \<longrightarrow> F e)"
  proof (cases x)
    case (Inl e)
    then show ?thesis using b m t1 by (auto simp: sm_bind_def)
  next
    case (Inr a)
    then have f: "f a s1 = (r, s')" using b m by (simp add: sm_bind_def)
    obtain cs ds where "da_calls s1 = da_calls s @ cs" "list_all C cs" "da_calls s' = da_calls s1 @ ds" "list_all C ds"
      using t1(7) tameD(7) [OF assms(2) f] by blast
    then have "da_calls s' = da_calls s @ (cs @ ds) \<and> list_all C (cs @ ds)" by simp
    then show ?thesis using t1(1-6) tameD(1-6) [OF assms(2) f] tameD(8) [OF assms(2) f] by auto
  qed
qed

lemma tame_then [tame_intro]: "tame C F m \<Longrightarrow> tame C F n \<Longrightarrow> tame C F (sm_then m n)"
  by (simp add: sm_then_def tame_bind)

lemma tame_each [tame_intro]: "(\<And>x. tame C F (f x)) \<Longrightarrow> tame C F (sm_each f xs)"
  by (induction xs) (auto intro: tame_intro)

text \<open>A step chosen by the state it starts in.\<close>

lemma tame_case: "(\<And>s. tame C F (m s)) \<Longrightarrow> tame C F (\<lambda>s. m s s)"
  unfolding tame_def by blast

lemma tame_mono: "tame C F m \<Longrightarrow> (\<And>e. F e \<Longrightarrow> G e) \<Longrightarrow> tame C G m"
  unfolding tame_def by blast

fun image_call :: "dcall \<Rightarrow> bool" where
  "image_call (DInspect _ _) = True"
| "image_call (DPull _ _ _) = True"
| "image_call _ = False"

fun follow_call :: "dcall \<Rightarrow> bool" where
  "follow_call (DLogs _ _) = True"
| "follow_call (DStop _) = True"
| "follow_call (DExit _) = True"
| "follow_call _ = False"

lemma tame_pullImage [tame_intro]: "tame image_call F (pullImage E ref)"
  by (auto simp: tame_def pullImage_def client_call_def Let_def split: prod.splits)

lemma tame_ensure_image: "tame image_call (\<lambda>e. \<exists>ref msg. e = DErrPull ref msg) (ensure_image E ref)"
  unfolding ensure_image_def imageCached_def
  by (intro tame_intro) (auto intro!: tame_intro split: option.splits)

lemma tame_ensureImagesPulled:
  "tame image_call (\<lambda>e. e = DErrNoRuntime \<or> (\<exists>ref msg. e = DErrPull ref msg)) (ensureImagesPulled E)"
proof -
  have "tame image_call (\<lambda>e. e = DErrNoRuntime \<or> (\<exists>ref msg. e = DErrPull ref msg))
      (\<lambda>t. case da_rt s of None \<Rightarrow> (Inl DErrNoRuntime, t)
         | Some rt \<Rightarrow> sm_then (sm_each (ensure_image E) (image_refs (da_deps s) rt)) (sm_return ()) t)" for s
    by (cases "da_rt s") (auto simp: docker_fail_def [symmetric, abs_def] intro!: tame_intro tame_mono [OF tame_ensure_image])
  from tame_case [OF this] show ?thesis by (simp add: ensureImagesPulled_def [abs_def])
qed


fun create_call :: "dcall \<Rightarrow> bool" where
  "create_call (DRemoveContainer _ _) = True"
| "create_call (DCreate _ _) = True"
| "create_call _ = False"

fun start_call :: "dcall \<Rightarrow> bool" where
  "start_call (DStart _ _) = True"
| "start_call _ = False"

fun create_error :: "derr \<Rightarrow> bool" where
  "create_error (DErrOrphan _ _) = True"
| "create_error (DErrCreate _) = True"
| "create_error _ = False"

fun start_error :: "derr \<Rightarrow> bool" where
  "start_error DErrNoContainer = True"
| "start_error (DErrStart _ _) = True"
| "start_error _ = False"

fun follow_error :: "derr \<Rightarrow> bool" where
  "follow_error (DErrLogs _) = True"
| "follow_error (DErrExit _) = True"
| "follow_error _ = False"

lemma tame_removeOrphan [tame_intro]: "tame create_call create_error (removeOrphanContainer E name)"
  unfolding removeOrphanContainer_def
  by (intro tame_intro) (auto intro!: tame_intro split: option.splits remove_err.splits)

lemma tame_create_container: "tame create_call create_error (create_container E cs)"
proof -
  have "tame create_call create_error (\<lambda>t. case r of Inl e \<Rightarrow> (Inl (DErrCreate e), t) | Inr cid \<Rightarrow> (Inr (), t\<lparr>da_cid := cid\<rparr>))"
    for r :: "(string, string) res"
    by (cases r) (simp_all add: tame_def)
  then show ?thesis unfolding create_container_def by (intro tame_intro) simp
qed

text \<open>The calls of a creation, and the container it leaves.\<close>

lemma create_container_calls:
  assumes "create_container E cs s = (r, s')"
  shows "(\<exists>ok. da_calls s' = da_calls s @ [DRemoveContainer (cs_name cs) ok] \<and> (\<exists>e. r = Inl e)) \<or>
    (\<exists>ok made. da_calls s' = da_calls s @ [DRemoveContainer (cs_name cs) ok, DCreate cs made] \<and> (r = Inr () \<longleftrightarrow> made))"
  using assms
  by (auto simp: create_container_def removeOrphanContainer_def sm_then_def sm_bind_def client_call_def docker_fail_def sm_return_def
      split: prod.splits sum.splits option.splits remove_err.splits)

lemma tame_start: "tame start_call start_error (start E)"
proof -
  have "tame start_call start_error (\<lambda>t. if da_cid s = [] then (Inl DErrNoContainer, t)
     else sm_bind (client_call (\<lambda>e. DStart (da_cid s) (e = None)) (mo_start (dv_client E) (da_cid s)))
            (\<lambda>e. case e of None \<Rightarrow> sm_return () | Some msg \<Rightarrow> docker_fail (DErrStart (da_cid s) msg)) t)" for s
    by (cases "da_cid s = []") (auto simp: docker_fail_def [symmetric, abs_def] intro!: tame_intro split: option.splits)
  from tame_case [OF this] show ?thesis by (simp add: start_def [abs_def])
qed

lemma tame_followed:
  "tame follow_call follow_error (\<lambda>t. case e of Some msg \<Rightarrow> (Inl (DErrLogs msg), t)
     | None \<Rightarrow> if ctx_done E t then stopContainer E cid t
               else sm_bind (exitCode E cid) (\<lambda>code. if code \<noteq> 0 then docker_fail (DErrExit code) else sm_return ()) t)"
proof (cases e)
  case None
  have "tame follow_call follow_error (\<lambda>t. if ctx_done E s then stopContainer E cid t
      else sm_bind (exitCode E cid) (\<lambda>code. if code \<noteq> 0 then docker_fail (DErrExit code) else sm_return ()) t)" for s
    by (cases "ctx_done E s") (auto simp: stopContainer_def exitCode_def intro!: tame_intro)
  from tame_case [OF this] None show ?thesis by simp
qed (simp add: tame_def)

lemma tame_wait: "tame follow_call follow_error (wait E)"
proof -
  have "tame follow_call follow_error (\<lambda>t. if da_cid s = [] then (Inr (), t)
      else sm_bind (client_call (\<lambda>e. DLogs (da_cid s) (e = None)) (mo_logs (dv_client E) (da_cid s))) (\<lambda>e t.
               case e of
                 Some msg \<Rightarrow> (Inl (DErrLogs msg), t)
               | None \<Rightarrow>
                   if ctx_done E t then stopContainer E (da_cid s) t
                   else sm_bind (exitCode E (da_cid s)) (\<lambda>code. if code \<noteq> 0 then docker_fail (DErrExit code) else sm_return ()) t) t)" for s
    by (cases "da_cid s = []") (auto simp: sm_return_def [symmetric, abs_def] intro!: tame_intro tame_followed)
  from tame_case [OF this] show ?thesis by (simp add: wait_def [abs_def] Let_def)
qed


section \<open>Status\<close>

fun failure_of :: "derr \<Rightarrow> FailureReason option" where
  "failure_of (DErrMaterialize e) = Some (materializeFailureReason e)"
| "failure_of DErrNoRuntime = Some FailurePull"
| "failure_of (DErrPull _ _) = Some FailurePull"
| "failure_of (DErrOrphan _ _) = Some FailureInit"
| "failure_of (DErrCreate _) = Some FailureInit"
| "failure_of DErrNoContainer = Some FailureInit"
| "failure_of (DErrStart _ _) = Some FailureInit"
| "failure_of _ = None"

text \<open>What a step that ended the run leaves behind.\<close>

definition reported :: "('d, 'p) denv \<Rightarrow> (derr, unit) res \<Rightarrow> ('s, 'd) dagent \<Rightarrow> bool" where
  "reported E r s \<longleftrightarrow> tracker_inv (da_status s) \<and> (\<forall>p. r \<noteq> Inl (DPanic p)) \<and>
     Get (da_status s) \<notin> {StatusRemoving, StatusRemoved} \<and>
     (case r of
        Inr _ \<Rightarrow> Get (da_status s) \<noteq> StatusFailed
      | Inl e \<Rightarrow> (case failure_of e of
                   None \<Rightarrow> Get (da_status s) \<noteq> StatusFailed
                 | Some reason \<Rightarrow>
                     if ctx_done E s then Get (da_status s) \<noteq> StatusFailed
                     else Get (da_status s) = StatusFailed \<and> Failure (da_status s) = reason))"

lemma on_status_set:
  assumes "tracker_inv (da_status s)" "f = setLocked st reason"
  shows "\<exists>t. on_status f s = (Inr (), s\<lparr>da_status := t\<rparr>) \<and> tracker_inv t \<and> Get t = st \<and>
    Failure t = (if st = StatusFailed then reason else FailureNone)"
proof -
  obtain t where t: "setLocked st reason (da_status s) = Inr t" using setLocked_ok [OF assms(1)] by blast
  then show ?thesis
    using setLocked_inv [OF assms(1) t] by (intro exI [of _ t]) (simp add: on_status_def assms(2) Get_def Failure_def)
qed

lemma ctx_done_status [simp]: "ctx_done E (s\<lparr>da_status := t\<rparr>) = ctx_done E s"
  by (simp add: ctx_done_def split: option.splits)

lemma failed_reported:
  assumes "sm_then (failUnless E reason) (docker_fail e) s = (r, s')" "tracker_inv (da_status s)"
    and "Get (da_status s) \<notin> {StatusFailed, StatusRemoving, StatusRemoved}" "failure_of e = Some reason"
  shows "r = Inl e \<and> reported E r s' \<and> da_running s' = da_running s \<and> da_calls s' = da_calls s \<and> da_cancelled s' = da_cancelled s \<and>
    da_rt s' = da_rt s \<and> da_deps s' = da_deps s"
proof -
  have np: "e \<noteq> DPanic p" for p using assms(4) by auto
  show ?thesis
  proof (cases "ctx_done E s")
    case True
    then show ?thesis using assms np by (auto simp: sm_then_def sm_bind_def failUnless_def docker_fail_def reported_def)
  next
    case False
    have "SetFailure reason = setLocked StatusFailed reason" by (simp add: SetFailure_def fun_eq_iff)
    from on_status_set [OF assms(2) this] obtain t where
      "on_status (SetFailure reason) s = (Inr (), s\<lparr>da_status := t\<rparr>)" "tracker_inv t" "Get t = StatusFailed" "Failure t = reason"
      by auto
    then show ?thesis
      using assms False np by (auto simp: sm_then_def sm_bind_def failUnless_def docker_fail_def reported_def)
  qed
qed


lemma tame_reported:
  assumes "tame C F m" "m s = (r, s')" "tracker_inv (da_status s)" "Get (da_status s) \<notin> {StatusFailed, StatusRemoving, StatusRemoved}"
    and "\<And>e. F e \<Longrightarrow> failure_of e = None \<and> (\<forall>p. e \<noteq> DPanic p)"
  shows "reported E r s'"
proof (cases r)
  case (Inl e)
  then have "failure_of e = None \<and> (\<forall>p. e \<noteq> DPanic p)" using assms(5) tameD(8) [OF assms(1,2)] by blast
  then show ?thesis using Inl assms(3,4) tameD(1) [OF assms(1,2)] by (simp add: reported_def)
qed (use assms(3,4) tameD(1) [OF assms(1,2)] in \<open>simp add: reported_def\<close>)

lemma or_fail_cases:
  assumes "tame C F m" "or_fail E reason m s = (r, s')" "tracker_inv (da_status s)"
    and "Get (da_status s) \<notin> {StatusFailed, StatusRemoving, StatusRemoved}"
    and "\<And>e. F e \<Longrightarrow> failure_of e = Some reason"
  shows "(m s = (Inr (), s') \<and> r = Inr ()) \<or>
    (\<exists>e s1. m s = (Inl e, s1) \<and> r = Inl e \<and> reported E r s' \<and> da_running s' = da_running s \<and> da_calls s' = da_calls s1 \<and>
       da_cancelled s' = da_cancelled s \<and> da_rt s' = da_rt s \<and> da_deps s' = da_deps s)"
proof -
  obtain x s1 where m: "m s = (x, s1)" by fastforce
  show ?thesis
  proof (cases x)
    case (Inr u)
    then have "or_fail E reason m s = (Inr u, s1)" using m by (simp add: or_fail_def)
    then show ?thesis using m Inr assms(2) by simp
  next
    case (Inl e)
    have f: "sm_then (failUnless E reason) (docker_fail e) s1 = (r, s')" using m Inl assms(2) by (simp add: or_fail_def)
    note t = tameD [OF assms(1) m]
    have "failure_of e = Some reason" using t(8) Inl assms(5) by blast
    note rep = failed_reported [OF f _ _ this]
    show ?thesis using rep t(1-5) assms(3,4) m Inl by (intro disjI2 exI [of _ e] exI [of _ s1]) auto
  qed
qed

text \<open>The run from the creation of the container on.\<close>

definition started_calls :: "containerSpec \<Rightarrow> string \<Rightarrow> dcall list \<Rightarrow> bool" where
  "started_calls spec cid cs \<longleftrightarrow>
    (\<exists>ok. cs = [DRemoveContainer (cs_name spec) ok]) \<or>
    (\<exists>ok made rest. cs = [DRemoveContainer (cs_name spec) ok, DCreate spec made] @ rest \<and>
       list_all (\<lambda>c. (\<exists>ok. made \<and> c = DStart cid ok) \<or> follow_call c) rest)"

definition launch :: "('d, 'p) denv \<Rightarrow> ('s, 'd, unit) dm" where
  "launch E = sm_then (or_fail E FailureInit (create E)) (sm_then (or_fail E FailureInit (start E)) (wait E))"


lemma start_calls_of:
  assumes "start E s = (r, s')"
  shows "\<exists>cs. da_calls s' = da_calls s @ cs \<and> list_all (\<lambda>c. \<exists>ok. c = DStart (da_cid s) ok) cs \<and> da_cid s' = da_cid s"
  using assms
  by (auto simp: start_def sm_bind_def client_call_def sm_return_def docker_fail_def Let_def
      split: if_splits prod.splits option.splits sum.splits)

lemma wait_cid: "wait E s = (r, s') \<Longrightarrow> da_cid s' = da_cid s"
  by (auto simp: wait_def sm_bind_def client_call_def sm_return_def docker_fail_def stopContainer_def exitCode_def Let_def
      split: if_splits prod.splits option.splits sum.splits)

lemma failUnless_cid: "sm_then (failUnless E reason) (docker_fail e) s = (r, s') \<Longrightarrow> da_cid s' = da_cid s"
  by (auto simp: sm_then_def sm_bind_def failUnless_def on_status_def docker_fail_def split: if_splits sum.splits)

lemma or_fail_cid: "or_fail E reason m s = (r, s') \<Longrightarrow> m s = (x, s1) \<Longrightarrow> da_cid s' = da_cid s1"
  by (auto simp: or_fail_def split: sum.splits dest: failUnless_cid)

lemma sm_then_cases:
  "sm_then m n s = (r, s') \<Longrightarrow> (\<exists>e. m s = (Inl e, s') \<and> r = Inl e) \<or> (\<exists>a s1. m s = (Inr a, s1) \<and> n s1 = (r, s'))"
  by (auto simp: sm_then_def sm_bind_def split: prod.splits sum.splits)

text \<open>From a created container on, the run starts and follows that container.\<close>

lemma follow_reported:
  assumes "sm_then (or_fail E FailureInit (start E)) (wait E) s = (r, s')" "tracker_inv (da_status s)" "Get (da_status s) = StatusStarting"
  shows "reported E r s' \<and> da_running s' = da_running s \<and> da_cancelled s' = da_cancelled s \<and> da_rt s' = da_rt s \<and> da_deps s' = da_deps s \<and>
    (\<exists>cs. da_calls s' = da_calls s @ cs \<and> list_all (\<lambda>c. (\<exists>ok. c = DStart (da_cid s') ok) \<or> follow_call c) cs)"
proof -
  obtain x s1 where o: "or_fail E FailureInit (start E) s = (x, s1)" by fastforce
  have ok: "Get (da_status s) \<notin> {StatusFailed, StatusRemoving, StatusRemoved}" using assms(3) by simp
  have "start_error e \<Longrightarrow> failure_of e = Some FailureInit" for e by (cases e) simp_all
  from or_fail_cases [OF tame_start o assms(2) ok this]
  consider (go) "start E s = (Inr (), s1)" "x = Inr ()"
    | (stop) e t where "start E s = (Inl e, t)" "x = Inl e" "reported E x s1" "da_running s1 = da_running s" "da_calls s1 = da_calls t"
      "da_cancelled s1 = da_cancelled s" "da_rt s1 = da_rt s" "da_deps s1 = da_deps s"
    by blast
  then show ?thesis
  proof cases
    case go
    obtain cs where cs: "da_calls s1 = da_calls s @ cs" "list_all (\<lambda>c. \<exists>ok. c = DStart (da_cid s) ok) cs" "da_cid s1 = da_cid s"
      using start_calls_of [OF go(1)] by blast
    have w: "wait E s1 = (r, s')" using assms(1) o go(2) by (simp add: sm_then_def sm_bind_def)
    note t = tameD [OF tame_start go(1)] and u = tameD [OF tame_wait w]
    have "follow_error e \<Longrightarrow> failure_of e = None \<and> (\<forall>p. e \<noteq> DPanic p)" for e by (cases e) simp_all
    then have "reported E r s'" using tame_reported [OF tame_wait w] t(1) assms(2) ok by simp
    moreover obtain ds where "da_calls s' = da_calls s1 @ ds" "list_all follow_call ds" using u(7) by blast
    then have "da_calls s' = da_calls s @ (cs @ ds) \<and> list_all (\<lambda>c. (\<exists>ok. c = DStart (da_cid s') ok) \<or> follow_call c) (cs @ ds)"
      using cs wait_cid [OF w] by (auto simp: list_all_iff)
    ultimately show ?thesis using t u by auto
  next
    case stop
    then have "r = x" "s' = s1" using assms(1) o by (simp_all add: sm_then_def sm_bind_def)
    moreover obtain cs where "da_calls t = da_calls s @ cs" "list_all (\<lambda>c. \<exists>ok. c = DStart (da_cid s) ok) cs" "da_cid t = da_cid s"
      using start_calls_of [OF stop(1)] by blast
    moreover have "da_cid s1 = da_cid t" by (rule or_fail_cid [OF o stop(1)])
    ultimately show ?thesis using stop by (auto simp: list_all_iff)
  qed
qed

lemma launch_reported:
  assumes "launch E s = (r, s')" "tracker_inv (da_status s)" "Get (da_status s) = StatusStarting" "da_rt s = Some rt"
  shows "reported E r s' \<and> da_running s' = da_running s \<and> da_cancelled s' = da_cancelled s \<and> da_rt s' = da_rt s \<and> da_deps s' = da_deps s \<and>
    (\<exists>cs. da_calls s' = da_calls s @ cs \<and> started_calls (container_spec (da_deps s) rt) (da_cid s') cs)"
proof -
  let ?spec = "container_spec (da_deps s) rt"
  obtain x s1 where o: "or_fail E FailureInit (create E) s = (x, s1)" by fastforce
  then have o': "or_fail E FailureInit (create_container E ?spec) s = (x, s1)" by (simp add: or_fail_def create_def assms(4))
  have ok: "Get (da_status s) \<notin> {StatusFailed, StatusRemoving, StatusRemoved}" using assms(3) by simp
  have "create_error e \<Longrightarrow> failure_of e = Some FailureInit" for e by (cases e) simp_all
  from or_fail_cases [OF tame_create_container o' assms(2) ok this]
  consider (go) "create_container E ?spec s = (Inr (), s1)" "x = Inr ()"
    | (stop) e t where "create_container E ?spec s = (Inl e, t)" "x = Inl e" "reported E x s1" "da_running s1 = da_running s"
      "da_calls s1 = da_calls t" "da_cancelled s1 = da_cancelled s" "da_rt s1 = da_rt s" "da_deps s1 = da_deps s"
    by blast
  then show ?thesis
  proof cases
    case go
    note t = tameD [OF tame_create_container go(1)]
    obtain ok' where c: "da_calls s1 = da_calls s @ [DRemoveContainer (cs_name ?spec) ok', DCreate ?spec True]"
      using create_container_calls [OF go(1)] by auto
    have "sm_then (or_fail E FailureInit (start E)) (wait E) s1 = (r, s')"
      using assms(1) o go(2) by (simp add: launch_def sm_then_def sm_bind_def)
    from follow_reported [OF this] have f: "reported E r s' \<and> da_running s' = da_running s1 \<and> da_cancelled s' = da_cancelled s1 \<and>
        da_rt s' = da_rt s1 \<and> da_deps s' = da_deps s1 \<and>
        (\<exists>cs. da_calls s' = da_calls s1 @ cs \<and> list_all (\<lambda>c. (\<exists>ok. c = DStart (da_cid s') ok) \<or> follow_call c) cs)"
      using t(1) assms(2,3) by simp
    then obtain cs where cs: "da_calls s' = da_calls s1 @ cs" "list_all (\<lambda>c. (\<exists>ok. c = DStart (da_cid s') ok) \<or> follow_call c) cs"
      by blast
    then have "started_calls ?spec (da_cid s') ([DRemoveContainer (cs_name ?spec) ok', DCreate ?spec True] @ cs)"
      unfolding started_calls_def by (intro disjI2 exI [of _ ok'] exI [of _ True] exI [of _ cs]) simp
    then have "\<exists>ds. da_calls s' = da_calls s @ ds \<and> started_calls ?spec (da_cid s') ds" using cs(1) c by fastforce
    then show ?thesis using f t(2-5) by simp
  next
    case stop
    then have "r = x" "s' = s1" using assms(1) o by (simp_all add: launch_def sm_then_def sm_bind_def)
    then show ?thesis using stop create_container_calls [OF stop(1)] by (fastforce simp: started_calls_def)
  qed
qed



section \<open>Images before containers\<close>

definition available :: "string \<Rightarrow> dcall list \<Rightarrow> bool" where
  "available ref cs \<longleftrightarrow> DInspect ref True \<in> set cs \<or> (\<exists>auth. DPull ref auth True \<in> set cs)"

lemma ensure_image_available:
  assumes "ensure_image E ref s = (Inr (), s')"
  shows "\<exists>cs. da_calls s' = da_calls s @ cs \<and> available ref cs"
  using assms
  by (auto simp: ensure_image_def imageCached_def pullImage_def client_call_def sm_bind_def sm_return_def docker_fail_def available_def Let_def
      split: prod.splits if_splits option.splits sum.splits)

lemma ensure_each_available:
  "sm_each (ensure_image E) refs s = (Inr us, s') \<Longrightarrow>
   \<exists>cs. da_calls s' = da_calls s @ cs \<and> (\<forall>ref \<in> set refs. available ref cs)"
proof (induction refs arbitrary: s us)
  case (Cons ref refs)
  then obtain u s1 us' where e: "ensure_image E ref s = (Inr u, s1)" "sm_each (ensure_image E) refs s1 = (Inr us', s')"
    by (auto simp: sm_bind_Inr)
  obtain cs where cs: "da_calls s1 = da_calls s @ cs" "available ref cs" using ensure_image_available e(1) by fastforce
  obtain ds where ds: "da_calls s' = da_calls s1 @ ds" "\<forall>ref \<in> set refs. available ref ds" using Cons.IH [OF e(2)] by blast
  have "\<forall>r \<in> set (ref # refs). available r (cs @ ds)" using cs(2) ds(2) by (auto simp: available_def)
  then show ?case using cs(1) ds(1) by (metis append.assoc)
qed simp

lemma ensureImagesPulled_available:
  assumes "ensureImagesPulled E s = (Inr (), s')"
  shows "\<exists>rt cs. da_rt s = Some rt \<and> da_calls s' = da_calls s @ cs \<and> (\<forall>ref \<in> set (image_refs (da_deps s) rt). available ref cs)"
  using assms ensure_each_available
  by (fastforce simp: ensureImagesPulled_def sm_then_Inr split: option.splits)

lemma Prepare_cases:
  assumes "docker_Prepare E s = (r, s')" "tracker_inv (da_status s)" "Get (da_status s) = StatusPulling"
  shows "da_running s' = da_running s \<and> da_cancelled s' = da_cancelled s \<and> da_deps s' = da_deps s \<and>
    (\<exists>cs. da_calls s' = da_calls s @ cs \<and> set cs \<subseteq> {DMaterialize}) \<and>
    (r = Inr () \<and> da_status s' = da_status s \<or> (\<exists>e. r = Inl e) \<and> reported E r s')"
proof (cases "da_init s")
  case True
  then show ?thesis using assms(1) by (simp add: docker_Prepare_def)
next
  case False
  let ?d = "da_deps s"
  obtain x ws where m: "MaterializeContent (materializeOptions ?d) (ad_mounts ?d) (ad_id ?d) (Addr ?d) (da_ws s) = (x, ws)" by fastforce
  show ?thesis
  proof (cases x)
    case (Inr rt)
    then show ?thesis using assms(1) False m by (auto simp: docker_Prepare_def Let_def)
  next
    case (Inl e)
    let ?s = "s\<lparr>da_ws := ws, da_calls := da_calls s @ [DMaterialize]\<rparr>"
    have "sm_then (failUnless E (materializeFailureReason e)) (docker_fail (DErrMaterialize e)) ?s = (r, s')"
      using assms(1) False m Inl by (simp add: docker_Prepare_def Let_def)
    from failed_reported [OF this] show ?thesis using assms(2,3) by auto
  qed
qed

text \<open>The whole body: every run is reported, and the container comes after its images.\<close>

definition run_calls :: "'s agentDeps \<Rightarrow> Runtime option \<Rightarrow> string \<Rightarrow> dcall list \<Rightarrow> bool" where
  "run_calls d rt cid cs \<longleftrightarrow>
    list_all (\<lambda>c. c = DMaterialize \<or> image_call c) cs \<or>
    (\<exists>t pre post. rt = Some t \<and> cs = pre @ post \<and> list_all (\<lambda>c. c = DMaterialize \<or> image_call c) pre \<and>
       (\<forall>ref \<in> set (image_refs d t). available ref pre) \<and> started_calls (container_spec d t) cid post)"

definition pull_and_launch :: "('d, 'p) denv \<Rightarrow> ('s, 'd, unit) dm" where
  "pull_and_launch E =
    sm_then (or_fail E FailurePull (ensureImagesPulled E)) (sm_then (on_status (Set StatusStarting)) (launch E))"

lemma run_body_eq: "run_body E = sm_then (on_status (Set StatusPulling)) (sm_then (docker_Prepare E) (pull_and_launch E))"
  by (simp add: run_body_def pull_and_launch_def launch_def)

lemma pull_and_launch_reported:
  assumes "pull_and_launch E s = (r, s')" "tracker_inv (da_status s)" "Get (da_status s) = StatusPulling"
  shows "reported E r s' \<and> da_running s' = da_running s \<and> da_cancelled s' = da_cancelled s \<and> da_deps s' = da_deps s \<and>
    (\<exists>cs. da_calls s' = da_calls s @ cs \<and> run_calls (da_deps s) (da_rt s') (da_cid s') cs)"
proof -
  obtain x s1 where o: "or_fail E FailurePull (ensureImagesPulled E) s = (x, s1)" by fastforce
  have ok: "Get (da_status s) \<notin> {StatusFailed, StatusRemoving, StatusRemoved}" using assms(3) by simp
  have "e = DErrNoRuntime \<or> (\<exists>ref msg. e = DErrPull ref msg) \<Longrightarrow> failure_of e = Some FailurePull" for e by auto
  from or_fail_cases [OF tame_ensureImagesPulled o assms(2) ok this]
  consider (go) "ensureImagesPulled E s = (Inr (), s1)" "x = Inr ()"
    | (stop) e t where "ensureImagesPulled E s = (Inl e, t)" "x = Inl e" "reported E x s1" "da_running s1 = da_running s"
      "da_calls s1 = da_calls t" "da_cancelled s1 = da_cancelled s" "da_rt s1 = da_rt s" "da_deps s1 = da_deps s"
    by blast
  then show ?thesis
  proof cases
    case go
    note t = tameD [OF tame_ensureImagesPulled go(1)]
    obtain rt cs where cs: "da_rt s = Some rt" "da_calls s1 = da_calls s @ cs" "\<forall>ref \<in> set (image_refs (da_deps s) rt). available ref cs"
      using ensureImagesPulled_available [OF go(1)] by blast
    have im: "list_all image_call cs" using t(7) cs(2) by auto
    have "tracker_inv (da_status s1)" using assms(2) t(1) by simp
    from on_status_set [OF this, of "Set StatusStarting" StatusStarting FailureNone]
    obtain k where k: "on_status (Set StatusStarting) s1 = (Inr (), s1\<lparr>da_status := k\<rparr>)" "tracker_inv k" "Get k = StatusStarting"
      by (auto simp: Set_def fun_eq_iff)
    have "launch E (s1\<lparr>da_status := k\<rparr>) = (r, s')"
      using assms(1) o go(2) k(1) by (simp add: pull_and_launch_def sm_then_def sm_bind_def)
    from launch_reported [OF this, of rt] k(2,3) t cs(1)
    have l: "reported E r s'" "da_running s' = da_running s" "da_cancelled s' = da_cancelled s" "da_rt s' = Some rt" "da_deps s' = da_deps s"
      "\<exists>ds. da_calls s' = da_calls s1 @ ds \<and> started_calls (container_spec (da_deps s) rt) (da_cid s') ds"
      by auto
    then obtain ds where ds: "da_calls s' = da_calls s1 @ ds" "started_calls (container_spec (da_deps s) rt) (da_cid s') ds" by blast
    have "run_calls (da_deps s) (da_rt s') (da_cid s') (cs @ ds)"
      unfolding run_calls_def using l(4) im cs(3) ds(2)
      by (intro disjI2 exI [of _ rt] exI [of _ cs] exI [of _ ds]) (auto simp: list_all_iff)
    then show ?thesis using l ds(1) cs(2) by auto
  next
    case stop
    then have "r = x" "s' = s1" using assms(1) o by (simp_all add: pull_and_launch_def sm_then_def sm_bind_def)
    moreover obtain cs where "da_calls t = da_calls s @ cs" "list_all image_call cs"
      using tameD(7) [OF tame_ensureImagesPulled stop(1)] by blast
    ultimately show ?thesis using stop by (auto simp: run_calls_def list_all_iff)
  qed
qed


lemma run_calls_prepared: "run_calls d rt cid cs \<Longrightarrow> set ms \<subseteq> {DMaterialize} \<Longrightarrow> run_calls d rt cid (ms @ cs)"
proof -
  assume r: "run_calls d rt cid cs" and m: "set ms \<subseteq> {DMaterialize}"
  have l: "list_all (\<lambda>c. c = DMaterialize \<or> image_call c) ms" using m by (auto simp: list_all_iff)
  consider "list_all (\<lambda>c. c = DMaterialize \<or> image_call c) cs"
    | t pre post where "rt = Some t" "cs = pre @ post" "list_all (\<lambda>c. c = DMaterialize \<or> image_call c) pre"
      "\<forall>ref \<in> set (image_refs d t). available ref pre" "started_calls (container_spec d t) cid post"
    using r unfolding run_calls_def by blast
  then show "run_calls d rt cid (ms @ cs)"
  proof cases
    case 1
    then show ?thesis using l by (simp add: run_calls_def)
  next
    case 2
    then have "\<forall>ref \<in> set (image_refs d t). available ref (ms @ pre)" by (auto simp: available_def)
    then show ?thesis
      using 2 l unfolding run_calls_def by (intro disjI2 exI [of _ t] exI [of _ "ms @ pre"] exI [of _ post]) simp
  qed
qed

lemma run_body_reported:
  assumes "run_body E s = (r, s')" "tracker_inv (da_status s)"
  shows "reported E r s' \<and> da_running s' = da_running s \<and> da_cancelled s' = da_cancelled s \<and> da_deps s' = da_deps s \<and>
    (\<exists>cs. da_calls s' = da_calls s @ cs \<and> run_calls (da_deps s) (da_rt s') (da_cid s') cs)"
proof -
  from on_status_set [OF assms(2), of "Set StatusPulling" StatusPulling FailureNone]
  obtain k where k: "on_status (Set StatusPulling) s = (Inr (), s\<lparr>da_status := k\<rparr>)" "tracker_inv k" "Get k = StatusPulling"
    by (auto simp: Set_def fun_eq_iff)
  let ?s = "s\<lparr>da_status := k\<rparr>"
  have body: "sm_then (docker_Prepare E) (pull_and_launch E) ?s = (r, s')"
    using assms(1) k(1) by (simp add: run_body_eq sm_then_def sm_bind_def)
  obtain x s1 where p: "docker_Prepare E ?s = (x, s1)" by fastforce
  have ts: "tracker_inv (da_status ?s)" "Get (da_status ?s) = StatusPulling" using k by simp_all
  note c = Prepare_cases [OF p ts]
  obtain ms where ms: "da_calls s1 = da_calls s @ ms" "set ms \<subseteq> {DMaterialize}" using c by auto
  show ?thesis
  proof (cases x)
    case (Inl e)
    then have "r = x" "s' = s1" using body p by (simp_all add: sm_then_def sm_bind_def)
    moreover have "run_calls (da_deps s) (da_rt s1) (da_cid s1) ms" using ms(2) by (auto simp: run_calls_def list_all_iff)
    ultimately show ?thesis using c Inl ms(1) by auto
  next
    case (Inr u)
    then have l: "pull_and_launch E s1 = (r, s')" using body p by (simp add: sm_then_def sm_bind_def)
    have "da_status s1 = k" using c Inr by auto
    then have "reported E r s' \<and> da_running s' = da_running s1 \<and> da_cancelled s' = da_cancelled s1 \<and> da_deps s' = da_deps s1 \<and>
      (\<exists>cs. da_calls s' = da_calls s1 @ cs \<and> run_calls (da_deps s1) (da_rt s') (da_cid s') cs)"
      using pull_and_launch_reported [OF l] k by simp
    then obtain cs where "reported E r s'" "da_running s' = da_running s1" "da_cancelled s' = da_cancelled s1" "da_deps s' = da_deps s1"
      "da_calls s' = da_calls s1 @ cs" "run_calls (da_deps s1) (da_rt s') (da_cid s') cs" by blast
    then show ?thesis using c ms run_calls_prepared [of "da_deps s" "da_rt s'" "da_cid s'" cs ms] by auto
  qed
qed

text \<open>The run with its deferred end.\<close>

lemma Run_settled:
  assumes "docker_Run E s = (r, s')" "tracker_inv (da_status s)" "\<not> da_running s"
  obtains s1 where "reported E r s1" "da_calls s' = da_calls s1" "da_rt s' = da_rt s1" "da_cid s' = da_cid s1" "da_deps s' = da_deps s" "da_deps s1 = da_deps s"
    "\<exists>cs. da_calls s1 = da_calls s @ cs \<and> run_calls (da_deps s) (da_rt s1) (da_cid s1) cs" "\<not> da_running s'" "\<not> da_cancelled s1" "\<not> da_cancelled s'"
    "tracker_inv (da_status s')" "Get (da_status s') = (if Get (da_status s1) = StatusFailed then StatusFailed else StatusStopped)"
    "Get (da_status s1) = StatusFailed \<Longrightarrow> da_status s' = da_status s1"
proof -
  let ?b = "s\<lparr>da_running := True, da_cancelled := False\<rparr>"
  obtain x s1 where b: "run_body E ?b = (x, s1)" by fastforce
  have i: "tracker_inv (da_status ?b)" using assms(2) by simp
  note rep = run_body_reported [OF b i]
  let ?t = "s1\<lparr>da_running := False, da_cancelled := False\<rparr>" and ?g = "[StatusFailed, StatusRemoving, StatusRemoved]"
  have ti: "tracker_inv (da_status s1)" and nr: "Get (da_status s1) \<notin> {StatusRemoving, StatusRemoved}"
    using rep by (simp_all add: reported_def)
  obtain k where k: "SetUnless StatusStopped ?g (da_status s1) = Inr k" "tracker_inv (fst k)"
    "Get (fst k) = (if Get (da_status s1) = StatusFailed then StatusFailed else StatusStopped)"
    "Get (da_status s1) = StatusFailed \<Longrightarrow> fst k = da_status s1"
  proof (cases "Get (da_status s1) = StatusFailed")
    case True
    then show ?thesis using that [of "(da_status s1, False)"] ti by (simp add: SetUnless_def Get_def)
  next
    case False
    obtain t where t: "setLocked StatusStopped FailureNone (da_status s1) = Inr t" using setLocked_ok [OF ti] by blast
    have "tk_status (da_status s1) \<notin> set ?g" using False nr by (simp add: Get_def)
    then have "SetUnless StatusStopped ?g (da_status s1) = Inr (t, True)" using t unfolding SetUnless_def by simp
    then show ?thesis using that [of "(t, True)"] setLocked_inv [OF ti t] False by (simp add: Get_def)
  qed
  have "docker_endRun s1 = (Inr (), ?t\<lparr>da_status := fst k\<rparr>)" using k(1) by (simp add: docker_endRun_def on_status_def)
  then have "r = x" and s': "s' = ?t\<lparr>da_status := fst k\<rparr>"
    using assms(1,3) b by (simp_all add: docker_Run_def docker_beginRun_def sm_then_def sm_bind_def Let_def)
  then show ?thesis using that [of s1] rep k s' by simp
qed



section \<open>Properties\<close>

text \<open>C14: every run of a docker agent settles.  Whatever the client answers and whenever the context
  is cancelled, a run that was allowed to begin ends without a panic, leaves the agent not running and
  its tracker consistent, and its status tells what happened: failed with the reason that belongs
  to the returned error, exactly when preparation, a pull, the creation or the start failed without a
  cancellation; stopped in all other cases, a crash or a lost log stream included.\<close>

theorem docker_run_settles:
  assumes "docker_Run E s = (r, s')" "tracker_inv (da_status s)" "\<not> da_running s"
  shows "tracker_inv (da_status s') \<and> \<not> da_running s' \<and> (\<forall>p. r \<noteq> Inl (DPanic p)) \<and>
    (case r of
       Inr _ \<Rightarrow> Get (da_status s') = StatusStopped
     | Inl e \<Rightarrow> (case failure_of e of
                  None \<Rightarrow> Get (da_status s') = StatusStopped
                | Some reason \<Rightarrow>
                    if ctx_done E s' then Get (da_status s') = StatusStopped
                    else Get (da_status s') = StatusFailed \<and> Failure (da_status s') = reason))"
proof -
  obtain s1 where s1: "reported E r s1" "da_calls s' = da_calls s1" "\<not> da_running s'" "\<not> da_cancelled s1" "\<not> da_cancelled s'"
    "tracker_inv (da_status s')" "Get (da_status s') = (if Get (da_status s1) = StatusFailed then StatusFailed else StatusStopped)"
    "Get (da_status s1) = StatusFailed \<Longrightarrow> da_status s' = da_status s1" "da_deps s' = da_deps s1"
    using Run_settled [OF assms] by (metis (no_types))
  have "ctx_done E s' = ctx_done E s1" using s1(2,4,5) by (simp add: ctx_done_def split: option.splits)
  then show ?thesis using s1 by (auto simp: reported_def split: sum.splits option.splits if_splits)
qed

lemma split_after:
  assumes "A @ B = pre @ c # post" "list_all P A" "\<not> P c"
  shows "\<exists>pre'. pre = A @ pre' \<and> B = pre' @ c # post"
  using assms by (auto simp: append_eq_append_conv2 append_eq_Cons_conv list_all_iff)

lemma run_calls_create:
  assumes "run_calls d rt cid (pre @ DCreate spec ok # post)"
  shows "\<exists>t. rt = Some t \<and> spec = container_spec d t \<and> (\<forall>ref \<in> set (image_refs d t). available ref pre) \<and>
    (\<exists>ok'. last pre = DRemoveContainer (cs_name spec) ok') \<and> (\<forall>c ok'. DStart c ok' \<in> set post \<longrightarrow> ok \<and> c = cid)"
proof -
  let ?P = "\<lambda>c. c = DMaterialize \<or> image_call c"
  have np: "\<not> ?P (DCreate spec ok)" by simp
  have "\<not> list_all ?P (pre @ DCreate spec ok # post)" by simp
  then obtain t A B where t: "rt = Some t" "A @ B = pre @ DCreate spec ok # post" "list_all ?P A"
    "\<forall>ref \<in> set (image_refs d t). available ref A" "started_calls (container_spec d t) cid B"
    using assms unfolding run_calls_def by (metis (no_types, lifting))
  from split_after [OF t(2,3) np] obtain pre' where p: "pre = A @ pre'" "B = pre' @ DCreate spec ok # post" by blast
  have av: "\<forall>ref \<in> set (image_refs d t). available ref pre" using t(4) p(1) by (auto simp: available_def)
  obtain ok' made rest where B: "B = [DRemoveContainer (cs_name (container_spec d t)) ok', DCreate (container_spec d t) made] @ rest"
    "list_all (\<lambda>c. (\<exists>ok. made \<and> c = DStart cid ok) \<or> follow_call c) rest"
    using t(5) p(2) unfolding started_calls_def by (cases pre') auto
  have "DCreate spec ok \<notin> set rest" using B(2) by (auto simp: list_all_iff)
  then have "pre' = [DRemoveContainer (cs_name (container_spec d t)) ok']" "spec = container_spec d t" "ok = made" "post = rest"
    using p(2) B(1) by (cases pre'; cases "tl pre'"; auto)+
  then show ?thesis using t(1) av p(1) B(2) by (auto simp: list_all_iff)
qed

text \<open>C17: a container is created only when its images are there.  Before a run posts its container, every
  image it needs (base, runtime, binaries) was found in the cache or pulled; the container posted is the
  one described by the runtime descriptor and the current token; the leftover of the same name was removed just
  before; and only a container whose creation succeeded is started.\<close>

theorem docker_run_images_first:
  assumes "docker_Run E s = (r, s')" "tracker_inv (da_status s)" "\<not> da_running s" "da_calls s = []"
    and "da_calls s' = pre @ DCreate spec ok # post"
  shows "\<exists>rt. da_rt s' = Some rt \<and> spec = container_spec (da_deps s) rt \<and> (\<forall>ref \<in> set (image_refs (da_deps s) rt). available ref pre) \<and>
    (\<exists>ok'. last pre = DRemoveContainer (cs_name spec) ok') \<and> (\<forall>cid ok'. DStart cid ok' \<in> set post \<longrightarrow> ok \<and> cid = da_cid s')"
proof -
  have "run_calls (da_deps s) (da_rt s') (da_cid s') (pre @ DCreate spec ok # post)"
    by (rule Run_settled [OF assms(1-3)]) (use assms(4,5) in auto)
  from run_calls_create [OF this] show ?thesis by blast
qed

lemma Start_removed: "Get (da_status s) \<in> {StatusRemoving, StatusRemoved} \<Longrightarrow> docker_Start E s = (Inl DErrRemoved, s)"
  by (auto simp: docker_Start_def)

lemma Stop_idle:
  assumes "\<not> da_running s"
  obtains s1 where "docker_Stop E await s = (Inr (), s1)" "da_status s1 = da_status s" "da_cid s1 = da_cid s" "\<not> da_running s1"
    "da_deps s1 = da_deps s"
proof
  show "docker_Stop E await s = (Inr (), snd (docker_Stop E await s))" "da_status (snd (docker_Stop E await s)) = da_status s"
    "da_cid (snd (docker_Stop E await s)) = da_cid s" "\<not> da_running (snd (docker_Stop E await s))"
    "da_deps (snd (docker_Stop E await s)) = da_deps s"
    using assms by (simp_all add: docker_Stop_def stopContainer_def client_call_def Let_def)
qed

lemma remove_container_cases:
  assumes "remove_container E s = (r, s')"
  shows "da_status s' = da_status s \<and> da_running s' = da_running s \<and>
    (r = Inr () \<and> da_cid s' = [] \<or> (\<exists>msg. r = Inl (DErrRemove (da_cid s) msg) \<and>
       (\<exists>w. fst (mo_remove (dv_client E) (da_cid s) w) = Some (RemoveErr msg))) \<and> da_cid s' = da_cid s)"
  using assms
  by (auto simp: remove_container_def client_call_def sm_bind_def Let_def split: if_splits prod.splits option.splits remove_err.splits)
    (metis fst_conv)+

text \<open>The removal of an idle agent, step by step.\<close>

lemma Remove_idle:
  assumes "docker_Remove E await s = (r, s')" "tracker_inv (da_status s)" "\<not> da_running s"
  shows "tracker_inv (da_status s') \<and> \<not> da_running s' \<and>
    (r = Inr () \<and> Get (da_status s') = StatusRemoved \<and> da_cid s' = [] \<and> last (da_calls s') = DRemoveAll True \<or>
     (\<exists>msg. r = Inl (DErrRemove (da_cid s) msg) \<and> (\<exists>w. fst (mo_remove (dv_client E) (da_cid s) w) = Some (RemoveErr msg)) \<and>
        Get (da_status s') = StatusRemoving \<and> da_cid s' = da_cid s) \<or>
     (\<exists>msg. r = Inl (DErrRemoveAll msg) \<and> dv_removeall E = Some msg \<and> Get (da_status s') = StatusRemoving \<and> da_cid s' = []))"
proof -
  obtain s1 where s1: "docker_Stop E await s = (Inr (), s1)" "da_status s1 = da_status s" "da_cid s1 = da_cid s" "\<not> da_running s1"
    "da_deps s1 = da_deps s"
    by (rule Stop_idle [OF assms(3)])
  have "tracker_inv (da_status s1)" using assms(2) s1(2) by simp
  from on_status_set [OF this, of "Set StatusRemoving" StatusRemoving FailureNone]
  obtain k where k: "on_status (Set StatusRemoving) s1 = (Inr (), s1\<lparr>da_status := k\<rparr>)" "tracker_inv k" "Get k = StatusRemoving"
    by (auto simp: Set_def fun_eq_iff)
  obtain x s2 where c: "remove_container E (s1\<lparr>da_status := k\<rparr>) = (x, s2)" by fastforce
  note cc = remove_container_cases [OF c]
  have rest: "(case x of Inl e \<Rightarrow> (Inl e, s2) | Inr _ \<Rightarrow> sm_then (remove_tree E) (on_status (Set StatusRemoved)) s2) = (r, s')"
    using assms(1) s1(1) k(1) c by (auto simp: docker_Remove_def sm_then_def sm_bind_def split: sum.splits)
  show ?thesis
  proof (cases x)
    case (Inl e)
    then show ?thesis using rest cc k s1 by auto
  next
    case (Inr u)
    then have c2: "da_status s2 = k" "\<not> da_running s2" "da_cid s2 = []" using cc s1 by auto
    show ?thesis
    proof (cases "dv_removeall E")
      case None
      let ?s = "s2\<lparr>da_calls := da_calls s2 @ [DRemoveAll True]\<rparr>"
      have "tracker_inv (da_status ?s)" using c2(1) k(2) by simp
      from on_status_set [OF this, of "Set StatusRemoved" StatusRemoved FailureNone]
      obtain q where "on_status (Set StatusRemoved) ?s = (Inr (), ?s\<lparr>da_status := q\<rparr>)" "tracker_inv q" "Get q = StatusRemoved"
        by (auto simp: Set_def fun_eq_iff)
      then show ?thesis using rest Inr None c2 by (auto simp: remove_tree_def sm_then_def sm_bind_def)
    next
      case (Some msg)
      then show ?thesis using rest Inr c2 k by (auto simp: remove_tree_def sm_then_def sm_bind_def)
    qed
  qed
qed

text \<open>C18: the removal of a docker agent that is not running.  It ends removed, with its container forgotten and
  its tree deleted, or with an error and still removing; in the latter case a container that could
  not be removed is remembered.  Either way the agent can no longer be started, and a later
  removal succeeds as soon as the container can be removed or is gone and the tree can be deleted.\<close>

theorem docker_remove_final:
  assumes "docker_Remove E await s = (r, s')" "tracker_inv (da_status s)" "\<not> da_running s"
  shows "(case r of
       Inr _ \<Rightarrow> Get (da_status s') = StatusRemoved \<and> da_cid s' = [] \<and> last (da_calls s') = DRemoveAll True
     | Inl e \<Rightarrow> Get (da_status s') = StatusRemoving \<and> (\<forall>cid msg. e = DErrRemove cid msg \<longrightarrow> cid = da_cid s \<and> da_cid s' = da_cid s)) \<and>
    (\<forall>E'. docker_Start E' s' = (Inl DErrRemoved, s')) \<and>
    (\<forall>E' await'. dv_removeall E' = None \<and> (\<forall>cid w msg. fst (mo_remove (dv_client E') cid w) \<noteq> Some (RemoveErr msg)) \<longrightarrow>
       fst (docker_Remove E' await' s') = Inr ())"
proof -
  note here = Remove_idle [OF assms]
  have "Get (da_status s') \<in> {StatusRemoving, StatusRemoved}" using here by auto
  then have "docker_Start E' s' = (Inl DErrRemoved, s')" for E' by (rule Start_removed)
  moreover have "fst (docker_Remove E' await' s') = Inr ()"
    if "dv_removeall E' = None" "\<forall>cid w msg. fst (mo_remove (dv_client E') cid w) \<noteq> Some (RemoveErr msg)" for E' await'
  proof -
    obtain x t where x: "docker_Remove E' await' s' = (x, t)" by fastforce
    have "tracker_inv (da_status s')" "\<not> da_running s'" using here by auto
    from Remove_idle [OF x this] show ?thesis using that x by auto
  qed
  ultimately show ?thesis using here by auto
qed


text \<open>When the log stream cannot be opened, because the context is already cancelled or the daemon fails, the run
  ends with an error and the container is left running.\<close>

lemma wait_without_logs:
  assumes "da_cid s \<noteq> []" "fst (mo_logs (dv_client E) (da_cid s) (da_world s)) = Some msg"
  shows "fst (wait E s) = Inl (DErrLogs msg) \<and> da_calls (snd (wait E s)) = da_calls s @ [DLogs (da_cid s) False]"
  using assms by (auto simp: wait_def client_call_def sm_bind_def Let_def split: prod.splits)


section \<open>Witnesses\<close>

definition demo_moby :: "(unit, string) moby" where
  "demo_moby =
    \<lparr>mo_inspect = (\<lambda>_ _. (True, ())), mo_pull = (\<lambda>_ _ _. (None, ())), mo_create = (\<lambda>_ _ _ _. (Inr ''c1'', ())),
     mo_start = (\<lambda>_ _. (None, ())), mo_stop = (\<lambda>_ _. ()), mo_remove = (\<lambda>_ _. (Some NotFoundErr, ())), mo_logs = (\<lambda>_ _. (None, ())),
     mo_exit = (\<lambda>_ _. (Inr (Some 137), ()))\<rparr>"

definition demo_denv :: "(unit, string) denv" where
  "demo_denv =
    \<lparr>dv_client = demo_moby, dv_auth = \<lparr>au_home = None, au_read = (\<lambda>_. None), au_unmarshal = (\<lambda>_. None), au_marshal = (\<lambda>_. None), au_order = sorted_keys\<rparr>,
     dv_lib = ascii_lib, dv_port = (\<lambda>p. p), dv_order = sorted_keys, dv_cancel = None, dv_removeall = None\<rparr>"

definition demo_agent :: "configCache \<Rightarrow> (unit, unit) dagent" where
  "demo_agent cache = (new_docker_agent demo_deps demo_state cache ())\<lparr>da_init := True, da_rt := Some demo_job_rt\<rparr>"

lemma endRun_ok:
  assumes "tracker_inv (da_status s)"
  shows "\<exists>s'. docker_endRun s = (Inr (), s') \<and> da_calls s' = da_calls s"
proof -
  obtain t where "setLocked StatusStopped FailureNone (da_status s) = Inr t" using setLocked_ok [OF assms] by blast
  then show ?thesis by (auto simp: docker_endRun_def on_status_def SetUnless_def)
qed

lemma demo_agent_idle: "tracker_inv (da_status (demo_agent c)) \<and> \<not> da_running (demo_agent c) \<and> da_calls (demo_agent c) = []"
  by (simp add: demo_agent_def new_docker_agent_def NewStatusTracker_inv)

lemma demo_setLocked:
  "setLocked st reason NewStatusTracker =
     Inr (broadcast st (NewStatusTracker\<lparr>tk_status := st, tk_failure := (if st = StatusFailed then reason else FailureNone)\<rparr>))"
  by (rule setLocked_ok [OF NewStatusTracker_inv])

lemma demo_image_refs: "image_refs demo_deps demo_job_rt = [''base'', ''rt:1'', ''jq:1'']"
  by (simp add: image_refs_def demo_deps_def demo_job_rt_def runtimeRef_def)

text \<open>The agent's container crashes with code 137.\<close>

lemma demo_docker_run:
  "\<exists>s'. docker_Run demo_denv (demo_agent c) = (Inl (DErrExit 137), s') \<and>
     da_calls s' = [DInspect ''base'' True, DInspect ''rt:1'' True, DInspect ''jq:1'' True,
       DRemoveContainer ''otters-1'' False, DCreate (container_spec demo_deps demo_job_rt) True, DStart ''c1'' True, DLogs ''c1'' True, DExit ''c1'']"
proof -
  have name: "cs_name (container_spec demo_deps demo_job_rt) = ''otters-1''" by (simp add: container_spec_def demo_deps_def)
  have f: "da_rt (demo_agent c) = Some demo_job_rt" "da_deps (demo_agent c) = demo_deps" "da_init (demo_agent c)" "\<not> da_running (demo_agent c)"
    "da_calls (demo_agent c) = []"
    by (simp_all add: demo_agent_def new_docker_agent_def)
  have set: "\<exists>t. on_status (Set st) s = (Inr (), s\<lparr>da_status := t\<rparr>) \<and> tracker_inv t" if "tracker_inv (da_status s)" for st and s :: "(unit, unit) dagent"
    using on_status_set [OF that, of "Set st" st FailureNone] by (auto simp: Set_def fun_eq_iff)
  let ?b = "(demo_agent c)\<lparr>da_running := True, da_cancelled := False\<rparr>"
  obtain t where t: "on_status (Set StatusPulling) ?b = (Inr (), ?b\<lparr>da_status := t\<rparr>)" "tracker_inv t"
    using set [of ?b] demo_agent_idle by auto
  let ?p = "?b\<lparr>da_status := t, da_calls := [DInspect ''base'' True, DInspect ''rt:1'' True, DInspect ''jq:1'' True]\<rparr>"
  obtain q where q: "on_status (Set StatusStarting) ?p = (Inr (), ?p\<lparr>da_status := q\<rparr>)" "tracker_inv q" using set [of ?p] t(2) by auto
  have "ensureImagesPulled demo_denv (?b\<lparr>da_status := t\<rparr>) = (Inr (), ?p)"
    using f by (simp add: ensureImagesPulled_def demo_image_refs ensure_image_def imageCached_def client_call_def demo_denv_def demo_moby_def
        sm_defs)
  then have "run_body demo_denv ?b = launch demo_denv (?p\<lparr>da_status := q\<rparr>)"
    using t q f by (simp add: run_body_eq pull_and_launch_def or_fail_def docker_Prepare_def sm_then_def sm_bind_def)
  moreover have "\<exists>s'. launch demo_denv (?p\<lparr>da_status := q\<rparr>) = (Inl (DErrExit 137), s') \<and> da_calls s' = da_calls ?p @
      [DRemoveContainer ''otters-1'' False, DCreate (container_spec demo_deps demo_job_rt) True, DStart ''c1'' True, DLogs ''c1'' True, DExit ''c1'']"
    using f by (simp add: launch_def or_fail_def create_def create_container_def removeOrphanContainer_def start_def wait_def exitCode_def
        client_call_def docker_fail_def demo_denv_def demo_moby_def sm_defs ctx_done_def name Let_def)
  ultimately obtain s1 where s1: "run_body demo_denv ?b = (Inl (DErrExit 137), s1)" "da_calls s1 = da_calls ?p @
      [DRemoveContainer ''otters-1'' False, DCreate (container_spec demo_deps demo_job_rt) True, DStart ''c1'' True, DLogs ''c1'' True, DExit ''c1'']"
    by auto
  have "tracker_inv (da_status ?b)" using demo_agent_idle by simp
  then have "tracker_inv (da_status s1)" using run_body_reported [OF s1(1)] by (simp add: reported_def)
  from endRun_ok [OF this] show ?thesis
    using s1 f by (auto simp: docker_Run_def docker_beginRun_def sm_then_def sm_bind_def)
qed

theorem docker_run_settles_witness:
  "\<exists>s'. docker_Run demo_denv (demo_agent None) = (Inl (DErrExit 137), s') \<and> Get (da_status s') = StatusStopped \<and> \<not> da_running s'"
proof -
  obtain s' where run: "docker_Run demo_denv (demo_agent None) = (Inl (DErrExit 137), s')"
    using demo_docker_run by blast
  from docker_run_settles [OF run] show ?thesis using run demo_agent_idle by auto
qed

theorem docker_run_images_first_witness:
  "\<exists>s'. docker_Run demo_denv (demo_agent None) = (Inl (DErrExit 137), s') \<and> da_cid s' = ''c1''"
proof -
  let ?c = "demo_agent None" and ?spec = "container_spec demo_deps demo_job_rt"
  let ?pre = "[DInspect ''base'' True, DInspect ''rt:1'' True, DInspect ''jq:1'' True, DRemoveContainer ''otters-1'' False]"
  obtain s' where run: "docker_Run demo_denv ?c = (Inl (DErrExit 137), s')"
    and calls: "da_calls s' = ?pre @ DCreate ?spec True # [DStart ''c1'' True, DLogs ''c1'' True, DExit ''c1'']"
    using demo_docker_run [of None] by auto
  have idle: "tracker_inv (da_status ?c)" "\<not> da_running ?c" "da_calls ?c = []" using demo_agent_idle by blast+
  from docker_run_images_first [OF run idle calls] show ?thesis using run by auto
qed

theorem docker_remove_final_witness:
  "Get (da_status (snd (docker_Remove demo_denv (\<lambda>s. (True, s)) (demo_agent None)))) \<in> {StatusRemoving, StatusRemoved} \<and>
   docker_Start demo_denv (snd (docker_Remove demo_denv (\<lambda>s. (True, s)) (demo_agent None))) =
     (Inl DErrRemoved, snd (docker_Remove demo_denv (\<lambda>s. (True, s)) (demo_agent None)))"
proof -
  obtain r s' where rm: "docker_Remove demo_denv (\<lambda>s. (True, s)) (demo_agent None) = (r, s')" by fastforce
  have idle: "tracker_inv (da_status (demo_agent None))" "\<not> da_running (demo_agent None)"
    using demo_agent_idle by blast+
  from docker_remove_final [OF rm idle] show ?thesis by (auto simp: rm split: sum.splits)
qed

end
