(* ===== verification/Agent_Contract.thy ===== *)
theory Agent_Contract
  imports System_Run Docker_Agent
begin

text \<open>
  The contract of \<^verbatim>\<open>executor/agent.go\<close> that callers of an agent rely on, whichever backend it runs on: what
  Run, Start, Stop and Remove leave behind when they are called one after another.  The contract is a locale over the
  operations and the status; the agents of both backends satisfy it, so what is derived from it once holds
  for both.
\<close>


section \<open>Operations\<close>

text \<open>The methods by whether they succeed and what they leave; \<open>'e\<close> is the environment of one call.\<close>

record ('e, 's) agent_ops =
  ao_status :: "'s \<Rightarrow> Status"
  ao_run :: "'e \<Rightarrow> 's \<Rightarrow> bool \<times> 's"
  ao_start :: "'e \<Rightarrow> 's \<Rightarrow> bool \<times> 's"
  ao_stop :: "'e \<Rightarrow> 's \<Rightarrow> bool \<times> 's"
  ao_remove :: "'e \<Rightarrow> 's \<Rightarrow> bool \<times> 's"

fun agent_call :: "('e, 's) agent_ops \<Rightarrow> call \<Rightarrow> 'e \<Rightarrow> 's \<Rightarrow> bool \<times> 's" where
  "agent_call A CallRun = ao_run A"
| "agent_call A CallStart = ao_start A"
| "agent_call A CallStop = ao_stop A"
| "agent_call A CallRemove = ao_remove A"

primrec agent_calls :: "('e, 's) agent_ops \<Rightarrow> ('e \<times> call) list \<Rightarrow> 's \<Rightarrow> bool list \<times> 's" where
  "agent_calls A [] s = ([], s)"
| "agent_calls A (ec # cs) s =
    (let (ok, s1) = agent_call A (snd ec) (fst ec) s; (oks, s2) = agent_calls A cs s1 in (ok # oks, s2))"

abbreviation removal :: "Status \<Rightarrow> bool" where
  "removal st \<equiv> st \<in> {StatusRemoving, StatusRemoved}"

abbreviation startable :: "Status \<Rightarrow> bool" where
  "startable st \<equiv> st \<in> {StatusStopped, StatusFailed}"


section \<open>Contract\<close>

text \<open>\<open>rest\<close> is the condition of an agent between calls.\<close>

locale agent_contract =
  fixes A :: "('e, 's) agent_ops" and rest :: "'s \<Rightarrow> bool"
  assumes run_settles: "rest s \<Longrightarrow> ao_run A e s = (ok, s') \<Longrightarrow> rest s' \<and> startable (ao_status A s')"
    and start_refused: "rest s \<Longrightarrow> \<not> startable (ao_status A s) \<Longrightarrow> ao_start A e s = (False, s)"
    and start_settles: "rest s \<Longrightarrow> startable (ao_status A s) \<Longrightarrow> ao_start A e s = (ok, s') \<Longrightarrow> rest s' \<and> startable (ao_status A s')"
    and stop_harmless: "rest s \<Longrightarrow> ao_stop A e s = (ok, s') \<Longrightarrow> ok \<and> rest s' \<and> ao_status A s' = ao_status A s"
    and remove_settles: "rest s \<Longrightarrow> ao_remove A e s = (ok, s') \<Longrightarrow>
      rest s' \<and> ao_status A s' = (if ok then StatusRemoved else StatusRemoving)"
begin

lemma start_cases:
  assumes "rest s" "ao_start A e s = (ok, s')"
  shows "rest s' \<and> (if startable (ao_status A s) then startable (ao_status A s') else \<not> ok \<and> s' = s)"
  using assms start_refused [OF assms(1), of e] start_settles [OF assms(1) _ assms(2)]
  by (cases "startable (ao_status A s)") auto

lemma call_cases:
  assumes "rest s" "agent_call A c e s = (ok, s')"
  shows "rest s' \<and> (ao_status A s' = ao_status A s \<or> startable (ao_status A s') \<or> removal (ao_status A s')) \<and>
    (removal (ao_status A s) \<longrightarrow> c \<noteq> CallRun \<longrightarrow> removal (ao_status A s') \<and> (c = CallStart \<longrightarrow> \<not> ok))"
proof (cases c)
  case CallRun
  then show ?thesis using assms(2) by (auto dest: run_settles [OF assms(1)])
next
  case CallStart
  then show ?thesis using assms(2) by (auto dest: start_cases [OF assms(1)] split: if_splits)
next
  case CallStop
  then show ?thesis using assms(2) by (auto dest: stop_harmless [OF assms(1)])
next
  case CallRemove
  then show ?thesis using assms(2) remove_settles [OF assms(1), of e ok s'] by (auto split: if_splits)
qed

text \<open>Between calls an agent is new, or stopped, failed or removed: no call leaves it in a status of a run.\<close>

lemma calls_settle:
  assumes "rest s" "agent_calls A cs s = (oks, s')"
  shows "rest s' \<and> (ao_status A s' = ao_status A s \<or> startable (ao_status A s') \<or> removal (ao_status A s'))"
  using assms
proof (induction cs arbitrary: s oks)
  case (Cons ec cs)
  obtain ok s1 where c: "agent_call A (snd ec) (fst ec) s = (ok, s1)" by (cases "agent_call A (snd ec) (fst ec) s")
  obtain oks1 where "agent_calls A cs s1 = (oks1, s')" using Cons.prems(2) c by (auto split: prod.splits)
  then show ?case using Cons.IH [of s1] call_cases [OF Cons.prems(1) c] by auto
qed simp

text \<open>Removal is final for callers that do not call Run.\<close>

lemma calls_removed:
  assumes "rest s" "removal (ao_status A s)" "CallRun \<notin> snd ` set cs" "agent_calls A cs s = (oks, s')"
  shows "removal (ao_status A s') \<and> list_all2 (\<lambda>ec ok. snd ec = CallStart \<longrightarrow> \<not> ok) cs oks"
  using assms
proof (induction cs arbitrary: s oks)
  case (Cons ec cs)
  obtain ok s1 where c: "agent_call A (snd ec) (fst ec) s = (ok, s1)" by (cases "agent_call A (snd ec) (fst ec) s")
  obtain oks1 where o: "agent_calls A cs s1 = (oks1, s')" "oks = ok # oks1" using Cons.prems(4) c by (auto split: prod.splits)
  have "snd ec \<noteq> CallRun" "CallRun \<notin> snd ` set cs" using Cons.prems(3) by auto
  then show ?case using Cons.IH [OF _ _ _ o(1)] call_cases [OF Cons.prems(1) c] Cons.prems(2) o(2) by auto
qed simp

end


section \<open>Backends\<close>

definition outcome :: "('e, 'a) res \<times> 's \<Rightarrow> bool \<times> 's" where
  "outcome r = (is_ok (fst r), snd r)"

text \<open>Nobody else runs the agent: there is nothing for Stop to wait for.\<close>

definition system_ops :: "(senv, 's live) agent_ops" where
  "system_ops =
    \<lparr>ao_status = (\<lambda>l. Get (live_tracker l)),
     ao_run = (\<lambda>E l. outcome (system_Run E l)), ao_start = (\<lambda>E l. outcome (system_Start E l)),
     ao_stop = (\<lambda>E l. outcome (system_Stop (\<lambda>l. (False, l)) l)),
     ao_remove = (\<lambda>E l. outcome (system_Remove E (\<lambda>l. (False, l)) l))\<rparr>"

definition docker_ops :: "(('d, 'p) denv, ('s, 'd) dagent) agent_ops" where
  "docker_ops =
    \<lparr>ao_status = (\<lambda>s. Get (da_status s)),
     ao_run = (\<lambda>E s. outcome (docker_Run E s)), ao_start = (\<lambda>E s. outcome (docker_Start E s)),
     ao_stop = (\<lambda>E s. outcome (docker_Stop E (\<lambda>s. (False, s)) s)),
     ao_remove = (\<lambda>E s. outcome (docker_Remove E (\<lambda>s. (False, s)) s))\<rparr>"

definition docker_rest :: "('s, 'd) dagent \<Rightarrow> bool" where
  "docker_rest s \<longleftrightarrow> tracker_inv (da_status s) \<and> \<not> da_running s"

lemma outcomeD: "outcome p = (ok, s') \<Longrightarrow> \<exists>r. p = (r, s') \<and> ok = is_ok r"
  by (cases p) (simp add: outcome_def)

lemma docker_run_rest:
  assumes "docker_rest s" "docker_Run E s = (r, s')"
  shows "docker_rest s' \<and> startable (Get (da_status s'))"
  by (rule Run_settled [OF assms(2)]) (use assms(1) in \<open>simp_all add: docker_rest_def\<close>)

lemma docker_start_cases:
  "docker_Start E s = (if startable (Get (da_status s)) then docker_Run E s
    else (Inl (if removal (Get (da_status s)) then DErrRemoved else DErrAlreadyRunning), s))"
  by (cases "Get (da_status s)") (simp_all add: docker_Start_def)

lemma docker_op_simps:
  "ao_status docker_ops s = Get (da_status s)" "ao_run docker_ops E s = outcome (docker_Run E s)"
  "ao_start docker_ops E s = outcome (docker_Start E s)" "ao_stop docker_ops E s = outcome (docker_Stop E (\<lambda>s. (False, s)) s)"
  "ao_remove docker_ops E s = outcome (docker_Remove E (\<lambda>s. (False, s)) s)"
  by (simp_all add: docker_ops_def)

interpretation docker_agent: agent_contract docker_ops docker_rest
proof (unfold_locales, unfold docker_op_simps)
  fix s s' :: "('s, 'd) dagent" and E :: "('d, 'p) denv" and ok
  assume rest: "docker_rest s"
  show run: "docker_rest s' \<and> startable (Get (da_status s'))" if "outcome (docker_Run E s) = (ok, s')"
    using outcomeD [OF that] by (auto dest: docker_run_rest [OF rest])
  show "outcome (docker_Start E s) = (False, s)" if "\<not> startable (Get (da_status s))"
    using that by (simp add: docker_start_cases outcome_def)
  show "docker_rest s' \<and> startable (Get (da_status s'))" if "startable (Get (da_status s))" "outcome (docker_Start E s) = (ok, s')"
    using that(2) run unfolding docker_start_cases if_P [OF that(1)] by blast
  show "ok \<and> docker_rest s' \<and> Get (da_status s') = Get (da_status s)" if "outcome (docker_Stop E (\<lambda>s. (False, s)) s) = (ok, s')"
  proof -
    have "\<not> da_running s" using rest by (simp add: docker_rest_def)
    then obtain s1 where "docker_Stop E (\<lambda>s. (False, s)) s = (Inr (), s1)" "da_status s1 = da_status s" "\<not> da_running s1"
      by (rule Stop_idle)
    then show ?thesis using that rest by (auto simp: outcome_def docker_rest_def)
  qed
  show "docker_rest s' \<and> Get (da_status s') = (if ok then StatusRemoved else StatusRemoving)"
    if del: "outcome (docker_Remove E (\<lambda>s. (False, s)) s) = (ok, s')"
  proof -
    obtain r where r: "docker_Remove E (\<lambda>s. (False, s)) s = (r, s')" "ok = is_ok r" using outcomeD [OF del] by blast
    from Remove_idle [OF r(1)] show ?thesis using rest r(2) by (auto simp: docker_rest_def)
  qed
qed

lemma system_run_rest:
  assumes "idle l" "system_Run E l = (r, l')"
  shows "idle l' \<and> startable (Get (live_tracker l'))"
proof -
  have "settled E l r l'" using system_Run_settled [OF assms(2)] assms(1) by (simp add: idle_def)
  moreover have "described (lv_agent l')" using Run_described [of l E] assms by (simp add: idle_def)
  ultimately show ?thesis by (auto simp: settled_def idle_def split: if_splits)
qed

lemma system_op_simps:
  "ao_status system_ops l = Get (live_tracker l)" "ao_run system_ops E l = outcome (system_Run E l)"
  "ao_start system_ops E l = outcome (system_Start E l)" "ao_stop system_ops E l = outcome (system_Stop (\<lambda>l. (False, l)) l)"
  "ao_remove system_ops E l = outcome (system_Remove E (\<lambda>l. (False, l)) l)"
  by (simp_all add: system_ops_def)

interpretation system_agent: agent_contract system_ops idle
proof (unfold_locales, unfold system_op_simps)
  fix l l' :: "'s live" and E ok
  assume rest: "idle l"
  show "idle l' \<and> startable (Get (live_tracker l'))" if "outcome (system_Run E l) = (ok, l')"
    using outcomeD [OF that] by (auto dest: system_run_rest [OF rest])
  show "outcome (system_Start E l) = (False, l)" if refused: "\<not> startable (Get (live_tracker l))"
  proof -
    obtain r l1 where r: "system_Start E l = (r, l1)" by (cases "system_Start E l")
    from rest r show ?thesis by (cases rule: system_Start_cases) (use refused r in \<open>auto simp: outcome_def\<close>)
  qed
  show "idle l' \<and> startable (Get (live_tracker l'))"
    if go: "startable (Get (live_tracker l))" "outcome (system_Start E l) = (ok, l')"
  proof -
    obtain r where r: "system_Start E l = (r, l')" using outcomeD [OF go(2)] by blast
    from rest r show ?thesis
    proof (cases rule: system_Start_cases)
      case (3 l1)
      show ?thesis by (rule system_run_rest [OF 3(2,4)])
    qed (use go(1) in \<open>auto simp: live_view_def\<close>)
  qed
  show "ok \<and> idle l' \<and> Get (live_tracker l') = Get (live_tracker l)" if "outcome (system_Stop (\<lambda>l. (False, l)) l) = (ok, l')"
    using that rest by (auto simp: outcome_def system_Stop_def idle_def)
  show "idle l' \<and> Get (live_tracker l') = (if ok then StatusRemoved else StatusRemoving)"
    if del: "outcome (system_Remove E (\<lambda>l. (False, l)) l) = (ok, l')"
  proof -
    obtain r where r: "system_Remove E (\<lambda>l. (False, l)) l = (r, l')" "ok = is_ok r" using outcomeD [OF del] by blast
    from system_Remove_cases [OF rest r(1)] show ?thesis using r(2) by (auto simp: live_view_def)
  qed
qed


section \<open>Properties\<close>



end
