(* ===== verification/Os_Process.thy ===== *)
theory Os_Process
  imports System_Agent Docker_Exec
begin

text \<open>
  The adapter from the supervisor to operating-system processes (\<^verbatim>\<open>executor/system/exec.go\<close>): how a command is
  built and wired, what Signal and Kill do before the start, while the process runs and after it is gone.  Processes are a
  table from their number to their group, with fork, exit and change of group as its steps; the calls of
  \<^verbatim>\<open>os/exec\<close> and \<^verbatim>\<open>syscall\<close> are modelled on it.
\<close>


section \<open>Processes\<close>

text \<open>The processes that are not yet gone and reaped, with their groups, and the number the next process gets; numbers
  are not used again.\<close>

record os_table =
  ot_groups :: "(nat, nat) gomap"
  ot_next :: nat

datatype os_event = Fork nat | Exit nat | Setpgid nat nat

text \<open>A child is born in the group of its parent.\<close>

fun os_step :: "os_event \<Rightarrow> os_table \<Rightarrow> os_table" where
  "os_step (Fork p) t =
    (case fmlookup (ot_groups t) p of
       None \<Rightarrow> t
     | Some g \<Rightarrow> t\<lparr>ot_groups := fmupd (ot_next t) g (ot_groups t), ot_next := Suc (ot_next t)\<rparr>)"
| "os_step (Exit p) t = t\<lparr>ot_groups := fmdrop p (ot_groups t)\<rparr>"
| "os_step (Setpgid p g) t =
    (case fmlookup (ot_groups t) p of None \<Rightarrow> t | Some _ \<Rightarrow> t\<lparr>ot_groups := fmupd p g (ot_groups t)\<rparr>)"

text \<open>\<^verbatim>\<open>syscall.Kill\<close> of a group with SIGKILL, which cannot be caught, and of one process.\<close>

definition kill_group :: "nat \<Rightarrow> os_table \<Rightarrow> string option \<times> os_table" where
  "kill_group g t =
    (if fBex (fmdom (ot_groups t)) (\<lambda>p. fmlookup (ot_groups t) p = Some g)
     then (None, t\<lparr>ot_groups := fmfilter (\<lambda>p. fmlookup (ot_groups t) p \<noteq> Some g) (ot_groups t)\<rparr>)
     else (Some ''no such process'', t))"

definition kill_process :: "nat \<Rightarrow> os_table \<Rightarrow> string option \<times> os_table" where
  "kill_process p t =
    (case fmlookup (ot_groups t) p of
       None \<Rightarrow> (Some ''os: process already finished'', t)
     | Some _ \<Rightarrow> (None, t\<lparr>ot_groups := fmdrop p (ot_groups t)\<rparr>))"


section \<open>Commands\<close>

record oscmd =
  oc_name :: string
  oc_args :: "string list"
  oc_setpgid :: bool
  oc_stdout :: "stream_writer option"
  oc_stderr :: "stream_writer option"
  oc_env :: "string list"
  oc_dir :: string
  oc_process :: "nat option"

definition defaultSpawner_Command :: "string \<Rightarrow> string list \<Rightarrow> oscmd" where
  "defaultSpawner_Command name args =
    \<lparr>oc_name = name, oc_args = args, oc_setpgid = True, oc_stdout = None, oc_stderr = None, oc_env = [], oc_dir = [], oc_process = None\<rparr>"

definition SetStdout :: "stream_writer \<Rightarrow> oscmd \<Rightarrow> oscmd" where
  "SetStdout w c = c\<lparr>oc_stdout := Some w\<rparr>"

definition SetStderr :: "stream_writer \<Rightarrow> oscmd \<Rightarrow> oscmd" where
  "SetStderr w c = c\<lparr>oc_stderr := Some w\<rparr>"

definition SetEnv :: "string list \<Rightarrow> oscmd \<Rightarrow> oscmd" where
  "SetEnv env c = c\<lparr>oc_env := env\<rparr>"

definition SetDir :: "string \<Rightarrow> oscmd \<Rightarrow> oscmd" where
  "SetDir dir c = c\<lparr>oc_dir := dir\<rparr>"

text \<open>\<^verbatim>\<open>process.command\<close> with the spawner of the package.\<close>

definition process_command :: "lib \<Rightarrow> Runtime \<Rightarrow> string \<Rightarrow> string \<Rightarrow> string \<Rightarrow> stream_writer \<Rightarrow> stream_writer \<Rightarrow> oscmd" where
  "process_command L rt rootDir daemonURL agentToken stdout stderr =
    (let c = defaultSpawner_Command (JoinPath [rootDir, RuntimeBin]) (buildCmdArgs (runtime_config rt) rootDir);
         c = SetStdout stdout c;
         c = SetStderr stderr c;
         c = SetEnv (buildCmdEnv L (runtime_config rt) rootDir daemonURL agentToken) c
     in SetDir (JoinPath [rootDir, ''workspace'']) c)"

text \<open>A started command is a process in a group of its own; \<open>fails\<close> is the error of a start that fails.\<close>

definition cmd_Start :: "string option \<Rightarrow> nat \<Rightarrow> oscmd \<Rightarrow> os_table \<Rightarrow> string option \<times> oscmd \<times> os_table" where
  "cmd_Start fails self c t =
    (case (fails, oc_process c) of
       (Some e, _) \<Rightarrow> (Some e, c, t)
     | (None, Some _) \<Rightarrow> (Some ''exec: already started'', c, t)
     | (None, None) \<Rightarrow>
         (let pid = ot_next t; g = (if oc_setpgid c then pid else self)
          in (None, c\<lparr>oc_process := Some pid\<rparr>, t\<lparr>ot_groups := fmupd pid g (ot_groups t), ot_next := Suc pid\<rparr>)))"

definition cmd_Signal :: "oscmd option \<Rightarrow> os_table \<Rightarrow> string option" where
  "cmd_Signal c t =
    (case c of
       None \<Rightarrow> Some ''process not started''
     | Some c \<Rightarrow>
         (case oc_process c of
            None \<Rightarrow> Some ''process not started''
          | Some pid \<Rightarrow> (if fmlookup (ot_groups t) pid = None then Some ''os: process already finished'' else None)))"

definition cmd_Kill :: "oscmd option \<Rightarrow> os_table \<Rightarrow> string option \<times> os_table" where
  "cmd_Kill c t =
    (case c of
       None \<Rightarrow> (Some ''process not started'', t)
     | Some c \<Rightarrow>
         (case oc_process c of
            None \<Rightarrow> (Some ''process not started'', t)
          | Some pid \<Rightarrow>
              (case kill_group pid t of
                 (None, t1) \<Rightarrow> (None, t1)
               | (Some _, t1) \<Rightarrow> kill_process pid t1)))"


section \<open>What the calls do\<close>

text \<open>The wiring gives the command that the agent's model hands to its spawner.\<close>

lemma command_wired:
  assumes "system_command L a = Some cmd" "sa_rt a = Some rt"
    "c = process_command L rt (sa_root a) (sa_url a) (sa_token a) (sa_stdout a) (sa_stderr a)"
  shows "oc_name c = jc_path cmd \<and> oc_args c = jc_args cmd \<and> oc_env c = jc_env cmd \<and> oc_dir c = jc_dir cmd \<and>
    oc_stdout c = Some (pc_stdout cmd) \<and> oc_stderr c = Some (pc_stderr cmd) \<and> oc_setpgid c \<and> oc_process c = None"
  using assms(1,2) unfolding assms(3)
  by (auto simp: system_command_def process_command_def defaultSpawner_Command_def SetStdout_def SetStderr_def SetEnv_def SetDir_def Let_def)

definition os_wf :: "os_table \<Rightarrow> bool" where
  "os_wf t \<longleftrightarrow> (\<forall>p g. fmlookup (ot_groups t) p = Some g \<longrightarrow> p < ot_next t)"

text \<open>The processes born to those in \<open>S\<close>, directly or not.\<close>

fun family :: "os_event list \<Rightarrow> os_table \<Rightarrow> nat set \<Rightarrow> nat set" where
  "family [] t S = S"
| "family (Fork p # es) t S =
    family es (os_step (Fork p) t) (if p \<in> S \<and> fmlookup (ot_groups t) p \<noteq> None then insert (ot_next t) S else S)"
| "family (Exit p # es) t S = family es (os_step (Exit p) t) S"
| "family (Setpgid p g # es) t S = family es (os_step (Setpgid p g) t) S"

abbreviation os_run :: "os_event list \<Rightarrow> os_table \<Rightarrow> os_table" where
  "os_run es t \<equiv> fold os_step es t"

fun regroups :: "os_event \<Rightarrow> bool" where
  "regroups (Setpgid p g) = True"
| "regroups _ = False"

lemma os_step_wf: "os_wf t \<Longrightarrow> os_wf (os_step e t)"
  by (cases e) (auto simp: os_wf_def less_Suc_eq split: option.splits if_splits)

text \<open>Without a change of group a family stays in the group it started in.\<close>

lemma family_grouped:
  assumes "os_wf t" "\<forall>p \<in> S. p < ot_next t \<and> (\<forall>g. fmlookup (ot_groups t) p = Some g \<longrightarrow> g = g0)" "list_all (\<lambda>e. \<not> regroups e) es"
  shows "\<forall>p \<in> family es t S. \<forall>g. fmlookup (ot_groups (os_run es t)) p = Some g \<longrightarrow> g = g0"
  using assms
proof (induction es t S rule: family.induct)
  case (2 p es t S)
  let ?t = "os_step (Fork p) t" and ?S = "if p \<in> S \<and> fmlookup (ot_groups t) p \<noteq> None then insert (ot_next t) S else S"
  have S: "\<forall>q \<in> ?S. q < ot_next ?t \<and> (\<forall>g. fmlookup (ot_groups ?t) q = Some g \<longrightarrow> g = g0)"
  proof (cases "fmlookup (ot_groups t) p")
    case None
    then show ?thesis using "2.prems"(2) by simp
  next
    case (Some g)
    have t: "?t = t\<lparr>ot_groups := fmupd (ot_next t) g (ot_groups t), ot_next := Suc (ot_next t)\<rparr>" using Some by simp
    show ?thesis
    proof
      fix q assume q: "q \<in> ?S"
      show "q < ot_next ?t \<and> (\<forall>g. fmlookup (ot_groups ?t) q = Some g \<longrightarrow> g = g0)"
      proof (cases "q \<in> S")
        case True
        then have "q < ot_next t" "\<forall>g. fmlookup (ot_groups t) q = Some g \<longrightarrow> g = g0" using "2.prems"(2) by blast+
        then show ?thesis unfolding t by simp
      next
        case False
        then have "q = ot_next t" "p \<in> S" using q by (auto split: if_splits)
        then show ?thesis using "2.prems"(2) Some unfolding t by simp
      qed
    qed
  qed
  have "list_all (\<lambda>e. \<not> regroups e) es" using "2.prems"(3) by simp
  then show ?case unfolding family.simps fold_simps by (rule "2.IH" [OF os_step_wf [OF "2.prems"(1)] S])
next
  case (3 v es t S)
  have S: "\<forall>q \<in> S. q < ot_next (os_step (Exit v) t) \<and> (\<forall>g. fmlookup (ot_groups (os_step (Exit v) t)) q = Some g \<longrightarrow> g = g0)"
    using "3.prems"(2) by (auto split: if_splits)
  have "list_all (\<lambda>e. \<not> regroups e) es" using "3.prems"(3) by simp
  then show ?case unfolding family.simps fold_simps by (rule "3.IH" [OF os_step_wf [OF "3.prems"(1)] S])
qed simp_all

lemma kill_group_effect:
  assumes "kill_group g t = (e, t')"
  shows "\<forall>p. fmlookup (ot_groups t') p \<noteq> Some g" "fmlookup (ot_groups t) p \<noteq> Some g \<Longrightarrow> fmlookup (ot_groups t') p = fmlookup (ot_groups t) p"
  using assms by (auto simp: kill_group_def fmlookup_dom_iff split: if_splits)

lemma cmd_Kill_effect:
  assumes "cmd_Kill (Some c) t = (e, t')" "oc_process c = Some pid"
  shows "\<forall>p. fmlookup (ot_groups t') p \<noteq> Some pid"
    "p \<noteq> pid \<Longrightarrow> fmlookup (ot_groups t) p \<noteq> Some pid \<Longrightarrow> fmlookup (ot_groups t') p = fmlookup (ot_groups t) p"
    "fmlookup (ot_groups t') p = Some g \<Longrightarrow> fmlookup (ot_groups t) p = Some g"
proof -
  obtain x t1 where k: "kill_group pid t = (x, t1)" by (cases "kill_group pid t")
  have "(e, t') = (case x of None \<Rightarrow> (None, t1) | Some _ \<Rightarrow> kill_process pid t1)"
    using assms k by (simp add: cmd_Kill_def split: option.splits)
  then have t': "t' = t1 \<or> t' = t1\<lparr>ot_groups := fmdrop pid (ot_groups t1)\<rparr>" by (auto simp: kill_process_def split: option.splits)
  show "\<forall>p. fmlookup (ot_groups t') p \<noteq> Some pid" using t' kill_group_effect(1) [OF k] by (auto split: if_splits)
  show "fmlookup (ot_groups t') p = fmlookup (ot_groups t) p" if "p \<noteq> pid" "fmlookup (ot_groups t) p \<noteq> Some pid"
    using t' kill_group_effect(2) [OF k that(2)] that(1) by auto
  have "fmlookup (ot_groups t1) p \<noteq> None \<Longrightarrow> fmlookup (ot_groups t1) p = fmlookup (ot_groups t) p"
    using k by (auto simp: kill_group_def split: if_splits)
  then show "fmlookup (ot_groups t') p = Some g \<Longrightarrow> fmlookup (ot_groups t) p = Some g" using t' by (auto split: if_splits)
qed


section \<open>Properties\<close>

text \<open>C20: a force-kill takes the tools down with the runtime, and nothing else.  Let the command of the package's
  spawner be started and let processes come and go.  Kill leaves no process in the group of the runtime; so, as long as
  none changed its group, no process born to the runtime, directly or not, is left; and every process outside the group is
  as it was.  Before the start Signal and Kill fail and do nothing.\<close>

theorem kill_reaps_the_family:
  assumes "os_wf t" and "c = process_command L rt rootDir url token stdout stderr"
    and "cmd_Start None self c t = (e, c', t1)" and "cmd_Kill (Some c') (os_run es t1) = (e', t2)"
  shows "e = None \<and> (\<exists>pid. oc_process c' = Some pid \<and> pid = ot_next t \<and>
      (\<forall>p. fmlookup (ot_groups t2) p \<noteq> Some pid) \<and>
      (list_all (\<lambda>x. \<not> regroups x) es \<longrightarrow> (\<forall>p \<in> family es t1 {pid}. fmlookup (ot_groups t2) p = None)) \<and>
      (\<forall>p. p \<noteq> pid \<longrightarrow> fmlookup (ot_groups (os_run es t1)) p \<noteq> Some pid \<longrightarrow>
         fmlookup (ot_groups t2) p = fmlookup (ot_groups (os_run es t1)) p)) \<and>
    cmd_Signal (Some c) t = Some ''process not started'' \<and> cmd_Kill (Some c) t = (Some ''process not started'', t)"
proof -
  let ?pid = "ot_next t"
  have c: "oc_process c = None" "oc_setpgid c"
    by (simp_all add: assms(2) process_command_def defaultSpawner_Command_def SetStdout_def SetStderr_def SetEnv_def SetDir_def Let_def)
  have st: "e = None" "c' = c\<lparr>oc_process := Some ?pid\<rparr>" "t1 = t\<lparr>ot_groups := fmupd ?pid ?pid (ot_groups t), ot_next := Suc ?pid\<rparr>"
    using assms(3) c by (simp_all add: cmd_Start_def Let_def)
  have pid: "oc_process c' = Some ?pid" by (simp add: st(2))
  note eff = cmd_Kill_effect [OF assms(4) pid]
  have wf: "os_wf t1" using assms(1) by (auto simp: st(3) os_wf_def less_SucI)
  have fam: "fmlookup (ot_groups t2) p = None" if "list_all (\<lambda>x. \<not> regroups x) es" "p \<in> family es t1 {?pid}" for p
  proof (rule ccontr)
    assume "fmlookup (ot_groups t2) p \<noteq> None"
    then obtain g where g: "fmlookup (ot_groups t2) p = Some g" by blast
    have "g = ?pid" using family_grouped [OF wf _ that(1), of "{?pid}" ?pid] that(2) eff(3) [OF g] by (simp add: st(3))
    then show False using eff(1) g by simp
  qed
  show ?thesis using st(1) pid eff(1,2) fam c(1) by (auto simp: cmd_Signal_def cmd_Kill_def)
qed

definition demo_table :: os_table where
  "demo_table = \<lparr>ot_groups = fmupd 1 1 fmempty, ot_next = 10\<rparr>"

theorem kill_reaps_the_family_witness:
  "\<exists>c e' t1 t2. cmd_Start None 1 (process_command ascii_lib demo_job_rt ''/r'' [] [] OsStdout OsStderr) demo_table = (None, c, t1) \<and>
     cmd_Kill (Some c) (os_run [Fork 10, Fork 11, Exit 11] t1) = (e', t2) \<and> 12 \<in> family [Fork 10, Fork 11, Exit 11] t1 {10} \<and>
     fmlookup (ot_groups (os_run [Fork 10, Fork 11, Exit 11] t1)) 12 = Some 10 \<and> fmlookup (ot_groups t2) 12 = None \<and>
     fmlookup (ot_groups t2) 1 = Some 1"
proof -
  let ?c = "process_command ascii_lib demo_job_rt ''/r'' [] [] OsStdout OsStderr" and ?es = "[Fork 10, Fork 11, Exit 11]"
  obtain e c t1 where st: "cmd_Start None 1 ?c demo_table = (e, c, t1)" by (metis prod_cases3)
  obtain e' t2 where k: "cmd_Kill (Some c) (os_run ?es t1) = (e', t2)" by (cases "cmd_Kill (Some c) (os_run ?es t1)")
  have "os_wf demo_table" by (simp add: os_wf_def demo_table_def)
  note p = kill_reaps_the_family [OF this refl st k]
  have t1: "t1 = demo_table\<lparr>ot_groups := fmupd 10 10 (ot_groups demo_table), ot_next := 11\<rparr>"
    using st by (simp add: cmd_Start_def process_command_def defaultSpawner_Command_def SetStdout_def SetStderr_def SetEnv_def SetDir_def
        Let_def demo_table_def)
  have v: "12 \<in> family ?es t1 {10}" "fmlookup (ot_groups (os_run ?es t1)) 12 = Some 10" "fmlookup (ot_groups (os_run ?es t1)) 1 = Some 1"
    by (simp_all add: t1 demo_table_def)
  have "ot_next demo_table = 10" "list_all (\<lambda>x. \<not> regroups x) ?es" by (simp_all add: demo_table_def)
  then have r: "\<forall>p \<in> family ?es t1 {10}. fmlookup (ot_groups t2) p = None"
    "\<forall>p. p \<noteq> 10 \<longrightarrow> fmlookup (ot_groups (os_run ?es t1)) p \<noteq> Some 10 \<longrightarrow> fmlookup (ot_groups t2) p = fmlookup (ot_groups (os_run ?es t1)) p"
    using p by (metis (no_types, lifting))+
  have "fmlookup (ot_groups t2) 12 = None" by (rule r(1) [rule_format, OF v(1)])
  moreover have "fmlookup (ot_groups t2) 1 = Some 1" using r(2) [rule_format, of 1] unfolding v(3) by simp
  moreover have "e = None" using p by blast
  ultimately show ?thesis using st k v(1,2) by blast
qed

text \<open>After the runtime is gone Signal fails, but Kill does not fail as long as its group has members: it kills
  them.  The interface asks for an error from both.\<close>

lemma kill_after_exit:
  assumes "oc_process c = Some pid" "fmlookup (ot_groups t) pid = None" "fmlookup (ot_groups t) p = Some pid"
  shows "cmd_Signal (Some c) t = Some ''os: process already finished'' \<and> fst (cmd_Kill (Some c) t) = None"
  using assms by (auto simp: cmd_Signal_def cmd_Kill_def kill_group_def fmlookup_dom_iff)

end
