(* ===== verification/Registry.thy ===== *)
theory Registry
  imports Docker_Store "HOL-Library.Sublist"
begin

text \<open>
  The registry interface of \<^verbatim>\<open>executor/registry.go\<close> and its implementation on the docker
  daemon, \<^verbatim>\<open>executor/docker/registry.go\<close>.  The locale \<open>listing\<close> states what callers of the
  two listing methods rely on; \<open>exact_listing\<close> is the contract the interface documents.
  The moby client is a parameter over the daemon's state.
\<close>


section \<open>Interface\<close>

record ImageInfo =
  ii_ref :: string
  ii_digest :: string
  ii_media :: string
  ii_size :: int
  ii_created :: int
  ii_description :: string
  ii_source :: string
  ii_labels :: "(string, string) gomap"
  ii_annotations :: "(string, string) gomap"

text \<open>Errors of the moby client carry a not-found mark and a message.\<close>

record moby_err =
  me_notfound :: bool
  me_message :: string

datatype rerr =
    ErrRefNotFound string
  | ErrNotImplemented
  | RMoby string moby_err
  | RInvalidRef string
  | RHttp string
  | RSizeCap
  | RJson
  | ROpen string

definition AnnotationDescription :: string where
  "AnnotationDescription = ''org.opencontainers.image.description''"

definition AnnotationSource :: string where
  "AnnotationSource = ''org.opencontainers.image.source''"

fun pickLabel :: "(string, string) gomap \<Rightarrow> string list \<Rightarrow> string" where
  "pickLabel m [] = []"
| "pickLabel m (k # keys) = (if annot m k \<noteq> [] then annot m k else pickLabel m keys)"

lemma subseq_subset: "subseq xs ys \<Longrightarrow> set xs \<subseteq> set ys"
  by (induction rule: list_emb.induct) auto

lemma subseq_keeps_distinct: "subseq xs ys \<Longrightarrow> distinct ys \<Longrightarrow> distinct xs"
  by (induction rule: list_emb.induct) (auto dest: subseq_subset)

text \<open>A listing of entries that does not return is None.\<close>

locale listing =
  fixes lst :: "'s \<Rightarrow> (rerr, string list) res"
    and entries :: "'s \<Rightarrow> (rerr, ImageInfo list) res option"
  assumes entries_listed: "entries s = Some (Inr es) \<Longrightarrow> \<exists>refs. lst s = Inr refs \<and> subseq (map ii_ref es) refs"
    and entries_fail: "entries s = Some (Inl e) \<longleftrightarrow> lst s = Inl e"
begin

lemma entry_listed: "entries s = Some (Inr es) \<Longrightarrow> x \<in> set es \<Longrightarrow> \<exists>refs. lst s = Inr refs \<and> ii_ref x \<in> set refs"
  using entries_listed [of s es] by (fastforce dest!: subseq_subset)

lemma entries_distinct:
  "entries s = Some (Inr es) \<Longrightarrow> lst s = Inr refs \<Longrightarrow> distinct refs \<Longrightarrow> distinct (map ii_ref es)"
  using entries_listed [of s es] by (auto dest: subseq_keeps_distinct)

end

locale exact_listing = listing +
  assumes entries_exact: "entries s = Some (Inr es) \<Longrightarrow> lst s = Inr (map ii_ref es)"
begin

lemma same_refs: "entries s = Some r \<Longrightarrow> lst s = map_sum (\<lambda>e. e) (map ii_ref) r"
  using entries_exact [of s] entries_fail [of s] by (cases r) auto

end


section \<open>Images of the docker daemon\<close>

record moby_image =
  im_id :: string
  im_tags :: "string list"
  im_size :: int
  im_created :: int
  im_labels :: "(string, string) gomap"

record moby_inspect =
  in_id :: string
  in_size :: int
  in_created :: string
  in_labels :: "(string, string) gomap option"

record 'd moby =
  mo_ImageList :: "'d \<Rightarrow> (moby_err, moby_image list) res"
  mo_ImageInspect :: "string \<Rightarrow> 'd \<Rightarrow> (moby_err, moby_inspect) res"
  mo_ImageTag :: "string \<Rightarrow> string \<Rightarrow> 'd \<Rightarrow> moby_err option \<times> 'd"
  mo_ImageRemove :: "string \<Rightarrow> 'd \<Rightarrow> moby_err option \<times> 'd"
  mo_ImagePull :: "string \<Rightarrow> string \<Rightarrow> 'd \<Rightarrow> moby_err option \<times> 'd"
  mo_ImagePush :: "string \<Rightarrow> string \<Rightarrow> 'd \<Rightarrow> moby_err option \<times> 'd"
  mo_ToLower :: "string \<Rightarrow> string"
  mo_auth :: "string \<Rightarrow> string"
  mo_parse_time :: "string \<Rightarrow> string \<Rightarrow> int option"

definition isNotFoundErr :: "'d moby \<Rightarrow> moby_err \<Rightarrow> bool" where
  "isNotFoundErr M err \<longleftrightarrow>
    me_notfound err \<or>
    (let msg = mo_ToLower M (me_message err) in Contains msg ''no such image'' \<or> Contains msg ''no such container'')"

definition none_tag :: string where
  "none_tag = ''<none>:<none>''"

text \<open>The nested loops of the two listings share the set of tags seen so far.\<close>

definition list_tag :: "string \<Rightarrow> (string, unit) gomap \<times> string list \<Rightarrow> (string, unit) gomap \<times> string list" where
  "list_tag tag acc =
    (let (seen, refs) = acc in
     if tag = none_tag then acc
     else if fmlookup seen tag \<noteq> None then acc
     else (fmupd tag () seen, refs @ [tag]))"

definition docker_List :: "'d moby \<Rightarrow> 'd \<Rightarrow> (rerr, string list) res" where
  "docker_List M d =
    (case mo_ImageList M d of
       Inl e \<Rightarrow> Inl (RMoby ''ImageList'' e)
     | Inr items \<Rightarrow> Inr (snd (fold (\<lambda>img. fold list_tag (im_tags img)) items (fmempty, []))))"

definition image_entry :: "moby_image \<Rightarrow> string \<Rightarrow> ImageInfo" where
  "image_entry img tag =
    \<lparr>ii_ref = tag, ii_digest = im_id img, ii_media = [], ii_size = im_size img, ii_created = im_created img,
     ii_description = pickLabel (im_labels img) [AnnotationDescription, ''description''],
     ii_source = pickLabel (im_labels img) [AnnotationSource, ''source''],
     ii_labels = im_labels img, ii_annotations = fmempty\<rparr>"

definition entry_tag ::
  "moby_image \<Rightarrow> string \<Rightarrow> (string, unit) gomap \<times> ImageInfo list \<Rightarrow> (string, unit) gomap \<times> ImageInfo list" where
  "entry_tag img tag acc =
    (let (seen, es) = acc in
     if tag = none_tag then acc
     else if fmlookup seen tag \<noteq> None then acc
     else (fmupd tag () seen, es @ [image_entry img tag]))"

definition docker_ListEntries :: "'d moby \<Rightarrow> 'd \<Rightarrow> (rerr, ImageInfo list) res" where
  "docker_ListEntries M d =
    (case mo_ImageList M d of
       Inl e \<Rightarrow> Inl (RMoby ''ImageList'' e)
     | Inr items \<Rightarrow> Inr (snd (fold (\<lambda>img. fold (entry_tag img) (im_tags img)) items (fmempty, []))))"

text \<open>\<^verbatim>\<open>resolveImageID\<close> over the same client.  The errors of pulling and pushing are those of
  the call and of draining its progress stream.\<close>

definition image_id :: "'d moby \<Rightarrow> string \<Rightarrow> 'd \<Rightarrow> (moby_err, string) res" where
  "image_id M ref d =
    (if isLikelyImageID ref then Inr ref
     else res_bind (mo_ImageList M d) (\<lambda>items.
       Inr (case List.find (\<lambda>img. ref \<in> set (im_tags img)) items of Some img \<Rightarrow> im_id img | None \<Rightarrow> [])))"

definition docker_resolve_ref :: "'d moby \<Rightarrow> string \<Rightarrow> 'd \<Rightarrow> (rerr, Descriptor) res" where
  "docker_resolve_ref M ref d =
    (case image_id M ref d of
       Inl e \<Rightarrow> Inl (RMoby ''resolve'' e)
     | Inr i \<Rightarrow>
         if i = [] then Inl (ErrRefNotFound ref)
         else case mo_ImageInspect M i d of
                Inl e \<Rightarrow> Inl (RMoby ''ImageInspect'' e)
              | Inr res \<Rightarrow> Inr \<lparr>dc_media = MediaTypeImageManifest, dc_digest = in_id res, dc_size = in_size res,
                                dc_annotations = fmempty, dc_platform = None\<rparr>)"

definition RFC3339Nano :: string where "RFC3339Nano = ''2006-01-02T15:04:05.999999999Z07:00''"
definition RFC3339 :: string where "RFC3339 = ''2006-01-02T15:04:05Z07:00''"

definition parseRFC3339Unix :: "'d moby \<Rightarrow> string \<Rightarrow> int" where
  "parseRFC3339Unix M s =
    (if s = [] then 0
     else case mo_parse_time M RFC3339Nano s of
            Some t \<Rightarrow> t
          | None \<Rightarrow> (case mo_parse_time M RFC3339 s of Some t \<Rightarrow> t | None \<Rightarrow> 0))"

definition inspect_info :: "'d moby \<Rightarrow> string \<Rightarrow> moby_inspect \<Rightarrow> ImageInfo" where
  "inspect_info M ref res =
    (let labels = (case in_labels res of Some l \<Rightarrow> l | None \<Rightarrow> fmempty)
     in \<lparr>ii_ref = ref, ii_digest = in_id res, ii_media = [], ii_size = in_size res,
         ii_created = parseRFC3339Unix M (in_created res),
         ii_description = pickLabel labels [AnnotationDescription, ''description''],
         ii_source = pickLabel labels [AnnotationSource, ''source''], ii_labels = labels, ii_annotations = fmempty\<rparr>)"

definition docker_Inspect :: "'d moby \<Rightarrow> string \<Rightarrow> 'd \<Rightarrow> (rerr, ImageInfo) res" where
  "docker_Inspect M ref d =
    (case mo_ImageInspect M ref d of
       Inr res \<Rightarrow> Inr (inspect_info M ref res)
     | Inl err \<Rightarrow>
         if isNotFoundErr M err then
           (case image_id M ref d of
              Inl e \<Rightarrow> Inl (RMoby ''resolve'' e)
            | Inr i \<Rightarrow>
                if i = [] then Inl (ErrRefNotFound ref)
                else case mo_ImageInspect M i d of
                       Inl e \<Rightarrow> Inl (RMoby ''ImageInspect'' e)
                     | Inr res \<Rightarrow> Inr (inspect_info M ref res))
         else Inl (RMoby ''ImageInspect'' err))"

definition docker_tag_ref :: "'d moby \<Rightarrow> string \<Rightarrow> string \<Rightarrow> 'd \<Rightarrow> rerr option \<times> 'd" where
  "docker_tag_ref M src dst d =
    (case mo_ImageTag M src dst d of
       (Some e, d') \<Rightarrow> (Some (RMoby ''ImageTag'' e), d')
     | (None, d') \<Rightarrow> (None, d'))"

definition docker_Remove :: "'d moby \<Rightarrow> string \<Rightarrow> 'd \<Rightarrow> rerr option \<times> 'd" where
  "docker_Remove M ref d =
    (case image_id M ref d of
       Inl e \<Rightarrow> (Some (RMoby ''resolve'' e), d)
     | Inr i \<Rightarrow>
         if i = [] then (Some (ErrRefNotFound ref), d)
         else case mo_ImageRemove M i d of
                (None, d') \<Rightarrow> (None, d')
              | (Some e, d') \<Rightarrow> (Some (if isNotFoundErr M e then ErrRefNotFound ref else RMoby ''ImageRemove'' e), d'))"

definition docker_PullRemote :: "'d moby \<Rightarrow> string \<Rightarrow> 'd \<Rightarrow> rerr option \<times> 'd" where
  "docker_PullRemote M remoteRef d =
    (case mo_ImagePull M remoteRef (mo_auth M remoteRef) d of
       (Some e, d') \<Rightarrow> (Some (RMoby ''ImagePull'' e), d')
     | (None, d') \<Rightarrow> (None, d'))"

definition docker_PushRemote :: "'d moby \<Rightarrow> string \<Rightarrow> string \<Rightarrow> 'd \<Rightarrow> rerr option \<times> 'd" where
  "docker_PushRemote M localRef remoteRef d =
    (let push = (\<lambda>d. case mo_ImagePush M remoteRef (mo_auth M remoteRef) d of
                       (Some e, d') \<Rightarrow> (Some (RMoby ''ImagePush'' e), d')
                     | (None, d') \<Rightarrow> (None, d'))
     in if localRef \<noteq> remoteRef then
          (case docker_tag_ref M localRef remoteRef d of
             (Some e, d') \<Rightarrow> (Some e, d')
           | (None, d') \<Rightarrow> push d')
        else push d)"

text \<open>\<^verbatim>\<open>readManifestFromSaveTar\<close>: the blob the first index entry points at.\<close>

definition tar_step :: "tar_entry \<Rightarrow> bytes \<times> (string, bytes) gomap \<Rightarrow> bytes \<times> (string, bytes) gomap" where
  "tar_step h acc =
    (if te_name h = ''index.json'' then (te_data h, snd acc)
     else if HasPrefix (te_name h) ''blobs/sha256/'' then (fst acc, fmupd (path_Base (te_name h)) (te_data h) (snd acc))
     else acc)"

definition readManifestFromSaveTar :: "codec \<Rightarrow> tar_entry list \<times> oerr option \<Rightarrow> (oerr, bytes) res" where
  "readManifestFromSaveTar C tr =
    (case snd tr of
       Some e \<Rightarrow> Inl e
     | None \<Rightarrow>
         (let (indexData, blobs) = fold tar_step (fst tr) ([], fmempty) in
          if indexData = [] then Inl ErrNoIndexJson
          else res_bind (cd_dec_index C indexData) (\<lambda>index.
            case ix_manifests index of
              [] \<Rightarrow> Inl ErrNotFound
            | m # _ \<Rightarrow>
                res_bind (digest_parts (dc_digest m)) (\<lambda>(alg, hex).
                  case fmlookup blobs hex of None \<Rightarrow> Inl ErrNotFound | Some b \<Rightarrow> Inr b))))"


section \<open>Listings agree\<close>

lemma entry_tag_list_tag:
  "fst (entry_tag img tag (seen, es)) = fst (list_tag tag (seen, map ii_ref es))"
  "map ii_ref (snd (entry_tag img tag (seen, es))) = snd (list_tag tag (seen, map ii_ref es))"
  by (simp_all add: entry_tag_def list_tag_def image_entry_def)

lemma entry_tags_list_tags:
  "list_view (fold (entry_tag img) tags acc) = fold list_tag tags (list_view acc)"
  if "\<And>a. list_view a = (fst a, map ii_ref (snd a))"
proof (induction tags arbitrary: acc)
  case (Cons tag tags)
  have "list_view (entry_tag img tag acc) = list_tag tag (list_view acc)"
    using entry_tag_list_tag [of img tag "fst acc" "snd acc"] by (simp add: that prod_eq_iff)
  then show ?case using Cons by simp
qed simp

lemma docker_entries_refs:
  "map ii_ref (snd (fold (\<lambda>img. fold (entry_tag img) (im_tags img)) items (seen, es))) =
     snd (fold (\<lambda>img. fold list_tag (im_tags img)) items (seen, map ii_ref es))"
proof -
  let ?v = "\<lambda>a :: (string, unit) gomap \<times> ImageInfo list. (fst a, map ii_ref (snd a))"
  have "?v (fold (\<lambda>img. fold (entry_tag img) (im_tags img)) items acc) =
      fold (\<lambda>img. fold list_tag (im_tags img)) items (?v acc)" for acc
  proof (induction items arbitrary: acc)
    case (Cons img items)
    then show ?case using entry_tags_list_tags [of ?v img "im_tags img" acc] by simp
  qed simp
  from arg_cong [OF this [of "(seen, es)"], of snd] show ?thesis by simp
qed

interpretation docker_listing: exact_listing "docker_List M" "\<lambda>d. Some (docker_ListEntries M d)" for M :: "'d moby"
proof unfold_locales
  fix d :: 'd and es e
  have eq: "docker_List M d = Inr (map ii_ref es)" if "docker_ListEntries M d = Inr es"
    using that docker_entries_refs [of _ fmempty "[]"] by (auto simp: docker_ListEntries_def docker_List_def split: sum.splits)
  then show "Some (docker_ListEntries M d) = Some (Inr es) \<Longrightarrow> \<exists>refs. docker_List M d = Inr refs \<and> subseq (map ii_ref es) refs"
    "Some (docker_ListEntries M d) = Some (Inr es) \<Longrightarrow> docker_List M d = Inr (map ii_ref es)"
    by simp_all
  show "Some (docker_ListEntries M d) = Some (Inl e) \<longleftrightarrow> docker_List M d = Inl e"
    by (simp add: docker_ListEntries_def docker_List_def split: sum.splits)
qed

text \<open>The accumulated references are the distinct tags seen.\<close>

lemma list_tags_inv:
  assumes "set (snd acc) = fset (fmdom (fst acc))" "distinct (snd acc)"
  shows "set (snd (fold list_tag tags acc)) = fset (fmdom (fst (fold list_tag tags acc))) \<and>
    distinct (snd (fold list_tag tags acc)) \<and>
    set (snd (fold list_tag tags acc)) = set (snd acc) \<union> (set tags - {none_tag})"
  using assms
proof (induction tags arbitrary: acc)
  case (Cons tag tags)
  obtain seen refs where acc: "acc = (seen, refs)" by (cases acc)
  let ?acc = "list_tag tag acc"
  have seen: "fmlookup seen tag \<noteq> None \<longleftrightarrow> tag \<in> set refs"
    using Cons.prems(1) fmlookup_dom_iff [of tag seen] by (auto simp: acc)
  have "set (snd ?acc) = fset (fmdom (fst ?acc)) \<and> distinct (snd ?acc) \<and>
      set (snd ?acc) = set (snd acc) \<union> ({tag} - {none_tag})"
  proof (cases "tag = none_tag \<or> tag \<in> set refs")
    case True
    then have "?acc = acc" using seen by (auto simp: acc list_tag_def)
    then show ?thesis using True Cons.prems by (auto simp: acc)
  next
    case False
    then have a: "?acc = (fmupd tag () seen, refs @ [tag])" using seen by (simp add: acc list_tag_def)
    show ?thesis using False Cons.prems unfolding a by (auto simp: acc)
  qed
  then show ?case using Cons.IH [of ?acc] by auto
qed simp

lemma docker_List_tags:
  "set (snd (fold (\<lambda>img. fold list_tag (im_tags img)) items acc)) =
      set (snd acc) \<union> (\<Union>img \<in> set items. set (im_tags img) - {none_tag}) \<and>
   distinct (snd (fold (\<lambda>img. fold list_tag (im_tags img)) items acc))"
  if "set (snd acc) = fset (fmdom (fst acc))" "distinct (snd acc)"
  using that
proof (induction items arbitrary: acc)
  case (Cons img items)
  have i: "set (snd (fold list_tag (im_tags img) acc)) = fset (fmdom (fst (fold list_tag (im_tags img) acc)))"
    "distinct (snd (fold list_tag (im_tags img) acc))"
    "set (snd (fold list_tag (im_tags img) acc)) = set (snd acc) \<union> (set (im_tags img) - {none_tag})"
    using list_tags_inv [OF Cons.prems] by blast+
  then show ?case using Cons.IH [OF i(1,2)] by auto
qed simp


section \<open>Properties\<close>

text \<open>The two listings of the docker registry agree.  Both fail together; when they
  succeed, the entries carry exactly the listed references in the same order, no
  reference twice, and the references are all tags of all images but the placeholder of
  untagged ones.\<close>

theorem docker_listings_agree:
  "(\<forall>e. docker_ListEntries M d = Inl e \<longleftrightarrow> docker_List M d = Inl e) \<and>
   (\<forall>es. docker_ListEntries M d = Inr es \<longrightarrow> docker_List M d = Inr (map ii_ref es) \<and> distinct (map ii_ref es) \<and>
      (\<exists>items. mo_ImageList M d = Inr items \<and>
         set (map ii_ref es) = (\<Union>img \<in> set items. set (im_tags img) - {''<none>:<none>''})))"
proof (intro conjI allI impI)
  show "docker_ListEntries M d = Inl e \<longleftrightarrow> docker_List M d = Inl e" for e
    using docker_listing.entries_fail [of M d e] by simp
  fix es assume es: "docker_ListEntries M d = Inr es"
  then show l: "docker_List M d = Inr (map ii_ref es)" using docker_listing.entries_exact [of M d es] by simp
  obtain items where items: "mo_ImageList M d = Inr items"
    and refs: "map ii_ref es = snd (fold (\<lambda>img. fold list_tag (im_tags img)) items (fmempty, []))"
    using l by (auto simp: docker_List_def split: sum.splits)
  show "distinct (map ii_ref es)" "\<exists>items. mo_ImageList M d = Inr items \<and>
         set (map ii_ref es) = (\<Union>img \<in> set items. set (im_tags img) - {''<none>:<none>''})"
    using docker_List_tags [of "(fmempty, [])" items] items unfolding refs by (simp_all add: none_tag_def)
qed

definition demo_moby :: "unit moby" where
  "demo_moby =
    \<lparr>mo_ImageList = (\<lambda>_. Inr [\<lparr>im_id = ''1'', im_tags = [''a:1'', none_tag], im_size = 0, im_created = 0, im_labels = fmempty\<rparr>,
       \<lparr>im_id = ''2'', im_tags = [''a:1'', ''b:1''], im_size = 0, im_created = 0, im_labels = fmempty\<rparr>]),
     mo_ImageInspect = (\<lambda>_ _. Inl \<lparr>me_notfound = True, me_message = []\<rparr>), mo_ImageTag = (\<lambda>_ _ d. (None, d)),
     mo_ImageRemove = (\<lambda>_ d. (None, d)), mo_ImagePull = (\<lambda>_ _ d. (None, d)), mo_ImagePush = (\<lambda>_ _ d. (None, d)),
     mo_ToLower = (\<lambda>s. s), mo_auth = (\<lambda>_. []), mo_parse_time = (\<lambda>_ _. None)\<rparr>"

theorem docker_listings_agree_witness:
  "\<exists>es. docker_ListEntries demo_moby () = Inr es \<and> docker_List demo_moby () = Inr (map ii_ref es) \<and> map ii_ref es = [''a:1'', ''b:1'']"
proof -
  have ok: "is_ok (docker_ListEntries demo_moby ())" and l: "docker_List demo_moby () = Inr [''a:1'', ''b:1'']" by code_simp+
  from ok obtain es where es: "docker_ListEntries demo_moby () = Inr es" by (auto simp: is_ok_def split: sum.splits)
  then have "docker_List demo_moby () = Inr (map ii_ref es)" using docker_listings_agree [of demo_moby "()"] by blast
  then show ?thesis using es l by simp
qed

end
