(* ===== verification/System_Registry.thy ===== *)
theory System_Registry
  imports Registry "HOL-Library.Word"
begin

text \<open>
  The system executor's registry, \<^verbatim>\<open>executor/system/registry.go\<close>: an HTTP client of the
  embedded distribution server and an \<^verbatim>\<open>oras.Target\<close>.  HTTP exchanges, JSON decoding,
  remote repositories and \<^verbatim>\<open>oras.Copy\<close> are parameters; sizes are 64-bit integers.
\<close>


section \<open>Parameters and state\<close>

record http_response =
  hr_status :: int
  hr_body :: bytes
  hr_digest :: string

record sys_index =
  si_manifests :: "Descriptor list"
  si_artifact :: string
  si_annotations :: "(string, string) gomap"

text \<open>\<open>rg_target\<close> and \<open>rg_created\<close> may be missing; the remaining fields are parameters.
  Opening a repository takes the reference and the plain-HTTP flag; copying takes the
  source repository and tag and the destination repository and tag.\<close>

record ('s, 'r) registry =
  rg_target :: "'s target option"
  rg_addr :: string
  rg_created :: "(string \<Rightarrow> string \<Rightarrow> int) option"
  rg_get :: "string \<Rightarrow> string \<Rightarrow> 's \<Rightarrow> (string, http_response) res"
  rg_delete :: "string \<Rightarrow> 's \<Rightarrow> (string, http_response) res \<times> 's"
  rg_dec_names :: "bytes \<Rightarrow> string list option"
  rg_dec_index :: "bytes \<Rightarrow> sys_index option"
  rg_dec_manifest :: "bytes \<Rightarrow> Manifest option"
  rg_from_bytes :: "bytes \<Rightarrow> string"
  rg_open :: "Reference \<Rightarrow> bool \<Rightarrow> (string, 'r) res"
  rg_copy :: "'r \<Rightarrow> string \<Rightarrow> 'r \<Rightarrow> string \<Rightarrow> 's \<Rightarrow> string option \<times> 's"

record manifestInfo =
  mi_digest :: string
  mi_artifact :: string
  mi_size :: "64 word"
  mi_annotations :: "(string, string) gomap"

definition maxRegistryReadBytes :: int where
  "maxRegistryReadBytes = 100 * 1024 * 1024"

definition defaultRefTag :: string where
  "defaultRefTag = ''latest''"


section \<open>HTTP reads\<close>

text \<open>Reading through a limit of one byte more than the cap and comparing the length is
  comparing the length of the whole body.\<close>

definition capped_body :: "(string, http_response) res \<Rightarrow> (rerr, http_response) res" where
  "capped_body r =
    (case r of
       Inl e \<Rightarrow> Inl (RHttp e)
     | Inr resp \<Rightarrow>
         if hr_status resp \<ge> 400 then Inl (RHttp ''status'')
         else if int (length (hr_body resp)) > maxRegistryReadBytes then Inl RSizeCap
         else Inr resp)"

definition fetchJSON :: "('s, 'r) registry \<Rightarrow> string \<Rightarrow> 's \<Rightarrow> (rerr, string list) res" where
  "fetchJSON R url s =
    res_bind (capped_body (rg_get R url [] s)) (\<lambda>resp.
      case rg_dec_names R (hr_body resp) of None \<Rightarrow> Inl RJson | Some xs \<Rightarrow> Inr xs)"

definition fetchCatalog :: "('s, 'r) registry \<Rightarrow> 's \<Rightarrow> (rerr, string list) res" where
  "fetchCatalog R s = fetchJSON R (''http://'' @ rg_addr R @ ''/v2/_catalog'') s"

definition fetchTags :: "('s, 'r) registry \<Rightarrow> string \<Rightarrow> 's \<Rightarrow> (rerr, string list) res" where
  "fetchTags R repo s = fetchJSON R (''http://'' @ rg_addr R @ ''/v2/'' @ repo @ ''/tags/list'') s"

definition accept_header :: string where
  "accept_header = ''application/vnd.oci.image.manifest.v1+json, application/vnd.oci.image.index.v1+json''"

definition manifest_url :: "('s, 'r) registry \<Rightarrow> string \<Rightarrow> string \<Rightarrow> string" where
  "manifest_url R repo tag = ''http://'' @ rg_addr R @ ''/v2/'' @ repo @ ''/manifests/'' @ tag"

definition fetchManifestRaw :: "('s, 'r) registry \<Rightarrow> string \<Rightarrow> string \<Rightarrow> 's \<Rightarrow> (rerr, bytes \<times> string) res" where
  "fetchManifestRaw R repo tag s =
    res_bind (capped_body (rg_get R (manifest_url R repo tag) accept_header s)) (\<lambda>resp.
      Inr (hr_body resp, if hr_digest resp = [] then rg_from_bytes R (hr_body resp) else hr_digest resp))"

text \<open>The entries of an index are visited recursively; an entry that cannot be read counts
  with its declared size.  The first argument bounds the depth; None is its exhaustion.\<close>

definition size_of :: "int \<Rightarrow> 64 word" where
  "size_of n = word_of_int n"

definition plain_info :: "('s, 'r) registry \<Rightarrow> bytes \<Rightarrow> string \<Rightarrow> (rerr, manifestInfo) res option" where
  "plain_info R data dgst =
    (case rg_dec_manifest R data of
       None \<Rightarrow> Some (Inl RJson)
     | Some manifest \<Rightarrow>
         Some (Inr \<lparr>mi_digest = dgst, mi_artifact = mf_artifact manifest,
                    mi_size = fold (\<lambda>l tot. tot + size_of (dc_size l)) (mf_layers manifest)
                      (size_of (int (length data)) + size_of (dc_size (mf_config manifest))),
                    mi_annotations = mf_annotations manifest\<rparr>))"

fun fetchManifestInfo :: "nat \<Rightarrow> ('s, 'r) registry \<Rightarrow> string \<Rightarrow> string \<Rightarrow> 's \<Rightarrow> (rerr, manifestInfo) res option"
  and index_total :: "nat \<Rightarrow> ('s, 'r) registry \<Rightarrow> string \<Rightarrow> Descriptor list \<Rightarrow> 's \<Rightarrow> 64 word \<Rightarrow> 64 word option" where
  "fetchManifestInfo 0 R repo tag s = None"
| "fetchManifestInfo (Suc n) R repo tag s =
    (case fetchManifestRaw R repo tag s of
       Inl e \<Rightarrow> Some (Inl e)
     | Inr (data, dgst) \<Rightarrow>
         (case rg_dec_index R data of
            Some ix \<Rightarrow>
              if si_manifests ix \<noteq> [] then
                (case index_total n R repo (si_manifests ix) s (size_of (int (length data))) of
                   None \<Rightarrow> None
                 | Some tot \<Rightarrow> Some (Inr \<lparr>mi_digest = dgst, mi_artifact = si_artifact ix, mi_size = tot,
                                         mi_annotations = si_annotations ix\<rparr>))
              else plain_info R data dgst
          | None \<Rightarrow> plain_info R data dgst))"
| "index_total n R repo [] s tot = Some tot"
| "index_total n R repo (m # ms) s tot =
    (case fetchManifestInfo n R repo (dc_digest m) s of
       None \<Rightarrow> None
     | Some (Inl _) \<Rightarrow> index_total n R repo ms s (tot + size_of (dc_size m))
     | Some (Inr sub) \<Rightarrow> index_total n R repo ms s (tot + mi_size sub))"

section \<open>Operations\<close>

definition splitRef :: "string \<Rightarrow> string \<times> string" where
  "splitRef ref =
    (if ref = [] then ([], [])
     else case LastIndex ref ''@'' of
            Some idx \<Rightarrow> (take idx ref, drop (Suc idx) ref)
          | None \<Rightarrow>
              (case LastIndex ref '':'' of
                 Some idx \<Rightarrow>
                   if Contains (drop (Suc idx) ref) ''/'' then (ref, defaultRefTag)
                   else (take idx ref, drop (Suc idx) ref)
               | None \<Rightarrow> (ref, defaultRefTag)))"

definition sys_List :: "('s, 'r) registry \<Rightarrow> 's \<Rightarrow> (rerr, string list) res" where
  "sys_List R s =
    (if rg_addr R = [] then Inl ErrNotImplemented
     else res_bind (fetchCatalog R s) (\<lambda>repos.
       Inr (concat (map (\<lambda>repo. case fetchTags R repo s of
                                  Inl _ \<Rightarrow> []
                                | Inr tags \<Rightarrow> map (\<lambda>tag. repo @ '':'' @ tag) tags) repos))))"

definition sys_info :: "('s, 'r) registry \<Rightarrow> string \<Rightarrow> string \<Rightarrow> string \<Rightarrow> manifestInfo \<Rightarrow> ImageInfo" where
  "sys_info R ref repo tag mi =
    \<lparr>ii_ref = ref, ii_digest = mi_digest mi, ii_media = [], ii_size = sint (mi_size mi),
     ii_created = (case rg_created R of Some f \<Rightarrow> f repo tag | None \<Rightarrow> 0),
     ii_description = pickLabel (mi_annotations mi) [AnnotationDescription, ''description''],
     ii_source = pickLabel (mi_annotations mi) [AnnotationSource, ''source''],
     ii_labels = fmempty, ii_annotations = mi_annotations mi\<rparr>"

definition sys_Inspect :: "nat \<Rightarrow> ('s, 'r) registry \<Rightarrow> string \<Rightarrow> 's \<Rightarrow> (rerr, ImageInfo) res option" where
  "sys_Inspect n R ref s =
    (if rg_addr R = [] then Some (Inl ErrNotImplemented)
     else let (repo, tag) = splitRef ref in
       if repo = [] then Some (Inl (RInvalidRef ref))
       else map_option (\<lambda>r. res_bind r (\<lambda>mi. Inr (sys_info R ref repo tag mi))) (fetchManifestInfo n R repo tag s))"

text \<open>The entries of the references that can be inspected; an inspection that never returns
  would make the listing hang, which is the outer None.\<close>

fun inspect_all :: "nat \<Rightarrow> ('s, 'r) registry \<Rightarrow> string list \<Rightarrow> 's \<Rightarrow> ImageInfo list option" where
  "inspect_all n R [] s = Some []"
| "inspect_all n R (ref # refs) s =
    (case sys_Inspect n R ref s of
       None \<Rightarrow> None
     | Some (Inl _) \<Rightarrow> inspect_all n R refs s
     | Some (Inr info) \<Rightarrow> map_option (\<lambda>es. info # es) (inspect_all n R refs s))"

definition sys_ListEntries :: "nat \<Rightarrow> ('s, 'r) registry \<Rightarrow> 's \<Rightarrow> (rerr, ImageInfo list) res option" where
  "sys_ListEntries n R s =
    (case sys_List R s of
       Inl e \<Rightarrow> Some (Inl e)
     | Inr refs \<Rightarrow> map_option Inr (inspect_all n R refs s))"

definition sys_ManifestKind :: "nat \<Rightarrow> ('s, 'r) registry \<Rightarrow> string \<Rightarrow> 's \<Rightarrow> (rerr, string) res option" where
  "sys_ManifestKind n R ref s =
    (if rg_addr R = [] then Some (Inl ErrNotImplemented)
     else let (repo, tag) = splitRef ref in
       if repo = [] then Some (Inl (RInvalidRef ref))
       else map_option (\<lambda>r. res_bind r (\<lambda>mi. Inr (mi_artifact mi))) (fetchManifestInfo n R repo tag s))"

definition sys_Resolve :: "('s, 'r) registry \<Rightarrow> string \<Rightarrow> 's \<Rightarrow> (rerr, Descriptor) res \<times> 's" where
  "sys_Resolve R ref s =
    (case rg_target R of
       None \<Rightarrow> (Inl ErrNotImplemented, s)
     | Some T \<Rightarrow>
         (case tg_Resolve T ref s of
            (Inl _, s') \<Rightarrow> (Inl (ErrRefNotFound ref), s')
          | (Inr desc, s') \<Rightarrow> (Inr desc, s')))"

definition sys_Fetch :: "('s, 'r) registry \<Rightarrow> Descriptor \<Rightarrow> 's \<Rightarrow> (oerr option, bytes) res" where
  "sys_Fetch R desc s =
    (case rg_target R of
       None \<Rightarrow> Inl None
     | Some T \<Rightarrow> (case tg_Fetch T desc s of Inl e \<Rightarrow> Inl (Some e) | Inr b \<Rightarrow> Inr b))"

definition sys_Tag :: "('s, 'r) registry \<Rightarrow> string \<Rightarrow> string \<Rightarrow> 's \<Rightarrow> rerr option \<times> 's" where
  "sys_Tag R src dst s =
    (case rg_target R of
       None \<Rightarrow> (Some ErrNotImplemented, s)
     | Some T \<Rightarrow>
         (case tg_Resolve T src s of
            (Inl _, s') \<Rightarrow> (Some (ErrRefNotFound src), s')
          | (Inr desc, s') \<Rightarrow>
              (case tg_Tag T desc dst s' of
                 (None, s'') \<Rightarrow> (None, s'')
               | (Some e, s'') \<Rightarrow> (Some (ROpen ''tag''), s''))))"

definition sys_Remove :: "nat \<Rightarrow> ('s, 'r) registry \<Rightarrow> string \<Rightarrow> 's \<Rightarrow> (rerr option \<times> 's) option" where
  "sys_Remove n R ref s =
    (if rg_addr R = [] then Some (Some ErrNotImplemented, s)
     else let (repo, tag) = splitRef ref in
       if repo = [] then Some (Some (RInvalidRef ref), s)
       else map_option (\<lambda>r. case r of
              Inl e \<Rightarrow> (Some e, s)
            | Inr mi \<Rightarrow>
                (case rg_delete R (manifest_url R repo (mi_digest mi)) s of
                   (Inl e, s') \<Rightarrow> (Some (RHttp e), s')
                 | (Inr resp, s') \<Rightarrow> if hr_status resp \<ge> 400 then (Some (RHttp ''status''), s') else (None, s')))
            (fetchManifestInfo n R repo tag s))"

definition copy_ref :: "('s, 'r) registry \<Rightarrow> Reference \<times> bool \<Rightarrow> string \<Rightarrow> Reference \<times> bool \<Rightarrow> string \<Rightarrow> 's \<Rightarrow> rerr option \<times> 's" where
  "copy_ref R src srcTag dst dstTag s =
    (case rg_open R (fst src) (snd src) of
       Inl e \<Rightarrow> (Some (ROpen e), s)
     | Inr srcRepo \<Rightarrow>
         (case rg_open R (fst dst) (snd dst) of
            Inl e \<Rightarrow> (Some (ROpen e), s)
          | Inr dstRepo \<Rightarrow>
              (case rg_copy R srcRepo srcTag dstRepo dstTag s of
                 (None, s') \<Rightarrow> (None, s')
               | (Some e, s') \<Rightarrow> (Some (RHttp e), s'))))"

definition tag_or_default :: "Reference \<Rightarrow> string" where
  "tag_or_default r = (if ref_tag r = [] then defaultRefTag else ref_tag r)"

definition sys_PullRemote :: "('s, 'r) registry \<Rightarrow> string \<Rightarrow> 's \<Rightarrow> rerr option \<times> 's" where
  "sys_PullRemote R remoteRef s =
    (if rg_addr R = [] then (Some ErrNotImplemented, s)
     else let parsed = ParseReference remoteRef; srcTag = tag_or_default parsed;
              localRef = \<lparr>ref_name = rg_addr R @ ''/'' @ ref_name parsed, ref_tag = srcTag\<rparr>
          in copy_ref R (parsed, False) srcTag (localRef, True) srcTag s)"

definition sys_PushRemote :: "('s, 'r) registry \<Rightarrow> string \<Rightarrow> string \<Rightarrow> 's \<Rightarrow> rerr option \<times> 's" where
  "sys_PushRemote R localRef remoteRef s =
    (if rg_addr R = [] then (Some ErrNotImplemented, s)
     else let parsed0 = ParseReference localRef;
              parsedLocal = (if HasPrefix (ref_name parsed0) (rg_addr R @ ''/'') then parsed0
                             else \<lparr>ref_name = rg_addr R @ ''/'' @ ref_name parsed0, ref_tag = ref_tag parsed0\<rparr>);
              parsedRemote = ParseReference remoteRef
          in copy_ref R (parsedLocal, True) (tag_or_default parsedLocal) (parsedRemote, False) (tag_or_default parsedRemote) s)"


section \<open>Termination\<close>

text \<open>One step from an index to an entry of it.\<close>

definition sub_manifest :: "('s, 'r) registry \<Rightarrow> string \<Rightarrow> 's \<Rightarrow> string \<Rightarrow> string \<Rightarrow> bool" where
  "sub_manifest R repo s tag tag' \<longleftrightarrow>
    (\<exists>data dgst ix m. fetchManifestRaw R repo tag s = Inr (data, dgst) \<and> rg_dec_index R data = Some ix \<and>
       m \<in> set (si_manifests ix) \<and> tag' = dc_digest m)"

lemma index_total_Some:
  assumes "\<forall>m \<in> set ms. fetchManifestInfo n R repo (dc_digest m) s \<noteq> None"
  shows "index_total n R repo ms s tot \<noteq> None"
  using assms by (induction ms arbitrary: tot) (auto split: option.splits sum.splits)

lemma fetchManifestInfo_returns:
  assumes "\<forall>t t'. sub_manifest R repo s t t' \<longrightarrow> rank t' < (rank t :: nat)"
  shows "rank tag < n \<Longrightarrow> fetchManifestInfo n R repo tag s \<noteq> None"
proof (induction n arbitrary: tag)
  case (Suc n)
  have sub: "fetchManifestInfo n R repo (dc_digest m) s \<noteq> None"
    if "fetchManifestRaw R repo tag s = Inr (data, dgst)" "rg_dec_index R data = Some ix" "m \<in> set (si_manifests ix)" for data dgst ix m
  proof -
    have "sub_manifest R repo s tag (dc_digest m)" using that by (auto simp: sub_manifest_def)
    then have "rank (dc_digest m) < rank tag" using assms by blast
    then show ?thesis using Suc by simp
  qed
  have "index_total n R repo (si_manifests ix) s t \<noteq> None"
    if "fetchManifestRaw R repo tag s = Inr (data, dgst)" "rg_dec_index R data = Some ix" for data dgst ix t
    using sub [OF that] by (intro index_total_Some) blast
  note tot = this
  show ?case
  proof (cases "fetchManifestRaw R repo tag s")
    case (Inr p)
    then obtain data dgst where raw: "fetchManifestRaw R repo tag s = Inr (data, dgst)" by (cases p) auto
    show ?thesis
    proof (cases "rg_dec_index R data")
      case (Some ix)
      then show ?thesis using raw tot [OF raw Some, of "size_of (int (length data))"] by (auto simp: plain_info_def split: option.splits)
    qed (simp add: raw plain_info_def split: option.splits)
  qed simp
qed simp

lemma fuel_monotone:
  "fetchManifestInfo n R repo tag s = Some r \<Longrightarrow> n \<le> n' \<Longrightarrow> fetchManifestInfo n' R repo tag s = Some r"
  "index_total n R repo ms s tot = Some x \<Longrightarrow> n \<le> n' \<Longrightarrow> index_total n' R repo ms s tot = Some x"
proof (induction n R repo tag s and n R repo ms s tot arbitrary: r n' and x n' rule: fetchManifestInfo_index_total.induct)
  case (2 n R repo tag s)
  obtain k where k: "n' = Suc k" "n \<le> k" using "2.prems"(2) by (cases n') auto
  show ?case
  proof (cases "fetchManifestRaw R repo tag s")
    case (Inl e)
    then show ?thesis using "2.prems"(1) k by simp
  next
    case (Inr p)
    then obtain data dgst where raw: "fetchManifestRaw R repo tag s = Inr (data, dgst)" by (cases p) auto
    show ?thesis
    proof (cases "rg_dec_index R data")
      case None
      then show ?thesis using raw "2.prems"(1) k by simp
    next
      case (Some ix)
      have "index_total k R repo (si_manifests ix) s (size_of (int (length data))) = Some y"
        if "index_total n R repo (si_manifests ix) s (size_of (int (length data))) = Some y" "si_manifests ix \<noteq> []" for y
        using "2.IH" [OF raw refl Some that(2,1) k(2)] .
      then show ?thesis using raw Some "2.prems"(1) k by (auto split: option.splits if_splits)
    qed
  qed
next
  case (4 n R repo m ms s tot)
  obtain r where r: "fetchManifestInfo n R repo (dc_digest m) s = Some r" using "4.prems"(1) by (auto split: option.splits)
  have r': "fetchManifestInfo n' R repo (dc_digest m) s = Some r" by (rule "4.IH"(1) [OF r "4.prems"(2)])
  show ?case
  proof (cases r)
    case (Inl e)
    have "index_total n R repo ms s (tot + size_of (dc_size m)) = Some x" using "4.prems"(1) r Inl by simp
    then have "index_total n' R repo ms s (tot + size_of (dc_size m)) = Some x" by (rule "4.IH"(2) [OF r Inl _ "4.prems"(2)])
    then show ?thesis using r' Inl by simp
  next
    case (Inr sub)
    have "index_total n R repo ms s (tot + mi_size sub) = Some x" using "4.prems"(1) r Inr by simp
    then have "index_total n' R repo ms s (tot + mi_size sub) = Some x" by (rule "4.IH"(3) [OF r Inr _ "4.prems"(2)])
    then show ?thesis using r' Inr by simp
  qed
qed simp_all

section \<open>Listings\<close>

lemma splitRef_listed:
  assumes "repo \<noteq> []" "CHR ''@'' \<notin> set repo" "CHR ''@'' \<notin> set tag" "CHR ''/'' \<notin> set tag" "CHR '':'' \<notin> set tag"
  shows "splitRef (repo @ '':'' @ tag) = (repo, tag)"
proof -
  have at: "LastIndex (repo @ '':'' @ tag) ''@'' = None" using assms(2,3) by (simp add: LastIndex_char_None_iff)
  have colon: "LastIndex (repo @ '':'' @ tag) '':'' = Some (length repo)"
    using LastIndex_char_append [OF assms(5), of repo] by simp
  have "\<not> Contains tag ''/''" using assms(4) by (simp add: Contains_def Index_char_None_iff)
  then show ?thesis unfolding splitRef_def at colon by simp
qed

lemma Inspect_ref: "sys_Inspect n R ref s = Some (Inr info) \<Longrightarrow> ii_ref info = ref"
proof -
  assume i: "sys_Inspect n R ref s = Some (Inr info)"
  obtain repo tag where st: "splitRef ref = (repo, tag)" by (cases "splitRef ref")
  have "\<exists>r :: (rerr, manifestInfo) res. res_bind r (\<lambda>mi. Inr (sys_info R ref repo tag mi)) = Inr info"
    using i by (auto simp: sys_Inspect_def Let_def st split: if_splits)
  then obtain r :: "(rerr, manifestInfo) res" where "res_bind r (\<lambda>mi. Inr (sys_info R ref repo tag mi)) = Inr info" by blast
  then show ?thesis by (cases r) (auto simp: sys_info_def)
qed

lemma inspect_all_filter:
  assumes "\<forall>ref \<in> set refs. sys_Inspect n R ref s \<noteq> None"
  shows "\<exists>es. inspect_all n R refs s = Some es \<and>
    map ii_ref es = filter (\<lambda>ref. \<exists>info. sys_Inspect n R ref s = Some (Inr info)) refs"
  using assms
proof (induction refs)
  case (Cons ref refs)
  then obtain es where es: "inspect_all n R refs s = Some es"
    "map ii_ref es = filter (\<lambda>ref. \<exists>info. sys_Inspect n R ref s = Some (Inr info)) refs" by auto
  obtain r where "sys_Inspect n R ref s = Some r" using Cons.prems by auto
  then show ?case using es Inspect_ref [of n R ref s] by (cases r) auto
qed simp

lemma inspect_all_sub:
  "inspect_all n R refs s = Some es \<Longrightarrow> subseq (map ii_ref es) refs"
proof (induction refs arbitrary: es)
  case (Cons ref refs)
  then obtain r where r: "sys_Inspect n R ref s = Some r" by (auto split: option.splits)
  then show ?case using Cons Inspect_ref [of n R ref s] by (cases r) (auto intro: list_emb_Cons)
qed simp

interpretation system_listing: listing "sys_List R" "sys_ListEntries n R" for R :: "('s, 'r) registry" and n
proof unfold_locales
  fix s :: 's and es e
  show "sys_ListEntries n R s = Some (Inr es) \<Longrightarrow> \<exists>refs. sys_List R s = Inr refs \<and> subseq (map ii_ref es) refs"
    by (auto simp: sys_ListEntries_def intro: inspect_all_sub split: sum.splits)
  show "sys_ListEntries n R s = Some (Inl e) \<longleftrightarrow> sys_List R s = Inl e"
    by (auto simp: sys_ListEntries_def split: sum.splits)
qed

lemma Inspect_returns:
  assumes "\<forall>repo t t'. sub_manifest R repo s t t' \<longrightarrow> rank t' < (rank t :: nat)" "\<forall>t. rank t < n"
  shows "sys_Inspect n R ref s \<noteq> None"
proof -
  have "fetchManifestInfo n R repo tag s \<noteq> None" for repo tag
    using fetchManifestInfo_returns [of R repo s rank tag n] assms by blast
  then show ?thesis by (auto simp: sys_Inspect_def Let_def split: prod.splits)
qed


section \<open>Properties\<close>


text \<open>A registry with one repository, one tag that is an index of one platform and one tag
  whose manifest does not decode.\<close>

definition demo_registry :: "(unit, unit) registry" where
  "demo_registry =
    \<lparr>rg_target = None, rg_addr = ''h'', rg_created = None,
     rg_get = (\<lambda>url _ _. Inr \<lparr>hr_status = 200, hr_body = [last url], hr_digest = ''d''\<rparr>),
     rg_delete = (\<lambda>_ s. (Inl ''no'', s)),
     rg_dec_names = (\<lambda>b. if b = ''g'' then Some [''r''] else Some [''1'', ''2'']),
     rg_dec_index = (\<lambda>b. if b = ''1'' then
        Some \<lparr>si_manifests = [\<lparr>dc_media = [], dc_digest = ''x'', dc_size = 5, dc_annotations = fmempty, dc_platform = None\<rparr>],
              si_artifact = [], si_annotations = fmempty\<rparr> else None),
     rg_dec_manifest = (\<lambda>_. None), rg_from_bytes = (\<lambda>b. b), rg_open = (\<lambda>_ _. Inl ''no''),
     rg_copy = (\<lambda>_ _ _ _ s. (None, s))\<rparr>"


end
