(* ===== verification/System_Provider.thy ===== *)
theory System_Provider
  imports System_Agent System_Registry "HOL-Library.Sublist"
begin

text \<open>
  The provider of the system executor (\<^verbatim>\<open>executor/system/provider.go\<close>, \<^verbatim>\<open>options.go\<close>): creating agents, recovering
  them from disk after a restart, and destroying them.  File systems, UUID syntax, YAML and the allocator of
  addresses are parameters; reservations are numbered.  A created agent runs on the address it
  reports, and what a restart recovers is what the materialiser wrote.
\<close>


section \<open>The provider and its options\<close>

record ('s, 'r) Provider =
  pv_storeFor :: "Reference \<Rightarrow> 's target"
  pv_hostfs :: "string \<Rightarrow> (string, bytes) res"
  pv_puller :: "Reference \<Rightarrow> (string, bytes) res"
  pv_usage :: "(Reference \<Rightarrow> (string, bytes) res) option"
  pv_local :: string
  pv_logdir :: string
  pv_reserve :: "nat \<Rightarrow> (string, string) res"
  pv_defaults :: "'s AgentOption list"
  pv_regtarget :: "'s target option"
  pv_regaddr :: string
  pv_regcreated :: "(string \<Rightarrow> string \<Rightarrow> int) option"
  pv_registry :: "('s, 'r) registry option"

type_synonym ('s, 'r) ProviderOption = "('s, 'r) Provider \<Rightarrow> ('s, 'r) Provider"

definition WithPuller :: "(Reference \<Rightarrow> (string, bytes) res) \<Rightarrow> ('s, 'r) ProviderOption" where
  "WithPuller p a = a\<lparr>pv_puller := p\<rparr>"

definition WithUsageFetcher :: "(Reference \<Rightarrow> (string, bytes) res) option \<Rightarrow> ('s, 'r) ProviderOption" where
  "WithUsageFetcher f a = a\<lparr>pv_usage := f\<rparr>"

definition WithLocalRuntime :: "string \<Rightarrow> ('s, 'r) ProviderOption" where
  "WithLocalRuntime path a = a\<lparr>pv_local := path\<rparr>"

definition WithAgentDefaults :: "'s AgentOption list \<Rightarrow> ('s, 'r) ProviderOption" where
  "WithAgentDefaults opts a = a\<lparr>pv_defaults := opts\<rparr>"

definition WithLogDir :: "string \<Rightarrow> ('s, 'r) ProviderOption" where
  "WithLogDir dir a = a\<lparr>pv_logdir := dir\<rparr>"

definition WithLoopbackAllocator :: "(nat \<Rightarrow> (string, string) res) \<Rightarrow> ('s, 'r) ProviderOption" where
  "WithLoopbackAllocator r a = a\<lparr>pv_reserve := r\<rparr>"

definition WithHostFS :: "(string \<Rightarrow> (string, bytes) res) \<Rightarrow> ('s, 'r) ProviderOption" where
  "WithHostFS fs a = a\<lparr>pv_hostfs := fs\<rparr>"

definition WithRegistryTarget :: "'s target option \<Rightarrow> ('s, 'r) ProviderOption" where
  "WithRegistryTarget target p = p\<lparr>pv_regtarget := target\<rparr>"

definition WithRegistryAddr :: "string \<Rightarrow> ('s, 'r) ProviderOption" where
  "WithRegistryAddr addr p = p\<lparr>pv_regaddr := addr\<rparr>"

definition WithRegistryCreatedAt :: "(string \<Rightarrow> string \<Rightarrow> int) option \<Rightarrow> ('s, 'r) ProviderOption" where
  "WithRegistryCreatedAt fn p = p\<lparr>pv_regcreated := fn\<rparr>"

text \<open>The remote puller and usage fetcher for the host platform, the host's file system and the default allocator
  are the values a provider starts with.\<close>

definition NewProvider ::
    "(string \<Rightarrow> (string, bytes) res) \<Rightarrow> (Reference \<Rightarrow> (string, bytes) res) \<Rightarrow> (Reference \<Rightarrow> (string, bytes) res) \<Rightarrow>
     (nat \<Rightarrow> (string, string) res) \<Rightarrow> (Reference \<Rightarrow> 's target) \<Rightarrow> ('s, 'r) ProviderOption list \<Rightarrow> ('s, 'r) Provider" where
  "NewProvider osfs remote_puller remote_usage allocator storeFor opts =
    fold (\<lambda>opt a. opt a) opts
      \<lparr>pv_storeFor = storeFor, pv_hostfs = osfs, pv_puller = remote_puller, pv_usage = Some remote_usage, pv_local = [],
       pv_logdir = [], pv_reserve = allocator, pv_defaults = [], pv_regtarget = None, pv_regaddr = [], pv_regcreated = None,
       pv_registry = None\<rparr>"


section \<open>Surroundings\<close>

text \<open>The provider's root directory: its entries with the flag of a directory, chroot, reading, deleting; the host:
  making and opening log files; UUID syntax; the YAML decoder; the workspace of a fresh agent
  and the spawner of real processes.\<close>

record 's penv =
  pe_entries :: "(string, (string \<times> bool) list) res"
  pe_chroot :: "string \<Rightarrow> (string, string) res"
  pe_read :: "string \<Rightarrow> string \<Rightarrow> (string, bytes) res"
  pe_remove :: "string \<Rightarrow> string option"
  pe_mkdir :: "string \<Rightarrow> string option"
  pe_open :: "string \<Rightarrow> string option"
  pe_uuid :: "string \<Rightarrow> string option"
  pe_yaml :: "bytes \<Rightarrow> (string, Runtime) res"
  pe_ws0 :: "string \<Rightarrow> 's workspace"
  pe_spawner :: spawner

datatype perr =
    PChroot string
  | PReserve string
  | PLogDir string
  | PLogFile string
  | PReadRoot string
  | PReadRuntime string
  | PParseRuntime string
  | PRemoveDir string string

type_synonym 'a pm = "(nat, perr, 'a) sm"


section \<open>Creating\<close>

definition agentOpts :: "('s, 'r) Provider \<Rightarrow> Reference \<Rightarrow> Override list \<Rightarrow> 's AgentOption list" where
  "agentOpts P ref overrides =
    [WithStore (pv_storeFor P ref), WithReference ref, WithAgentPuller (pv_puller P), WithAgentUsageFetcher (pv_usage P),
     withAgentHostFS (pv_hostfs P)] @
    (if pv_local P \<noteq> [] then [WithAgentLocalRuntime (pv_local P)] else []) @
    (if overrides \<noteq> [] then [WithOverrides overrides] else []) @
    pv_defaults P"

definition openLogFile :: "'s penv \<Rightarrow> ('s, 'r) Provider \<Rightarrow> string \<Rightarrow> (perr, stream_writer option) res" where
  "openLogFile E P ident =
    (if pv_logdir P = [] then Inr None
     else case pe_mkdir E (pv_logdir P) of
            Some e \<Rightarrow> Inl (PLogDir e)
          | None \<Rightarrow>
              (let path = JoinPath [pv_logdir P, ident @ ''.log'']
               in case pe_open E path of Some e \<Rightarrow> Inl (PLogFile e) | None \<Rightarrow> Inr (Some (LogFile path))))"

definition reserve :: "('s, 'r) Provider \<Rightarrow> string pm" where
  "reserve P n = (case pv_reserve P n of Inl e \<Rightarrow> Inl (PReserve e) | Inr addr \<Rightarrow> Inr addr, Suc n)"

definition instanceOptions :: "'s penv \<Rightarrow> ('s, 'r) Provider \<Rightarrow> string \<Rightarrow> 's AgentOption list \<Rightarrow> 's AgentOption list pm" where
  "instanceOptions E P ident base =
    sm_bind (reserve P) (\<lambda>addr.
    sm_bind (sm_lift (openLogFile E P ident)) (\<lambda>logFile.
    sm_return (base @ [WithAddr addr] @
      (case logFile of None \<Rightarrow> [] | Some f \<Rightarrow> [WithStdout f, WithStderr f, withLogCloser f]))))"

definition CreateWithOptions ::
    "'s penv \<Rightarrow> ('s, 'r) Provider \<Rightarrow> string \<Rightarrow> Reference \<Rightarrow> 's AgentOption list \<Rightarrow> Override list \<Rightarrow> 's sagent pm" where
  "CreateWithOptions E P ident ref extra overrides =
    (case pe_chroot E ident of
       Inl e \<Rightarrow> sm_lift (Inl (PChroot e))
     | Inr root \<Rightarrow>
         sm_bind (instanceOptions E P ident (agentOpts P ref overrides)) (\<lambda>opts.
         sm_return (NewAgent (pe_spawner E) ident root (pe_ws0 E root) (opts @ extra))))"

definition Create :: "'s penv \<Rightarrow> ('s, 'r) Provider \<Rightarrow> string \<Rightarrow> Reference \<Rightarrow> Override list \<Rightarrow> 's sagent pm" where
  "Create E P ident ref overrides = CreateWithOptions E P ident ref [] overrides"


section \<open>Recovering\<close>

definition agentDirID :: "'s penv \<Rightarrow> string \<times> bool \<Rightarrow> string option" where
  "agentDirID E entry = (if snd entry then pe_uuid E (fst entry) else None)"

definition LoadRuntime :: "'s penv \<Rightarrow> string \<Rightarrow> (perr, Runtime) res" where
  "LoadRuntime E root =
    (case pe_read E root runtimeFile of
       Inl e \<Rightarrow> Inl (PReadRuntime e)
     | Inr data \<Rightarrow> (case pe_yaml E data of Inl e \<Rightarrow> Inl (PParseRuntime e) | Inr rt \<Rightarrow> Inr rt))"

definition loadAgent :: "'s penv \<Rightarrow> ('s, 'r) Provider \<Rightarrow> string \<Rightarrow> 's sagent pm" where
  "loadAgent E P ident =
    (case pe_chroot E ident of
       Inl e \<Rightarrow> sm_lift (Inl (PChroot e))
     | Inr root \<Rightarrow>
         sm_bind (sm_lift (LoadRuntime E root)) (\<lambda>rt0.
         let rt = rt0\<lparr>rt_id := ident\<rparr>;
             ref = (case rt_image rt of None \<Rightarrow> \<lparr>ref_name = [], ref_tag = []\<rparr> | Some i \<Rightarrow> ParseReference (or_ref i))
         in sm_bind (instanceOptions E P ident (agentOpts P ref [])) (\<lambda>opts.
            sm_return (markInitialized rt (NewAgent (pe_spawner E) ident root (pe_ws0 E root) opts)))))"

text \<open>The loop over the entries: agents that loaded, and the errors of those that did not.\<close>

fun load_entries :: "'s penv \<Rightarrow> ('s, 'r) Provider \<Rightarrow> (string \<times> bool) list \<Rightarrow> nat \<Rightarrow> 's sagent list \<times> (string \<times> perr) list \<times> nat" where
  "load_entries E P [] n = ([], [], n)"
| "load_entries E P (entry # entries) n =
    (case agentDirID E entry of
       None \<Rightarrow> load_entries E P entries n
     | Some ident \<Rightarrow>
         (case loadAgent E P ident n of
            (Inl e, n') \<Rightarrow> (let (as, es, m) = load_entries E P entries n' in (as, (ident, e) # es, m))
          | (Inr a, n') \<Rightarrow> (let (as, es, m) = load_entries E P entries n' in (a # as, es, m))))"

definition Load_agents :: "'s penv \<Rightarrow> ('s, 'r) Provider \<Rightarrow> ('s sagent list \<times> (string \<times> perr) list) pm" where
  "Load_agents E P n =
    (case pe_entries E of
       Inl e \<Rightarrow> (Inl (PReadRoot e), n)
     | Inr entries \<Rightarrow> (let (as, es, m) = load_entries E P entries n in (Inr (as, es), m)))"


section \<open>Destroying\<close>

text \<open>The directories deleted, in order, and the error that stopped the loop.\<close>

fun destroy_entries :: "(string \<Rightarrow> string option) \<Rightarrow> (string \<Rightarrow> string option) \<Rightarrow> (string \<times> bool) list \<Rightarrow> string list \<times> perr option" where
  "destroy_entries uuid rm [] = ([], None)"
| "destroy_entries uuid rm ((name, isdir) # entries) =
    (if \<not> isdir \<or> uuid name = None then destroy_entries uuid rm entries
     else case rm name of
            Some e \<Rightarrow> ([], Some (PRemoveDir name e))
          | None \<Rightarrow> (let (ds, e) = destroy_entries uuid rm entries in (name # ds, e)))"

definition Destroy :: "'s penv \<Rightarrow> string list \<times> perr option" where
  "Destroy E =
    (case pe_entries E of
       Inl e \<Rightarrow> ([], Some (PReadRoot e))
     | Inr entries \<Rightarrow> destroy_entries (pe_uuid E) (pe_remove E) entries)"



section \<open>The registry of a provider\<close>

text \<open>\<open>http\<close> is the registry with the HTTP client, decoders and remote repositories of the surroundings.\<close>

definition newRegistry ::
    "('s, 'r) registry \<Rightarrow> 's target option \<Rightarrow> string \<Rightarrow> (string \<Rightarrow> string \<Rightarrow> int) option \<Rightarrow> ('s, 'r) registry" where
  "newRegistry http target addr createdAt = http\<lparr>rg_target := target, rg_addr := addr, rg_created := createdAt\<rparr>"

definition Provider_Registry :: "('s, 'r) registry \<Rightarrow> ('s, 'r) Provider \<Rightarrow> ('s, 'r) registry \<times> ('s, 'r) Provider" where
  "Provider_Registry http a =
    (case pv_registry a of
       Some r \<Rightarrow> (r, a)
     | None \<Rightarrow> (let r = newRegistry http (pv_regtarget a) (pv_regaddr a) (pv_regcreated a) in (r, a\<lparr>pv_registry := Some r\<rparr>)))"


section \<open>Instances\<close>

lemma reserve_Inr: "reserve P n = (Inr addr, n') \<longleftrightarrow> pv_reserve P n = Inr addr \<and> n' = Suc n"
  by (auto simp: reserve_def split: sum.splits)

lemma instanceOptions_Inr:
  "instanceOptions E P ident base n = (Inr opts, n') \<longleftrightarrow>
    (\<exists>addr logFile. pv_reserve P n = Inr addr \<and> openLogFile E P ident = Inr logFile \<and> n' = Suc n \<and>
      opts = base @ WithAddr addr # (case logFile of None \<Rightarrow> [] | Some f \<Rightarrow> [WithStdout f, WithStderr f, withLogCloser f]))"
  by (auto simp: instanceOptions_def sm_bind_Inr reserve_Inr)

lemma plain_agentOpts: "list_all plain_option (pv_defaults P) \<Longrightarrow> list_all plain_option (agentOpts P ref overrides)"
  by (simp add: agentOpts_def plain_options)

lemma log_options:
  "list_all plain_option (case logFile of None \<Rightarrow> [] | Some f \<Rightarrow> [WithStdout f, WithStderr f, withLogCloser f])"
  "\<forall>opt \<in> set (case logFile of None \<Rightarrow> [] | Some f \<Rightarrow> [WithStdout f, WithStderr f, withLogCloser f]). \<forall>a. sa_addr (opt a) = sa_addr a"
  by (auto simp: plain_options WithStdout_def WithStderr_def withLogCloser_def split: option.splits)

text \<open>What a fresh agent of the provider is.\<close>

lemma instance_agent:
  assumes "instanceOptions E P ident (agentOpts P ref overrides) n = (Inr opts, n')" "list_all plain_option (pv_defaults P)"
  shows "let a = NewAgent os ident root ws0 opts
    in sa_id a = ident \<and> sa_root a = root \<and> \<not> sa_init a \<and> sa_rt a = None \<and> pv_reserve P n = Inr (sa_addr a) \<and> n' = Suc n"
proof -
  obtain addr logFile where o: "pv_reserve P n = Inr addr" "n' = Suc n"
    "opts = agentOpts P ref overrides @ WithAddr addr # (case logFile of None \<Rightarrow> [] | Some f \<Rightarrow> [WithStdout f, WithStderr f, withLogCloser f])"
    using assms(1) unfolding instanceOptions_Inr by blast
  have "list_all plain_option opts" using o(3) plain_agentOpts [OF assms(2)] log_options(1) by (simp add: plain_options)
  note NewAgent_plain [OF this, of os ident root ws0] NewAgent_addr [OF log_options(2), of os ident root ws0 "agentOpts P ref overrides" addr logFile]
  then show ?thesis using o by (simp add: Let_def)
qed

lemma loadAgent_Inr:
  assumes "loadAgent E P ident n = (Inr a, n')" "list_all plain_option (pv_defaults P)"
  shows "\<exists>root rt. pe_chroot E ident = Inr root \<and> LoadRuntime E root = Inr rt \<and> sa_id a = ident \<and> sa_root a = root \<and>
    sa_init a \<and> sa_rt a = Some (rt\<lparr>rt_id := ident\<rparr>) \<and> pv_reserve P n = Inr (sa_addr a) \<and> n' = Suc n"
proof -
  obtain root rt ref opts where l: "pe_chroot E ident = Inr root" "LoadRuntime E root = Inr rt"
    "instanceOptions E P ident (agentOpts P ref []) n = (Inr opts, n')"
    "a = markInitialized (rt\<lparr>rt_id := ident\<rparr>) (NewAgent (pe_spawner E) ident root (pe_ws0 E root) opts)"
    using assms(1) by (auto simp: loadAgent_def Let_def sm_bind_Inr sm_lift_def split: sum.splits)
  note fresh = instance_agent [OF l(3) assms(2), of "pe_spawner E" root "pe_ws0 E root", unfolded Let_def]
  then show ?thesis using l(1,2) unfolding l(4) by (simp add: markInitialized_def)
qed

lemma loadAgent_ok:
  assumes "pe_chroot E ident = Inr root" "LoadRuntime E root = Inr rt" "pv_reserve P n = Inr addr" "openLogFile E P ident = Inr logFile"
  shows "\<exists>a. loadAgent E P ident n = (Inr a, Suc n)"
  using assms by (auto simp: loadAgent_def Let_def sm_bind_Inr instanceOptions_Inr)

lemma loadAgent_count: "loadAgent E P ident n = (r, m) \<Longrightarrow> n \<le> m"
  by (auto simp: loadAgent_def Let_def instanceOptions_def reserve_def sm_defs split: sum.splits prod.splits)

text \<open>One entry after another: what loaded, what did not, and the reservations used.\<close>

lemma load_entries_Cons:
  "load_entries E P (entry # entries) n =
    (case agentDirID E entry of
       None \<Rightarrow> load_entries E P entries n
     | Some ident \<Rightarrow>
         (let (r, n') = loadAgent E P ident n; (as, es, m) = load_entries E P entries n'
          in case r of Inl e \<Rightarrow> (as, (ident, e) # es, m) | Inr a \<Rightarrow> (a # as, es, m)))"
  by (auto split: option.splits prod.splits sum.splits)

inductive loads :: "'s penv \<Rightarrow> ('s, 'r) Provider \<Rightarrow> nat \<Rightarrow> string list \<Rightarrow> 's sagent list \<Rightarrow> (string \<times> perr) list \<Rightarrow> bool"
  for E P where
  loads_Nil: "loads E P n [] [] []"
| loads_fail: "loadAgent E P ident n = (Inl e, n') \<Longrightarrow> loads E P n' idents as es \<Longrightarrow> loads E P n (ident # idents) as ((ident, e) # es)"
| loads_ok: "loadAgent E P ident n = (Inr a, n') \<Longrightarrow> loads E P n' idents as es \<Longrightarrow> loads E P n (ident # idents) (a # as) es"

lemma load_entries_loads:
  "load_entries E P entries n = (as, es, m) \<Longrightarrow> loads E P n (List.map_filter (agentDirID E) entries) as es"
proof (induction entries arbitrary: n as es m)
  case Nil
  then show ?case by (simp add: map_filter_def loads_Nil)
next
  case (Cons entry entries)
  show ?case
  proof (cases "agentDirID E entry")
    case None
    then show ?thesis using Cons by (simp add: map_filter_def)
  next
    case (Some ident)
    obtain r n' where r: "loadAgent E P ident n = (r, n')" by (cases "loadAgent E P ident n")
    obtain as' es' m' where rest: "load_entries E P entries n' = (as', es', m')" by (cases "load_entries E P entries n'")
    note ih = Cons.IH [OF rest]
    show ?thesis
    proof (cases r)
      case (Inl e)
      then show ?thesis using Cons.prems Some r rest loads_fail [OF r [unfolded Inl] ih] by (simp add: map_filter_def)
    next
      case (Inr a)
      then show ?thesis using Cons.prems Some r rest loads_ok [OF r [unfolded Inr] ih] by (simp add: map_filter_def)
    qed
  qed
qed

lemma loads_agents:
  assumes "loads E P n idents as es" "list_all plain_option (pv_defaults P)"
  shows "mset (map sa_id as) + mset (map fst es) = mset idents \<and>
    list_all (\<lambda>a. sa_init a \<and> (\<exists>root rt. pe_chroot E (sa_id a) = Inr root \<and> LoadRuntime E root = Inr rt \<and>
      sa_root a = root \<and> sa_rt a = Some (rt\<lparr>rt_id := sa_id a\<rparr>))) as"
  using assms(1)
proof (induction rule: loads.induct)
  case (loads_ok ident n a n' idents as es)
  then show ?case using loadAgent_Inr [OF loads_ok(1) assms(2)] by auto
qed simp_all

text \<open>The addresses are reservations that no other agent of the provider got.\<close>

lemma loads_addresses:
  assumes "loads E P n idents as es" "list_all plain_option (pv_defaults P)"
  shows "\<exists>ns. sorted_wrt (<) ns \<and> (\<forall>k \<in> set ns. n \<le> k) \<and> map (pv_reserve P) ns = map (Inr \<circ> sa_addr) as"
  using assms(1)
proof (induction rule: loads.induct)
  case (loads_Nil n)
  then show ?case by (intro exI [of _ "[]"]) simp
next
  case (loads_fail ident n e n' idents as es)
  then show ?case using loadAgent_count [OF loads_fail(1)] by (meson le_trans)
next
  case (loads_ok ident n a n' idents as es)
  then obtain ns where ns: "sorted_wrt (<) ns" "\<forall>k \<in> set ns. n' \<le> k" "map (pv_reserve P) ns = map (Inr \<circ> sa_addr) as" by blast
  have "pv_reserve P n = Inr (sa_addr a)" "n' = Suc n" using loadAgent_Inr [OF loads_ok(1) assms(2)] by auto
  then show ?case using ns by (intro exI [of _ "n # ns"]) (auto simp: Suc_le_eq)
qed

lemma loads_errors:
  "loads E P n idents as es \<Longrightarrow> (ident, e) \<in> set es \<Longrightarrow> \<exists>k k'. n \<le> k \<and> loadAgent E P ident k = (Inl e, k')"
proof (induction rule: loads.induct)
  case (loads_fail ident' n e' n' idents as es)
  then show ?case using loadAgent_count [OF loads_fail(1)] by (auto intro: order.trans)
next
  case (loads_ok ident' n a n' idents as es)
  then show ?case using loadAgent_count [OF loads_ok(1)] by (meson le_trans)
qed simp

lemma loads_complete:
  assumes "loads E P n idents as es" "list_all plain_option (pv_defaults P)" "ident \<in> set idents"
    "pe_chroot E ident = Inr root" "LoadRuntime E root = Inr rt" "openLogFile E P ident = Inr logFile"
    "\<forall>k \<ge> n. \<exists>addr. pv_reserve P k = Inr addr"
  shows "ident \<in> set (map sa_id as) \<and> ident \<notin> set (map fst es)"
proof -
  have ok: "\<exists>a. loadAgent E P ident k = (Inr a, Suc k)" if "n \<le> k" for k
    using loadAgent_ok [OF assms(4,5) _ assms(6)] assms(7) that by blast
  have "ident \<notin> fst ` set es"
  proof
    assume "ident \<in> fst ` set es"
    then obtain e where "(ident, e) \<in> set es" by auto
    then obtain k k' where "n \<le> k" "loadAgent E P ident k = (Inl e, k')" using loads_errors [OF assms(1)] by blast
    then show False using ok [of k] by simp
  qed
  moreover have "ident \<in># mset (map sa_id as) + mset (map fst es)" using loads_agents [OF assms(1,2)] assms(3) by simp
  ultimately show ?thesis by auto
qed

lemma destroy_entries_spec:
  "destroy_entries uuid rm entries = (ds, err) \<Longrightarrow>
    let dirs = map fst (filter (\<lambda>(name, isdir). isdir \<and> uuid name \<noteq> None) entries)
    in (err = None \<longrightarrow> ds = dirs) \<and> (\<forall>d \<in> set ds. rm d = None) \<and>
       (\<forall>x. err = Some x \<longrightarrow> (\<exists>d e rest. x = PRemoveDir d e \<and> rm d = Some e \<and> dirs = ds @ d # rest))"
proof (induction entries arbitrary: ds)
  case (Cons entry entries)
  obtain name isdir where en: "entry = (name, isdir)" by (cases entry)
  obtain ds' err' where rest: "destroy_entries uuid rm entries = (ds', err')" by (cases "destroy_entries uuid rm entries")
  show ?case
  proof (cases "isdir \<and> uuid name \<noteq> None")
    case False
    then show ?thesis using Cons by (auto simp: en)
  next
    case True
    then show ?thesis using Cons.prems Cons.IH [of ds'] rest by (auto simp: en Let_def split: option.splits)
  qed
qed simp


section \<open>The contract of destroying\<close>

text \<open>What the callers of \<^verbatim>\<open>Destroy\<close> rely on: \<open>dirs\<close> are the agent directories, and the ones deleted are an initial
  part of them, all of them unless there is an error.\<close>

locale tree_destroyer =
  fixes destroy :: "'e \<Rightarrow> string list \<times> 'x option" and dirs :: "'e \<Rightarrow> string list"
  assumes deleted_prefix: "destroy E = (ds, err) \<Longrightarrow> prefix ds (dirs E)"
    and deleted_all: "destroy E = (ds, err) \<Longrightarrow> err = None \<Longrightarrow> ds = dirs E"
begin

lemma only_dirs: "destroy E = (ds, err) \<Longrightarrow> set ds \<subseteq> set (dirs E)"
  using deleted_prefix [of E ds err] by (auto simp: prefix_def)

lemma leftover: "destroy E = (ds, err) \<Longrightarrow> ds \<noteq> dirs E \<Longrightarrow> err \<noteq> None"
  using deleted_all by blast

lemma deleted_once: "destroy E = (ds, err) \<Longrightarrow> distinct (dirs E) \<Longrightarrow> distinct ds"
  using deleted_prefix [of E ds err] by (auto simp: prefix_def)

end

definition agent_dirs :: "'s penv \<Rightarrow> string list" where
  "agent_dirs E =
    (case pe_entries E of
       Inl e \<Rightarrow> []
     | Inr entries \<Rightarrow> map fst (filter (\<lambda>(name, isdir). isdir \<and> pe_uuid E name \<noteq> None) entries))"

interpretation system_trees: tree_destroyer "Destroy :: 's penv \<Rightarrow> string list \<times> perr option" agent_dirs
proof
  fix E :: "'s penv" and ds err assume a: "Destroy E = (ds, err)"
  show "prefix ds (agent_dirs E)"
  proof (cases "pe_entries E")
    case (Inr entries)
    then show ?thesis
      using a destroy_entries_spec [of "pe_uuid E" "pe_remove E" entries ds err]
      by (cases err) (auto simp: Destroy_def agent_dirs_def Let_def prefix_def)
  qed (use a in \<open>simp add: Destroy_def agent_dirs_def\<close>)
  show "ds = agent_dirs E" if "err = None"
    using that a destroy_entries_spec [of "pe_uuid E" "pe_remove E" _ ds err]
    by (auto simp: Destroy_def agent_dirs_def Let_def split: sum.splits)
qed


section \<open>An example\<close>

text \<open>A root with two agents, of which one is unreadable, a file and a directory that is no agent's.\<close>

definition demo_penv :: "Runtime \<Rightarrow> unit penv" where
  "demo_penv rt =
    \<lparr>pe_entries = Inr [(''bad'', True), (''id'', True), (''id'', False), (''lost+found'', True)],
     pe_chroot = (\<lambda>ident. Inr (''/a/'' @ ident)),
     pe_read = (\<lambda>root _. if root = ''/a/id'' then Inr ''y'' else Inl ''missing''),
     pe_remove = (\<lambda>d. if d = ''bad'' then Some ''busy'' else None), pe_mkdir = (\<lambda>_. None), pe_open = (\<lambda>_. None),
     pe_uuid = (\<lambda>d. if d = ''id'' \<or> d = ''bad'' then Some d else None),
     pe_yaml = (\<lambda>_. Inr rt), pe_ws0 = (\<lambda>_. demo_workspace ''d.csv''),
     pe_spawner = \<lparr>sp_start = (\<lambda>_. None), sp_end = (\<lambda>_. Exits None)\<rparr>\<rparr>"

definition demo_provider :: "(unit, unit) Provider" where
  "demo_provider =
    NewProvider (\<lambda>_. Inl ''no'') (\<lambda>_. Inl ''no'') (\<lambda>_. Inl ''no'') (\<lambda>n. Inr (''127.0.0.1:'' @ show_nat n)) (\<lambda>_. demo_target)
      [WithLogDir ''/var/log'', WithAgentDefaults [WithStaticModelResolver ''http://x'' ''k'']]"

definition demo_runtime :: Runtime where
  "demo_runtime =
    \<lparr>rt_source = no_source, rt_id = ''id'', rt_name = ''bot'', rt_model = [], rt_workspace = ''/workspace'', rt_image = None,
     rt_runtime = None, rt_configs = fmempty, rt_capabilities = [], rt_envs = [], rt_mounts = [], rt_context = [], rt_tools = [],
     rt_exec = [], rt_addr = [], rt_apibase = [], rt_apikey = []\<rparr>"

lemma demo_provider_facts:
  "list_all plain_option (pv_defaults demo_provider)" "pv_reserve demo_provider n = Inr (''127.0.0.1:'' @ show_nat n)"
  "openLogFile (demo_penv rt) demo_provider ident = Inr (Some (LogFile (JoinPath [''/var/log'', ident @ ''.log''])))"
  by (simp_all add: demo_provider_def NewProvider_def WithLogDir_def WithAgentDefaults_def plain_options openLogFile_def demo_penv_def Let_def)


section \<open>Properties\<close>

text \<open>An agent survives a restart of the daemon.  When it was materialised under its identifier, its
  descriptor is written and decoded by the tags of its fields, and reading the file returns what was last written to it, then
  loading it gives an agent that is already initialised (preparing it again touches nothing), with the same
  identifier, in the same tree, on a freshly reserved address, whose descriptor is the one that was built, less
  the fields that are never written: credentials, address, values of environment
  variables, host paths of mounts, and the source.  Re-resolving the model then restores the credentials.\<close>

theorem restart_recovers:
  assumes mat: "materialize w ident addr s = (Inr rt, s')" "\<forall>f \<in> set (wk_overrides w). keeps_bins f"
    and enc: "wk_yaml w = (\<lambda>rt. print (Runtime_yaml rt))"
    and dec: "\<forall>data. print (Runtime_yaml rt) = Inr data \<longrightarrow> pe_yaml E data = Inr (yaml_Runtime (Runtime_yaml rt))"
    and disk: "pe_chroot E ident = Inr root"
      "\<forall>data. last_write runtimeFile (w_log s') = Some data \<longrightarrow> pe_read E root runtimeFile = Inr data"
    and prov: "list_all plain_option (pv_defaults P)" "pv_reserve P n = Inr addr'" "openLogFile E P ident = Inr logFile"
  shows "\<exists>a. loadAgent E P ident n = (Inr a, Suc n) \<and> sa_id a = ident \<and> sa_root a = root \<and> sa_addr a = addr' \<and>
    sa_rt a = Some (persisted rt) \<and> (\<forall>t. system_initialize a t = (Inr (), a, t)) \<and>
    (\<forall>resolver base key. wk_model (sa_ws a) = Some resolver \<and> rt_model rt \<noteq> [] \<and> resolver (rt_model rt) = Inr (base, key) \<longrightarrow>
       sa_rt (snd (reresolveCredentials a)) = Some ((persisted rt)\<lparr>rt_apibase := base, rt_apikey := key\<rparr>))"
proof -
  obtain data where d: "wk_yaml w rt = Inr data" "holds data s'" "rt_id rt = ident"
    by (rule materialize_writes [OF mat])
  have "LoadRuntime E root = Inr (persisted rt)"
    using d disk(2) dec enc by (simp add: LoadRuntime_def Runtime_roundtrip)
  moreover obtain a where a: "loadAgent E P ident n = (Inr a, Suc n)"
    using loadAgent_ok [OF disk(1) calculation prov(2,3)] by blast
  moreover have "(persisted rt)\<lparr>rt_id := ident\<rparr> = persisted rt" using d(3) by (simp add: persisted_def)
  ultimately have "sa_id a = ident \<and> sa_root a = root \<and> sa_init a \<and> sa_rt a = Some (persisted rt) \<and> sa_addr a = addr'"
    using loadAgent_Inr [OF a prov(1)] disk(1) prov(2) by auto
  moreover have "rt_model (persisted rt) = rt_model rt" by (simp add: persisted_def)
  ultimately show ?thesis using a by (intro exI [of _ a]) (simp add: system_initialize_once reresolveCredentials_def)
qed

text \<open>The example's descriptor goes through its file.\<close>

theorem restart_recovers_witness:
  "\<exists>rt s' a. materialize (demo_workspace ''d.csv'') ''id'' ''addr'' demo_state = (Inr rt, s') \<and> rt_addr rt = ''addr'' \<and>
     loadAgent (demo_penv (persisted rt)) demo_provider ''id'' 0 = (Inr a, 1) \<and> sa_rt a = Some (persisted rt)"
proof -
  let ?w = "demo_workspace ''d.csv''"
  obtain rt s' where m: "materialize ?w ''id'' ''addr'' demo_state = (Inr rt, s')" using demo_materializes by blast
  let ?E = "demo_penv (persisted rt)"
  have bins: "\<forall>f \<in> set (wk_overrides ?w). keeps_bins f" by (simp add: demo_workspace_def overrides_keep_bins)
  have y: "wk_yaml ?w = (\<lambda>rt. (\<lambda>_. Inr ''y'') (Runtime_yaml rt))" by (simp add: demo_workspace_def)
  obtain data where d: "wk_yaml ?w rt = Inr data" "holds data s'" "rt_addr rt = ''addr''" by (rule materialize_writes [OF m bins])
  have "\<exists>a. loadAgent ?E demo_provider ''id'' 0 = (Inr a, Suc 0) \<and> sa_id a = ''id'' \<and> sa_root a = ''/a/id'' \<and>
      sa_addr a = ''127.0.0.1:'' @ show_nat 0 \<and> sa_rt a = Some (persisted rt) \<and> (\<forall>t. system_initialize a t = (Inr (), a, t)) \<and>
      (\<forall>resolver base key. wk_model (sa_ws a) = Some resolver \<and> rt_model rt \<noteq> [] \<and> resolver (rt_model rt) = Inr (base, key) \<longrightarrow>
         sa_rt (snd (reresolveCredentials a)) = Some ((persisted rt)\<lparr>rt_apibase := base, rt_apikey := key\<rparr>))"
    by (rule restart_recovers [OF m bins y _ _ _ demo_provider_facts])
      (use d in \<open>simp_all add: demo_penv_def Runtime_roundtrip demo_workspace_def\<close>)
  then show ?thesis using m d(3) by auto
qed

text \<open>C24: recovering agents loses none silently.  Every directory whose name is a UUID ends up as an agent or
  as an error that names it, once; an agent is recovered whenever its own tree and log file can be read and
  addresses can be reserved, however broken the others are; every recovered agent is initialised with the
  descriptor of its own tree under its own identifier; and no two of them share a reservation.\<close>

theorem load_isolates_failures:
  assumes "list_all plain_option (pv_defaults P)" "pe_entries E = Inr entries" "Load_agents E P n = (r, m)"
  shows "\<exists>as es. r = Inr (as, es) \<and>
    mset (map sa_id as) + mset (map fst es) = mset (List.map_filter (agentDirID E) entries) \<and>
    (\<forall>ident \<in> set (List.map_filter (agentDirID E) entries). \<forall>root rt logFile.
       pe_chroot E ident = Inr root \<and> LoadRuntime E root = Inr rt \<and> openLogFile E P ident = Inr logFile \<and>
       (\<forall>k \<ge> n. \<exists>addr. pv_reserve P k = Inr addr) \<longrightarrow> ident \<in> set (map sa_id as) \<and> ident \<notin> set (map fst es)) \<and>
    (\<forall>a \<in> set as. sa_init a \<and> (\<exists>root rt. pe_chroot E (sa_id a) = Inr root \<and> LoadRuntime E root = Inr rt \<and>
       sa_root a = root \<and> sa_rt a = Some (rt\<lparr>rt_id := sa_id a\<rparr>))) \<and>
    (\<exists>ns. sorted_wrt (<) ns \<and> map (pv_reserve P) ns = map (Inr \<circ> sa_addr) as)"
proof -
  obtain as es m' where l: "load_entries E P entries n = (as, es, m')" by (cases "load_entries E P entries n")
  then have r: "r = Inr (as, es)" using assms(2,3) by (simp add: Load_agents_def)
  note loads = load_entries_loads [OF l]
  note ag = loads_agents [OF loads assms(1)]
  show ?thesis
    using r ag loads_complete [OF loads assms(1)] loads_addresses [OF loads assms(1)]
    by (intro exI [of _ as] exI [of _ es] conjI) (auto simp: list_all_iff)
qed

text \<open>The unreadable tree is reported, the other one recovered, the rest of the root ignored.\<close>

theorem load_isolates_failures_witness:
  "\<exists>a m. Load_agents (demo_penv demo_runtime) demo_provider 7 = (Inr ([a], [(''bad'', PReadRuntime ''missing'')]), m) \<and>
     sa_id a = ''id'' \<and> sa_init a \<and> sa_addr a \<noteq> []"
proof -
  let ?E = "demo_penv demo_runtime"
  have entries: "pe_entries ?E = Inr [(''bad'', True), (''id'', True), (''id'', False), (''lost+found'', True)]"
    by (simp add: demo_penv_def)
  obtain as es m where l: "Load_agents ?E demo_provider 7 = (Inr (as, es), m)"
    using load_isolates_failures [OF demo_provider_facts(1) entries, of 7] by (metis surj_pair)
  have bad: "loadAgent ?E demo_provider ''bad'' 7 = (Inl (PReadRuntime ''missing''), 7)"
    by (simp add: loadAgent_def LoadRuntime_def demo_penv_def sm_defs)
  obtain a where good: "loadAgent ?E demo_provider ''id'' 7 = (Inr a, 8)"
    using loadAgent_ok [of ?E "''id''" "''/a/id''" demo_runtime demo_provider 7, OF _ _ demo_provider_facts(2,3)]
    by (auto simp: demo_penv_def LoadRuntime_def)
  have uuid: "pe_uuid ?E = (\<lambda>d. if d = ''id'' \<or> d = ''bad'' then Some d else None)" by (simp add: demo_penv_def)
  have "(as, es) = ([a], [(''bad'', PReadRuntime ''missing'')])"
    using l by (simp add: Load_agents_def entries agentDirID_def bad good uuid)
  moreover have "\<forall>a \<in> set as. sa_init a" using load_isolates_failures [OF demo_provider_facts(1) entries l] by auto
  ultimately show ?thesis
    using l loadAgent_Inr [OF good demo_provider_facts(1)] demo_provider_facts(2) [of 7] by auto
qed

text \<open>Destroying a provider's agents deletes agent directories and nothing else: the directories deleted are
  directories with UUID names, in the order they are listed; without an error they are all of them;
  with an error it names the directory that could not be deleted, all before it are gone, and none after it was touched.\<close>

theorem destroy_only_agents:
  assumes "pe_entries E = Inr entries" "Destroy E = (ds, err)"
  defines "dirs \<equiv> map fst (filter (\<lambda>(name, isdir). isdir \<and> pe_uuid E name \<noteq> None) entries)"
  shows "(err = None \<longrightarrow> ds = dirs) \<and> (\<forall>d \<in> set ds. d \<in> set dirs \<and> pe_remove E d = None) \<and>
    (\<forall>x. err = Some x \<longrightarrow> (\<exists>d e rest. x = PRemoveDir d e \<and> pe_remove E d = Some e \<and> dirs = ds @ d # rest))"
proof -
  have d: "destroy_entries (pe_uuid E) (pe_remove E) entries = (ds, err)" using assms(1,2) by (simp add: Destroy_def)
  have "set ds \<subseteq> set dirs" using system_trees.only_dirs [OF assms(2)] assms(1) by (simp add: agent_dirs_def dirs_def)
  then show ?thesis using destroy_entries_spec [OF d, unfolded Let_def, folded dirs_def] by blast
qed

text \<open>The first of the two directories is busy: nothing is deleted, the file and the foreign directory stay.\<close>

theorem destroy_only_agents_witness:
  "Destroy (demo_penv demo_runtime) = ([], Some (PRemoveDir ''bad'' ''busy'')) \<and> pe_remove (demo_penv demo_runtime) ''bad'' = Some ''busy''"
proof -
  let ?E = "demo_penv demo_runtime"
  have entries: "pe_entries ?E = Inr [(''bad'', True), (''id'', True), (''id'', False), (''lost+found'', True)]"
    by (simp add: demo_penv_def)
  have d: "Destroy ?E = ([], Some (PRemoveDir ''bad'' ''busy''))" by code_simp
  then show ?thesis using destroy_only_agents [OF entries d] by auto
qed

text \<open>An agent that was created and materialised is started on the address it reports, but one recovered
  after a restart is not: it reports the address reserved while loading, and since the address is not a persisted field,
  its descriptor has none and the command line ends after the root and the model, without the address.\<close>

theorem recovered_agent_unaddressed:
  "(\<forall>a s a' s'. \<not> sa_init a \<and> sa_addr a \<noteq> [] \<and> (\<forall>f \<in> set (wk_overrides (sa_ws a)). keeps_bins f) \<and>
      system_initialize a s = (Inr (), a', s') \<longrightarrow>
      (\<exists>cmd pre. system_command L a' = Some cmd \<and> jc_args cmd = pre @ [''--addr'', sa_addr a'])) \<and>
   (\<forall>E P ident n a n'. list_all plain_option (pv_defaults P) \<and> (\<forall>data rt. pe_yaml E data = Inr rt \<longrightarrow> rt_addr rt = []) \<and>
      loadAgent E P ident n = (Inr a, n') \<longrightarrow>
      pv_reserve P n = Inr (sa_addr a) \<and>
      (\<exists>cmd rt. sa_rt a = Some rt \<and> system_command L a = Some cmd \<and>
         jc_args cmd = (if rt_exec rt = [] then [''serve''] else rt_exec rt) @ [''--root'', sa_root a] @
           (if rt_model rt \<noteq> [] then [''--model'', rt_model rt] else [])))"
proof (intro conjI allI impI; elim conjE)
  fix a a' :: "'a sagent" and s s' :: "'a wstate"
  assume a: "\<not> sa_init a" "sa_addr a \<noteq> []" "\<forall>f \<in> set (wk_overrides (sa_ws a)). keeps_bins f"
    and i: "system_initialize a s = (Inr (), a', s')"
  obtain rt where "sa_rt a' = Some rt" "rt_addr rt = sa_addr a" "sa_addr a' = sa_addr a"
    by (rule system_initialize_Inr [OF i a(1,3)])
  then show "\<exists>cmd pre. system_command L a' = Some cmd \<and> jc_args cmd = pre @ [''--addr'', sa_addr a']"
    using a(2) by (simp add: system_command_def buildCmdArgs_def runtime_config_def)
next
  fix E :: "'b penv" and P :: "('b, 'c) Provider" and ident n a n'
  assume p: "list_all plain_option (pv_defaults P)" and y: "\<forall>data rt. pe_yaml E data = Inr rt \<longrightarrow> rt_addr rt = []"
    and l: "loadAgent E P ident n = (Inr a, n')"
  obtain root rt where rt: "LoadRuntime E root = Inr rt" "sa_rt a = Some (rt\<lparr>rt_id := ident\<rparr>)" "pv_reserve P n = Inr (sa_addr a)"
    using loadAgent_Inr [OF l p] by blast
  show "pv_reserve P n = Inr (sa_addr a)" by (rule rt(3))
  have "rt_addr rt = []" using rt(1) y by (auto simp: LoadRuntime_def split: sum.splits)
  then show "\<exists>cmd rt. sa_rt a = Some rt \<and> system_command L a = Some cmd \<and>
      jc_args cmd = (if rt_exec rt = [] then [''serve''] else rt_exec rt) @ [''--root'', sa_root a] @
        (if rt_model rt \<noteq> [] then [''--model'', rt_model rt] else [])"
    using rt(2) by (simp add: system_command_def buildCmdArgs_def runtime_config_def)
qed

text \<open>The recovered agent of the example reports the eighth reservation and is started without it.\<close>

theorem recovered_agent_unaddressed_witness:
  "\<exists>a cmd. loadAgent (demo_penv demo_runtime) demo_provider ''id'' 7 = (Inr a, 8) \<and> sa_addr a = ''127.0.0.1:'' @ show_nat 7 \<and>
     system_command ascii_lib a = Some cmd \<and> jc_args cmd = [''serve'', ''--root'', ''/a/id'']"
proof -
  let ?E = "demo_penv demo_runtime"
  obtain a where good: "loadAgent ?E demo_provider ''id'' 7 = (Inr a, 8)"
    using loadAgent_ok [of ?E "''id''" "''/a/id''" demo_runtime demo_provider 7, OF _ _ demo_provider_facts(2,3)]
    by (auto simp: demo_penv_def LoadRuntime_def)
  have y: "\<forall>data rt. pe_yaml ?E data = Inr rt \<longrightarrow> rt_addr rt = []" by (auto simp: demo_penv_def demo_runtime_def)
  have "pv_reserve demo_provider 7 = Inr (sa_addr a) \<and>
      (\<exists>cmd rt. sa_rt a = Some rt \<and> system_command ascii_lib a = Some cmd \<and>
         jc_args cmd = (if rt_exec rt = [] then [''serve''] else rt_exec rt) @ [''--root'', sa_root a] @
           (if rt_model rt \<noteq> [] then [''--model'', rt_model rt] else []))"
    using recovered_agent_unaddressed [of ascii_lib] demo_provider_facts(1) y good by blast
  moreover have "sa_root a = ''/a/id''" "sa_rt a = Some demo_runtime"
    using loadAgent_Inr [OF good demo_provider_facts(1)] by (auto simp: demo_penv_def LoadRuntime_def demo_runtime_def)
  ultimately show ?thesis using good demo_provider_facts(2) [of 7] by (auto simp: demo_runtime_def)
qed

end
