(* ===== verification/Docker_Provider.thy ===== *)
theory Docker_Provider
  imports Docker_Agent System_Provider
begin

text \<open>
  The provider of the docker executor (\<^verbatim>\<open>executor/docker/provider.go\<close>, \<^verbatim>\<open>options.go\<close>, \<^verbatim>\<open>daemon.go\<close>,
  \<^verbatim>\<open>client.go\<close>): finding the engine, probing it before anything is created, creating agents,
  and destroying containers and trees.  The engine's answers and the file system are parameters.
\<close>


section \<open>Finding the engine\<close>

text \<open>The home directory, the environment and the existence of a file, as the process sees them.\<close>

record host_env =
  he_home :: "string option"
  he_getenv :: "string \<Rightarrow> string"
  he_stat :: "string \<Rightarrow> bool"

definition socket_candidates :: "host_env \<Rightarrow> string list" where
  "socket_candidates H =
    (case he_home H of
       None \<Rightarrow> []
     | Some home \<Rightarrow>
         [JoinPath [home, ''.colima'', ''default'', ''docker.sock''], JoinPath [home, ''.docker'', ''run'', ''docker.sock'']]) @
    (if he_getenv H ''XDG_RUNTIME_DIR'' \<noteq> [] then [JoinPath [he_getenv H ''XDG_RUNTIME_DIR'', ''docker.sock'']] else [])"

definition autoDetectSocket :: "host_env \<Rightarrow> string" where
  "autoDetectSocket H = (case find (he_stat H) (socket_candidates H) of None \<Rightarrow> [] | Some p \<Rightarrow> p)"

datatype client_opt = FromEnv | WithHost string | OtherOpt string

definition NewClient :: "host_env \<Rightarrow> (client_opt list \<Rightarrow> (string, 'c) res) \<Rightarrow> client_opt list \<Rightarrow> (string, 'c) res" where
  "NewClient H new opts =
    (let sock = autoDetectSocket H
     in new ([FromEnv] @
         (if he_getenv H ''DOCKER_HOST'' = [] \<and> sock \<noteq> [] then [WithHost (''unix://'' @ sock)] else []) @ opts))"


section \<open>Probing the engine\<close>

text \<open>The answers of the engine the provider asks for: version, driver status, the containers with a label,
  and removal.\<close>

record pclient =
  cl_version :: "(string, string) res"
  cl_info :: "(string, (string \<times> string) list) res"
  cl_list :: "string \<Rightarrow> (string, string list) res"
  cl_remove :: "string \<Rightarrow> remove_err option"

definition MinEngineVersion :: int where
  "MinEngineVersion = 28"

datatype verify_err =
    ErrDaemonUnreachable string
  | ErrParseVersion string
  | ErrEngineTooOld string
  | ErrNoSnapshotter

definition parseEngineMajor :: "string \<Rightarrow> int option" where
  "parseEngineMajor v =
    (let v' = TrimPrefix (TrimSpace v) ''v''
     in case Index v' ''.'' of
          None \<Rightarrow> None
        | Some dot \<Rightarrow> if dot = 0 then None else ParseInt64 (take dot v'))"

definition driverStatusType :: string where
  "driverStatusType = ''driver-type''"

fun hasContainerdSnapshotter :: "(string \<times> string) list \<Rightarrow> bool" where
  "hasContainerdSnapshotter [] = False"
| "hasContainerdSnapshotter (row # rows) =
    (if fst row = driverStatusType \<and> Contains (snd row) ''io.containerd.snapshotter'' then True
     else hasContainerdSnapshotter rows)"

definition Verify :: "pclient \<Rightarrow> verify_err option" where
  "Verify cli =
    (case cl_version cli of
       Inl e \<Rightarrow> Some (ErrDaemonUnreachable e)
     | Inr version \<Rightarrow>
         (case parseEngineMajor version of
            None \<Rightarrow> Some (ErrParseVersion version)
          | Some major \<Rightarrow>
              if major < MinEngineVersion then Some (ErrEngineTooOld version)
              else (case cl_info cli of
                      Inl e \<Rightarrow> Some (ErrDaemonUnreachable e)
                    | Inr rows \<Rightarrow> if \<not> hasContainerdSnapshotter rows then Some ErrNoSnapshotter else None)))"


section \<open>The provider and its options\<close>

definition DefaultBaseImage :: string where
  "DefaultBaseImage = ''gcr.io/distroless/static-debian12:nonroot''"

record 's dprovider =
  dp_client :: "pclient option"
  dp_base :: string
  dp_storeFor :: "Reference \<Rightarrow> 's target"
  dp_hostfs :: "string \<Rightarrow> (string, bytes) res"
  dp_puller :: "Reference \<Rightarrow> (string, bytes) res"
  dp_usage :: "(Reference \<Rightarrow> (string, bytes) res) option"
  dp_model :: "(string \<Rightarrow> (string, string \<times> string) res) option"
  dp_mounts :: "Mount list"
  dp_logdir :: string
  dp_skip :: bool
  dp_registry :: "pclient option"

type_synonym 's DockerOption = "'s dprovider \<Rightarrow> 's dprovider"

definition docker_WithClient :: "pclient option \<Rightarrow> 's DockerOption" where
  "docker_WithClient c p = p\<lparr>dp_client := c\<rparr>"

definition docker_WithBaseImage :: "string \<Rightarrow> 's DockerOption" where
  "docker_WithBaseImage ref p = p\<lparr>dp_base := ref\<rparr>"

definition docker_WithSkipVerify :: "'s DockerOption" where
  "docker_WithSkipVerify p = p\<lparr>dp_skip := True\<rparr>"

definition docker_WithModelResolver :: "(string \<Rightarrow> (string, string \<times> string) res) option \<Rightarrow> 's DockerOption" where
  "docker_WithModelResolver r p = p\<lparr>dp_model := r\<rparr>"

definition docker_WithLogDir :: "string \<Rightarrow> 's DockerOption" where
  "docker_WithLogDir dir p = p\<lparr>dp_logdir := dir\<rparr>"

definition docker_WithMounts :: "Mount list \<Rightarrow> 's DockerOption" where
  "docker_WithMounts m p = p\<lparr>dp_mounts := m\<rparr>"

definition docker_WithUsageFetcher :: "(Reference \<Rightarrow> (string, bytes) res) option \<Rightarrow> 's DockerOption" where
  "docker_WithUsageFetcher f p = p\<lparr>dp_usage := f\<rparr>"

definition docker_WithPuller :: "(Reference \<Rightarrow> (string, bytes) res) \<Rightarrow> 's DockerOption" where
  "docker_WithPuller q p = p\<lparr>dp_puller := q\<rparr>"

datatype dperr =
    DPClient string
  | DPVerify verify_err
  | DPChroot string
  | DPPort string
  | DPList string
  | DPRemoveContainer string string
  | DPTree perr

definition docker_NewProvider ::
    "(string, pclient) res \<Rightarrow> (string \<Rightarrow> (string, bytes) res) \<Rightarrow> (Reference \<Rightarrow> (string, bytes) res) \<Rightarrow>
     (Reference \<Rightarrow> (string, bytes) res) \<Rightarrow> (Reference \<Rightarrow> 's target) \<Rightarrow> 's DockerOption list \<Rightarrow> (dperr, 's dprovider) res" where
  "docker_NewProvider newClient osfs remote_puller remote_usage storeFor opts =
    (let p = fold (\<lambda>opt p. opt p) opts
           \<lparr>dp_client = None, dp_base = DefaultBaseImage, dp_storeFor = storeFor, dp_hostfs = osfs, dp_puller = remote_puller,
            dp_usage = Some remote_usage, dp_model = None, dp_mounts = [], dp_logdir = [], dp_skip = False,
            dp_registry = None\<rparr>
     in case (case dp_client p of Some c \<Rightarrow> Inr c | None \<Rightarrow> newClient) of
          Inl e \<Rightarrow> Inl (DPClient e)
        | Inr cli \<Rightarrow>
            (let p' = p\<lparr>dp_client := Some cli\<rparr>
             in if dp_skip p' then Inr p'
                else case Verify cli of Some e \<Rightarrow> Inl (DPVerify e) | None \<Rightarrow> Inr p'))"

text \<open>The registry facade is the client it calls, built once.\<close>

definition docker_Registry :: "'s dprovider \<Rightarrow> pclient option \<times> 's dprovider" where
  "docker_Registry p =
    (case dp_registry p of Some r \<Rightarrow> (Some r, p) | None \<Rightarrow> (dp_client p, p\<lparr>dp_registry := dp_client p\<rparr>))"


section \<open>Creating\<close>

type_synonym 's DockerAgentOption = "'s agentDeps \<Rightarrow> 's agentDeps"

definition docker_WithDaemonURL :: "string \<Rightarrow> 's DockerAgentOption" where
  "docker_WithDaemonURL url d = d\<lparr>ad_url := url\<rparr>"

definition docker_WithAgentToken :: "string \<Rightarrow> 's DockerAgentOption" where
  "docker_WithAgentToken token d = d\<lparr>ad_token := token\<rparr>"

definition docker_WithCapabilities :: "Capability list \<Rightarrow> 's DockerAgentOption" where
  "docker_WithCapabilities caps d = d\<lparr>ad_capabilities := caps\<rparr>"

text \<open>\<open>deps0 root\<close> holds what the surroundings give an agent with that tree: JSON, YAML, floats, the outcome of
  file-system calls; \<open>port\<close> is what the reserved listener returned.\<close>

definition docker_CreateWithOptions ::
    "'s dprovider \<Rightarrow> (string \<Rightarrow> (string, string) res) \<Rightarrow> (string, string) res \<Rightarrow> (string \<Rightarrow> 's agentDeps) \<Rightarrow> string \<Rightarrow> Reference \<Rightarrow>
     's DockerAgentOption list \<Rightarrow> Override list \<Rightarrow> (dperr, 's agentDeps) res" where
  "docker_CreateWithOptions p chroot port deps0 ident ref opts overrides =
    (case chroot ident of
       Inl e \<Rightarrow> Inl (DPChroot e)
     | Inr root \<Rightarrow>
         (case port of
            Inl e \<Rightarrow> Inl (DPPort e)
          | Inr hostPort \<Rightarrow>
              Inr (fold (\<lambda>opt d. opt d) opts
                ((deps0 root)\<lparr>ad_id := ident, ad_base := dp_base p, ad_ref := ref, ad_overrides := overrides, ad_root := root,
                  ad_host_read := dp_hostfs p, ad_store := dp_storeFor p ref, ad_puller := dp_puller p, ad_usage := dp_usage p,
                  ad_model := dp_model p, ad_mounts := dp_mounts p, ad_port := hostPort, ad_url := [], ad_token := [],
                  ad_capabilities := []\<rparr>))))"

definition docker_Create ::
    "'s dprovider \<Rightarrow> (string \<Rightarrow> (string, string) res) \<Rightarrow> (string, string) res \<Rightarrow> (string \<Rightarrow> 's agentDeps) \<Rightarrow> string \<Rightarrow> Reference \<Rightarrow>
     Override list \<Rightarrow> (dperr, 's agentDeps) res" where
  "docker_Create p chroot port deps0 ident ref overrides = docker_CreateWithOptions p chroot port deps0 ident ref [] overrides"

definition docker_Load :: "'s dprovider \<Rightarrow> (dperr, 's agentDeps list) res" where
  "docker_Load p = Inr []"


section \<open>Destroying\<close>

fun remove_containers :: "(string \<Rightarrow> remove_err option) \<Rightarrow> string list \<Rightarrow> string list \<times> dperr option" where
  "remove_containers rm [] = ([], None)"
| "remove_containers rm (c # cs) =
    (case rm c of
       Some (RemoveErr e) \<Rightarrow> ([], Some (DPRemoveContainer c e))
     | _ \<Rightarrow> (let (ds, err) = remove_containers rm cs in (c # ds, err)))"

definition removeLabelledContainers :: "pclient \<Rightarrow> string list \<times> dperr option" where
  "removeLabelledContainers cli =
    (case cl_list cli (labelOpenottersAgent @ ''='' @ labelValueTrue) of
       Inl e \<Rightarrow> ([], Some (DPList e))
     | Inr ids \<Rightarrow> remove_containers (cl_remove cli) ids)"

text \<open>The containers that are gone, the directories deleted, and the error that ended it.\<close>

definition docker_Destroy :: "pclient \<Rightarrow> 's penv \<Rightarrow> string list \<times> string list \<times> dperr option" where
  "docker_Destroy cli E =
    (case removeLabelledContainers cli of
       (cs, Some e) \<Rightarrow> (cs, [], Some e)
     | (cs, None) \<Rightarrow> (let (ds, err) = Destroy E in (cs, ds, map_option DPTree err)))"



section \<open>Version numbers\<close>

lemma digit_char:
  assumes "d < 10"
  shows "is_digit (char_of (48 + d :: nat))" "digit_val (char_of (48 + d :: nat)) = int d"
proof -
  have c: "(of_char (char_of (48 + d :: nat)) :: nat) = 48 + d" using assms by (simp add: of_char_mod_256)
  show "is_digit (char_of (48 + d :: nat))" using assms unfolding is_digit_def less_eq_char_def c by simp
  show "digit_val (char_of (48 + d :: nat)) = int d" unfolding digit_val_def c by simp
qed

lemma digits_val_snoc: "digits_val (ds @ [c]) = digits_val ds * 10 + digit_val c"
  by (simp add: digits_val_def)

lemma show_nat_digits: "list_all is_digit (show_nat n) \<and> digits_val (show_nat n) = int n \<and> show_nat n \<noteq> []"
proof (induction n rule: less_induct)
  case (less n)
  show ?case
  proof (cases "n < 10")
    case True
    then show ?thesis using digit_char [OF True] by (simp add: show_nat.simps [of n] digits_val_def)
  next
    case False
    then have ih: "list_all is_digit (show_nat (n div 10)) \<and> digits_val (show_nat (n div 10)) = int (n div 10)"
      using less [of "n div 10"] by simp
    have "int (n div 10) * 10 + int (n mod 10) = int n" by presburger
    then show ?thesis using ih False digit_char [of "n mod 10"] by (simp add: show_nat.simps [of n] digits_val_snoc)
  qed
qed

lemma digit_not_special: "is_digit c \<Longrightarrow> c \<noteq> CHR ''-'' \<and> c \<noteq> CHR ''+'' \<and> c \<noteq> CHR ''v'' \<and> c \<noteq> CHR ''.''"
  by (auto simp: is_digit_def)

lemma ParseInt64_show: "ParseInt64 (show_nat n) = (if int n < 2 ^ 63 then Some (int n) else None)"
proof -
  have d: "list_all is_digit (show_nat n)" "digits_val (show_nat n) = int n" "show_nat n \<noteq> []" using show_nat_digits [of n] by simp_all
  have "is_digit (hd (show_nat n))" using d(1,3) by (cases "show_nat n") simp_all
  then have "hd (show_nat n) \<noteq> CHR ''-''" "hd (show_nat n) \<noteq> CHR ''+''" using digit_not_special by blast+
  then show ?thesis using d by (simp add: ParseInt64_def Let_def)
qed

lemma Index_first: "c \<notin> set a \<Longrightarrow> Index (a @ c # b) [c] = Some (length a)"
  by (induction a) (auto simp: HasPrefix_def)

lemma parseEngineMajor_show:
  assumes "TrimSpace version = pre @ show_nat n @ ''.'' @ rest" "pre = [] \<or> pre = ''v''"
  shows "parseEngineMajor version = (if int n < 2 ^ 63 then Some (int n) else None)"
proof -
  have d: "list_all is_digit (show_nat n)" "show_nat n \<noteq> []" using show_nat_digits [of n] by simp_all
  have "is_digit (hd (show_nat n))" using d by (cases "show_nat n") simp_all
  then have "hd (show_nat n) \<noteq> CHR ''v''" using digit_not_special by blast
  then have "TrimPrefix (TrimSpace version) ''v'' = show_nat n @ CHR ''.'' # rest"
    using assms d(2) by (cases "show_nat n") (auto simp: TrimPrefix_def HasPrefix_def)
  moreover have "CHR ''.'' \<notin> set (show_nat n)" using d(1) digit_not_special by (auto simp: list_all_iff)
  ultimately show ?thesis using d(2) Index_first [of "CHR ''.''" "show_nat n" rest] by (simp add: parseEngineMajor_def Let_def ParseInt64_show)
qed

lemma hasContainerdSnapshotter_iff:
  "hasContainerdSnapshotter rows \<longleftrightarrow> (\<exists>v. (driverStatusType, v) \<in> set rows \<and> Contains v ''io.containerd.snapshotter'')"
  by (induction rows) (auto simp: prod_eq_iff)

lemma parseEngineMajor_range: "parseEngineMajor v = Some n \<Longrightarrow> - (2 ^ 63) \<le> n \<and> n < 2 ^ 63"
  by (auto simp: parseEngineMajor_def Let_def dest: ParseInt64_range split: option.splits if_splits)

lemma Verify_None:
  "Verify cli = None \<longleftrightarrow> (\<exists>version major rows. cl_version cli = Inr version \<and> parseEngineMajor version = Some major \<and>
    28 \<le> major \<and> cl_info cli = Inr rows \<and> hasContainerdSnapshotter rows)"
  by (auto simp: Verify_def MinEngineVersion_def split: sum.splits option.splits)


section \<open>Two ways of destroying\<close>

interpretation docker_trees: tree_destroyer "\<lambda>(cli, E). snd (docker_Destroy cli E)" "\<lambda>(cli, E). agent_dirs E"
proof
  fix p ds err assume a: "(\<lambda>(cli, E). snd (docker_Destroy cli E)) p = (ds, err)"
  obtain cli E where p: "p = (cli, E)" by (cases p)
  obtain cs e where c: "removeLabelledContainers cli = (cs, e)" by (cases "removeLabelledContainers cli")
  obtain ds' err' where d: "Destroy E = (ds', err')" by (cases "Destroy E")
  show "prefix ds ((\<lambda>(cli, E). agent_dirs E) p)"
    using a c d system_trees.deleted_prefix [OF d] by (auto simp: p docker_Destroy_def split: option.splits)
  show "ds = (\<lambda>(cli, E). agent_dirs E) p" if "err = None" 
    using that a c d system_trees.deleted_all [of E ds'] by (auto simp: p docker_Destroy_def split: option.splits)
qed

lemma remove_containers_spec:
  "remove_containers rm ids = (cs, err) \<Longrightarrow>
    prefix cs ids \<and> (\<forall>c \<in> set cs. \<forall>e. rm c \<noteq> Some (RemoveErr e)) \<and>
    (err = None \<longleftrightarrow> (\<forall>c \<in> set ids. \<forall>e. rm c \<noteq> Some (RemoveErr e))) \<and> (err = None \<longrightarrow> cs = ids)"
proof (induction ids arbitrary: cs)
  case (Cons c ids)
  obtain cs' err' where rest: "remove_containers rm ids = (cs', err')" by (cases "remove_containers rm ids")
  show ?case using Cons.prems Cons.IH [of cs'] rest by (auto split: option.splits remove_err.splits)
qed simp

lemma destroy_entries_ok:
  assumes "destroy_entries uuid rm entries = (ds, err)"
  shows "err = None \<longleftrightarrow> (\<forall>d \<in> set (map fst (filter (\<lambda>(name, isdir). isdir \<and> uuid name \<noteq> None) entries)). rm d = None)"
proof (cases err)
  case None
  then show ?thesis using destroy_entries_spec [OF assms] unfolding Let_def by metis
next
  case (Some x)
  then obtain d e where "rm d = Some e" "d \<in> set (map fst (filter (\<lambda>(name, isdir). isdir \<and> uuid name \<noteq> None) entries))"
    using destroy_entries_spec [OF assms] unfolding Let_def by (metis in_set_conv_decomp)
  then show ?thesis using Some by fastforce
qed


section \<open>Properties\<close>

text \<open>C28: an engine that cannot mount images is refused before anything is created.  A version that starts
  with a decimal number and a dot, with or without a leading v, is read as that number: below 28 the
  engine is too old; from 28 on it is accepted exactly when its driver status names a containerd snapshotter; a number that
  does not fit into 64 bits is a parse error.  A provider is only built on a client that passed the probe, unless the probe was
  switched off.\<close>

theorem engine_gate:
  assumes "cl_version cli = Inr version" "TrimSpace version = pre @ show_nat n @ ''.'' @ rest" "pre = [] \<or> pre = ''v''"
  shows "(n < 28 \<longrightarrow> Verify cli = Some (ErrEngineTooOld version)) \<and>
    (28 \<le> n \<and> int n < 2 ^ 63 \<longrightarrow>
      (Verify cli = None \<longleftrightarrow>
        (\<exists>rows v. cl_info cli = Inr rows \<and> (driverStatusType, v) \<in> set rows \<and> Contains v ''io.containerd.snapshotter''))) \<and>
    (2 ^ 63 \<le> int n \<longrightarrow> Verify cli = Some (ErrParseVersion version)) \<and>
    (\<forall>newClient osfs puller usage storeFor opts p.
      docker_NewProvider newClient osfs puller usage storeFor opts = Inr p \<and> dp_client p = Some cli \<longrightarrow> dp_skip p \<or> Verify cli = None)"
proof -
  note major = parseEngineMajor_show [OF assms(2,3)]
  have "Verify cli = Some (ErrEngineTooOld version)" if "n < 28"
    using that major by (simp add: Verify_def assms(1) MinEngineVersion_def)
  moreover have "Verify cli = None \<longleftrightarrow>
      (\<exists>rows v. cl_info cli = Inr rows \<and> (driverStatusType, v) \<in> set rows \<and> Contains v ''io.containerd.snapshotter'')"
    if "28 \<le> n \<and> int n < 2 ^ 63"
    using that major unfolding Verify_None hasContainerdSnapshotter_iff by (auto simp: assms(1))
  moreover have "Verify cli = Some (ErrParseVersion version)" if "2 ^ 63 \<le> int n"
    using that major by (simp add: Verify_def assms(1))
  moreover have "dp_skip p \<or> Verify cli = None"
    if "docker_NewProvider newClient osfs puller usage storeFor opts = Inr p \<and> dp_client p = Some cli"
    for newClient osfs puller usage storeFor opts and p :: "'x dprovider"
    using that by (auto simp: docker_NewProvider_def Let_def split: sum.splits option.splits if_splits)
  ultimately show ?thesis by blast
qed

definition demo_engine :: pclient where
  "demo_engine =
    \<lparr>cl_version = Inr ''v28.5.1'', cl_info = Inr [(''driver-type'', ''io.containerd.snapshotter.v1'')],
     cl_list = (\<lambda>_. Inr [''c1'', ''c2'']), cl_remove = (\<lambda>c. if c = ''c1'' then Some NotFoundErr else None)\<rparr>"

theorem engine_gate_witness:
  "Verify demo_engine = None \<and> Verify (demo_engine\<lparr>cl_version := Inr ''27.4.0''\<rparr>) = Some (ErrEngineTooOld ''27.4.0'')"
proof -
  have t: "TrimSpace ''v28.5.1'' = ''v'' @ show_nat 28 @ ''.'' @ ''5.1''" "TrimSpace ''27.4.0'' = [] @ show_nat 27 @ ''.'' @ ''4.0''"
    by code_simp+
  have info: "\<exists>rows v. cl_info demo_engine = Inr rows \<and> (driverStatusType, v) \<in> set rows \<and> Contains v ''io.containerd.snapshotter''"
    by (intro exI [of _ "[(''driver-type'', ''io.containerd.snapshotter.v1'')]"] exI [of _ "''io.containerd.snapshotter.v1''"])
      (simp add: demo_engine_def driverStatusType_def, code_simp)
  have v: "cl_version demo_engine = Inr ''v28.5.1''" by (simp add: demo_engine_def)
  have "Verify demo_engine = None" using conjunct1 [OF conjunct2 [OF engine_gate [OF v t(1)]]] info by simp
  moreover have "Verify (demo_engine\<lparr>cl_version := Inr ''27.4.0''\<rparr>) = Some (ErrEngineTooOld ''27.4.0'')"
    using conjunct1 [OF engine_gate [of "demo_engine\<lparr>cl_version := Inr ''27.4.0''\<rparr>" "''27.4.0''", OF _ t(2)]] by simp
  ultimately show ?thesis by blast
qed

text \<open>C27: destroying the docker provider leaves nothing behind, or says why.  It succeeds exactly when no labelled
  container refuses to be removed (one that is already gone does not count) and every agent directory can be deleted, and
  then all of them are gone; no tree is deleted while a labelled container is still there; and whatever happens only labelled
  containers and agent directories are touched.\<close>

theorem docker_destroy_leaves_nothing:
  assumes "docker_Destroy cli E = (cs, ds, err)" "cl_list cli ''io.openotters.agent=true'' = Inr ids" "pe_entries E = Inr entries"
  defines "dirs \<equiv> map fst (filter (\<lambda>(name, isdir). isdir \<and> pe_uuid E name \<noteq> None) entries)"
  shows "(err = None \<longrightarrow> cs = ids \<and> ds = dirs) \<and>
    (err = None \<longleftrightarrow> (\<forall>c \<in> set ids. \<forall>e. cl_remove cli c \<noteq> Some (RemoveErr e)) \<and> (\<forall>d \<in> set dirs. pe_remove E d = None)) \<and>
    prefix cs ids \<and> prefix ds dirs \<and> (ds \<noteq> [] \<longrightarrow> cs = ids)"
proof -
  have label: "labelOpenottersAgent @ ''='' @ labelValueTrue = ''io.openotters.agent=true''"
    by (simp add: labelOpenottersAgent_def labelValueTrue_def)
  obtain cs' e where c: "remove_containers (cl_remove cli) ids = (cs', e)" by (cases "remove_containers (cl_remove cli) ids")
  then have r: "removeLabelledContainers cli = (cs', e)" unfolding removeLabelledContainers_def label assms(2) by simp
  note spec = remove_containers_spec [OF c]
  have dirs: "agent_dirs E = dirs" by (simp add: agent_dirs_def assms(3) dirs_def)
  obtain ds' err' where d: "Destroy E = (ds', err')" by (cases "Destroy E")
  have ok: "err' = None \<longleftrightarrow> (\<forall>d \<in> set dirs. pe_remove E d = None)"
    using destroy_entries_ok [of "pe_uuid E" "pe_remove E" entries ds' err'] d assms(3) by (simp add: Destroy_def dirs_def)
  have pre: "prefix ds dirs" "err = None \<Longrightarrow> ds = dirs"
    using docker_trees.deleted_prefix [of "(cli, E)" ds err] docker_trees.deleted_all [of "(cli, E)" ds err] assms(1) by (simp_all add: dirs)
  show ?thesis
  proof (cases e)
    case None
    then have "cs = cs'" "ds = ds'" "err = map_option DPTree err'" using assms(1) r d by (auto simp: docker_Destroy_def)
    then show ?thesis using spec ok pre None by auto
  next
    case (Some x)
    then have "cs = cs'" "ds = []" "err = Some x" using assms(1) r by (auto simp: docker_Destroy_def)
    then show ?thesis using spec Some by auto
  qed
qed

text \<open>One container is already gone; the trees of the example cannot all be deleted.\<close>

theorem docker_destroy_leaves_nothing_witness:
  "\<exists>err. docker_Destroy demo_engine (demo_penv demo_runtime) = ([''c1'', ''c2''], [], Some err) \<and>
     docker_Destroy demo_engine ((demo_penv demo_runtime)\<lparr>pe_remove := \<lambda>_. None\<rparr>) = ([''c1'', ''c2''], [''bad'', ''id''], None)"
proof -
  let ?E = "demo_penv demo_runtime" and ?F = "(demo_penv demo_runtime)\<lparr>pe_remove := \<lambda>_. None\<rparr>"
  let ?entries = "[(''bad'', True), (''id'', True), (''id'', False), (''lost+found'', True)]"
  have f: "docker_Destroy demo_engine ?E = ([''c1'', ''c2''], [], Some (DPTree (PRemoveDir ''bad'' ''busy'')))" by code_simp
  obtain cs ds err where g: "docker_Destroy demo_engine ?F = (cs, ds, err)" by (cases "docker_Destroy demo_engine ?F")
  have l: "cl_list demo_engine ''io.openotters.agent=true'' = Inr [''c1'', ''c2'']" by (simp add: demo_engine_def)
  have e: "pe_entries ?F = Inr ?entries" by (simp add: demo_penv_def)
  note spec = docker_destroy_leaves_nothing [OF g l e]
  have "err = None" using spec by (simp add: demo_engine_def)
  then have "cs = [''c1'', ''c2'']" "ds = [''bad'', ''id'']" using spec by (simp_all add: demo_penv_def)
  then show ?thesis using f g \<open>err = None\<close> by simp
qed

end
