(* ===== verification/Test_Registry.thy ===== *)
theory Test_Registry
  imports Docker_Provider
begin

text \<open>
  The in-memory OCI registry of \<^verbatim>\<open>internal/testregistry.go\<close>, which the repository's tests push to and pull from:
  its state, its router and its handlers as functions from a request to a response.  The hash function is a parameter.
  The mutex makes every access to the maps one step; a handler touches them in one section only, so requests
  are served one after another.
\<close>


section \<open>State and messages\<close>

record test_registry =
  tr_blobs :: "(string, bytes) gomap"
  tr_manifests :: "(string, bytes) gomap"
  tr_uploads :: "(string, bytes) gomap"
  tr_uploadSeq :: nat

datatype http_method = GET | HEAD | PUT | POST | PATCH | OtherMethod string

text \<open>\<open>hq_query\<close> holds the parsed query, \<open>hq_body\<close> what reading the body gives.\<close>

record http_request =
  hq_method :: http_method
  hq_path :: string
  hq_query :: "(string \<times> string) list"
  hq_body :: "(string, bytes) res"

record http_reply =
  hp_status :: nat
  hp_headers :: "(string \<times> string) list"
  hp_body :: bytes

definition reply :: "nat \<Rightarrow> (string \<times> string) list \<Rightarrow> bytes \<Rightarrow> http_reply" where
  "reply status headers body = \<lparr>hp_status = status, hp_headers = headers, hp_body = body\<rparr>"

text \<open>\<^verbatim>\<open>http.Error\<close> and \<^verbatim>\<open>http.NotFound\<close>.\<close>

definition http_Error :: "string \<Rightarrow> nat \<Rightarrow> http_reply" where
  "http_Error msg status =
    reply status [(''Content-Type'', ''text/plain; charset=utf-8''), (''X-Content-Type-Options'', ''nosniff'')] (msg @ [CHR 0x0A])"

definition query_Get :: "(string \<times> string) list \<Rightarrow> string \<Rightarrow> string" where
  "query_Get q k = (case map_of q k of None \<Rightarrow> [] | Some v \<Rightarrow> v)"

definition New :: test_registry where
  "New = \<lparr>tr_blobs = fmempty, tr_manifests = fmempty, tr_uploads = fmempty, tr_uploadSeq = 0\<rparr>"

definition Host :: "string \<Rightarrow> string" where
  "Host url = TrimPrefix url ''http://''"


section \<open>Paths\<close>

definition lastSegment :: "string \<Rightarrow> string" where
  "lastSegment path = (case LastIndex path ''/'' of None \<Rightarrow> path | Some i \<Rightarrow> drop (i + 1) path)"

definition extractRepo :: "string \<Rightarrow> string" where
  "extractRepo path0 =
    (let path = TrimPrefix path0 ''/v2/''
     in case Index path ''/blobs/'' of
          Some i \<Rightarrow> take i path
        | None \<Rightarrow> (case Index path ''/manifests/'' of Some i \<Rightarrow> take i path | None \<Rightarrow> path))"


section \<open>Handlers\<close>

text \<open>The loop over the map after a failed lookup: an entry whose key is the reference.\<close>

definition scan_key :: "(string \<Rightarrow> bool) \<Rightarrow> string \<Rightarrow> (string, bytes) gomap \<Rightarrow> bytes option" where
  "scan_key p ref m = (if \<exists>digest \<in> fset (fmdom m). p digest \<and> digest = ref then fmlookup m ref else None)"

definition sha_digest_of :: "(bytes \<Rightarrow> string) \<Rightarrow> bytes \<Rightarrow> string" where
  "sha_digest_of sha256Hex data = ''sha256:'' @ sha256Hex data"

definition headManifest :: "(bytes \<Rightarrow> string) \<Rightarrow> http_request \<Rightarrow> test_registry \<Rightarrow> http_reply \<times> test_registry" where
  "headManifest H req r =
    (let ref = lastSegment (hq_path req);
         found = (case fmlookup (tr_manifests r) ref of
                    Some data \<Rightarrow> Some data
                  | None \<Rightarrow> scan_key (\<lambda>d. HasPrefix d ''sha256:'') ref (tr_manifests r))
     in case found of
          None \<Rightarrow> (reply 404 [] [], r)
        | Some data \<Rightarrow>
            (reply 200 [(''Content-Type'', ''application/vnd.oci.image.manifest.v1+json''), (''Content-Length'', show_nat (length data)),
                        (''Docker-Content-Digest'', sha_digest_of H data)] [], r))"

definition getManifest :: "(bytes \<Rightarrow> string) \<Rightarrow> http_request \<Rightarrow> test_registry \<Rightarrow> http_reply \<times> test_registry" where
  "getManifest H req r =
    (let ref = lastSegment (hq_path req);
         found = (case fmlookup (tr_manifests r) ref of
                    Some data \<Rightarrow> Some data
                  | None \<Rightarrow> scan_key (\<lambda>_. True) ref (tr_manifests r))
     in case found of
          None \<Rightarrow> (reply 404 [] [], r)
        | Some data \<Rightarrow>
            (reply 200 [(''Content-Type'', ''application/vnd.oci.image.manifest.v1+json''),
                        (''Docker-Content-Digest'', sha_digest_of H data)] data, r))"

definition putManifest :: "(bytes \<Rightarrow> string) \<Rightarrow> http_request \<Rightarrow> test_registry \<Rightarrow> http_reply \<times> test_registry" where
  "putManifest H req r =
    (let ref = lastSegment (hq_path req)
     in case hq_body req of
          Inl e \<Rightarrow> (http_Error e 500, r)
        | Inr data \<Rightarrow>
            (let digest = sha_digest_of H data
             in (reply 201 [(''Docker-Content-Digest'', digest)] [],
                 r\<lparr>tr_manifests := fmupd digest data (fmupd ref data (tr_manifests r))\<rparr>)))"

definition headBlob :: "http_request \<Rightarrow> test_registry \<Rightarrow> http_reply \<times> test_registry" where
  "headBlob req r =
    (let digest = lastSegment (hq_path req)
     in case fmlookup (tr_blobs r) digest of
          None \<Rightarrow> (reply 404 [] [], r)
        | Some data \<Rightarrow> (reply 200 [(''Content-Length'', show_nat (length data)), (''Docker-Content-Digest'', digest)] [], r))"

definition getBlob :: "http_request \<Rightarrow> test_registry \<Rightarrow> http_reply \<times> test_registry" where
  "getBlob req r =
    (let digest = lastSegment (hq_path req)
     in case fmlookup (tr_blobs r) digest of
          None \<Rightarrow> (reply 404 [] [], r)
        | Some data \<Rightarrow> (reply 200 [(''Docker-Content-Digest'', digest)] data, r))"

definition startUpload :: "http_request \<Rightarrow> test_registry \<Rightarrow> http_reply \<times> test_registry" where
  "startUpload req r =
    (let n = Suc (tr_uploadSeq r); uid = show_nat n; repo = extractRepo (hq_path req)
     in (reply 202 [(''Location'', ''/v2/'' @ repo @ ''/blobs/uploads/'' @ uid)] [],
         r\<lparr>tr_uploadSeq := n, tr_uploads := fmupd uid [] (tr_uploads r)\<rparr>))"

definition completeUpload :: "(bytes \<Rightarrow> string) \<Rightarrow> http_request \<Rightarrow> test_registry \<Rightarrow> http_reply \<times> test_registry" where
  "completeUpload H req r =
    (case hq_body req of
       Inl e \<Rightarrow> (http_Error e 500, r)
     | Inr data \<Rightarrow>
         (let q = query_Get (hq_query req) ''digest''; digest = (if q = [] then sha_digest_of H data else q)
          in (reply 201 [(''Docker-Content-Digest'', digest)] [], r\<lparr>tr_blobs := fmupd digest data (tr_blobs r)\<rparr>)))"

definition ServeHTTP :: "(bytes \<Rightarrow> string) \<Rightarrow> http_request \<Rightarrow> test_registry \<Rightarrow> http_reply \<times> test_registry" where
  "ServeHTTP H req r =
    (let path = hq_path req; m = hq_method req
     in if path = ''/v2/'' \<or> path = ''/v2'' then (reply 200 [] [], r)
        else if m = HEAD \<and> Contains path ''/manifests/'' then headManifest H req r
        else if m = GET \<and> Contains path ''/manifests/'' then getManifest H req r
        else if m = PUT \<and> Contains path ''/manifests/'' then putManifest H req r
        else if m = GET \<and> Contains path ''/blobs/'' then getBlob req r
        else if m = HEAD \<and> Contains path ''/blobs/'' \<and> \<not> Contains path ''/uploads/'' then headBlob req r
        else if m = POST \<and> Contains path ''/blobs/uploads'' then startUpload req r
        else if (m = PUT \<or> m = PATCH) \<and> Contains path ''/blobs/uploads/'' then completeUpload H req r
        else (http_Error ''404 page not found'' 404, r))"

primrec serve_all :: "(bytes \<Rightarrow> string) \<Rightarrow> http_request list \<Rightarrow> test_registry \<Rightarrow> test_registry" where
  "serve_all H [] r = r"
| "serve_all H (q # qs) r = serve_all H qs (snd (ServeHTTP H q r))"


section \<open>Content addressing\<close>

text \<open>A request that names its content by its own digest, if it names it by a digest at all.\<close>

definition honest :: "(bytes \<Rightarrow> string) \<Rightarrow> http_request \<Rightarrow> bool" where
  "honest H req \<longleftrightarrow>
    (case hq_body req of
       Inl _ \<Rightarrow> True
     | Inr data \<Rightarrow>
         (HasPrefix (lastSegment (hq_path req)) ''sha256:'' \<longrightarrow> lastSegment (hq_path req) = sha_digest_of H data) \<and>
         query_Get (hq_query req) ''digest'' \<in> {[], sha_digest_of H data})"

definition addressed :: "(bytes \<Rightarrow> string) \<Rightarrow> test_registry \<Rightarrow> bool" where
  "addressed H r \<longleftrightarrow>
    (\<forall>k data. fmlookup (tr_blobs r) k = Some data \<longrightarrow> k = sha_digest_of H data) \<and>
    (\<forall>k data. fmlookup (tr_manifests r) k = Some data \<longrightarrow> HasPrefix k ''sha256:'' \<longrightarrow> k = sha_digest_of H data)"

definition upload_inv :: "test_registry \<Rightarrow> bool" where
  "upload_inv r \<longleftrightarrow> (\<forall>uid. fmlookup (tr_uploads r) uid \<noteq> None \<longrightarrow> (\<exists>n. 1 \<le> n \<and> n \<le> tr_uploadSeq r \<and> uid = show_nat n))"

lemma New_addressed: "addressed H New" "upload_inv New"
  by (simp_all add: addressed_def upload_inv_def New_def)

lemma sha_prefix [simp]: "HasPrefix (sha_digest_of H data) ''sha256:''"
  by (simp add: sha_digest_of_def)

text \<open>The ways a request can change the registry.\<close>

lemma ServeHTTP_effect:
  assumes "ServeHTTP H req r = (w, r')"
  obtains "r' = r"
  | data where "hq_body req = Inr data" "hq_method req = PUT" "Contains (hq_path req) ''/manifests/''"
      "r' = r\<lparr>tr_manifests := fmupd (sha_digest_of H data) data (fmupd (lastSegment (hq_path req)) data (tr_manifests r))\<rparr>"
  | data where "hq_body req = Inr data" "r' = r\<lparr>tr_blobs := fmupd (if query_Get (hq_query req) ''digest'' = [] then sha_digest_of H data
      else query_Get (hq_query req) ''digest'') data (tr_blobs r)\<rparr>"
  | "r' = r\<lparr>tr_uploadSeq := Suc (tr_uploadSeq r), tr_uploads := fmupd (show_nat (Suc (tr_uploadSeq r))) [] (tr_uploads r)\<rparr>"
  using assms that
  by (auto simp: ServeHTTP_def Let_def headManifest_def getManifest_def putManifest_def headBlob_def getBlob_def startUpload_def
      completeUpload_def split: if_splits option.splits sum.splits)

lemma honest_PUT:
  assumes "honest H req" "hq_body req = Inr data"
  shows "HasPrefix (lastSegment (hq_path req)) ''sha256:'' \<Longrightarrow> lastSegment (hq_path req) = sha_digest_of H data"
    "(if query_Get (hq_query req) ''digest'' = [] then sha_digest_of H data else query_Get (hq_query req) ''digest'') = sha_digest_of H data"
  using assms by (auto simp: honest_def)

lemma serve_addressed:
  assumes "addressed H r" "honest H req"
  shows "addressed H (snd (ServeHTTP H req r))"
proof -
  obtain w r' where e: "ServeHTTP H req r = (w, r')" by (cases "ServeHTTP H req r")
  have "addressed H r'" using e
  proof (cases rule: ServeHTTP_effect)
    case (2 data)
    then show ?thesis using assms(1) honest_PUT(1) [OF assms(2) 2(1)] by (auto simp: addressed_def)
  next
    case (3 data)
    then show ?thesis using assms(1) honest_PUT(2) [OF assms(2) 3(1)] by (auto simp: addressed_def)
  qed (use assms in \<open>simp_all add: addressed_def\<close>)
  then show ?thesis by (simp add: e)
qed

lemma serve_upload_inv: "upload_inv r \<Longrightarrow> upload_inv (snd (ServeHTTP H req r))"
proof -
  assume u: "upload_inv r"
  obtain w r' where e: "ServeHTTP H req r = (w, r')" by (cases "ServeHTTP H req r")
  have "upload_inv r'" using e
  proof (cases rule: ServeHTTP_effect)
    case 4
    show ?thesis unfolding upload_inv_def
    proof (intro allI impI)
      fix uid assume "fmlookup (tr_uploads r') uid \<noteq> None"
      then consider "uid = show_nat (Suc (tr_uploadSeq r))" | "fmlookup (tr_uploads r) uid \<noteq> None" using 4 by (auto split: if_splits)
      then show "\<exists>n. 1 \<le> n \<and> n \<le> tr_uploadSeq r' \<and> uid = show_nat n"
      proof cases
        case 1
        then show ?thesis using 4 by (intro exI [of _ "Suc (tr_uploadSeq r)"]) simp
      next
        case 2
        then obtain n where "1 \<le> n" "n \<le> tr_uploadSeq r" "uid = show_nat n" using u unfolding upload_inv_def by blast
        then show ?thesis using 4 by (intro exI [of _ n]) simp
      qed
    qed
  qed (use u in \<open>simp_all add: upload_inv_def\<close>)
  then show ?thesis by (simp add: e)
qed

lemma upload_fresh:
  assumes "upload_inv r"
  shows "fmlookup (tr_uploads r) (show_nat (Suc (tr_uploadSeq r))) = None"
proof (rule ccontr)
  assume "fmlookup (tr_uploads r) (show_nat (Suc (tr_uploadSeq r))) \<noteq> None"
  then obtain n where n: "n \<le> tr_uploadSeq r" "show_nat (Suc (tr_uploadSeq r)) = show_nat n"
    using assms unfolding upload_inv_def by blast
  have "int (Suc (tr_uploadSeq r)) = digits_val (show_nat n)" using show_nat_digits [of "Suc (tr_uploadSeq r)"] n(2) by simp
  also have "\<dots> = int n" using show_nat_digits [of n] by simp
  finally show False using n(1) by simp
qed

text \<open>With a hash that tells contents apart, what is stored under a digest never changes.\<close>

lemma serve_keeps:
  assumes "addressed H r" "honest H req" "inj H"
  shows "fmlookup (tr_blobs r) k = Some data \<Longrightarrow> fmlookup (tr_blobs (snd (ServeHTTP H req r))) k = Some data"
    and "HasPrefix k ''sha256:'' \<Longrightarrow> fmlookup (tr_manifests r) k = Some data \<Longrightarrow>
      fmlookup (tr_manifests (snd (ServeHTTP H req r))) k = Some data"
proof -
  obtain w r' where e: "ServeHTTP H req r = (w, r')" by (cases "ServeHTTP H req r")
  have inj: "sha_digest_of H a = sha_digest_of H b \<Longrightarrow> a = b" for a b using assms(3) by (simp add: sha_digest_of_def inj_eq)
  show "fmlookup (tr_blobs (snd (ServeHTTP H req r))) k = Some data" if "fmlookup (tr_blobs r) k = Some data"
    using e
  proof (cases rule: ServeHTTP_effect)
    case (3 x)
    have "k = sha_digest_of H data" using assms(1) that by (simp add: addressed_def)
    then show ?thesis using e 3 that honest_PUT(2) [OF assms(2) 3(1)] inj by auto
  qed (use e that in simp_all)
  show "fmlookup (tr_manifests (snd (ServeHTTP H req r))) k = Some data"
    if "HasPrefix k ''sha256:''" "fmlookup (tr_manifests r) k = Some data"
    using e
  proof (cases rule: ServeHTTP_effect)
    case (2 x)
    have "k = sha_digest_of H data" using assms(1) that by (simp add: addressed_def)
    then show ?thesis using e 2 that honest_PUT(1) [OF assms(2) 2(1)] inj by auto
  qed (use e that in simp_all)
qed

lemma serve_all_append: "serve_all H (as @ bs) r = serve_all H bs (serve_all H as r)"
  by (induction as arbitrary: r) simp_all

lemma serve_all_addressed: "addressed H r \<Longrightarrow> list_all (honest H) qs \<Longrightarrow> addressed H (serve_all H qs r)"
  by (induction qs arbitrary: r) (simp_all add: serve_addressed)

lemma serve_all_upload_inv: "upload_inv r \<Longrightarrow> upload_inv (serve_all H qs r)"
  by (induction qs arbitrary: r) (simp_all add: serve_upload_inv)

lemma serve_all_keeps:
  assumes "inj H" "addressed H r" "list_all (honest H) qs"
  shows "fmlookup (tr_blobs r) k = Some data \<Longrightarrow> fmlookup (tr_blobs (serve_all H qs r)) k = Some data"
    and "HasPrefix k ''sha256:'' \<Longrightarrow> fmlookup (tr_manifests r) k = Some data \<Longrightarrow>
      fmlookup (tr_manifests (serve_all H qs r)) k = Some data"
  using assms(2,3) by (induction qs arbitrary: r) (simp_all add: serve_keeps [OF _ _ assms(1)] serve_addressed)

text \<open>A request that tags another manifest.\<close>

definition retags :: "string \<Rightarrow> http_request \<Rightarrow> bool" where
  "retags tag req \<longleftrightarrow> hq_method req = PUT \<and> Contains (hq_path req) ''/manifests/'' \<and> lastSegment (hq_path req) = tag"

lemma serve_all_keeps_tag:
  assumes "\<not> HasPrefix tag ''sha256:''" "fmlookup (tr_manifests r) tag = Some data" "list_all (\<lambda>q. \<not> retags tag q) qs"
  shows "fmlookup (tr_manifests (serve_all H qs r)) tag = Some data"
  using assms(2,3)
proof (induction qs arbitrary: r)
  case (Cons q qs)
  obtain w r' where e: "ServeHTTP H q r = (w, r')" by (cases "ServeHTTP H q r")
  have "fmlookup (tr_manifests r') tag = Some data" using e
  proof (cases rule: ServeHTTP_effect)
    case (2 x)
    have "tag \<noteq> sha_digest_of H x" using assms(1) sha_prefix by metis
    then show ?thesis using 2 Cons.prems by (auto simp: retags_def)
  qed (use Cons.prems in simp_all)
  then show ?case using Cons.IH [of r'] Cons.prems by (simp add: e)
qed simp

lemma not_v2: "Contains path ''/manifests/'' \<or> Contains path ''/blobs/'' \<Longrightarrow> path \<noteq> ''/v2/'' \<and> path \<noteq> ''/v2''"
  by (auto simp: Contains_def)

lemma getManifest_found:
  assumes "hq_method g = GET" "Contains (hq_path g) ''/manifests/''" "fmlookup (tr_manifests r) (lastSegment (hq_path g)) = Some data"
  shows "fst (ServeHTTP H g r) = reply 200 [(''Content-Type'', ''application/vnd.oci.image.manifest.v1+json''),
    (''Docker-Content-Digest'', sha_digest_of H data)] data"
  using assms not_v2 [of "hq_path g"] by (simp add: ServeHTTP_def getManifest_def Let_def)

lemma getBlob_found:
  assumes "hq_method g = GET" "Contains (hq_path g) ''/blobs/''" "\<not> Contains (hq_path g) ''/manifests/''"
    "fmlookup (tr_blobs r) (lastSegment (hq_path g)) = Some data"
  shows "fst (ServeHTTP H g r) = reply 200 [(''Docker-Content-Digest'', lastSegment (hq_path g))] data"
  using assms not_v2 [of "hq_path g"] by (simp add: ServeHTTP_def getBlob_def Let_def)


section \<open>Properties\<close>


definition demo_request :: "http_method \<Rightarrow> string \<Rightarrow> bytes \<Rightarrow> http_request" where
  "demo_request m path body = \<lparr>hq_method = m, hq_path = path, hq_query = [], hq_body = Inr body\<rparr>"


text \<open>The registry is content addressed.  Under honest traffic every blob, and every manifest stored under a
  digest, is stored under the digest of its bytes; a blob that was pushed is served unchanged ever after, if the hash tells
  contents apart; and every upload gets an identifier no earlier one had, whatever the traffic.\<close>

theorem registry_content_addressed:
  assumes "list_all (honest H) (before @ later)"
  shows "addressed H (serve_all H (before @ later) New) \<and>
    (inj H \<longrightarrow> (\<forall>k data g. fmlookup (tr_blobs (serve_all H before New)) k = Some data \<longrightarrow>
       hq_method g = GET \<longrightarrow> Contains (hq_path g) ''/blobs/'' \<longrightarrow> \<not> Contains (hq_path g) ''/manifests/'' \<longrightarrow> lastSegment (hq_path g) = k \<longrightarrow>
       fst (ServeHTTP H g (serve_all H (before @ later) New)) = reply 200 [(''Docker-Content-Digest'', k)] data)) \<and>
    (\<forall>traffic. let r = serve_all H traffic New in fmlookup (tr_uploads r) (show_nat (Suc (tr_uploadSeq r))) = None)"
proof (intro conjI impI allI)
  show "addressed H (serve_all H (before @ later) New)" by (rule serve_all_addressed [OF New_addressed(1) assms])
  show "let r = serve_all H traffic New in fmlookup (tr_uploads r) (show_nat (Suc (tr_uploadSeq r))) = None" for traffic
    using upload_fresh [OF serve_all_upload_inv [OF New_addressed(2)]] by (simp add: Let_def)
  fix k data and g :: http_request
  assume "inj H" "fmlookup (tr_blobs (serve_all H before New)) k = Some data" and g: "hq_method g = GET" "Contains (hq_path g) ''/blobs/''"
    "\<not> Contains (hq_path g) ''/manifests/''" "lastSegment (hq_path g) = k"
  moreover have "addressed H (serve_all H before New)" "list_all (honest H) later"
    using assms serve_all_addressed [OF New_addressed(1)] by simp_all
  ultimately have "fmlookup (tr_blobs (serve_all H (before @ later) New)) k = Some data"
    by (simp add: serve_all_append serve_all_keeps(1))
  then show "fst (ServeHTTP H g (serve_all H (before @ later) New)) = reply 200 [(''Docker-Content-Digest'', k)] data"
    using getBlob_found [OF g(1-3)] g(4) by simp
qed

theorem registry_content_addressed_witness:
  "addressed (\<lambda>d. d) (serve_all (\<lambda>d. d) [demo_request PUT ''/v2/a/blobs/uploads/1'' ''x'', demo_request GET ''/v2/'' []] New) \<and>
   fmlookup (tr_blobs (serve_all (\<lambda>d. d) [demo_request PUT ''/v2/a/blobs/uploads/1'' ''x'', demo_request GET ''/v2/'' []] New)) ''sha256:x'' = Some ''x''"
proof -
  have "list_all (honest (\<lambda>d. d)) ([demo_request PUT ''/v2/a/blobs/uploads/1'' ''x''] @ [demo_request GET ''/v2/'' []])"
    by (simp add: honest_def demo_request_def query_Get_def lastSegment_def)
  from registry_content_addressed [OF this] show ?thesis
    by (simp add: ServeHTTP_def completeUpload_def demo_request_def query_Get_def Let_def New_def Contains_def sha_digest_of_def)
qed

text \<open>An upload in chunks loses its content.  The router takes a PATCH of an upload for its completion: the chunk
  becomes a blob of its own, and the closing PUT, which names the digest and has no body, stores the empty string under
  that digest.  The map of uploads is written and never read.\<close>

theorem chunked_upload_loses_content:
  assumes "hq_method chunk = PATCH" "hq_body chunk = Inr data" and "hq_method close = PUT" "hq_body close = Inr []"
    and "query_Get (hq_query close) ''digest'' = sha_digest_of H data"
    and "Contains (hq_path close) ''/blobs/uploads/''" "\<not> Contains (hq_path close) ''/manifests/''"
  shows "fmlookup (tr_blobs (serve_all H [chunk, close] r)) (sha_digest_of H data) = Some []"
proof -
  have "hq_path close \<noteq> ''/v2/''" "hq_path close \<noteq> ''/v2''" using assms(6) by (auto simp: Contains_def)
  moreover have "sha_digest_of H data \<noteq> []" by (simp add: sha_digest_of_def)
  ultimately show ?thesis using assms by (simp add: ServeHTTP_def completeUpload_def Let_def)
qed

theorem chunked_upload_loses_content_witness:
  "fmlookup (tr_blobs (serve_all (\<lambda>d. d) [demo_request PATCH ''/v2/a/blobs/uploads/1'' ''x'',
     (demo_request PUT ''/v2/a/blobs/uploads/1'' [])\<lparr>hq_query := [(''digest'', ''sha256:x'')]\<rparr>] New)) ''sha256:x'' = Some []"
  using chunked_upload_loses_content [of "demo_request PATCH ''/v2/a/blobs/uploads/1'' ''x''" "''x''"
      "(demo_request PUT ''/v2/a/blobs/uploads/1'' [])\<lparr>hq_query := [(''digest'', ''sha256:x'')]\<rparr>" "\<lambda>d. d" New]
  by (simp add: demo_request_def query_Get_def sha_digest_of_def Contains_def del: serve_all.simps)

end
