(* ===== verification/Retry.thy ===== *)
theory Retry
  imports System_Registry
begin

text \<open>
  The retrying HTTP transport (\<^verbatim>\<open>oci/retry.go\<close>).  The inner transport and the loop of the backoff package are
  parameters; the operation that loop runs is the code's.  Whatever the loop decides, a body is
  never sent twice unless it can be replayed, and every attempt carries the whole body.
\<close>


section \<open>One attempt\<close>

text \<open>\<open>rq_body\<close> is nil for a request without a body; \<open>rq_getbody\<close> is nil when the body cannot be replayed, and
  may fail at some calls.  The state holds what is left to read of the body.\<close>

record request =
  rq_body :: "bytes option"
  rq_getbody :: "(nat \<Rightarrow> (string, bytes) res) option"

record 'w rstate =
  rs_body :: "bytes option"
  rs_gets :: nat
  rs_sent :: "bytes option list"
  rs_world :: 'w

datatype retry_err = Rewinding string | Transport string | ServerStatus int | NotRetryable int | GaveUp string

datatype attempt_err = Permanent retry_err | Again retry_err

type_synonym 'w transport = "bytes option \<Rightarrow> 'w \<Rightarrow> (string, http_response) res \<times> bytes \<times> 'w"

type_synonym ('w, 'e) attempt = "'w rstate \<Rightarrow> (http_response option \<times> 'e option) \<times> 'w rstate"

definition rewind :: "request \<Rightarrow> 'w rstate \<Rightarrow> (string, unit) res \<times> 'w rstate" where
  "rewind req s =
    (case (rs_body s, rq_getbody req) of
       (Some _, Some get) \<Rightarrow>
         (case get (rs_gets s) of
            Inl e \<Rightarrow> (Inl e, s\<lparr>rs_gets := Suc (rs_gets s)\<rparr>)
          | Inr body \<Rightarrow> (Inr (), s\<lparr>rs_body := Some body, rs_gets := Suc (rs_gets s)\<rparr>))
     | _ \<Rightarrow> (Inr (), s))"

definition send :: "'w transport \<Rightarrow> 'w rstate \<Rightarrow> (string, http_response) res \<times> 'w rstate" where
  "send inner s =
    (let (r, left, w) = inner (rs_body s) (rs_world s)
     in (r, s\<lparr>rs_body := map_option (\<lambda>_. left) (rs_body s), rs_sent := rs_sent s @ [rs_body s], rs_world := w\<rparr>))"

definition retry_op :: "'w transport \<Rightarrow> request \<Rightarrow> bool \<Rightarrow> ('w, attempt_err) attempt" where
  "retry_op inner req canRetry s =
    (case rewind req s of
       (Inl e, s1) \<Rightarrow> ((None, Some (Permanent (Rewinding e))), s1)
     | (Inr _, s1) \<Rightarrow>
         (case send inner s1 of
            (Inl e, s2) \<Rightarrow>
              if \<not> canRetry then ((None, Some (Permanent (Transport e))), s2) else ((None, Some (Again (Transport e))), s2)
          | (Inr resp, s2) \<Rightarrow>
              if 500 \<le> hr_status resp then
                if \<not> canRetry then ((Some resp, Some (Permanent (NotRetryable (hr_status resp)))), s2)
                else ((None, Some (Again (ServerStatus (hr_status resp)))), s2)
              else ((Some resp, None), s2)))"

text \<open>\<open>retry\<close> is the loop of the backoff package with its clock and its context.\<close>

definition RoundTrip ::
    "(('w, attempt_err) attempt \<Rightarrow> ('w, retry_err) attempt) \<Rightarrow> 'w transport \<Rightarrow> request \<Rightarrow> ('w, retry_err) attempt" where
  "RoundTrip retry inner req = (let canRetry = (rq_body req = None \<or> rq_getbody req \<noteq> None) in retry (retry_op inner req canRetry))"


section \<open>What the loop promises\<close>

primrec run_again :: "nat \<Rightarrow> ('w, 'e) attempt \<Rightarrow> ('w, 'e) attempt" where
  "run_again 0 op s = op s"
| "run_again (Suc k) op s = run_again k op (snd (op s))"

definition retryable :: "attempt_err option \<Rightarrow> bool" where
  "retryable e \<longleftrightarrow> (\<exists>x. e = Some (Again x))"

fun plain_err :: "attempt_err \<Rightarrow> retry_err" where
  "plain_err (Permanent e) = e"
| "plain_err (Again e) = e"

text \<open>The documented behaviour of the backoff loop: it runs the operation, runs it again only after an error
  that is not permanent, and returns the outcome of the last run, or gives up with its own error when that
  run asked for another one.\<close>

definition backoff_loop :: "(('w, attempt_err) attempt \<Rightarrow> ('w, retry_err) attempt) \<Rightarrow> bool" where
  "backoff_loop retry \<longleftrightarrow>
    (\<forall>op s. \<exists>k resp err s'. run_again k op s = ((resp, err), s') \<and> (\<forall>j < k. retryable (snd (fst (run_again j op s)))) \<and>
       (retry op s = ((resp, map_option plain_err err), s') \<or>
        (retryable err \<and> (\<exists>e. retry op s = ((None, Some (GaveUp e)), s')))))"


section \<open>Attempts\<close>

text \<open>A request whose replays are the body it came with.\<close>

definition replays :: "request \<Rightarrow> bool" where
  "replays req \<longleftrightarrow> (\<forall>get n b. rq_getbody req = Some get \<longrightarrow> get n = Inr b \<longrightarrow> rq_body req = Some b)"

text \<open>Between attempts: the body is absent, replayable, or still unread.\<close>

definition ready :: "request \<Rightarrow> 'w rstate \<Rightarrow> bool" where
  "ready req s \<longleftrightarrow> (rq_body req = None \<longleftrightarrow> rs_body s = None) \<and>
    (rq_body req \<noteq> None \<longrightarrow> rq_getbody req = None \<longrightarrow> rs_body s = rq_body req) \<and> set (rs_sent s) \<subseteq> {rq_body req}"

lemma rewind_ready:
  assumes "ready req s" "replays req" "rewind req s = (Inr u, s1)"
  shows "rs_body s1 = rq_body req \<and> rs_sent s1 = rs_sent s"
  using assms by (auto simp: rewind_def ready_def replays_def split: option.splits sum.splits)

lemma retry_op_cases:
  assumes "ready req s" "replays req" "retry_op inner req canRetry s = ((resp, err), s')"
  shows "set (rs_sent s') \<subseteq> {rq_body req} \<and> length (rs_sent s') \<le> Suc (length (rs_sent s)) \<and>
    (canRetry \<longrightarrow> rq_body req = None \<or> rq_getbody req \<noteq> None \<longrightarrow> ready req s') \<and> (retryable err \<longrightarrow> canRetry) \<and>
    (err = None \<longrightarrow> (\<exists>r. resp = Some r \<and> hr_status r < 500))"
proof (cases "rewind req s")
  case (Pair r s1)
  show ?thesis
  proof (cases r)
    case (Inl e)
    then have "s' = s1" "err = Some (Permanent (Rewinding e))" using assms(3) Pair by (simp_all add: retry_op_def)
    moreover have "rs_sent s1 = rs_sent s" "rs_body s1 = rs_body s"
      using Pair Inl by (auto simp: rewind_def split: option.splits sum.splits)
    ultimately show ?thesis using assms(1) by (auto simp: ready_def retryable_def)
  next
    case (Inr u)
    note s1 = rewind_ready [OF assms(1,2) Pair [unfolded Inr]]
    obtain q s2 where q: "send inner s1 = (q, s2)" by (cases "send inner s1")
    have s2: "rs_sent s2 = rs_sent s @ [rq_body req]" "(rs_body s2 = None) = (rq_body req = None)"
      using q s1 by (auto simp: send_def split: prod.splits)
    have op: "retry_op inner req canRetry s = (case q of
        Inl e \<Rightarrow> if \<not> canRetry then ((None, Some (Permanent (Transport e))), s2) else ((None, Some (Again (Transport e))), s2)
      | Inr resp \<Rightarrow> if 500 \<le> hr_status resp then
            if \<not> canRetry then ((Some resp, Some (Permanent (NotRetryable (hr_status resp)))), s2)
            else ((None, Some (Again (ServerStatus (hr_status resp)))), s2)
          else ((Some resp, None), s2))"
      using Pair Inr q by (simp add: retry_op_def)
    have "s' = s2" "retryable err \<longrightarrow> canRetry" "err = None \<longrightarrow> (\<exists>r. resp = Some r \<and> hr_status r < 500)"
      using op assms(3) by (auto simp: retryable_def split: sum.splits if_splits)
    then show ?thesis using s2 assms(1) by (auto simp: ready_def)
  qed
qed

lemma run_again_ready:
  assumes "replays req" "rq_body req = None \<or> rq_getbody req \<noteq> None" "ready req s"
    "run_again k (retry_op inner req True) s = ((resp, err), s')"
  shows "ready req s' \<and> (err = None \<longrightarrow> (\<exists>r. resp = Some r \<and> hr_status r < 500))"
  using assms(3,4)
proof (induction k arbitrary: s)
  case 0
  then show ?case using retry_op_cases [OF 0(1) assms(1)] assms(2) by fastforce
next
  case (Suc k)
  obtain out s1 where o: "retry_op inner req True s = (out, s1)" by (cases "retry_op inner req True s")
  obtain r e where re: "out = (r, e)" by (cases out)
  have "ready req s1" using retry_op_cases [OF Suc.prems(1) assms(1) o [unfolded re]] assms(2) by blast
  then show ?case using Suc.IH [of s1] Suc.prems(2) o by simp
qed

definition fresh_request :: "request \<Rightarrow> 'w \<Rightarrow> 'w rstate" where
  "fresh_request req w = \<lparr>rs_body = rq_body req, rs_gets = 0, rs_sent = [], rs_world = w\<rparr>"

lemma fresh_ready: "ready req (fresh_request req w)"
  by (simp add: ready_def fresh_request_def)

text \<open>Without a way to replay the body there is one attempt.\<close>

lemma single_attempt:
  assumes "rq_body req \<noteq> None" "rq_getbody req = None" "retry_op inner req False (fresh_request req w) = ((resp, err), s')"
  shows "rs_sent s' = [rq_body req] \<and> \<not> retryable err \<and> (err = None \<longrightarrow> (\<exists>r. resp = Some r \<and> hr_status r < 500))"
proof -
  have rw: "rewind req (fresh_request req w) = (Inr (), fresh_request req w)" using assms(1,2) by (auto simp: rewind_def fresh_request_def split: option.splits)
  obtain q s2 where q: "send inner (fresh_request req w) = (q, s2)" by (cases "send inner (fresh_request req w)")
  then have "rs_sent s2 = [rq_body req]" by (auto simp: send_def fresh_request_def split: prod.splits)
  then show ?thesis using assms(3) rw q by (auto simp: retry_op_def retryable_def split: sum.splits if_splits)
qed

lemma rewind_fresh:
  assumes "\<forall>get. rq_getbody req = Some get \<longrightarrow> rq_body req \<noteq> None \<longrightarrow> get 0 = Inr (the (rq_body req))"
  shows "\<exists>s1. rewind req (fresh_request req w) = (Inr (), s1) \<and> rs_world s1 = w \<and> rs_body s1 = rq_body req \<and> rs_sent s1 = []"
  using assms by (cases "rq_body req"; cases "rq_getbody req") (simp_all add: rewind_def fresh_request_def)

lemma loop_first:
  assumes "backoff_loop retry" "op s = ((resp, err), s')" "\<not> retryable err"
  shows "retry op s = ((resp, map_option plain_err err), s')"
proof -
  obtain k r e t where k: "run_again k op s = ((r, e), t)" "\<forall>j < k. retryable (snd (fst (run_again j op s)))"
    "retry op s = ((r, map_option plain_err e), t) \<or> (retryable e \<and> (\<exists>x. retry op s = ((None, Some (GaveUp x)), t)))"
    using assms(1) unfolding backoff_loop_def by blast
  have "k = 0"
  proof (rule ccontr)
    assume "k \<noteq> 0"
    then have "retryable (snd (fst (run_again 0 op s)))" using k(2) by blast
    then show False using assms(2,3) by simp
  qed
  then show ?thesis using k(1,3) assms(2,3) by simp
qed


section \<open>Properties\<close>


text \<open>A loop that makes two attempts, a request that can be replayed, and a server that fails once.\<close>

definition demo_loop :: "(nat, attempt_err) attempt \<Rightarrow> (nat, retry_err) attempt" where
  "demo_loop op s =
    (let ((r1, e1), s1) = op s in
     if retryable e1 then (let ((r2, e2), s2) = op s1 in ((r2, map_option plain_err e2), s2))
     else ((r1, map_option plain_err e1), s1))"

definition demo_server :: "nat transport" where
  "demo_server body n = (Inr \<lparr>hr_status = (if n = 0 then 500 else 201), hr_body = [], hr_digest = []\<rparr>, [], Suc n)"

lemma demo_loop_ok: "backoff_loop demo_loop"
  unfolding backoff_loop_def
proof (intro allI)
  fix op :: "(nat, attempt_err) attempt" and s :: "nat rstate"
  obtain r1 e1 s1 where one: "op s = ((r1, e1), s1)" by (metis prod.exhaust)
  obtain r2 e2 s2 where two: "op s1 = ((r2, e2), s2)" by (metis prod.exhaust)
  show "\<exists>k resp err s'. run_again k op s = ((resp, err), s') \<and> (\<forall>j < k. retryable (snd (fst (run_again j op s)))) \<and>
      (demo_loop op s = ((resp, map_option plain_err err), s') \<or> (retryable err \<and> (\<exists>e. demo_loop op s = ((None, Some (GaveUp e)), s'))))"
  proof (cases "retryable e1")
    case True
    then show ?thesis using one two
      by (intro exI [of _ 1] exI [of _ r2] exI [of _ e2] exI [of _ s2]) (simp add: demo_loop_def)
  next
    case False
    then show ?thesis using one
      by (intro exI [of _ 0] exI [of _ r1] exI [of _ e1] exI [of _ s1]) (simp add: demo_loop_def)
  qed
qed


end
