(* ===== verification/Remote.thy ===== *)
theory Remote
  imports Retry Docker_Provider
begin

text \<open>
  Opening a remote repository (\<^verbatim>\<open>oci/repository.go\<close>): the credentials, the retrying client, and the choice
  of plain HTTP for loopback hosts.  The constructor and the credential store of oras-go are parameters.  The
  splitting of host and port and the parsing of IP addresses are those of Go's \<^verbatim>\<open>net\<close> and \<^verbatim>\<open>net/netip\<close>, written
  out; the four fields of a dotted address are shown to be exactly the decimal numerals below 256.
\<close>


section \<open>Host and port\<close>

datatype addr_err = MissingPort | TooManyColons | MissingBracket | UnexpectedOpen | UnexpectedClose

text \<open>\<^verbatim>\<open>net.SplitHostPort\<close>.\<close>

definition SplitHostPort :: "string \<Rightarrow> (addr_err, string \<times> string) res" where
  "SplitHostPort hostport =
    (case LastIndex hostport '':'' of
       None \<Rightarrow> Inl MissingPort
     | Some i \<Rightarrow>
         (let finish = (\<lambda>host j k.
            if CHR ''['' \<in> set (drop j hostport) then Inl UnexpectedOpen
            else if CHR '']'' \<in> set (drop k hostport) then Inl UnexpectedClose
            else Inr (host, drop (Suc i) hostport))
          in if hd hostport = CHR ''[''
             then (case Index hostport '']'' of
                     None \<Rightarrow> Inl MissingBracket
                   | Some stop \<Rightarrow>
                       if Suc stop = length hostport then Inl MissingPort
                       else if Suc stop = i then finish (drop 1 (take stop hostport)) 1 (Suc stop)
                       else if hostport ! Suc stop = CHR '':'' then Inl TooManyColons else Inl MissingPort)
             else if CHR '':'' \<in> set (take i hostport) then Inl TooManyColons
             else finish (take i hostport) 0 0))"


section \<open>IP addresses\<close>

text \<open>The loop of \<^verbatim>\<open>parseIPv4Fields\<close>: \<open>sep\<close> at the start of a field, the value and the digits of the field so far,
  the fields before it.\<close>

fun ipv4_loop :: "bool \<Rightarrow> nat \<Rightarrow> nat \<Rightarrow> nat list \<Rightarrow> string \<Rightarrow> nat list option" where
  "ipv4_loop sep val digLen octets [] = (if length octets < 3 then None else Some (octets @ [val]))"
| "ipv4_loop sep val digLen octets (c # s) =
    (if is_digit c then
       if digLen = 1 \<and> val = 0 then None
       else let val' = val * 10 + nat (digit_val c) in
         if 255 < val' then None else ipv4_loop False val' (Suc digLen) octets s
     else if c = CHR ''.'' then
       if sep \<or> s = [] then None
       else if length octets = 3 then None
       else ipv4_loop True 0 0 (octets @ [val]) s
     else None)"

definition parseIPv4Fields :: "string \<Rightarrow> nat list option" where
  "parseIPv4Fields s = ipv4_loop True 0 0 [] s"

definition hex_digit :: "char \<Rightarrow> nat option" where
  "hex_digit c =
    (if CHR ''0'' \<le> c \<and> c \<le> CHR ''9'' then Some (of_char c - 48)
     else if CHR ''a'' \<le> c \<and> c \<le> CHR ''f'' then Some (of_char c - 87)
     else if CHR ''A'' \<le> c \<and> c \<le> CHR ''F'' then Some (of_char c - 55)
     else None)"

text \<open>The hexadecimal digits at the head of the rest: how many, their value, what follows; at most four.\<close>

fun hex_group :: "nat \<Rightarrow> nat \<Rightarrow> string \<Rightarrow> (nat \<times> nat \<times> string) option" where
  "hex_group off acc [] = Some (off, acc, [])"
| "hex_group off acc (c # s) =
    (case hex_digit c of
       None \<Rightarrow> Some (off, acc, c # s)
     | Some d \<Rightarrow>
         let acc' = acc * 16 + d in
         if 3 < off then None else if 65535 < acc' then None else hex_group (Suc off) acc' s)"

lemma hex_group_length: "hex_group off acc s = Some (off', acc', s') \<Longrightarrow> length s' + off' = length s + off"
  by (induction off acc s rule: hex_group.induct) (auto simp: Let_def split: option.splits if_splits)

text \<open>The loop of \<^verbatim>\<open>parseIPv6\<close>: the bytes so far, the place of the ellipsis, what is left.\<close>

function ipv6_loop :: "nat list \<Rightarrow> nat option \<Rightarrow> string \<Rightarrow> (nat list \<times> nat option \<times> string) option" where
  "ipv6_loop ip ell s =
    (if 16 \<le> length ip then Some (ip, ell, s)
     else case hex_group 0 0 s of
            None \<Rightarrow> None
          | Some (off, acc, rest) \<Rightarrow>
              if off = 0 then None
              else if rest \<noteq> [] \<and> hd rest = CHR ''.'' then
                if ell = None \<and> length ip \<noteq> 12 then None
                else if 16 < length ip + 4 then None
                else map_option (\<lambda>octets. (ip @ octets, ell, [])) (parseIPv4Fields s)
              else
                let ip' = ip @ [acc div 256, acc mod 256] in
                if rest = [] then Some (ip', ell, [])
                else if hd rest \<noteq> CHR '':'' then None
                else if tl rest = [] then None
                else if hd (tl rest) = CHR '':'' then
                  if ell \<noteq> None then None
                  else if tl (tl rest) = [] then Some (ip', Some (length ip'), [])
                  else ipv6_loop ip' (Some (length ip')) (tl (tl rest))
                else ipv6_loop ip' ell (tl rest))"
  by pat_completeness auto

termination
  by (relation "measure (\<lambda>(ip, ell, s). length s)") (auto dest!: hex_group_length)

declare ipv6_loop.simps [simp del]

definition ipv6_finish :: "nat list \<Rightarrow> nat option \<Rightarrow> string \<Rightarrow> nat list option" where
  "ipv6_finish ip ell s =
    (if s \<noteq> [] then None
     else if length ip < 16 then
       map_option (\<lambda>e. take e ip @ replicate (16 - length ip) 0 @ drop e ip) ell
     else if ell \<noteq> None then None
     else Some ip)"

text \<open>An address and its zone.\<close>

definition parseIPv6 :: "string \<Rightarrow> (nat list \<times> string) option" where
  "parseIPv6 inp =
    (let (s, zone) = (case Index inp ''%'' of None \<Rightarrow> (inp, None) | Some i \<Rightarrow> (take i inp, Some (drop (Suc i) inp)))
     in if zone = Some [] then None
        else map_option (\<lambda>ip. (ip, case zone of None \<Rightarrow> [] | Some z \<Rightarrow> z))
          (if HasPrefix s ''::'' then
             if drop 2 s = [] then Some (replicate 16 0)
             else case ipv6_loop [] (Some 0) (drop 2 s) of None \<Rightarrow> None | Some (ip, e, r) \<Rightarrow> ipv6_finish ip e r
           else case ipv6_loop [] None s of None \<Rightarrow> None | Some (ip, e, r) \<Rightarrow> ipv6_finish ip e r))"

definition v4InV6Prefix :: "nat list" where
  "v4InV6Prefix = [0, 0, 0, 0, 0, 0, 0, 0, 0, 0, 255, 255]"

definition as16 :: "nat list \<Rightarrow> nat list" where
  "as16 ip4 = v4InV6Prefix @ ip4"

text \<open>\<^verbatim>\<open>netip.ParseAddr\<close>: the first of the three bytes decides what to parse.\<close>

definition ParseAddr :: "string \<Rightarrow> (nat list \<times> string) option" where
  "ParseAddr s =
    (case List.find (\<lambda>c. c \<in> {CHR ''.'', CHR '':'', CHR ''%''}) s of
       None \<Rightarrow> None
     | Some c \<Rightarrow>
         if c = CHR ''.'' then map_option (\<lambda>ip4. (as16 ip4, [])) (parseIPv4Fields s)
         else if c = CHR '':'' then parseIPv6 s
         else None)"

definition ParseIP :: "string \<Rightarrow> nat list option" where
  "ParseIP s = (case ParseAddr s of Some (ip, zone) \<Rightarrow> if zone \<noteq> [] then None else Some ip | None \<Rightarrow> None)"

definition IsLoopback :: "nat list \<Rightarrow> bool" where
  "IsLoopback ip =
    (if take 12 ip = v4InV6Prefix then ip ! 12 = 127 else ip = replicate 15 0 @ [1])"


section \<open>Repositories\<close>

definition isLoopbackHost :: "string \<Rightarrow> bool" where
  "isLoopbackHost hostport =
    (let host = (case SplitHostPort hostport of Inl _ \<Rightarrow> hostport | Inr (h, _) \<Rightarrow> h)
     in if host = ''localhost'' then True
        else case ParseIP host of Some ip \<Rightarrow> IsLoopback ip | None \<Rightarrow> False)"

text \<open>\<open>'c\<close> is the credential store of oras-go, \<open>'w\<close> the world behind the transport.\<close>

record ('c, 'w) auth_client =
  ac_transport :: "request \<Rightarrow> ('w, retry_err) attempt"
  ac_credential :: 'c

record ('c, 'w) repository =
  rr_registry :: string
  rr_reference :: string
  rr_client :: "('c, 'w) auth_client option"
  rr_plain :: bool

type_synonym ('c, 'w) RemoteRepositoryOption = "('c, 'w) repository \<Rightarrow> ('c, 'w) repository"

definition WithPlainHTTP :: "('c, 'w) RemoteRepositoryOption" where
  "WithPlainHTTP repo = repo\<lparr>rr_plain := True\<rparr>"

datatype repo_err = ParsingReference string Reference | LoadingCredentials string

text \<open>A nil transport stands for the default one.\<close>

definition withRetry ::
    "(('w, attempt_err) attempt \<Rightarrow> ('w, retry_err) attempt) \<Rightarrow> 'w transport \<Rightarrow> 'w transport option \<Rightarrow> request \<Rightarrow> ('w, retry_err) attempt" where
  "withRetry retry DefaultTransport inner = RoundTrip retry (case inner of None \<Rightarrow> DefaultTransport | Some t \<Rightarrow> t)"

text \<open>The parameters are the two constructors of oras-go, the loop of the backoff package and the default transport.\<close>

definition NewRemoteRepository ::
    "(string \<Rightarrow> (string, ('c, 'w) repository) res) \<Rightarrow> (string, 'c) res \<Rightarrow>
      (('w, attempt_err) attempt \<Rightarrow> ('w, retry_err) attempt) \<Rightarrow> 'w transport \<Rightarrow>
      Reference \<Rightarrow> ('c, 'w) RemoteRepositoryOption list \<Rightarrow> (repo_err, ('c, 'w) repository) res" where
  "NewRemoteRepository NewRepository NewStoreFromDocker retry DefaultTransport ref opts =
    (case NewRepository (ref_String ref) of
       Inl e \<Rightarrow> Inl (ParsingReference e ref)
     | Inr repo \<Rightarrow>
         (case NewStoreFromDocker of
            Inl e \<Rightarrow> Inl (LoadingCredentials e)
          | Inr credStore \<Rightarrow>
              (let repo1 = repo\<lparr>rr_client := Some \<lparr>ac_transport = withRetry retry DefaultTransport (Some DefaultTransport), ac_credential = credStore\<rparr>\<rparr>;
                   repo2 = (if isLoopbackHost (rr_registry repo1) then repo1\<lparr>rr_plain := True\<rparr> else repo1)
               in Inr (fold (\<lambda>opt r. opt r) opts repo2))))"



section \<open>Dotted addresses\<close>

text \<open>One field of the loop.\<close>

fun octet :: "nat \<Rightarrow> nat \<Rightarrow> string \<Rightarrow> nat option" where
  "octet val digLen [] = Some val"
| "octet val digLen (c # s) =
    (if \<not> is_digit c \<or> (digLen = 1 \<and> val = 0) then None
     else let val' = val * 10 + nat (digit_val c) in if 255 < val' then None else octet val' (Suc digLen) s)"

lemma digit_le: "is_digit c \<Longrightarrow> nat (digit_val c) < 10"
  by (auto simp: is_digit_def digit_val_def less_eq_char_def)

lemma digit_shown: "is_digit c \<Longrightarrow> char_of (48 + nat (digit_val c)) = c"
proof -
  assume "is_digit c"
  then have "48 + nat (digit_val c) = of_char c" by (auto simp: is_digit_def digit_val_def less_eq_char_def)
  then show ?thesis by (simp only: char_of_char)
qed

lemma show_nat_snoc: "0 < v \<Longrightarrow> is_digit c \<Longrightarrow> show_nat (v * 10 + nat (digit_val c)) = show_nat v @ [c]"
  using digit_le [of c] digit_shown [of c] by (subst show_nat.simps) simp

lemma show_nat_digit: "is_digit c \<Longrightarrow> show_nat (nat (digit_val c)) = [c]"
  using digit_le [of c] digit_shown [of c] by (subst show_nat.simps) simp

lemma digits_val_mono: "list_all is_digit b \<Longrightarrow> 0 \<le> digits_val a \<Longrightarrow> digits_val a \<le> digits_val (a @ b)"
proof (induction b rule: rev_induct)
  case (snoc c b)
  then have "0 \<le> digit_val c" "digits_val a \<le> digits_val (a @ b)" by (simp_all add: digit_val_nonneg)
  moreover have "digits_val (a @ b @ [c]) = digits_val (a @ b) * 10 + digit_val c" using digits_val_snoc [of "a @ b" c] by simp
  ultimately show ?case using snoc.prems(2) by simp
qed simp

text \<open>Past its first digit a field is parsed to the number whose numeral it completes.\<close>

lemma octet_more: "0 < v \<Longrightarrow> v < 256 \<Longrightarrow> octet v n s = Some w \<longleftrightarrow> w < 256 \<and> show_nat w = show_nat v @ s"
proof (induction s arbitrary: v n)
  case Nil
  have "show_nat w = show_nat v \<longleftrightarrow> w = v" using show_nat_digits by (metis of_nat_eq_iff)
  then show ?case using Nil by auto
next
  case (Cons c s)
  show ?case
  proof (cases "is_digit c")
    case True
    let ?v = "v * 10 + nat (digit_val c)"
    have s: "show_nat v @ c # s = show_nat ?v @ s" using show_nat_snoc [OF Cons.prems(1) True] by simp
    have "?v \<le> w" if "show_nat w = show_nat ?v @ s"
    proof -
      have "list_all is_digit s" using show_nat_digits [of w] that by simp
      then have "digits_val (show_nat ?v) \<le> digits_val (show_nat w)" unfolding that
        using show_nat_digits [of ?v] by (intro digits_val_mono) simp_all
      then show ?thesis using show_nat_digits [of w] show_nat_digits [of ?v] by (simp only: of_nat_le_iff)
    qed
    then show ?thesis using Cons.IH [of ?v "Suc n"] Cons.prems True s by (auto simp: Let_def)
  next
    case False
    have "show_nat w \<noteq> show_nat v @ c # s" using show_nat_digits [of w] False by auto
    then show ?thesis using False by simp
  qed
qed

text \<open>Only zero is written with a leading zero.\<close>

lemma show_nat_head: "0 < w \<Longrightarrow> 0 < digit_val (hd (show_nat w))"
proof (induction w rule: less_induct)
  case (less w)
  show ?case
  proof (cases "w < 10")
    case True
    then show ?thesis using less.prems digit_char(2) [OF True] by (subst show_nat.simps) simp
  next
    case False
    have "hd (show_nat w) = hd (show_nat (w div 10))"
      using False show_nat_digits [of "w div 10"] by (subst show_nat.simps) simp
    moreover have "0 < digit_val (hd (show_nat (w div 10)))" using False by (intro less.IH) simp_all
    ultimately show ?thesis by simp
  qed
qed

lemma octet_iff: "octet 0 0 (c # t) = Some w \<longleftrightarrow> w < 256 \<and> c # t = show_nat w"
proof (cases "is_digit c")
  case False
  then have "c # t \<noteq> show_nat w" using show_nat_digits [of w] by (cases "show_nat w") auto
  then show ?thesis using False by simp
next
  case d: True
  show ?thesis
  proof (cases "0 < nat (digit_val c)")
    case True
    then show ?thesis
      using octet_more [of "nat (digit_val c)" "Suc 0" t w] digit_le [OF d] show_nat_digit [OF d] d by (auto simp: Let_def)
  next
    case False
    have l: "octet 0 0 (c # t) = Some w \<longleftrightarrow> t = [] \<and> w = 0" using d False by (cases t) (auto simp: Let_def)
    have r: "c # t = show_nat w \<longleftrightarrow> t = [] \<and> w = 0"
    proof
      assume e: "c # t = show_nat w"
      have "w = 0" using show_nat_head [of w] False unfolding e [symmetric] by auto
      moreover have "show_nat 0 = [c]" using show_nat_digit [OF d] False by simp
      ultimately show "t = [] \<and> w = 0" using e by simp
    qed (use show_nat_digit [OF d] False in simp)
    show ?thesis unfolding l r by auto
  qed
qed

lemma ipv4_part:
  "CHR ''.'' \<notin> set p \<Longrightarrow> ipv4_loop sep v n fs (p @ rest) =
    (case octet v n p of None \<Rightarrow> None | Some w \<Rightarrow> ipv4_loop (sep \<and> p = []) w (n + length p) fs rest)"
proof (induction p arbitrary: sep v n)
  case (Cons c p)
  then show ?case by (cases "is_digit c") (auto simp: Let_def split: option.split)
qed simp

text \<open>What is left of an address after the fields \<open>fs\<close>: the parts between the dots, each a field.\<close>

lemma ipv4_parts:
  "s \<noteq> [] \<Longrightarrow> length fs \<le> 3 \<Longrightarrow> ipv4_loop True 0 0 fs s = Some os \<longleftrightarrow>
    (\<exists>ws. os = fs @ ws \<and> length os = 4 \<and> list_all2 (\<lambda>p w. p \<noteq> [] \<and> octet 0 0 p = Some w) (split_on CHR ''.'' s) ws)"
proof (induction "length s" arbitrary: fs s rule: less_induct)
  case less
  show ?case
  proof (cases "CHR ''.'' \<in> set s")
    case False
    have "ipv4_loop True 0 0 fs s = (case octet 0 0 s of None \<Rightarrow> None | Some w \<Rightarrow> if length fs < 3 then None else Some (fs @ [w]))"
      using ipv4_part [OF False, of True 0 0 fs "[]"] by (simp cong: option.case_cong)
    then show ?thesis using less.prems split_on_no_sep [OF False] by (auto simp: list_all2_Cons1 split: option.splits)
  next
    case True
    then obtain p r where s: "s = p @ CHR ''.'' # r" "CHR ''.'' \<notin> set p" by (meson split_list_first)
    have sp: "split_on CHR ''.'' s = p # split_on CHR ''.'' r" unfolding s(1) by (rule split_on_append [OF s(2)])
    have dot: "\<not> is_digit CHR ''.''" by (simp add: is_digit_def)
    have st: "ipv4_loop True 0 0 fs s = (case octet 0 0 p of None \<Rightarrow> None | Some w \<Rightarrow>
        if p = [] \<or> r = [] \<or> length fs = 3 then None else ipv4_loop True 0 0 (fs @ [w]) r)"
      using ipv4_part [OF s(2), of True 0 0 fs "CHR ''.'' # r"] dot by (simp add: s(1) split: option.splits)
    show ?thesis
    proof (cases "p = [] \<or> r = [] \<or> length fs = 3")
      case True
      have "\<not> (p \<noteq> [] \<and> os = fs @ ws \<and> length os = 4 \<and> list_all2 (\<lambda>p w. p \<noteq> [] \<and> octet 0 0 p = Some w) (p # split_on CHR ''.'' r) ws)" for ws
        using True split_on_nonempty [of "CHR ''.''" r]
        by (cases ws; cases "tl ws") (auto simp: list_all2_Cons1)
      then show ?thesis using True st sp by (auto split: option.splits simp: list_all2_Cons1)
    next
      case False
      have "length r < length s" "r \<noteq> []" "length (fs @ [w]) \<le> 3" for w using s(1) False less.prems(2) by auto
      note ih = less.hyps [OF this]
      show ?thesis using False st sp ih by (auto simp: list_all2_Cons1 split: option.splits)
    qed
  qed
qed

lemma list_all2_image: "list_all2 (\<lambda>p w. P w \<and> p = f w) ps ws \<longleftrightarrow> list_all P ws \<and> ps = map f ws"
  by (induction ws arbitrary: ps) (auto simp: list_all2_Cons2)

lemma octets_shown:
  "list_all2 (\<lambda>p w. p \<noteq> [] \<and> octet 0 0 p = Some w) ps ws \<longleftrightarrow> list_all (\<lambda>w. w < 256) ws \<and> ps = map show_nat ws"
proof -
  have o: "p \<noteq> [] \<and> octet 0 0 p = Some w \<longleftrightarrow> w < 256 \<and> p = show_nat w" for p w
    using octet_iff show_nat_digits [of w] by (cases p) auto
  show ?thesis unfolding o by (rule list_all2_image)
qed

text \<open>An address has four fields, each the numeral of a number below 256.\<close>

lemma show_nat_no_dot: "CHR ''.'' \<notin> set (show_nat w)" "CHR '':'' \<notin> set (show_nat w)"
proof -
  have "\<forall>c \<in> set (show_nat w). is_digit c" using show_nat_digits [of w] by (simp add: list_all_iff)
  moreover have "\<not> is_digit CHR ''.''" "\<not> is_digit CHR '':''" by (simp_all add: is_digit_def)
  ultimately show "CHR ''.'' \<notin> set (show_nat w)" "CHR '':'' \<notin> set (show_nat w)" by blast+
qed

lemma split_on_eq_iff:
  assumes "ps \<noteq> []" "\<forall>p \<in> set ps. c \<notin> set p"
  shows "split_on c s = ps \<longleftrightarrow> s = Join ps [c]"
  using split_on_Join [OF assms] Join_split_on by metis

lemma parseIPv4_iff:
  "parseIPv4Fields s = Some os \<longleftrightarrow>
    length os = 4 \<and> list_all (\<lambda>w. w < 256) os \<and> s = Join (map show_nat os) ''.''"
proof (cases "s = []")
  case True
  have "Join (map show_nat os) ''.'' \<noteq> []" if "length os = 4"
    using that show_nat_digits by (cases os; cases "tl os") auto
  then show ?thesis using True by (auto simp: parseIPv4Fields_def)
next
  case False
  have "split_on CHR ''.'' s = map show_nat os \<longleftrightarrow> s = Join (map show_nat os) ''.''" if "length os = 4"
    using that by (intro split_on_eq_iff) (auto simp: show_nat_no_dot)
  then show ?thesis using ipv4_parts [OF False, of "[]" os] by (auto simp: parseIPv4Fields_def octets_shown)
qed


section \<open>Hosts\<close>

definition bare :: "string \<Rightarrow> bool" where
  "bare s \<longleftrightarrow> CHR '':'' \<notin> set s \<and> CHR ''['' \<notin> set s \<and> CHR '']'' \<notin> set s"

lemma SplitHostPort_bare: "bare h \<Longrightarrow> SplitHostPort h = Inl MissingPort"
  using LastIndex_char_None_iff [of h "CHR '':''"] by (simp add: SplitHostPort_def bare_def)

lemma SplitHostPort_port:
  assumes "bare h" "bare port"
  shows "SplitHostPort (h @ '':'' @ port) = Inr (h, port)"
proof -
  have "LastIndex (h @ CHR '':'' # port) '':'' = Some (length h)" using assms(2) by (intro LastIndex_char_append) (simp add: bare_def)
  moreover have "hd (h @ CHR '':'' # port) \<noteq> CHR ''[''" using assms(1) by (cases h) (auto simp: bare_def)
  ultimately show ?thesis using assms by (simp add: SplitHostPort_def bare_def)
qed

lemma SplitHostPort_bracket:
  assumes "CHR ''['' \<notin> set h" "CHR '']'' \<notin> set h" "bare port"
  shows "SplitHostPort (''['' @ h @ '']:'' @ port) = Inr (h, port)"
proof -
  let ?s = "CHR ''['' # h @ CHR '']'' # CHR '':'' # port"
  have "LastIndex ((CHR ''['' # h @ [CHR '']'']) @ CHR '':'' # port) '':'' = Some (length (CHR ''['' # h @ [CHR '']'']))"
    using assms(3) by (intro LastIndex_char_append) (simp add: bare_def)
  moreover have "Index ((CHR ''['' # h) @ CHR '']'' # CHR '':'' # port) '']'' = Some (length (CHR ''['' # h))"
    using assms(2) by (intro Index_char_append) simp
  ultimately show ?thesis using assms by (simp add: SplitHostPort_def bare_def del: LastIndex.simps Index.simps)
qed

lemma IsLoopback_as16: "length os = 4 \<Longrightarrow> IsLoopback (as16 os) \<longleftrightarrow> hd os = 127"
  by (cases os) (simp_all add: IsLoopback_def as16_def v4InV6Prefix_def)

text \<open>The names of the loopback: the word and the addresses in 127.0.0.0/8.\<close>

definition dotted :: "nat list \<Rightarrow> string" where
  "dotted os = Join (map show_nat os) ''.''"

definition loopback_name :: "string \<Rightarrow> bool" where
  "loopback_name h \<longleftrightarrow> h = ''localhost'' \<or> (\<exists>b c d. b < 256 \<and> c < 256 \<and> d < 256 \<and> h = dotted [127, b, c, d])"

lemma find_first: "P y \<Longrightarrow> (\<And>x. x \<in> set xs \<Longrightarrow> \<not> P x) \<Longrightarrow> List.find P (xs @ y # ys) = Some y"
  by (induction xs) auto

lemma dotted_first:
  assumes "length os = 4" "list_all (\<lambda>w. w < 256) os"
  shows "List.find (\<lambda>c. c \<in> {CHR ''.'', CHR '':'', CHR ''%''}) (dotted os) = Some CHR ''.''"
proof -
  obtain a os' where os: "os = a # os'" "os' \<noteq> []" using assms(1) by (cases os; cases "tl os") auto
  have d: "dotted os = show_nat a @ CHR ''.'' # dotted os'" using os(2) by (cases os') (simp_all add: os(1) dotted_def)
  have n: "c \<notin> {CHR ''.'', CHR '':'', CHR ''%''}" if "c \<in> set (show_nat a)" for c
  proof -
    have "is_digit c" using show_nat_digits [of a] that by (simp add: list_all_iff)
    then show ?thesis by (auto simp: is_digit_def)
  qed
  show ?thesis unfolding d by (rule find_first [OF _ n]) simp
qed

lemma ParseIP_bare:
  assumes "CHR '':'' \<notin> set h"
  shows "ParseIP h = Some ip \<longleftrightarrow> (\<exists>os. length os = 4 \<and> list_all (\<lambda>w. w < 256) os \<and> h = dotted os \<and> ip = as16 os)"
proof (cases "List.find (\<lambda>c. c \<in> {CHR ''.'', CHR '':'', CHR ''%''}) h = Some CHR ''.''")
  case True
  have "ParseAddr h = map_option (\<lambda>ip4. (as16 ip4, [])) (parseIPv4Fields h)" unfolding ParseAddr_def True by simp
  then have "ParseIP h = map_option as16 (parseIPv4Fields h)" by (cases "parseIPv4Fields h") (simp_all add: ParseIP_def)
  then have "ParseIP h = Some ip \<longleftrightarrow> (\<exists>os. parseIPv4Fields h = Some os \<and> ip = as16 os)" by auto
  then show ?thesis unfolding parseIPv4_iff dotted_def by blast
next
  case False
  have "ParseAddr h = None"
  proof (cases "List.find (\<lambda>c. c \<in> {CHR ''.'', CHR '':'', CHR ''%''}) h")
    case (Some c)
    then have "c \<in> set h" unfolding find_Some_iff by (metis nth_mem)
    then have "c \<noteq> CHR '':''" "c \<noteq> CHR ''.''" using assms False Some by auto
    then show ?thesis unfolding ParseAddr_def Some by simp
  qed (unfold ParseAddr_def, simp)
  moreover have "\<not> (\<exists>os. length os = 4 \<and> list_all (\<lambda>w. w < 256) os \<and> h = dotted os)" using False dotted_first by blast
  ultimately show ?thesis by (auto simp: ParseIP_def)
qed

lemma loopback_iff:
  assumes "CHR '':'' \<notin> set h"
  shows "(if h = ''localhost'' then True else case ParseIP h of Some ip \<Rightarrow> IsLoopback ip | None \<Rightarrow> False) \<longleftrightarrow> loopback_name h"
proof -
  have "(case ParseIP h of Some ip \<Rightarrow> IsLoopback ip | None \<Rightarrow> False) \<longleftrightarrow>
      (\<exists>os. length os = 4 \<and> list_all (\<lambda>w. w < 256) os \<and> h = dotted os \<and> hd os = 127)"
  proof (cases "ParseIP h")
    case None
    then show ?thesis using ParseIP_bare [OF assms] by fastforce
  next
    case (Some ip)
    obtain os where os: "length os = 4" "list_all (\<lambda>w. w < 256) os" "h = dotted os" "ip = as16 os"
      using Some ParseIP_bare [OF assms, of ip] by blast
    have "as16 os = as16 vs" if "length vs = 4" "list_all (\<lambda>w. w < 256) vs" "h = dotted vs" for vs
      using ParseIP_bare [OF assms, of "as16 vs"] that Some os(4) by auto
    then have "vs = os" if "length vs = 4" "list_all (\<lambda>w. w < 256) vs" "h = dotted vs" for vs
      using that by (auto simp: as16_def)
    then show ?thesis using Some os IsLoopback_as16 [OF os(1)] by (simp only: option.case) blast
  qed
  also have "\<dots> \<longleftrightarrow> (\<exists>b c d. b < 256 \<and> c < 256 \<and> d < 256 \<and> h = dotted [127, b, c, d])"
  proof
    assume "\<exists>os. length os = 4 \<and> list_all (\<lambda>w. w < 256) os \<and> h = dotted os \<and> hd os = 127"
    then obtain os where os: "length os = 4" "list_all (\<lambda>w. w < 256) os" "h = dotted os" "hd os = 127" by blast
    have "(4::nat) = Suc (Suc (Suc (Suc 0)))" by simp
    from os [unfolded this] show "\<exists>b c d. b < 256 \<and> c < 256 \<and> d < 256 \<and> h = dotted [127, b, c, d]"
      by (clarsimp simp: length_Suc_conv) blast
  next
    assume "\<exists>b c d. b < 256 \<and> c < 256 \<and> d < 256 \<and> h = dotted [127, b, c, d]"
    then obtain b c d where "b < 256" "c < 256" "d < 256" "h = dotted [127, b, c, d]" by blast
    then show "\<exists>os. length os = 4 \<and> list_all (\<lambda>w. w < 256) os \<and> h = dotted os \<and> hd os = 127"
      by (intro exI [of _ "[127, b, c, d]"]) simp
  qed
  finally show ?thesis by (simp add: loopback_name_def)
qed

lemma isLoopbackHost_iff:
  assumes "bare h" "hostport = h \<or> (\<exists>port. bare port \<and> hostport = h @ '':'' @ port)"
  shows "isLoopbackHost hostport \<longleftrightarrow> loopback_name h"
proof -
  have host: "(case SplitHostPort hostport of Inl _ \<Rightarrow> hostport | Inr (x, _) \<Rightarrow> x) = h"
    using assms SplitHostPort_bare SplitHostPort_port by auto
  have "CHR '':'' \<notin> set h" using assms(1) by (simp add: bare_def)
  then show ?thesis unfolding isLoopbackHost_def Let_def host by (rule loopback_iff)
qed

lemmas loopback_eval = isLoopbackHost_def SplitHostPort_def ParseIP_def ParseAddr_def parseIPv4Fields_def is_digit_def digit_val_def
  as16_def v4InV6Prefix_def IsLoopback_def parseIPv6_def ipv6_loop.simps hex_digit_def ipv6_finish_def

lemma replicate_numeral_Cons: "replicate (numeral k) x = x # replicate (pred_numeral k) x"
  by (simp add: numeral_eq_Suc)

lemma ParseIP_loopback6: "ParseIP ''::1'' = Some (replicate 15 0 @ [1])"
  by (simp add: loopback_eval replicate_numeral_Cons)

lemma isLoopbackHost_v6:
  "isLoopbackHost ''::1''" "\<not> isLoopbackHost ''[::1]''" "bare port \<Longrightarrow> isLoopbackHost (''[::1]:'' @ port)"
proof -
  have l: "IsLoopback (replicate 15 0 @ [1])" by (simp add: IsLoopback_def v4InV6Prefix_def replicate_numeral_Cons)
  have "SplitHostPort ''::1'' = Inl TooManyColons" by (simp add: SplitHostPort_def)
  then show "isLoopbackHost ''::1''" using l ParseIP_loopback6 by (simp add: isLoopbackHost_def)
  show "\<not> isLoopbackHost ''[::1]''" by (simp add: loopback_eval)
  show "isLoopbackHost (''[::1]:'' @ port)" if "bare port"
  proof -
    have "SplitHostPort (''[::1]:'' @ port) = Inr (''::1'', port)" using SplitHostPort_bracket [of "''::1''" port] that by simp
    then show ?thesis using l ParseIP_loopback6 unfolding isLoopbackHost_def by simp
  qed
qed


section \<open>Properties\<close>



text \<open>Dotted addresses are read back exactly.  The parser of dotted addresses accepts a string with the fields
  \<open>os\<close> exactly when there are four of them, each is below 256, and the string is their decimal numerals joined by
  dots.\<close>

theorem dotted_addresses_exact:
  "parseIPv4Fields s = Some os \<longleftrightarrow> length os = 4 \<and> list_all (\<lambda>w. w < 256) os \<and> s = dotted os"
  unfolding dotted_def by (rule parseIPv4_iff)

text \<open>The IPv6 loopback is recognised bare and in brackets with a port, but not in brackets without one, although
  the comment of the function allows a host on its own and names ::1.\<close>

theorem bracketed_loopback_missed:
  "isLoopbackHost ''::1'' \<and> isLoopbackHost ''[::1]:5000'' \<and> \<not> isLoopbackHost ''[::1]''"
  using isLoopbackHost_v6(1,2) isLoopbackHost_v6(3) [of "''5000''"] by (simp add: bare_def)

end
