(* ===== verification/Wiring.thy ===== *)
theory Wiring
  imports Remote System_Provider
begin

text \<open>
  Where the components meet the network and each other: the fetcher of parent agents (\<^verbatim>\<open>oci/fetcher.go\<close>), the
  reservation of loopback addresses (\<^verbatim>\<open>executor/system/loopback.go\<close>, \<^verbatim>\<open>executor/docker/provider.go\<close>), log
  files of the docker provider, the sinks a context carries (\<^verbatim>\<open>executor/exec_stream.go\<close>) and their use by the
  system executor, and small helpers of the registries.
\<close>


section \<open>Fetching agents\<close>

datatype fetch_err = FetchOpening repo_err | FetchLoading lerr

text \<open>\<open>copy\<close> is \<^verbatim>\<open>oras.Copy\<close> out of the repository into a fresh store; \<open>open\<close> is the constructor of the repository.\<close>

definition AgentFetcher ::
    "(Reference \<Rightarrow> ('c, 'w) RemoteRepositoryOption list \<Rightarrow> (repo_err, ('c, 'w) repository) res) \<Rightarrow> codec \<Rightarrow> 's target \<Rightarrow>
      (('c, 'w) repository \<Rightarrow> string \<Rightarrow> string \<Rightarrow> (lerr, 's) res) \<Rightarrow> ('c, 'w) RemoteRepositoryOption list \<Rightarrow>
      Reference \<Rightarrow> (fetch_err, Agentfile) res" where
  "AgentFetcher open C T copy opts ref =
    (case open ref opts of
       Inl e \<Rightarrow> Inl (FetchOpening e)
     | Inr repo \<Rightarrow> (case LoadAgentFromSource C T (copy repo) ref of Inl e \<Rightarrow> Inl (FetchLoading e) | Inr af \<Rightarrow> Inr af))"

definition ParseTag :: "Reference \<Rightarrow> string" where
  "ParseTag ref = ref_tag ref"

definition HostPlatform :: "string \<Rightarrow> string \<Rightarrow> Platform" where
  "HostPlatform GOOS GOARCH = \<lparr>pf_os = GOOS, pf_arch = GOARCH\<rparr>"

definition LinuxPlatform :: "string \<Rightarrow> Platform" where
  "LinuxPlatform GOARCH = \<lparr>pf_os = ''linux'', pf_arch = GOARCH\<rparr>"

text \<open>\<open>write\<close> is the writer's Write.\<close>

definition NoopPuller :: "(bytes \<Rightarrow> 'e option) \<Rightarrow> Reference \<Rightarrow> 'e option" where
  "NoopPuller write ref = write (''#!/bin/sh'' @ [CHR 0x0A])"


section \<open>Loopback addresses\<close>

text \<open>\<open>listen\<close> is \<^verbatim>\<open>net.Listen\<close> on the address, by the TCP address the listener got.\<close>

type_synonym tcp_addr = "string \<times> nat"

definition addr_String :: "tcp_addr \<Rightarrow> string" where
  "addr_String a = fst a @ '':'' @ show_nat (snd a)"

definition default_Reserve :: "(string \<Rightarrow> (string, tcp_addr) res) \<Rightarrow> (string, string) res" where
  "default_Reserve listen = (case listen ''127.0.0.1:0'' of Inl e \<Rightarrow> Inl e | Inr a \<Rightarrow> Inr (addr_String a))"

text \<open>A listener whose address is not a TCP address is \<open>None\<close>.\<close>

definition reserveLoopbackPort :: "(string \<Rightarrow> (string, tcp_addr option) res) \<Rightarrow> (string, string) res" where
  "reserveLoopbackPort listen =
    (case listen ''127.0.0.1:0'' of
       Inl e \<Rightarrow> Inl e
     | Inr None \<Rightarrow> Inl ''docker: listener returned non-TCP addr''
     | Inr (Some a) \<Rightarrow> Inr (show_nat (snd a)))"

text \<open>What the documentation of \<^verbatim>\<open>net.Listen\<close> promises for this address: an ephemeral port of the host asked for.\<close>

definition listens :: "(string \<Rightarrow> (string, tcp_addr) res) \<Rightarrow> bool" where
  "listens listen \<longleftrightarrow> (\<forall>a. listen ''127.0.0.1:0'' = Inr a \<longrightarrow> fst a = ''127.0.0.1'')"


section \<open>Logs and sinks\<close>

definition agentRootPath :: "string \<Rightarrow> string \<Rightarrow> string" where
  "agentRootPath root ident = JoinPath [root, ident]"

text \<open>\<open>mkdir\<close> and \<open>open\<close> by their errors; \<open>None\<close> is the nil file.\<close>

definition docker_openLogFile ::
    "(string \<Rightarrow> string option) \<Rightarrow> (string \<Rightarrow> string option) \<Rightarrow> string \<Rightarrow> string \<Rightarrow> (string, stream_writer option) res" where
  "docker_openLogFile mkdir open logDir ident =
    (if logDir = [] then Inr None
     else case mkdir logDir of
            Some e \<Rightarrow> Inl e
          | None \<Rightarrow>
              (let path = JoinPath [logDir, ident @ ''.log'']
               in case open path of Some e \<Rightarrow> Inl e | None \<Rightarrow> Inr (Some (LogFile path))))"

text \<open>The values of a context, by their keys; the key of the sinks is a type of its own.\<close>

datatype ctx_key = streamSinksKey | OtherKey string

type_synonym 'v exec_ctx = "ctx_key \<Rightarrow> (sinks + 'v) option"

definition WithExecStreamSinks :: "'v exec_ctx \<Rightarrow> sinks \<Rightarrow> 'v exec_ctx" where
  "WithExecStreamSinks ctx s = ctx(streamSinksKey := Some (Inl s))"

definition ExecStreamSinksFrom :: "'v exec_ctx \<Rightarrow> sinks" where
  "ExecStreamSinksFrom ctx = (case ctx streamSinksKey of Some (Inl s) \<Rightarrow> s | _ \<Rightarrow> \<lparr>sk_stdout = None, sk_stderr = None\<rparr>)"

text \<open>The outputs of a system exec: the chunks the process wrote, copied to the buffer and the sink of the
  context until a write fails.\<close>

definition exec_outputs :: "'v exec_ctx \<Rightarrow> bytes list \<Rightarrow> bytes list \<Rightarrow> (io_err option \<times> log_output) \<times> io_err option \<times> log_output" where
  "exec_outputs ctx out err =
    (let s = ExecStreamSinksFrom ctx
     in (write_chunks (sk_stdout s) out no_output, write_chunks (sk_stderr s) err no_output))"


section \<open>Helpers of the registries\<close>

fun pickAnnotation :: "(string, string) gomap \<Rightarrow> string list \<Rightarrow> string" where
  "pickAnnotation m [] = []"
| "pickAnnotation m (k # keys) = (let v = annot m k in if v \<noteq> [] then v else pickAnnotation m keys)"

text \<open>Two methods the docker registry answers without asking the engine.\<close>

definition docker_ManifestKind :: "string \<Rightarrow> (rerr, string) res" where
  "docker_ManifestKind ref = Inr []"

definition docker_registry_Fetch :: "Descriptor \<Rightarrow> (rerr, bytes) res" where
  "docker_registry_Fetch desc = Inl ErrNotImplemented"

text \<open>Index of the first entry for a key; \<open>None\<close> is -1.\<close>

fun env_index_from :: "nat \<Rightarrow> string list \<Rightarrow> string \<Rightarrow> nat option" where
  "env_index_from i [] pre = None"
| "env_index_from i (e # env) pre = (if HasPrefix e pre then Some i else env_index_from (Suc i) env pre)"

definition envIndex :: "string list \<Rightarrow> string \<Rightarrow> nat option" where
  "envIndex env key = env_index_from 0 env (key @ ''='')"


section \<open>What they do\<close>

lemma AgentFetcher_Inr:
  assumes "AgentFetcher open C T copy opts ref = Inr af"
  obtains repo store where "open ref opts = Inr repo"
    "copy repo (if ref_tag ref = [] then DefaultTag else ref_tag ref) (ref_String ref) = Inr store"
    "fst (LoadHydrated C T ref store) = Inr af"
  using assms by (auto simp: AgentFetcher_def LoadAgentFromSource_def loop_simps split: sum.splits)

lemma sinks_travel:
  "ExecStreamSinksFrom (WithExecStreamSinks ctx s) = s" "ExecStreamSinksFrom (\<lambda>_. None) = \<lparr>sk_stdout = None, sk_stderr = None\<rparr>"
  by (simp_all add: ExecStreamSinksFrom_def WithExecStreamSinks_def)

text \<open>Without sinks, or with sinks that accept everything, both buffers get the whole output.\<close>

lemma exec_outputs_complete:
  assumes "accepting (sk_stdout (ExecStreamSinksFrom ctx))" "accepting (sk_stderr (ExecStreamSinksFrom ctx))"
    "exec_outputs ctx out err = ((e1, o1), e2, o2)"
  shows "e1 = None \<and> e2 = None \<and> out_buf o1 = concat out \<and> out_buf o2 = concat err"
  using assms by (auto simp: exec_outputs_def Let_def write_chunks_accepting no_output_def)

lemma pickAnnotation_first:
  "pickAnnotation m keys = (case List.find (\<lambda>k. annot m k \<noteq> []) keys of None \<Rightarrow> [] | Some k \<Rightarrow> annot m k)"
  by (induction keys) (simp_all add: Let_def)

lemma env_index_from_eq:
  "env_index_from i env pre =
    (if \<exists>e \<in> set env. HasPrefix e pre then Some (i + length (takeWhile (\<lambda>e. \<not> HasPrefix e pre) env)) else None)"
  by (induction env arbitrary: i) auto

lemma envIndex_first:
  assumes "envIndex env key = Some i"
  shows "i < length env" "HasPrefix (env ! i) (key @ ''='')" "k < i \<Longrightarrow> \<not> HasPrefix (env ! k) (key @ ''='')"
proof -
  let ?P = "\<lambda>e. \<not> HasPrefix e (key @ ''='')"
  have i: "i = length (takeWhile ?P env)" "\<exists>e \<in> set env. \<not> ?P e"
    using assms by (auto simp: envIndex_def env_index_from_eq split: if_splits)
  have "takeWhile ?P env \<noteq> env" using i(2) by (metis takeWhile_eq_all_conv)
  then show len: "i < length env" unfolding i(1) by (metis length_takeWhile_le nat_less_le takeWhile_eq_take take_all_iff)
  show "HasPrefix (env ! i) (key @ ''='')" using nth_length_takeWhile [of ?P env] len unfolding i(1) by blast
  show "k < i \<Longrightarrow> ?P (env ! k)" unfolding i(1) by (metis nth_mem set_takeWhileD takeWhile_nth)
qed

lemma bare_number: "bare (show_nat n)" "bare ''127.0.0.1''"
proof -
  have "\<forall>c \<in> set (show_nat n). is_digit c" using show_nat_digits [of n] by (simp add: list_all_iff)
  moreover have "\<not> is_digit CHR '':''" "\<not> is_digit CHR ''[''" "\<not> is_digit CHR '']''" by (simp_all add: is_digit_def)
  ultimately show "bare (show_nat n)" unfolding bare_def by blast
  show "bare ''127.0.0.1''" by (simp add: bare_def)
qed

lemma loopback_literal: "loopback_name ''127.0.0.1''"
proof -
  have "dotted [127, 0, 0, 1] = ''127.0.0.1''" by code_simp
  then show ?thesis unfolding loopback_name_def by (intro disjI2 exI [of _ 0] exI [of _ 1]) simp
qed

lemma Reserve_loopback:
  assumes "listens listen" "default_Reserve listen = Inr addr"
  shows "\<exists>n. addr = ''127.0.0.1:'' @ show_nat n" "isLoopbackHost addr"
proof -
  obtain a where a: "listen ''127.0.0.1:0'' = Inr a" "addr = addr_String a"
    using assms(2) by (auto simp: default_Reserve_def split: sum.splits)
  have addr: "addr = ''127.0.0.1'' @ '':'' @ show_nat (snd a)" using assms(1) a by (simp add: listens_def addr_String_def)
  then show "\<exists>n. addr = ''127.0.0.1:'' @ show_nat n" by auto
  show "isLoopbackHost addr"
    using isLoopbackHost_iff [OF bare_number(2), of addr] bare_number(1) loopback_literal addr by blast
qed

text \<open>An agent that was created.\<close>

lemma Create_Inr:
  assumes "Create E P ident ref overrides n = (Inr a, n')" "list_all plain_option (pv_defaults P)"
  shows "\<exists>root. pe_chroot E ident = Inr root \<and> sa_id a = ident \<and> sa_root a = root \<and> \<not> sa_init a \<and>
    pv_reserve P n = Inr (sa_addr a) \<and> n' = Suc n"
proof -
  obtain root opts where c: "pe_chroot E ident = Inr root" "instanceOptions E P ident (agentOpts P ref overrides) n = (Inr opts, n')"
    "a = NewAgent (pe_spawner E) ident root (pe_ws0 E root) opts"
    using assms(1) by (auto simp: Create_def CreateWithOptions_def sm_bind_Inr sm_lift_def split: sum.splits)
  note instance_agent [OF c(2) assms(2), of "pe_spawner E" root "pe_ws0 E root", unfolded Let_def]
  then show ?thesis using c(1) unfolding c(3) by simp
qed

text \<open>The docker provider reserves the port of such an address.\<close>

lemma reserveLoopbackPort_number:
  "reserveLoopbackPort listen = Inr port \<Longrightarrow> \<exists>h n. listen ''127.0.0.1:0'' = Inr (Some (h, n)) \<and> port = show_nat n"
  by (auto simp: reserveLoopbackPort_def split: sum.splits option.splits)


section \<open>Properties\<close>


definition demo_listen :: "nat \<Rightarrow> string \<Rightarrow> (string, tcp_addr) res" where
  "demo_listen n host = Inr (''127.0.0.1'', 5000 + n)"

definition demo_default :: "(unit, unit) Provider" where
  "demo_default =
    NewProvider (\<lambda>_. Inl ''no'') (\<lambda>_. Inr ''x'') (\<lambda>_. Inr ''x'') (\<lambda>n. default_Reserve (demo_listen n)) (\<lambda>_. demo_target) []"


end
