(* ===== verification/Spec2Isabelle.thy ===== *)
theory Spec2Isabelle
  imports Env Build Agent_Md Docker_Container Docker_Auth Export Entry_Points Agent_Contract Os_Process Test_Registry Wiring
begin

text \<open>
  Agentfile: a verification library for the Go module \<^verbatim>\<open>openotters/agentfile\<close>.

  \<^bold>\<open>The program.\<close>  An Agentfile is a text file, in the manner of a Dockerfile, that describes
  an agent: its model, runtime, tools, context files, data, configuration and
  environment.  The \<^verbatim>\<open>spec\<close> package parses and validates it, \<^verbatim>\<open>resolve\<close> merges it with the
  parents its FROM lines name, \<^verbatim>\<open>build\<close> packs it into an OCI artifact, \<^verbatim>\<open>store\<close>, \<^verbatim>\<open>oci\<close> and
  \<^verbatim>\<open>export\<close> read, pull and transfer artifacts, and \<^verbatim>\<open>executor\<close> materialises an artifact into
  a file tree and runs it, as a process (\<^verbatim>\<open>executor/system\<close>) or in a container
  (\<^verbatim>\<open>executor/docker\<close>).

  \<^bold>\<open>Conventions.\<close>  Go structs are records, enums and error kinds datatypes, strings byte
  lists, maps finite maps, unbounded Go ints that cannot overflow in the code integers,
  sizes that are summed 64-bit words.  Fallible functions return \<open>('e, 'a) res\<close>;
  functions that also change state are of type \<open>('s, 'e, 'a) sm\<close> (theory State_Result),
  which keeps the state an error leaves behind.  A nil dereference is an error value.
  The iteration order of Go maps is an argument wherever the result may depend on it.
  Go's standard library is modelled where the sources use it (Go_Strings: strings and
  bufio; Paths and Path_Confine: path/filepath; Base64).  Third-party code is a
  parameter: the participle parser, oras targets, the moby client, billy file systems,
  YAML and JSON codecs, digests, HTTP; ParseFloat, %v of a float and non-ASCII
  upper-casing are parameters too.

  \<^bold>\<open>Theories, in the order of the pipeline.\<close>
  \<^item> Prelude, Go_Strings, Paths, Path_Confine, Base64, State_Result: shared definitions,
    simplification rules and the \<open>keeps\<close> calculus that carries invariants through
    sequences that may fail.
  \<^item> Types (\<^verbatim>\<open>spec/types.go\<close>), Validate (\<^verbatim>\<open>spec/parse.go\<close>, validation), Reference
    (\<^verbatim>\<open>spec/reference.go\<close>), Grammar (\<^verbatim>\<open>spec/grammar.go\<close>), Parse (\<^verbatim>\<open>spec/parse.go\<close>) and
    Parse_Correct: a file is accepted exactly when its lines spell an instruction list
    starting with FROM whose application is well formed; heredocs, ARG expansion and the
    typing of CONFIG values are specified separately.
  \<^item> Resolve (\<^verbatim>\<open>resolve/resolve.go\<close>): the bounded walk to the base and every merge rule;
    merging is associative and replays the child's instructions on the parent.
  \<^item> Oci (\<^verbatim>\<open>oci/\<close>), Store (\<^verbatim>\<open>store/\<close>) with the locale \<open>oras_target\<close>, Docker_Store
    (\<^verbatim>\<open>executor/docker/store.go\<close>, \<^verbatim>\<open>refresolve.go\<close>), which interprets it, Build
    (\<^verbatim>\<open>build/build.go\<close>) and Export (\<^verbatim>\<open>export/export.go\<close>): what was built, tagged, exported
    or imported is what is loaded.
  \<^item> Agent_Md (\<^verbatim>\<open>spec/agentmd.go\<close>), Workspace_Md, Workspace and Workspace_Correct
    (\<^verbatim>\<open>executor/system/workspace.go\<close>): the generated documents byte for byte, and the
    materialisation as the sequence of file-system calls it makes; an untrusted artifact
    is validated before anything is touched and no call leaves the agent's tree.
  \<^item> Env (\<^verbatim>\<open>executor/env.go\<close>, \<^verbatim>\<open>executor/system/process.go\<close>): the locked environment cannot be
    overridden.
  \<^item> Status (\<^verbatim>\<open>executor/status.go\<close>) and Lifecycle (\<^verbatim>\<open>executor/system/agent.go\<close>): the tracker
    with its buffered channels, and Run, Start, Stop and Remove as interleaved atomic
    sections, an inductive step relation with invariants by rule induction.
  \<^item> Docker_Container (\<^verbatim>\<open>executor/docker/container.go\<close>, the pure parts of
    \<^verbatim>\<open>executor/docker/agent.go\<close>, \<^verbatim>\<open>executor/system/materialize_export.go\<close>): the container that
    is asked for; mounts, environment and daemon access, and that every tool the
    materialiser links is mounted.
  \<^item> Docker_Auth (\<^verbatim>\<open>executor/docker/auth.go\<close>), Registry (\<^verbatim>\<open>executor/registry.go\<close>,
    \<^verbatim>\<open>executor/docker/registry.go\<close>) and System_Registry (\<^verbatim>\<open>executor/system/registry.go\<close>): pull
    credentials, and the registry interface as the locales \<open>listing\<close> and \<open>exact_listing\<close>,
    interpreted on both implementations.
  \<^item> Exec_Stream (\<^verbatim>\<open>executor/exec_stream.go\<close> and the demultiplexer of
    \<^verbatim>\<open>executor/docker/exec_async.go\<close>), Docker_Exec and System_Exec (the \<^verbatim>\<open>exec_async.go\<close> of both
    executors): jobs; undeclared binaries never run, containers are always removed, a
    result without an error is complete.
  \<^item> Docker_Agent (\<^verbatim>\<open>executor/docker/agent.go\<close>): Prepare, Run, Start, Stop and Remove with
    every call on the moby client recorded; a run settles, has its images before its
    container, and removal is final.
  \<^item> Runtime_File (\<^verbatim>\<open>executor/runtime.go\<close> with the yaml tags of \<^verbatim>\<open>spec/types.go\<close>): the document
    the descriptor is written to and read from; no secret is in it and every other field
    comes back.
  \<^item> System_Agent (\<^verbatim>\<open>executor/system/agent.go\<close>, \<^verbatim>\<open>options.go\<close>, \<^verbatim>\<open>process.go\<close>, \<^verbatim>\<open>model/resolver.go\<close>) and
    System_Provider (\<^verbatim>\<open>executor/system/provider.go\<close>): options, initialisation, the process, and
    creating, recovering and destroying agents; what was materialised survives a restart,
    and one corrupt tree does not hide the others.
  \<^item> Docker_Provider (\<^verbatim>\<open>executor/docker/provider.go\<close>, \<^verbatim>\<open>options.go\<close>, \<^verbatim>\<open>daemon.go\<close>, \<^verbatim>\<open>client.go\<close>): the
    engine is found and probed before anything is created; destroying leaves nothing.
  \<^item> Retry (\<^verbatim>\<open>oci/retry.go\<close>) and Entry_Points (\<^verbatim>\<open>validate/validate.go\<close>): the retrying transport
    sends whole bodies, and the validation entry points agree.
  \<^item> System_Run (\<^verbatim>\<open>executor/system/agent.go\<close>): Prepare, Run, Start, Stop and Remove of a system agent
    as whole methods over tracker, tree and process; what a run leaves behind, and that every
    sequence of calls is a serial execution of the interleaving model of Lifecycle with the
    same outcome.  Agent_Contract (\<^verbatim>\<open>executor/agent.go\<close>): the contract of the Agent
    interface as a locale, both backends as its instances.
  \<^item> Os_Process (\<^verbatim>\<open>executor/system/exec.go\<close>): commands, Start, Signal and Kill on a table of processes
    and groups; a force-kill reaps the runtime with the tools it spawned and nothing else.
  \<^item> Remote (\<^verbatim>\<open>oci/repository.go\<close>) with the address parsers of \<^verbatim>\<open>net\<close> and \<^verbatim>\<open>net/netip\<close>: plain HTTP is for
    the loopback only.  Wiring (\<^verbatim>\<open>oci/fetcher.go\<close>, \<^verbatim>\<open>executor/system/loopback.go\<close>,
    \<^verbatim>\<open>executor/exec_stream.go\<close> and helpers): agents listen on addresses that clients take for loopback.
  \<^item> Test_Registry (\<^verbatim>\<open>internal/testregistry.go\<close>): the in-memory registry the tests push to; what is
    pushed is what is pulled, and it is content addressed under honest traffic.
  \<^item> The last section of this theory composes provider, agent, materialiser and descriptor file:
    an agent that was created and prepared survives a restart.

  \<^bold>\<open>Bounds and termination.\<close>  Every definition is total.  The resolver terminates by its
  depth bound of ten.  Manifest resolution in Oci is a partial function into option, where
  None is divergence, and is proved to return when indexes do not cycle.  The recursion
  of the system registry through indexes takes a depth argument; any argument above
  the nesting depth gives the same result, and that result is proved to exist.  Channel
  buffers have the sixteen slots of the code.  Where a context may be cancelled, the moment
  is counted in calls on the client, or is an outcome the surroundings choose; reservations of
  addresses are numbered.

  \<^bold>\<open>Interfaces.\<close>  \<open>oras_target\<close> (blobs and tags survive), \<open>listing\<close> and \<open>exact_listing\<close>
  (what callers of the registry rely on), \<open>status_observer\<close> (what a watcher of an agent relies
  on), \<open>tree_destroyer\<close> (what destroying a provider deletes, interpreted for both executors),
  \<open>agent_contract\<close> (what sequential callers of an agent rely on, interpreted for both executors);
  each is interpreted on the code's own implementation.

  \<^bold>\<open>Not modelled.\<close>  The delivery of standard input to a job; the table of processes stands for the
  operating system and the parameters named above for the network; Load of the docker provider
  returns nothing in the code as well; accessors that return one field; the HTTP server around
  the test registry; the examples, which only call the library, and the generated mocks.  Nil
  elements of slices decoded from JSON are outside the model: the validator dereferences them.
\<close>


section \<open>From creation to recovery\<close>

text \<open>C22: from creation through a restart.  An agent that a provider created and that was prepared successfully runs on
  the address it reports, with a descriptor under its own identifier; its tree then holds that descriptor.  When the provider's
  successor reads the file as it was last written, it recovers an agent with the same identifier and tree
  and the same descriptor, less the fields that are never written, which is not
  prepared again, and whose address is a reservation of its own.\<close>

theorem created_agent_survives_restart:
  assumes create: "Create E P ident ref overrides n = (Inr a, n')" and plain: "list_all plain_option (pv_defaults P)"
    and prep: "system_initialize a s = (Inr (), a', s')" "\<forall>f \<in> set (wk_overrides (sa_ws a)). keeps_bins f" "sa_addr a \<noteq> []"
    and yaml: "wk_yaml (sa_ws a) = (\<lambda>rt. print (Runtime_yaml rt))"
      "\<forall>rt data. sa_rt a' = Some rt \<longrightarrow> print (Runtime_yaml rt) = Inr data \<longrightarrow> pe_yaml E data = Inr (yaml_Runtime (Runtime_yaml rt))"
    and disk: "\<forall>data. last_write runtimeFile (w_log s') = Some data \<longrightarrow> pe_read E (sa_root a) runtimeFile = Inr data"
    and later: "n' \<le> m" "pv_reserve P m = Inr addr" "openLogFile E P ident = Inr logFile"
  shows "\<exists>rt b. sa_rt a' = Some rt \<and> rt_id rt = ident \<and>
    (\<exists>cmd pre. system_command L a' = Some cmd \<and> jc_args cmd = pre @ [''--addr'', sa_addr a']) \<and>
    loadAgent E P ident m = (Inr b, Suc m) \<and> sa_id b = sa_id a' \<and> sa_root b = sa_root a' \<and> sa_rt b = Some (persisted rt) \<and>
    (\<forall>t. system_initialize b t = (Inr (), b, t)) \<and>
    (\<exists>k. k < m \<and> pv_reserve P k = Inr (sa_addr a') \<and> pv_reserve P m = Inr (sa_addr b))"
proof -
  obtain root where c: "pe_chroot E ident = Inr root" "sa_id a = ident" "sa_root a = root" "\<not> sa_init a"
    "pv_reserve P n = Inr (sa_addr a)" "n' = Suc n"
    using Create_Inr [OF create plain] by blast
  obtain rt data where i: "sa_rt a' = Some rt" "rt_id rt = ident" "rt_addr rt = sa_addr a" "sa_addr a' = sa_addr a"
    "sa_root a' = root" "sa_id a' = ident" "wk_yaml (sa_ws a) rt = Inr data" "Runtime_File.holds data s'"
    using system_initialize_Inr [OF prep(1) c(4) prep(2)] c(2,3) by metis
  have "LoadRuntime E root = Inr (persisted rt)"
    using i c(3) disk yaml by (simp add: LoadRuntime_def Runtime_roundtrip)
  moreover obtain b where b: "loadAgent E P ident m = (Inr b, Suc m)"
    using loadAgent_ok [OF c(1) calculation later(2,3)] by blast
  moreover have "(persisted rt)\<lparr>rt_id := ident\<rparr> = persisted rt" using i(2) by (simp add: persisted_def)
  ultimately have "sa_id b = ident \<and> sa_root b = root \<and> sa_init b \<and> sa_rt b = Some (persisted rt) \<and> pv_reserve P m = Inr (sa_addr b)"
    using loadAgent_Inr [OF b plain] c(1) by auto
  moreover have "\<exists>cmd pre. system_command L a' = Some cmd \<and> jc_args cmd = pre @ [''--addr'', sa_addr a']"
    using i(1,3,4) prep(3) by (simp add: system_command_def buildCmdArgs_def runtime_config_def)
  moreover have "n < m" "pv_reserve P n = Inr (sa_addr a')" using c(5,6) later(1) i(4) by simp_all
  ultimately show ?thesis
    using i(1,2,5,6) b by (intro exI [of _ rt] exI [of _ b]) (auto simp: system_initialize_once)
qed

text \<open>A provider whose agents work in the example workspace, on a root where the descriptor \<open>rt\<close> is read back.\<close>

definition demo_allocator :: "nat \<Rightarrow> (string, string) res" where
  "demo_allocator n = Inr (if n = 0 then ''addr'' else ''later'')"

definition demo_system :: "(unit, unit) Provider" where
  "demo_system =
    NewProvider (\<lambda>_. Inl ''no'') (\<lambda>_. Inr ''x'') (\<lambda>_. Inr ''x'') demo_allocator (\<lambda>_. demo_target) [WithUsageFetcher None]"

definition demo_created :: "Runtime \<Rightarrow> unit sagent" where
  "demo_created rt =
    NewAgent (pe_spawner (demo_penv rt)) ''id'' ''/a/id'' (demo_workspace ''d.csv'')
      (agentOpts demo_system (ParseReference ''bot:1'') [] @ [WithAddr ''addr''])"

lemma demo_system_facts:
  "list_all plain_option (pv_defaults demo_system)" "pv_reserve demo_system = demo_allocator"
  "openLogFile (demo_penv rt) demo_system ident = Inr None"
  "Create (demo_penv rt) demo_system ''id'' (ParseReference ''bot:1'') [] 0 = (Inr (demo_created rt), Suc 0)"
  by (simp_all add: demo_system_def NewProvider_def WithUsageFetcher_def openLogFile_def Create_def CreateWithOptions_def sm_defs
      instanceOptions_def reserve_def demo_allocator_def demo_created_def demo_penv_def)

lemma demo_created_facts:
  "sa_ws (demo_created rt) = demo_workspace ''d.csv''" "sa_id (demo_created rt) = ''id''" "sa_root (demo_created rt) = ''/a/id''"
  "sa_addr (demo_created rt) = ''addr''" "sa_mounts (demo_created rt) = []" "\<not> sa_init (demo_created rt)"
  by (simp_all add: demo_created_def NewAgent_def agentOpts_def demo_system_def NewProvider_def WithUsageFetcher_def WithAddr_def on_ws_def
      WithStore_def WithReference_def WithAgentPuller_def WithAgentUsageFetcher_def withAgentHostFS_def demo_workspace_def)

theorem created_agent_survives_restart_witness:
  "\<exists>rt a' s' b. Create (demo_penv (persisted rt)) demo_system ''id'' (ParseReference ''bot:1'') [] 0 = (Inr (demo_created (persisted rt)), 1) \<and>
     system_initialize (demo_created (persisted rt)) demo_state = (Inr (), a', s') \<and> sa_rt a' = Some rt \<and>
     loadAgent (demo_penv (persisted rt)) demo_system ''id'' 5 = (Inr b, 6) \<and> sa_rt b = Some (persisted rt)"
proof -
  let ?w = "demo_workspace ''d.csv''"
  obtain rt s' where m: "materialize ?w ''id'' ''addr'' demo_state = (Inr rt, s')" using demo_materializes by blast
  let ?E = "demo_penv (persisted rt)" and ?a = "demo_created (persisted rt)"
  define a' where "a' = ?a\<lparr>sa_mounts := w_mounts s', sa_rt := Some rt, sa_init := True\<rparr>"
  have "demo_state\<lparr>w_mounts := []\<rparr> = demo_state" by (simp add: demo_state_def)
  then have i: "system_initialize ?a demo_state = (Inr (), a', s')"
    by (simp add: system_initialize_def demo_created_facts m a'_def)
  have bins: "\<forall>f \<in> set (wk_overrides (sa_ws ?a)). keeps_bins f"
    by (simp add: demo_created_facts) (simp add: demo_workspace_def overrides_keep_bins)
  have y: "wk_yaml (sa_ws ?a) = (\<lambda>rt. (\<lambda>_. Inr ''y'') (Runtime_yaml rt))" by (simp add: demo_created_facts) (simp add: demo_workspace_def)
  have rt: "sa_rt a' = Some rt" by (simp add: a'_def)
  obtain data where d: "wk_yaml (sa_ws ?a) rt = Inr data" "Runtime_File.holds data s'"
    using system_initialize_Inr [OF i demo_created_facts(6) bins] rt by auto
  have dec: "\<forall>rt' data. sa_rt a' = Some rt' \<longrightarrow> (\<lambda>_. Inr ''y'') (Runtime_yaml rt') = (Inr data :: (string, bytes) res) \<longrightarrow>
      pe_yaml ?E data = Inr (yaml_Runtime (Runtime_yaml rt'))"
    by (simp add: rt demo_penv_def Runtime_roundtrip)
  have disk: "\<forall>data. last_write runtimeFile (w_log s') = Some data \<longrightarrow> pe_read ?E (sa_root ?a) runtimeFile = Inr data"
    using d y by (simp add: demo_created_facts demo_penv_def)
  have five: "pv_reserve demo_system 5 = Inr ''later''" by (simp add: demo_system_facts demo_allocator_def)
  have "\<exists>rt' b. sa_rt a' = Some rt' \<and> rt_id rt' = ''id'' \<and>
      (\<exists>cmd pre. system_command ascii_lib a' = Some cmd \<and> jc_args cmd = pre @ [''--addr'', sa_addr a']) \<and>
      loadAgent ?E demo_system ''id'' 5 = (Inr b, Suc 5) \<and> sa_id b = sa_id a' \<and> sa_root b = sa_root a' \<and> sa_rt b = Some (persisted rt') \<and>
      (\<forall>t. system_initialize b t = (Inr (), b, t)) \<and>
      (\<exists>k. k < 5 \<and> pv_reserve demo_system k = Inr (sa_addr a') \<and> pv_reserve demo_system 5 = Inr (sa_addr b))"
    by (rule created_agent_survives_restart [OF demo_system_facts(4,1) i bins _ y dec disk _ five demo_system_facts(3)])
      (simp_all add: demo_created_facts)
  then obtain b where "loadAgent ?E demo_system ''id'' 5 = (Inr b, 6)" "sa_rt b = Some (persisted rt)" using rt by auto
  then show ?thesis
    using demo_system_facts(4) [of "persisted rt"] i rt
    by (intro exI [of _ rt] exI [of _ a'] exI [of _ s'] exI [of _ b]) simp
qed

end
